(* ===== verification/Prelude.thy ===== *)
theory Prelude
  imports Main "HOL-Library.Word" "HOL-Library.List_Lexorder" "HOL-Library.Char_ord"
begin

text \<open>
  What every component of the development shares: the result type that stands for Rust's
  \<open>Result\<close>, the string operations of Rust's standard library the sources use (strings are
  byte strings, so \<open>length\<close> is \<open>len()\<close>), decimal printing and parsing, the ordered map
  (\<open>BTreeMap\<close>) as a sorted association list, and two generic interfaces: a keyed store and an
  invariant of a step function.
\<close>

named_theorems result_simps \<open>evaluation of the result type\<close>
named_theorems rust_string \<open>unfolding of the string operations of the standard library\<close>

section \<open>Integers, results\<close>

type_synonym u8 = "8 word"
type_synonym u16 = "16 word"
type_synonym u32 = "32 word"

text \<open>\<open>u64\<close> and \<open>usize\<close> values that are only compared, counted up from zero or subtracted
  with saturation are natural numbers; \<open>nat\<close> subtraction is \<open>saturating_sub\<close>.\<close>

type_synonym u64 = nat
type_synonym usize = nat

text \<open>\<open>Result<T>\<close> of the sources: \<open>Inl\<close> is \<open>Err\<close> with its message.\<close>

type_synonym 'a result = "string + 'a"

definition and_then :: "'e + 'a \<Rightarrow> ('a \<Rightarrow> 'e + 'b) \<Rightarrow> 'e + 'b" where
  "and_then r f = (case r of Inl e \<Rightarrow> Inl e | Inr a \<Rightarrow> f a)"

definition is_ok :: "'e + 'a \<Rightarrow> bool" where
  "is_ok r = (case r of Inl _ \<Rightarrow> False | Inr _ \<Rightarrow> True)"

lemma and_then_simps [simp, result_simps]:
  "and_then (Inl e) f = Inl e" "and_then (Inr a) f = f a"
  by (simp_all add: and_then_def)

lemma is_ok_simps [simp, result_simps]: "is_ok (Inl e) = False" "is_ok (Inr a) = True"
  by (simp_all add: is_ok_def)

lemma and_then_eq_Inr: "and_then r f = Inr b \<longleftrightarrow> (\<exists>a. r = Inr a \<and> f a = Inr b)"
  by (cases r) auto

lemma and_then_eq_Inl:
  "and_then r f = Inl e \<longleftrightarrow> r = Inl e \<or> (\<exists>a. r = Inr a \<and> f a = Inl e)"
  by (cases r) auto

lemma guard_eq_Inr:
  "(if P then Inl e else r) = Inr b \<longleftrightarrow> \<not> P \<and> r = Inr b"
  "(if P then r else Inl e) = Inr b \<longleftrightarrow> P \<and> r = Inr b"
  by auto

lemma is_ok_iff: "is_ok r \<longleftrightarrow> (\<exists>a. r = Inr a)"
  by (cases r) auto

text \<open>\<open>.map_err(f)\<close>.\<close>

definition map_err :: "('e \<Rightarrow> 'f) \<Rightarrow> 'e + 'a \<Rightarrow> 'f + 'a" where
  "map_err f r = (case r of Inl e \<Rightarrow> Inl (f e) | Inr a \<Rightarrow> Inr a)"

lemma map_err_simps [simp, result_simps]: "map_err f (Inl e) = Inl (f e)" "map_err f (Inr a) = Inr a"
  by (simp_all add: map_err_def)

lemma map_err_eq_Inr [simp]: "map_err f r = Inr a \<longleftrightarrow> r = Inr a"
  by (cases r) auto

text \<open>A loop whose body ends in \<open>?\<close>: the first error ends it.\<close>

fun map_result :: "('a \<Rightarrow> 'e + 'b) \<Rightarrow> 'a list \<Rightarrow> 'e + 'b list" where
  "map_result f [] = Inr []"
| "map_result f (x # xs) = and_then (f x) (\<lambda>y. and_then (map_result f xs) (\<lambda>ys. Inr (y # ys)))"

lemma map_result_cong [fundef_cong]:
  "xs = ys \<Longrightarrow> (\<And>x. x \<in> set ys \<Longrightarrow> f x = g x) \<Longrightarrow> map_result f xs = map_result g ys"
  by (induction ys arbitrary: xs) auto

lemma map_result_eq_Inr:
  "map_result f xs = Inr ys \<longleftrightarrow> list_all2 (\<lambda>x y. f x = Inr y) xs ys"
  by (induction xs arbitrary: ys) (auto simp: and_then_eq_Inr list_all2_Cons1)

lemma map_result_ok_iff: "is_ok (map_result f xs) \<longleftrightarrow> (\<forall>x\<in>set xs. is_ok (f x))"
  by (induction xs) (auto simp: is_ok_iff and_then_eq_Inr)

lemma map_result_Inr_map: "(\<And>x. x \<in> set xs \<Longrightarrow> f x = Inr (g x)) \<Longrightarrow> map_result f xs = Inr (map g xs)"
  by (induction xs) auto

text \<open>A fallible computation that also may not return (\<open>None\<close>).\<close>

definition bind_or :: "('e + 'a) option \<Rightarrow> ('a \<Rightarrow> ('e + 'b) option) \<Rightarrow> ('e + 'b) option" where
  "bind_or r f = (case r of None \<Rightarrow> None | Some (Inl e) \<Rightarrow> Some (Inl e) | Some (Inr a) \<Rightarrow> f a)"

lemma bind_or_simps [simp, result_simps]:
  "bind_or None f = None" "bind_or (Some (Inl e)) f = Some (Inl e)" "bind_or (Some (Inr a)) f = f a"
  by (simp_all add: bind_or_def)

lemma bind_or_eq_Inr:
  "bind_or r f = Some (Inr b) \<longleftrightarrow> (\<exists>a. r = Some (Inr a) \<and> f a = Some (Inr b))"
  by (auto simp: bind_or_def split: option.splits sum.splits)

section \<open>Lists\<close>

lemma list_all2_set2: "list_all2 P xs ys \<Longrightarrow> y \<in> set ys \<Longrightarrow> \<exists>x\<in>set xs. P x y"
  by (induction rule: list_all2_induct) auto

lemma find_SomeD: "find P xs = Some x \<Longrightarrow> x \<in> set xs \<and> P x"
  by (auto simp: find_Some_iff)

lemma filter_empty_iff: "filter P xs = [] \<longleftrightarrow> (\<forall>x\<in>set xs. \<not> P x)"
  by (induction xs) auto

lemma distinct_dedup_sorted: "sorted xs \<Longrightarrow> distinct (remdups_adj xs)"
  by (induction xs rule: remdups_adj.induct) (auto simp: order_le_less)

lemma sorted_distinct_dedup:
  "sorted (remdups_adj (sort xs)) \<and> distinct (remdups_adj (sort xs)) \<and>
   set (remdups_adj (sort xs)) = set xs"
  by (simp add: sorted_remdups_adj distinct_dedup_sorted)

lemma distinct_map_filter_fst: "distinct (map fst xs) \<Longrightarrow> distinct (map fst (filter P xs))"
  by (induction xs) (auto simp: image_iff)

section \<open>Strings of the standard library\<close>

text \<open>
  \<open>ws_seqs\<close> lists the UTF-8 encodings of the characters with the \<open>White_Space\<close> property,
  which is what \<open>str::trim\<close> strips.
\<close>

definition ws_seqs :: "string list" where
  "ws_seqs =
     [[CHR 0x09], [CHR 0x0A], [CHR 0x0B], [CHR 0x0C], [CHR 0x0D], [CHR 0x20],
      [CHR 0xC2, CHR 0x85], [CHR 0xC2, CHR 0xA0],
      [CHR 0xE1, CHR 0x9A, CHR 0x80],
      [CHR 0xE2, CHR 0x80, CHR 0x80], [CHR 0xE2, CHR 0x80, CHR 0x81],
      [CHR 0xE2, CHR 0x80, CHR 0x82], [CHR 0xE2, CHR 0x80, CHR 0x83],
      [CHR 0xE2, CHR 0x80, CHR 0x84], [CHR 0xE2, CHR 0x80, CHR 0x85],
      [CHR 0xE2, CHR 0x80, CHR 0x86], [CHR 0xE2, CHR 0x80, CHR 0x87],
      [CHR 0xE2, CHR 0x80, CHR 0x88], [CHR 0xE2, CHR 0x80, CHR 0x89],
      [CHR 0xE2, CHR 0x80, CHR 0x8A],
      [CHR 0xE2, CHR 0x80, CHR 0xA8], [CHR 0xE2, CHR 0x80, CHR 0xA9],
      [CHR 0xE2, CHR 0x80, CHR 0xAF], [CHR 0xE2, CHR 0x81, CHR 0x9F],
      [CHR 0xE3, CHR 0x80, CHR 0x80]]"

lemma ws_seqs_nonempty: "w \<in> set ws_seqs \<Longrightarrow> w \<noteq> []"
  by (auto simp: ws_seqs_def)

definition starts_with :: "string \<Rightarrow> string \<Rightarrow> bool" where
  "starts_with s p = (take (length p) s = p)"

definition ends_with :: "string \<Rightarrow> string \<Rightarrow> bool" where
  "ends_with s p = starts_with (rev s) (rev p)"

definition strip_prefix :: "string \<Rightarrow> string \<Rightarrow> string option" where
  "strip_prefix s p = (if starts_with s p then Some (drop (length p) s) else None)"

definition strip_suffix :: "string \<Rightarrow> string \<Rightarrow> string option" where
  "strip_suffix s p = (if ends_with s p then Some (take (length s - length p) s) else None)"

lemma starts_with_append [simp]: "starts_with (p @ s) p"
  by (simp add: starts_with_def)

lemma starts_with_iff: "starts_with s p \<longleftrightarrow> (\<exists>r. s = p @ r)"
  by (metis append_take_drop_id append_eq_conv_conj starts_with_def)

lemma ends_with_append [simp]: "ends_with (s @ p) p"
  by (simp add: ends_with_def)

lemma strip_prefix_append [simp]: "strip_prefix (p @ s) p = Some s"
  by (simp add: strip_prefix_def)

lemma strip_suffix_append [simp]: "strip_suffix (s @ p) p = Some s"
  by (simp add: strip_suffix_def)

text \<open>\<open>strip_any ws s\<close> repeatedly removes a leading sequence of \<open>ws\<close>: \<open>trim_start\<close> on the
  string, \<open>trim_end\<close> on the reversed string with the reversed sequences.\<close>

function strip_any :: "string list \<Rightarrow> string \<Rightarrow> string" where
  "strip_any ws s =
     (case find (\<lambda>w. w \<noteq> [] \<and> starts_with s w) ws of
        None \<Rightarrow> s
      | Some w \<Rightarrow> strip_any ws (drop (length w) s))"
  by pat_completeness auto
termination
  by (relation "measure (\<lambda>(ws, s). length s)")
    (auto dest!: find_SomeD simp: starts_with_iff)

declare strip_any.simps [simp del]

definition trim_start :: "string \<Rightarrow> string" where
  "trim_start s = strip_any ws_seqs s"

definition trim_end :: "string \<Rightarrow> string" where
  "trim_end s = rev (strip_any (map rev ws_seqs) (rev s))"

definition trim :: "string \<Rightarrow> string" where
  "trim s = trim_end (trim_start s)"

definition trim_start_matches :: "char \<Rightarrow> string \<Rightarrow> string" where
  "trim_start_matches c s = dropWhile (\<lambda>x. x = c) s"

definition trim_end_matches :: "char \<Rightarrow> string \<Rightarrow> string" where
  "trim_end_matches c s = rev (dropWhile (\<lambda>x. x = c) (rev s))"

text \<open>\<open>trim_end_matches\<close> with a string pattern removes every trailing copy of it.\<close>

definition trim_end_matches_str :: "string \<Rightarrow> string \<Rightarrow> string" where
  "trim_end_matches_str p s = rev (strip_any [rev p] (rev s))"

lemma strip_any_none: "(\<And>w. w \<in> set ws \<Longrightarrow> w \<noteq> [] \<Longrightarrow> \<not> starts_with s w) \<Longrightarrow> strip_any ws s = s"
  by (subst strip_any.simps) (auto split: option.splits dest!: find_SomeD)

lemma length_strip_any: "length (strip_any ws s) \<le> length s"
proof (induction ws s rule: strip_any.induct)
  case (1 ws s)
  show ?case
    by (subst strip_any.simps) (auto split: option.splits dest: "1.IH")
qed

lemma strip_any_subset: "set (strip_any ws s) \<subseteq> set s"
proof (induction ws s rule: strip_any.induct)
  case (1 ws s)
  show ?case
    by (subst strip_any.simps) (auto split: option.splits dest: "1.IH" [THEN subsetD] in_set_dropD)
qed

lemma trim_subset: "set (trim s) \<subseteq> set s"
  using strip_any_subset [of "map rev ws_seqs" "rev (trim_start s)"] strip_any_subset [of ws_seqs s]
  by (auto simp: trim_def trim_end_def trim_start_def)

lemma strip_any_idem: "strip_any ws (strip_any ws s) = strip_any ws s"
proof (induction ws s rule: strip_any.induct)
  case (1 ws s)
  show ?case
  proof (cases "find (\<lambda>w. w \<noteq> [] \<and> starts_with s w) ws")
    case None
    then have "strip_any ws s = s" by (subst strip_any.simps) simp
    then show ?thesis by simp
  next
    case (Some w)
    then show ?thesis using "1.IH" [OF Some] by (simp add: strip_any.simps [of ws s])
  qed
qed

lemma strip_any_unfold:
  "find (\<lambda>w. w \<noteq> [] \<and> starts_with s w) ws = None \<Longrightarrow> strip_any ws s = s"
  "find (\<lambda>w. w \<noteq> [] \<and> starts_with s w) ws = Some v \<Longrightarrow> strip_any ws s = strip_any ws (drop (length v) s)"
  by (simp_all add: strip_any.simps [of ws s])

lemma strip_any_starts: "w \<in> set ws \<Longrightarrow> w \<noteq> [] \<Longrightarrow> \<not> starts_with (strip_any ws s) w"
proof (induction ws s rule: strip_any.induct)
  case (1 ws s)
  show ?case
  proof (cases "find (\<lambda>w. w \<noteq> [] \<and> starts_with s w) ws")
    case None
    then show ?thesis using "1.prems" strip_any_unfold(1) [OF None] by (auto simp: find_None_iff)
  next
    case (Some v)
    then show ?thesis using "1.IH" [OF Some] "1.prems" strip_any_unfold(2) [OF Some] by simp
  qed
qed

lemma strip_any_suffix: "\<exists>p. s = p @ strip_any ws s"
proof (induction ws s rule: strip_any.induct)
  case (1 ws s)
  show ?case
  proof (cases "find (\<lambda>w. w \<noteq> [] \<and> starts_with s w) ws")
    case None
    then show ?thesis using strip_any_unfold(1) [OF None] by simp
  next
    case (Some v)
    obtain p where p: "drop (length v) s = p @ strip_any ws (drop (length v) s)" using "1.IH" [OF Some] by blast
    have "s = take (length v) s @ drop (length v) s" by simp
    also have "\<dots> = (take (length v) s @ p) @ strip_any ws s"
      using p strip_any_unfold(2) [OF Some] by (metis append.assoc)
    finally show ?thesis by blast
  qed
qed

lemma trim_idem: "trim (trim s) = trim s"
proof -
  define t where "t = trim_start s"
  obtain p where p: "rev t = p @ strip_any (map rev ws_seqs) (rev t)" using strip_any_suffix by blast
  then have "t = trim_end t @ rev p" by (metis trim_end_def rev_append rev_rev_ident)
  moreover have "\<not> starts_with t w" if "w \<in> set ws_seqs" for w
    using strip_any_starts [OF that] ws_seqs_nonempty [OF that] by (simp add: t_def trim_start_def)
  ultimately have "\<not> starts_with (trim_end t) w" if "w \<in> set ws_seqs" for w
    using that by (metis append.assoc starts_with_iff)
  then have "trim_start (trim_end t) = trim_end t"
    unfolding trim_start_def by (intro strip_any_none) blast
  moreover have "trim_end (trim_end t) = trim_end t" by (simp add: trim_end_def strip_any_idem)
  ultimately show ?thesis by (simp add: trim_def t_def)
qed

lemma trim_nil [simp]: "trim [] = []"
  by (simp add: trim_def trim_start_def trim_end_def strip_any_none starts_with_def)

definition to_ascii_lowercase :: "string \<Rightarrow> string" where
  "to_ascii_lowercase s =
     map (\<lambda>c. if 65 \<le> (of_char c :: nat) \<and> of_char c \<le> (90 :: nat)
              then char_of ((of_char c :: nat) + 32) else c) s"

subsection \<open>Splitting and joining\<close>

fun split_on :: "char \<Rightarrow> string \<Rightarrow> string list" where
  "split_on c [] = [[]]"
| "split_on c (x # xs) =
     (if x = c then [] # split_on c xs
      else (case split_on c xs of [] \<Rightarrow> [[x]] | y # ys \<Rightarrow> (x # y) # ys))"

fun join :: "string \<Rightarrow> string list \<Rightarrow> string" where
  "join sep [] = []"
| "join sep [x] = x"
| "join sep (x # y # zs) = x @ sep @ join sep (y # zs)"

definition split_once :: "char \<Rightarrow> string \<Rightarrow> (string \<times> string) option" where
  "split_once c s =
     (if c \<in> set s then Some (takeWhile (\<lambda>x. x \<noteq> c) s, tl (dropWhile (\<lambda>x. x \<noteq> c) s)) else None)"

definition rsplit_once :: "char \<Rightarrow> string \<Rightarrow> (string \<times> string) option" where
  "rsplit_once c s =
     (case split_once c (rev s) of None \<Rightarrow> None | Some (a, b) \<Rightarrow> Some (rev b, rev a))"

text \<open>\<open>str::lines\<close>: split at line feeds, a final empty line is dropped, and a carriage return
  before the line feed is removed.\<close>

definition strip_cr :: "string \<Rightarrow> string" where
  "strip_cr l = (if l \<noteq> [] \<and> last l = CHR 0x0D then butlast l else l)"

definition lines :: "string \<Rightarrow> string list" where
  "lines s =
     (let ps = split_on (CHR 0x0A) s in
      map strip_cr (butlast ps) @ (if last ps = [] then [] else [last ps]))"

lemma split_on_nonempty [simp]: "split_on c s \<noteq> []"
  by (cases s) (auto split: list.splits)

lemma split_on_none: "c \<notin> set s \<Longrightarrow> split_on c s = [s]"
  by (induction s) auto

lemma split_on_append: "c \<notin> set a \<Longrightarrow> split_on c (a @ c # b) = a # split_on c b"
  by (induction a) auto

lemma split_on_join:
  "ps \<noteq> [] \<Longrightarrow> \<forall>p\<in>set ps. c \<notin> set p \<Longrightarrow> split_on c (join [c] ps) = ps"
  by (induction "[c]" ps rule: join.induct) (auto simp: split_on_none split_on_append)

lemma split_on_no_sep: "p \<in> set (split_on c s) \<Longrightarrow> c \<notin> set p"
  by (induction s arbitrary: p) (auto split: list.splits if_splits)

lemma split_once_append [simp]: "c \<notin> set a \<Longrightarrow> split_once c (a @ c # b) = Some (a, b)"
  by (auto simp: split_once_def takeWhile_append dropWhile_append)

lemma join_snoc_newline:
  "join [c] (ps @ [[]]) = (if ps = [] then [] else join [c] ps @ [c])"
  by (induction "[c]" ps rule: join.induct) auto

lemma lines_join:
  assumes "ls \<noteq> []" and "\<forall>l\<in>set ls. CHR 0x0A \<notin> set l \<and> (l = [] \<or> last l \<noteq> CHR 0x0D)"
  shows "lines (join [CHR 0x0A] ls @ [CHR 0x0A]) = ls"
proof -
  have "split_on (CHR 0x0A) (join [CHR 0x0A] (ls @ [[]])) = ls @ [[]]"
    using assms by (intro split_on_join) auto
  moreover have "map strip_cr ls = ls"
    using assms(2) by (auto simp: strip_cr_def intro!: map_idI)
  ultimately show ?thesis
    using assms(1) by (simp add: lines_def join_snoc_newline Let_def)
qed

subsection \<open>Decimal numbers\<close>

definition digit_char :: "nat \<Rightarrow> char" where
  "digit_char d = char_of (48 + d)"

definition digit_val :: "char \<Rightarrow> nat option" where
  "digit_val c = (if 48 \<le> (of_char c :: nat) \<and> of_char c \<le> (57 :: nat)
                  then Some (of_char c - 48) else None)"

fun show_nat :: "nat \<Rightarrow> string" where
  "show_nat n = (if n < 10 then [digit_char n] else show_nat (n div 10) @ [digit_char (n mod 10)])"

declare show_nat.simps [simp del]

fun digits_val :: "nat \<Rightarrow> string \<Rightarrow> nat option" where
  "digits_val acc [] = Some acc"
| "digits_val acc (c # cs) =
     (case digit_val c of None \<Rightarrow> None | Some d \<Rightarrow> digits_val (10 * acc + d) cs)"

text \<open>\<open>u16::from_str\<close>, \<open>u32::from_str\<close>, \<open>u64::from_str\<close>: an optional plus sign, at least
  one digit, and the value below the width's bound.\<close>

definition parse_unsigned :: "nat \<Rightarrow> string \<Rightarrow> nat option" where
  "parse_unsigned bound s =
     (let ds = (case s of c # cs \<Rightarrow> if c = CHR ''+'' then cs else s | [] \<Rightarrow> []) in
      if ds = [] then None
      else case digits_val 0 ds of None \<Rightarrow> None
           | Some n \<Rightarrow> if n < bound then Some n else None)"

lemma digit_char_eval [rust_string]:
  "digit_char 0 = CHR ''0''" "digit_char (Suc 0) = CHR ''1''" "digit_char 1 = CHR ''1''"
  "digit_char 2 = CHR ''2''" "digit_char 3 = CHR ''3''" "digit_char 4 = CHR ''4''"
  "digit_char 5 = CHR ''5''" "digit_char 6 = CHR ''6''" "digit_char 7 = CHR ''7''"
  "digit_char 8 = CHR ''8''" "digit_char 9 = CHR ''9''"
  by code_simp+

lemma digit_val_char: "d < 10 \<Longrightarrow> digit_val (digit_char d) = Some d"
  by (simp add: digit_val_def digit_char_def take_bit_nat_def)

lemma digits_val_append:
  "digits_val acc (xs @ ys) =
     (case digits_val acc xs of None \<Rightarrow> None | Some a \<Rightarrow> digits_val a ys)"
  by (induction xs arbitrary: acc) (auto split: option.splits)

lemma digits_val_show: "digits_val 0 (show_nat n) = Some n"
proof (induction n rule: show_nat.induct)
  case (1 n)
  show ?case
  proof (cases "n < 10")
    case True
    then show ?thesis by (simp add: show_nat.simps [of n] digit_val_char)
  next
    case False
    then show ?thesis
      using "1.IH" by (simp add: show_nat.simps [of n] digits_val_append digit_val_char)
  qed
qed

lemma digit_char_range: "d < 10 \<Longrightarrow> 48 \<le> (of_char (digit_char d) :: nat) \<and> of_char (digit_char d) \<le> (57 :: nat)"
  by (simp add: digit_char_def take_bit_nat_def)

lemma show_nat_digits:
  "c \<in> set (show_nat n) \<Longrightarrow> 48 \<le> (of_char c :: nat) \<and> of_char c \<le> (57 :: nat)"
proof (induction n rule: show_nat.induct)
  case (1 n)
  have "c = digit_char (n mod 10) \<or> \<not> n < 10 \<and> c \<in> set (show_nat (n div 10))"
    using "1.prems" by (subst (asm) show_nat.simps) (auto split: if_splits)
  then show ?case using "1.IH" digit_char_range [of "n mod 10"] by auto
qed

lemma show_nat_nonempty [simp]: "show_nat n \<noteq> []"
  by (subst show_nat.simps) simp

lemma show_nat_not_in: "of_char c < (48 :: nat) \<or> (57 :: nat) < of_char c \<Longrightarrow> c \<notin> set (show_nat n)"
  using show_nat_digits by fastforce

lemma parse_show_nat: "n < bound \<Longrightarrow> parse_unsigned bound (show_nat n) = Some n"
proof -
  assume *: "n < bound"
  obtain c cs where s: "show_nat n = c # cs" by (cases "show_nat n") auto
  have "CHR ''+'' \<notin> set (show_nat n)" by (rule show_nat_not_in) simp
  then have "c \<noteq> CHR ''+''" by (auto simp: s)
  then show ?thesis
    using * digits_val_show [of n] by (simp add: parse_unsigned_def s)
qed

lemma ws_seqs_not_digit:
  "w \<in> set ws_seqs \<Longrightarrow> digit_val (hd w) = None \<and> digit_val (last w) = None"
  by (auto simp: ws_seqs_def digit_val_def)

lemma show_nat_digit_val: "c \<in> set (show_nat n) \<Longrightarrow> digit_val c \<noteq> None"
  using show_nat_digits by (simp add: digit_val_def)

text \<open>A printed number has no white space to trim.\<close>

lemma trim_show_nat: "trim (show_nat n) = show_nat n"
proof -
  have "\<not> starts_with (show_nat n) w" if "w \<in> set ws_seqs" for w
  proof
    assume "starts_with (show_nat n) w"
    then obtain r where "show_nat n = w @ r" by (auto simp: starts_with_iff)
    moreover have "w \<noteq> []" using that by (rule ws_seqs_nonempty)
    ultimately have "hd w \<in> set (show_nat n)" by simp
    with that ws_seqs_not_digit show_nat_digit_val show False by blast
  qed
  moreover have "\<not> starts_with (rev (show_nat n)) w" if m: "w \<in> rev ` set ws_seqs" for w
  proof
    assume "starts_with (rev (show_nat n)) w"
    then obtain r where r: "rev (show_nat n) = w @ r" by (auto simp: starts_with_iff)
    obtain v where v: "v \<in> set ws_seqs" "w = rev v" using m by blast
    have "show_nat n = rev r @ v" using r v(2) by (metis rev_append rev_rev_ident)
    then have "last v \<in> set (show_nat n)" using ws_seqs_nonempty [OF v(1)] by simp
    with v(1) ws_seqs_not_digit show_nat_digit_val show False by blast
  qed
  then have "strip_any (map rev ws_seqs) (rev (show_nat n)) = rev (show_nat n)"
    by (intro strip_any_none) simp
  ultimately show ?thesis
    by (simp add: trim_def trim_start_def trim_end_def strip_any_none)
qed

definition show_int :: "int \<Rightarrow> string" where
  "show_int i = (if i < 0 then ''-'' @ show_nat (nat (- i)) else show_nat (nat i))"

text \<open>\<open>String::from_utf8\<close> accepts the well-formed sequences: no overlong forms, no surrogates, nothing
  above U+10FFFF.\<close>

definition byte_in :: "nat \<Rightarrow> nat \<Rightarrow> char \<Rightarrow> bool" where
  "byte_in lo hi c = (lo \<le> of_char c \<and> of_char c \<le> hi)"

fun valid_utf8 :: "string \<Rightarrow> bool" where
  "valid_utf8 [] = True"
| "valid_utf8 (a # s) =
     (if byte_in 0 0x7F a then valid_utf8 s
      else (case s of
        [] \<Rightarrow> False
      | b # s2 \<Rightarrow>
          if byte_in 0xC2 0xDF a then byte_in 0x80 0xBF b \<and> valid_utf8 s2
          else (case s2 of
            [] \<Rightarrow> False
          | c # s3 \<Rightarrow>
              if byte_in 0xE0 0xEF a then
                byte_in (if byte_in 0xE0 0xE0 a then 0xA0 else 0x80) (if byte_in 0xED 0xED a then 0x9F else 0xBF) b
                \<and> byte_in 0x80 0xBF c \<and> valid_utf8 s3
              else (case s3 of
                [] \<Rightarrow> False
              | d # s4 \<Rightarrow>
                  byte_in 0xF0 0xF4 a \<and>
                  byte_in (if byte_in 0xF0 0xF0 a then 0x90 else 0x80) (if byte_in 0xF4 0xF4 a then 0x8F else 0xBF) b
                  \<and> byte_in 0x80 0xBF c \<and> byte_in 0x80 0xBF d \<and> valid_utf8 s4))))"

subsection \<open>Searching and quoting\<close>

fun contains_str :: "string \<Rightarrow> string \<Rightarrow> bool" where
  "contains_str [] p = (p = [])"
| "contains_str (c # s) p = (starts_with (c # s) p \<or> contains_str s p)"

lemma contains_str_iff: "contains_str s p \<longleftrightarrow> (\<exists>a b. s = a @ p @ b)"
proof (induction s)
  case Nil
  then show ?case by auto
next
  case (Cons c s)
  have "(\<exists>a b. c # s = a @ p @ b) \<longleftrightarrow> (\<exists>b. c # s = p @ b) \<or> (\<exists>a b. s = a @ p @ b)" (is "?l \<longleftrightarrow> ?r")
  proof
    assume ?l
    then obtain a b where ab: "c # s = a @ p @ b" by blast
    then show ?r by (cases a) auto
  next
    assume ?r
    then show ?l
    proof
      assume "\<exists>b. c # s = p @ b"
      then obtain b where "c # s = [] @ p @ b" by auto
      then show ?l by blast
    next
      assume "\<exists>a b. s = a @ p @ b"
      then obtain a b where "c # s = (c # a) @ p @ b" by auto
      then show ?l by blast
    qed
  qed
  then show ?case using Cons.IH by (simp add: starts_with_iff)
qed

definition hex_digit :: "nat \<Rightarrow> char" where
  "hex_digit d = (if d < 10 then digit_char d else char_of (87 + d))"

definition hex_of :: "nat \<Rightarrow> string" where
  "hex_of n = (if n < 16 then [hex_digit n] else [hex_digit (n div 16), hex_digit (n mod 16)])"

text \<open>\<open>{:?}\<close> of a string: quoted, with the escapes of \<open>escape_debug\<close> for the ASCII characters. The
  bytes of the other characters are copied, which is what happens to the printable ones.\<close>

definition debug_char :: "char \<Rightarrow> string" where
  "debug_char c =
     (let n = (of_char c :: nat) in
      if n = 0 then [CHR 0x5C, CHR ''0'']
      else if n = 9 then [CHR 0x5C, CHR ''t'']
      else if n = 10 then [CHR 0x5C, CHR ''n'']
      else if n = 13 then [CHR 0x5C, CHR ''r'']
      else if n = 34 then [CHR 0x5C, CHR 0x22]
      else if n = 92 then [CHR 0x5C, CHR 0x5C]
      else if n < 32 \<or> n = 127 then [CHR 0x5C, CHR ''u'', CHR 0x7B] @ hex_of n @ [CHR 0x7D]
      else [c])"

definition debug_str :: "string \<Rightarrow> string" where
  "debug_str s = [CHR 0x22] @ concat (map debug_char s) @ [CHR 0x22]"

section \<open>Ordered maps\<close>

text \<open>
  A \<open>BTreeMap\<close> is its in-order sequence of pairs: sorted by key, no key twice, which
  \<open>sorted_wrt\<close> on the strict order states. Iteration is the list itself.
\<close>

type_synonym ('k, 'v) btree = "('k \<times> 'v) list"

definition bt_wf :: "('k::linorder, 'v) btree \<Rightarrow> bool" where
  "bt_wf m = sorted_wrt (<) (map fst m)"

fun bt_insert :: "'k::linorder \<Rightarrow> 'v \<Rightarrow> ('k, 'v) btree \<Rightarrow> ('k, 'v) btree" where
  "bt_insert k v [] = [(k, v)]"
| "bt_insert k v ((a, b) # m) =
     (if k < a then (k, v) # (a, b) # m
      else if k = a then (k, v) # m
      else (a, b) # bt_insert k v m)"

abbreviation bt_get :: "('k, 'v) btree \<Rightarrow> 'k \<Rightarrow> 'v option" where
  "bt_get \<equiv> map_of"

lemma bt_wf_Nil [simp]: "bt_wf []"
  by (simp add: bt_wf_def)

lemma bt_wf_Cons: "bt_wf ((k, v) # m) \<longleftrightarrow> (\<forall>a\<in>set (map fst m). k < a) \<and> bt_wf m"
  by (simp add: bt_wf_def)

lemma bt_get_insert [simp]: "bt_get (bt_insert k v m) = (bt_get m)(k \<mapsto> v)"
  by (induction k v m rule: bt_insert.induct) (auto simp: fun_eq_iff)

lemma bt_keys_insert [simp]: "fst ` set (bt_insert k v m) = insert k (fst ` set m)"
  by (induction k v m rule: bt_insert.induct) auto

lemma bt_wf_insert [intro]: "bt_wf m \<Longrightarrow> bt_wf (bt_insert k v m)"
  by (induction k v m rule: bt_insert.induct) (auto simp: bt_wf_Cons image_iff dest: bt_keys_insert [THEN equalityD1, THEN subsetD])

lemma bt_wf_distinct: "bt_wf m \<Longrightarrow> distinct (map fst m)"
  by (simp add: bt_wf_def strict_sorted_iff)

text \<open>\<open>map[key]\<close> panics when the key is missing; the panic is the error value with its message.\<close>

definition bt_index :: "('k, 'v) btree \<Rightarrow> 'k \<Rightarrow> 'v result" where
  "bt_index m k = (case bt_get m k of None \<Rightarrow> Inl ''no entry found for key'' | Some v \<Rightarrow> Inr v)"

lemma bt_index_eq_Inr [simp]: "bt_index m k = Inr v \<longleftrightarrow> bt_get m k = Some v"
  by (simp add: bt_index_def split: option.splits)

lemma bt_set_insert:
  "set (bt_insert k v m) \<subseteq> insert (k, v) (set m)"
  by (induction k v m rule: bt_insert.induct) auto

section \<open>Hash maps\<close>

text \<open>
  A \<open>HashMap\<close> or \<open>DashMap\<close> is an association list with distinct keys. The order of the list
  is the iteration order, about which nothing is assumed.
\<close>

type_synonym ('k, 'v) hmap = "('k \<times> 'v) list"

definition hm_wf :: "('k, 'v) hmap \<Rightarrow> bool" where
  "hm_wf m = distinct (map fst m)"

definition hm_remove :: "'k \<Rightarrow> ('k, 'v) hmap \<Rightarrow> ('k, 'v) hmap" where
  "hm_remove k m = filter (\<lambda>p. fst p \<noteq> k) m"

definition hm_insert :: "'k \<Rightarrow> 'v \<Rightarrow> ('k, 'v) hmap \<Rightarrow> ('k, 'v) hmap" where
  "hm_insert k v m = (k, v) # hm_remove k m"

definition hm_modify :: "'k \<Rightarrow> ('v \<Rightarrow> 'v) \<Rightarrow> ('k, 'v) hmap \<Rightarrow> ('k, 'v) hmap" where
  "hm_modify k f m = map (\<lambda>(a, v). (a, if a = k then f v else v)) m"

definition hm_of_list :: "('k \<times> 'v) list \<Rightarrow> ('k, 'v) hmap" where
  "hm_of_list xs = foldl (\<lambda>m (k, v). hm_insert k v m) [] xs"

abbreviation hm_get :: "('k, 'v) hmap \<Rightarrow> 'k \<Rightarrow> 'v option" where
  "hm_get \<equiv> map_of"

lemma hm_get_remove [simp]: "hm_get (hm_remove k m) = (hm_get m)(k := None)"
  by (induction m) (auto simp: hm_remove_def fun_eq_iff)

lemma hm_get_insert [simp]: "hm_get (hm_insert k v m) = (hm_get m)(k \<mapsto> v)"
  by (simp add: hm_insert_def fun_eq_iff)

lemma hm_get_modify [simp]: "hm_get (hm_modify k f m) = (hm_get m)(k := map_option f (hm_get m k))"
  by (induction m) (auto simp: hm_modify_def fun_eq_iff)

lemma hm_keys_remove [simp]: "fst ` set (hm_remove k m) = fst ` set m - {k}"
  by (auto simp: hm_remove_def)

lemma hm_keys_insert [simp]: "fst ` set (hm_insert k v m) = insert k (fst ` set m)"
  by (auto simp: hm_insert_def)

lemma hm_fst_modify [simp]: "map fst (hm_modify k f m) = map fst m"
  by (induction m) (auto simp: hm_modify_def)

lemma hm_length_modify [simp]: "length (hm_modify k f m) = length m"
  by (simp add: hm_modify_def)

lemma hm_wf_Nil [simp]: "hm_wf []"
  by (simp add: hm_wf_def)

lemma hm_wf_remove [intro]: "hm_wf m \<Longrightarrow> hm_wf (hm_remove k m)"
  by (simp add: hm_wf_def hm_remove_def distinct_map_filter_fst)

lemma hm_wf_insert [intro]: "hm_wf m \<Longrightarrow> hm_wf (hm_insert k v m)"
  using hm_keys_remove [of k m]
  by (auto simp: hm_insert_def hm_wf_def hm_remove_def distinct_map_filter_fst)

lemma hm_wf_modify [intro]: "hm_wf m \<Longrightarrow> hm_wf (hm_modify k f m)"
  by (simp add: hm_wf_def)

lemma hm_wf_foldl: "hm_wf m \<Longrightarrow> hm_wf (foldl (\<lambda>m (k, v). hm_insert k v m) m xs)"
  by (induction xs arbitrary: m) auto

lemma hm_wf_of_list [simp]: "hm_wf (hm_of_list xs)"
  by (simp add: hm_of_list_def hm_wf_foldl)

lemma hm_get_foldl:
  "distinct (map fst xs) \<Longrightarrow>
   hm_get (foldl (\<lambda>m (k, v). hm_insert k v m) m xs) = hm_get m ++ map_of xs"
proof (induction xs arbitrary: m)
  case Nil
  then show ?case by simp
next
  case (Cons x xs)
  then have "map_of xs (fst x) = None" by (auto simp: map_of_eq_None_iff)
  with Cons show ?case by (cases x) (auto simp: fun_eq_iff map_add_def split: option.splits)
qed

lemma hm_get_of_list: "distinct (map fst xs) \<Longrightarrow> hm_get (hm_of_list xs) = map_of xs"
  by (simp add: hm_of_list_def hm_get_foldl)

lemma hm_get_mem: "hm_wf m \<Longrightarrow> hm_get m k = Some v \<longleftrightarrow> (k, v) \<in> set m"
  by (simp add: hm_wf_def)

lemma hm_length_insert:
  "hm_wf m \<Longrightarrow> length (hm_insert k v m) = (if k \<in> fst ` set m then length m else Suc (length m))"
proof (induction m)
  case Nil
  then show ?case by (simp add: hm_insert_def hm_remove_def)
next
  case (Cons a m)
  show ?case
  proof (cases "fst a = k")
    case True
    with Cons.prems have "k \<notin> fst ` set m" by (auto simp: hm_wf_def)
    then have "hm_remove k m = m" by (force simp: hm_remove_def filter_id_conv)
    with True show ?thesis by (simp add: hm_insert_def hm_remove_def)
  next
    case False
    with Cons show ?thesis by (auto simp: hm_insert_def hm_remove_def hm_wf_def)
  qed
qed

section \<open>Interfaces\<close>

text \<open>
  What the callers of a keyed table rely on: the table's operations act on its lookup
  function like point updates. The stream table and the pending table of flux
  and the files of a host are its instances.
\<close>

locale keyed_store =
  fixes lookup :: "'s \<Rightarrow> 'k \<Rightarrow> 'v option"
    and put :: "'k \<Rightarrow> 'v \<Rightarrow> 's \<Rightarrow> 's"
    and del :: "'k \<Rightarrow> 's \<Rightarrow> 's"
  assumes lookup_put: "lookup (put k v s) = (lookup s)(k \<mapsto> v)"
    and lookup_del: "lookup (del k s) = (lookup s)(k := None)"
begin

lemma put_other: "k' \<noteq> k \<Longrightarrow> lookup (put k v s) k' = lookup s k'"
  by (simp add: lookup_put)

lemma del_other: "k' \<noteq> k \<Longrightarrow> lookup (del k s) k' = lookup s k'"
  by (simp add: lookup_del)

lemma put_same: "lookup (put k v s) k = Some v"
  by (simp add: lookup_put)

lemma del_same: "lookup (del k s) k = None"
  by (simp add: lookup_del)

lemma last_put_wins: "lookup (put k w (put k v s)) = lookup (put k w s)"
  by (simp add: lookup_put)

lemma del_forgets_newer_put: "lookup (del k (put k w (put k v s))) k = None"
  by (simp add: lookup_del)

lemma put_del_commute:
  "k' \<noteq> k \<Longrightarrow> lookup (del k' (put k v s)) = lookup (put k v (del k' s))"
  by (auto simp: lookup_put lookup_del fun_eq_iff)

end

text \<open>A predicate that every step of a deterministic machine keeps holds along every run.\<close>

locale step_invariant =
  fixes step :: "'s \<Rightarrow> 'e \<Rightarrow> 's"
    and inv :: "'s \<Rightarrow> bool"
  assumes step_inv: "inv s \<Longrightarrow> inv (step s e)"
begin

lemma run_inv: "inv s \<Longrightarrow> inv (foldl step s es)"
  by (induction es arbitrary: s) (auto intro: step_inv)

lemma run_prefix_inv: "inv s \<Longrightarrow> inv (foldl step s (take n es))"
  by (rule run_inv)

end

end
