(* ===== verification/Proto.thy ===== *)
theory Proto
  imports Prelude
begin

text \<open>
  The wire messages between flux and coold (\<open>proto/agent.proto\<close>) and JSON values. A message
  with several fields is a record, a message with one or two is a constructor's arguments, and
  a \<open>oneof\<close> is a datatype; an absent \<open>oneof\<close> is \<open>None\<close>.
\<close>

section \<open>JSON\<close>

text \<open>\<open>serde_json::Value\<close>. A number that is not an integer is kept as its text.\<close>

datatype json_number = NInt int | NOther string

datatype json =
    JNull
  | JBool bool
  | JNumber json_number
  | JString string
  | JArray "json list"
  | JObject "(string \<times> json) list"

fun as_str :: "json \<Rightarrow> string option" where
  "as_str (JString s) = Some s"
| "as_str _ = None"

fun as_array :: "json \<Rightarrow> json list option" where
  "as_array (JArray xs) = Some xs"
| "as_array _ = None"

fun json_get :: "json \<Rightarrow> string \<Rightarrow> json option" where
  "json_get (JObject kvs) k = map_of kvs k"
| "json_get _ k = None"

definition jstrings :: "string list \<Rightarrow> json" where
  "jstrings xs = JArray (map JString xs)"

definition jint :: "int \<Rightarrow> json" where
  "jint n = JNumber (NInt n)"

subsection \<open>Typed access\<close>

fun json_bool :: "json \<Rightarrow> bool option" where
  "json_bool (JBool b) = Some b"
| "json_bool _ = None"

fun json_u32 :: "json \<Rightarrow> u32 option" where
  "json_u32 (JNumber (NInt n)) = (if 0 \<le> n \<and> n < 2 ^ 32 then Some (word_of_int n) else None)"
| "json_u32 _ = None"

fun json_list :: "(json \<Rightarrow> 'a option) \<Rightarrow> json list \<Rightarrow> 'a list option" where
  "json_list f [] = Some []"
| "json_list f (v # vs) =
     (case (f v, json_list f vs) of (Some a, Some as) \<Rightarrow> Some (a # as) | _ \<Rightarrow> None)"

definition json_vec :: "(json \<Rightarrow> 'a option) \<Rightarrow> json \<Rightarrow> 'a list option" where
  "json_vec f v = Option.bind (as_array v) (json_list f)"

abbreviation json_strs :: "json \<Rightarrow> string list option" where
  "json_strs \<equiv> json_vec as_str"

definition req_field :: "json \<Rightarrow> string \<Rightarrow> (json \<Rightarrow> 'a option) \<Rightarrow> 'a option" where
  "req_field v k f = Option.bind (json_get v k) f"

definition opt_field :: "json \<Rightarrow> string \<Rightarrow> (json \<Rightarrow> 'a option) \<Rightarrow> 'a \<Rightarrow> 'a option" where
  "opt_field v k f d = (case json_get v k of None \<Rightarrow> Some d | Some x \<Rightarrow> f x)"

text \<open>A member with an alias: giving both is a duplicate field.\<close>

definition alias_field :: "json \<Rightarrow> string \<Rightarrow> string \<Rightarrow> (json \<Rightarrow> 'a option) \<Rightarrow> 'a option" where
  "alias_field v k a f =
     (case (json_get v k, json_get v a) of
        (Some x, None) \<Rightarrow> f x
      | (None, Some x) \<Rightarrow> f x
      | _ \<Rightarrow> None)"

section \<open>Messages\<close>

record proto_port_mapping =
  pp_host_ip :: string
  pp_host_port :: u32
  pp_container_port :: u32
  pp_protocol :: string

record containers_create_req =
  cr_name :: string
  cr_image :: string
  cr_command :: "string list"
  cr_env :: "string list"
  cr_networks :: "string list"
  cr_volumes :: "string list"
  cr_ports :: "proto_port_mapping list"
  cr_dns :: "string list"
  cr_dns_search :: "string list"
  cr_network_aliases :: "string list"
  cr_restart_policy :: string
  cr_privileged :: bool
  cr_network_mode :: string
  cr_capabilities :: "string list"

record proto_ingress_app =
  pia_name :: string
  pia_config :: string

record proto_firewall_rule =
  pf_namespace :: string
  pf_src :: string
  pf_dst :: string
  pf_proto :: string
  pf_port :: u32
  pf_id :: string

text \<open>\<open>server_msg::Command\<close>: what flux asks of coold.\<close>

datatype server_command =
    CmdPing
  | CmdImagesPull string
  | CmdImagesList
  | CmdImagesDelete string bool
  | CmdContainersCreate containers_create_req
  | CmdContainersStart string
  | CmdContainersStop string u32
  | CmdContainersRestart string u32
  | CmdContainersDelete string bool
  | CmdContainersInspect string
  | CmdContainersList
  | CmdContainersLogs string u32 bool bool
  | CmdContainersExec string "string list"
  | CmdContainersHealthcheckRun string
  | CmdIngressApply string string string "proto_ingress_app list"
  | CmdIngressStop string
  | CmdFirewallAllow "proto_firewall_rule option"
  | CmdFirewallRevoke string
  | CmdFirewallList string
  | CmdFirewallReconcile
  | CmdCooldLogs u32
  | CmdCorrosionTables u32
  | CmdHostJwtSet string

record server_msg =
  sm_request_id :: string
  sm_command :: "server_command option"

record image_summary =
  im_id :: string
  im_repo_tags :: "string list"
  im_repo_digests :: "string list"
  im_size :: int
  im_created :: string

record container_summary =
  cs_id :: string
  cs_name :: string
  cs_image :: string
  cs_state :: string
  cs_networks :: "string list"

text \<open>\<open>response::Body\<close>: what coold answers.\<close>

datatype proto_body =
    BImagesPull string string
  | BImagesList "image_summary list"
  | BImagesDelete string
  | BContainersCreate string
  | BContainersStart string
  | BContainersStop string
  | BContainersRestart string
  | BContainersDelete string
  | BContainersInspect string
  | BContainersList "container_summary list"
  | BContainersLogs string
  | BContainersExec int string
  | BContainersHealthcheckRun string
  | BIngressApply string
  | BIngressStop string
  | BFirewallAllow string string
  | BFirewallRevoke string
  | BFirewallList "proto_firewall_rule list"
  | BFirewallReconcile string
  | BCooldLogs string
  | BCorrosionTables string
  | BHostJwtSet bool
  | BError u32 string

record proto_response =
  pr_request_id :: string
  pr_body :: "proto_body option"

record resource_status_update =
  rs_resource_type :: string
  rs_host_id :: string
  rs_container_id :: string
  rs_container_name :: string
  rs_status :: string
  rs_status_message :: string

record hello =
  he_host_mgmt_ip :: string
  he_coold_version :: string
  he_schema_min :: u32
  he_schema_max :: u32
  he_capabilities :: "string list"

datatype client_payload =
    PHello hello
  | PResponse proto_response
  | PResourceStatusUpdate resource_status_update
  | PPong string

text \<open>A \<open>ClientMsg\<close> is its optional payload.\<close>

type_synonym client_msg = "client_payload option"

end
