(* ===== verification/FluxEnvelope.thy ===== *)
theory FluxEnvelope
  imports Proto
begin

text \<open>
  \<open>flux/src/envelope.rs\<close>: the JSON envelopes of the Unix-socket lane. \<open>command_payload\<close> is
  \<open>CommandPayload\<close>, \<open>kind\<close> its method, \<open>command_from_json\<close> its deserializer, and \<open>try_from_proto\<close> turns a coold response into
  the body returned to the central caller. Parsing JSON text is a parameter
  (\<open>json_parse\<close>), because the parser is a library.
\<close>

section \<open>Dispatch envelopes\<close>

record stream_inventory_item =
  si_host_id :: string
  si_caps :: "string list"

record port_mapping =
  pm_host_ip :: string
  pm_host_port :: u32
  pm_container_port :: u32
  pm_protocol :: string

record ingress_app_config =
  ia_name :: string
  ia_config :: string

record containers_create =
  cc_name :: string
  cc_image :: string
  cc_command :: "string list"
  cc_env :: "string list"
  cc_networks :: "string list"
  cc_volumes :: "string list"
  cc_ports :: "port_mapping list"
  cc_dns :: "string list"
  cc_dns_search :: "string list"
  cc_network_aliases :: "string list"
  cc_restart_policy :: string
  cc_privileged :: bool
  cc_network_mode :: string
  cc_capabilities :: "string list"

record firewall_allow_payload =
  fa_id :: string
  fa_namespace :: string
  fa_src :: string
  fa_dst :: string
  fa_proto :: string
  fa_port :: u32

datatype command_payload =
    ImagesPull string
  | ImagesList
  | ImagesDelete string bool
  | ContainersCreate containers_create
  | ContainersStart string
  | ContainersStop string u32
  | ContainersRestart string u32
  | ContainersDelete string bool
  | ContainersInspect string
  | ContainersList
  | ContainersLogs string u32 bool bool
  | ContainersExec string "string list"
  | ContainersHealthcheckRun string
  | ApplyIngress string string "ingress_app_config list" string
  | StopIngress string
  | FirewallAllow firewall_allow_payload
  | FirewallRevoke string
  | FirewallList string
  | FirewallReconcile
  | CooldLogs u32
  | CorrosionTables u32
  | HostJwtSet string

record dispatch_envelope =
  de_host_id :: string
  de_request_id :: string
  de_command :: command_payload

fun kind :: "command_payload \<Rightarrow> string" where
  "kind (ImagesPull _) = ''images.pull''"
| "kind ImagesList = ''images.list''"
| "kind (ImagesDelete _ _) = ''images.delete''"
| "kind (ContainersCreate _) = ''containers.create''"
| "kind (ContainersStart _) = ''containers.start''"
| "kind (ContainersStop _ _) = ''containers.stop''"
| "kind (ContainersRestart _ _) = ''containers.restart''"
| "kind (ContainersDelete _ _) = ''containers.delete''"
| "kind (ContainersInspect _) = ''containers.inspect''"
| "kind ContainersList = ''containers.list''"
| "kind (ContainersLogs _ _ _ _) = ''containers.logs''"
| "kind (ContainersExec _ _) = ''containers.exec''"
| "kind (ContainersHealthcheckRun _) = ''containers.healthcheck.run''"
| "kind (ApplyIngress _ _ _ _) = ''ingress.apply''"
| "kind (StopIngress _) = ''ingress.stop''"
| "kind (FirewallAllow _) = ''firewall.allow''"
| "kind (FirewallRevoke _) = ''firewall.revoke''"
| "kind (FirewallList _) = ''firewall.list''"
| "kind FirewallReconcile = ''firewall.reconcile''"
| "kind (CooldLogs _) = ''coold.logs''"
| "kind (CorrosionTables _) = ''corrosion.tables''"
| "kind (HostJwtSet _) = ''host.jwt.set''"

section \<open>Reading a command\<close>

text \<open>
  The derived \<open>Deserialize\<close> of \<open>CommandPayload\<close>: the member \<open>type\<close> selects the variant,
  unknown members are ignored, a member with a default may be absent, and a value of the wrong
  type fails the whole envelope.
\<close>

definition port_mapping_from_json :: "json \<Rightarrow> port_mapping option" where
  "port_mapping_from_json v =
     Option.bind (req_field v ''host_ip'' as_str) (\<lambda>ip.
     Option.bind (req_field v ''host_port'' json_u32) (\<lambda>hp.
     Option.bind (req_field v ''container_port'' json_u32) (\<lambda>cp.
     Option.bind (req_field v ''protocol'' as_str) (\<lambda>pr.
     Some \<lparr>pm_host_ip = ip, pm_host_port = hp, pm_container_port = cp, pm_protocol = pr\<rparr>))))"

definition ingress_app_from_json :: "json \<Rightarrow> ingress_app_config option" where
  "ingress_app_from_json v =
     Option.bind (req_field v ''name'' as_str) (\<lambda>n.
     Option.bind (alias_field v ''config'' ''caddyfile'' as_str) (\<lambda>c.
     Some \<lparr>ia_name = n, ia_config = c\<rparr>))"

definition containers_create_from_json :: "json \<Rightarrow> containers_create option" where
  "containers_create_from_json v =
     Option.bind (req_field v ''name'' as_str) (\<lambda>name.
     Option.bind (req_field v ''image'' as_str) (\<lambda>image.
     Option.bind (opt_field v ''command'' json_strs []) (\<lambda>command.
     Option.bind (opt_field v ''env'' json_strs []) (\<lambda>env.
     Option.bind (opt_field v ''networks'' json_strs []) (\<lambda>networks.
     Option.bind (opt_field v ''volumes'' json_strs []) (\<lambda>volumes.
     Option.bind (opt_field v ''ports'' (json_vec port_mapping_from_json) []) (\<lambda>ports.
     Option.bind (opt_field v ''dns'' json_strs []) (\<lambda>dns.
     Option.bind (opt_field v ''dns_search'' json_strs []) (\<lambda>dns_search.
     Option.bind (opt_field v ''network_aliases'' json_strs []) (\<lambda>aliases.
     Option.bind (opt_field v ''restart_policy'' as_str []) (\<lambda>policy.
     Option.bind (opt_field v ''privileged'' json_bool False) (\<lambda>privileged.
     Option.bind (opt_field v ''network_mode'' as_str []) (\<lambda>mode.
     Option.bind (opt_field v ''capabilities'' json_strs []) (\<lambda>caps.
     Some \<lparr>cc_name = name, cc_image = image, cc_command = command, cc_env = env,
           cc_networks = networks, cc_volumes = volumes, cc_ports = ports, cc_dns = dns,
           cc_dns_search = dns_search, cc_network_aliases = aliases, cc_restart_policy = policy,
           cc_privileged = privileged, cc_network_mode = mode, cc_capabilities = caps\<rparr>))))))))))))))"

definition default_logs_stdout :: bool where
  "default_logs_stdout = True"

definition default_coold_logs_tail :: u32 where
  "default_coold_logs_tail = 200"

definition default_corrosion_tables_limit :: u32 where
  "default_corrosion_tables_limit = 200"

definition default_ingress_kind :: string where
  "default_ingress_kind = ''caddy''"

definition default_caddy_mesh_network :: string where
  "default_caddy_mesh_network = ''coolify-default-mesh''"

definition default_firewall_proto :: string where
  "default_firewall_proto = ''tcp''"

definition firewall_allow_from_json :: "json \<Rightarrow> firewall_allow_payload option" where
  "firewall_allow_from_json v =
     Option.bind (req_field v ''id'' as_str) (\<lambda>i.
     Option.bind (req_field v ''namespace'' as_str) (\<lambda>n.
     Option.bind (req_field v ''src'' as_str) (\<lambda>s.
     Option.bind (req_field v ''dst'' as_str) (\<lambda>d.
     Option.bind (opt_field v ''proto'' as_str default_firewall_proto) (\<lambda>pr.
     Option.bind (req_field v ''port'' json_u32) (\<lambda>po.
     Some \<lparr>fa_id = i, fa_namespace = n, fa_src = s, fa_dst = d, fa_proto = pr, fa_port = po\<rparr>))))))"

definition id_timeout :: "(string \<Rightarrow> u32 \<Rightarrow> 'a) \<Rightarrow> json \<Rightarrow> 'a option" where
  "id_timeout mk v =
     Option.bind (req_field v ''id'' as_str) (\<lambda>i.
     Option.bind (opt_field v ''timeout_seconds'' json_u32 0) (\<lambda>t. Some (mk i t)))"

definition key_force :: "string \<Rightarrow> (string \<Rightarrow> bool \<Rightarrow> 'a) \<Rightarrow> json \<Rightarrow> 'a option" where
  "key_force k mk v =
     Option.bind (req_field v k as_str) (\<lambda>i.
     Option.bind (opt_field v ''force'' json_bool False) (\<lambda>f. Some (mk i f)))"

definition id_only :: "string \<Rightarrow> (string \<Rightarrow> 'a) \<Rightarrow> json \<Rightarrow> 'a option" where
  "id_only k mk v = map_option mk (req_field v k as_str)"

definition containers_logs_from_json :: "json \<Rightarrow> command_payload option" where
  "containers_logs_from_json v =
     Option.bind (req_field v ''id'' as_str) (\<lambda>i.
     Option.bind (opt_field v ''tail'' json_u32 0) (\<lambda>t.
     Option.bind (opt_field v ''stdout'' json_bool default_logs_stdout) (\<lambda>out.
     Option.bind (opt_field v ''stderr'' json_bool False) (\<lambda>err.
     Some (ContainersLogs i t out err)))))"

definition containers_exec_from_json :: "json \<Rightarrow> command_payload option" where
  "containers_exec_from_json v =
     Option.bind (req_field v ''id'' as_str) (\<lambda>i.
     Option.bind (req_field v ''command'' json_strs) (\<lambda>c. Some (ContainersExec i c)))"

definition apply_ingress_from_json :: "json \<Rightarrow> command_payload option" where
  "apply_ingress_from_json v =
     Option.bind (opt_field v ''kind'' as_str default_ingress_kind) (\<lambda>k.
     Option.bind (alias_field v ''config'' ''caddyfile'' as_str) (\<lambda>c.
     Option.bind (opt_field v ''apps'' (json_vec ingress_app_from_json) []) (\<lambda>apps.
     Option.bind (opt_field v ''mesh_network'' as_str default_caddy_mesh_network) (\<lambda>m.
     Some (ApplyIngress k c apps m)))))"

text \<open>One reader per variant, under its tag and its aliases.\<close>

definition command_readers :: "(string \<times> (json \<Rightarrow> command_payload option)) list" where
  "command_readers =
     [(''images.pull'', id_only ''reference'' ImagesPull),
      (''images.list'', \<lambda>_. Some ImagesList),
      (''images.delete'', key_force ''reference'' ImagesDelete),
      (''containers.create'', \<lambda>v. map_option ContainersCreate (containers_create_from_json v)),
      (''containers.start'', id_only ''id'' ContainersStart),
      (''containers.stop'', id_timeout ContainersStop),
      (''containers.restart'', id_timeout ContainersRestart),
      (''containers.delete'', key_force ''id'' ContainersDelete),
      (''containers.inspect'', id_only ''id'' ContainersInspect),
      (''containers.list'', \<lambda>_. Some ContainersList),
      (''containers.logs'', containers_logs_from_json),
      (''containers.exec'', containers_exec_from_json),
      (''containers.healthcheck.run'', id_only ''id'' ContainersHealthcheckRun),
      (''ingress.apply'', apply_ingress_from_json),
      (''apply_caddy_ingress'', apply_ingress_from_json),
      (''ingress.stop'', \<lambda>v. map_option StopIngress (opt_field v ''kind'' as_str default_ingress_kind)),
      (''stop_caddy_ingress'', \<lambda>v. map_option StopIngress (opt_field v ''kind'' as_str default_ingress_kind)),
      (''firewall.allow'', \<lambda>v. map_option FirewallAllow (firewall_allow_from_json v)),
      (''firewall.revoke'', id_only ''id'' FirewallRevoke),
      (''firewall.list'', \<lambda>v. map_option FirewallList (opt_field v ''namespace'' as_str [])),
      (''firewall.reconcile'', \<lambda>_. Some FirewallReconcile),
      (''coold.logs'', \<lambda>v. map_option CooldLogs (opt_field v ''tail'' json_u32 default_coold_logs_tail)),
      (''corrosion.tables'',
         \<lambda>v. map_option CorrosionTables (opt_field v ''limit'' json_u32 default_corrosion_tables_limit)),
      (''host.jwt.set'', id_only ''jwt'' HostJwtSet)]"

definition command_from_json :: "json \<Rightarrow> command_payload option" where
  "command_from_json v =
     Option.bind (req_field v ''type'' as_str) (\<lambda>tag.
     Option.bind (map_of command_readers tag) (\<lambda>rd. rd v))"

definition envelope_from_json :: "json \<Rightarrow> dispatch_envelope option" where
  "envelope_from_json v =
     Option.bind (req_field v ''host_id'' as_str) (\<lambda>h.
     Option.bind (req_field v ''request_id'' as_str) (\<lambda>r.
     Option.bind (req_field v ''command'' command_from_json) (\<lambda>c.
     Some \<lparr>de_host_id = h, de_request_id = r, de_command = c\<rparr>)))"

definition canonical_tag :: "string \<Rightarrow> string" where
  "canonical_tag t =
     (if t = ''apply_caddy_ingress'' then ''ingress.apply''
      else if t = ''stop_caddy_ingress'' then ''ingress.stop'' else t)"

definition reads_kind :: "string \<Rightarrow> (json \<Rightarrow> command_payload option) \<Rightarrow> bool" where
  "reads_kind k rd \<longleftrightarrow> (\<forall>v c. rd v = Some c \<longrightarrow> kind c = k)"

lemma reads_kind_simple:
  "(\<And>x. kind (mk0 x) = k) \<Longrightarrow> reads_kind k (\<lambda>v. map_option mk0 (f v))"
  "kind c = k \<Longrightarrow> reads_kind k (\<lambda>_. Some c)"
  "(\<And>x. kind (mk x) = k) \<Longrightarrow> reads_kind k (id_only key mk)"
  "(\<And>x y. kind (mk2 x y) = k) \<Longrightarrow> reads_kind k (id_timeout mk2)"
  "(\<And>x y. kind (mk3 x y) = k) \<Longrightarrow> reads_kind k (key_force key mk3)"
  by (auto simp: reads_kind_def id_only_def id_timeout_def key_force_def bind_eq_Some_conv)

lemma reads_kind_compound:
  "reads_kind ''containers.logs'' containers_logs_from_json"
  "reads_kind ''containers.exec'' containers_exec_from_json"
  "reads_kind ''ingress.apply'' apply_ingress_from_json"
  by (auto simp: reads_kind_def containers_logs_from_json_def containers_exec_from_json_def
      apply_ingress_from_json_def bind_eq_Some_conv)

lemma reader_kind: "\<forall>(tag, rd)\<in>set command_readers. reads_kind (canonical_tag tag) rd"
  by (simp add: command_readers_def canonical_tag_def reads_kind_simple reads_kind_compound)

section \<open>Responses\<close>

text \<open>\<open>ResponseBody\<close>, with \<open>Ok\<close> and \<open>Error\<close>.\<close>

datatype response_body = Ok json | Error u32 string

record response_envelope =
  re_request_id :: string
  re_body :: response_body

definition container_json :: "container_summary \<Rightarrow> json" where
  "container_json c = JObject
     [(''id'', JString (cs_id c)), (''name'', JString (cs_name c)),
      (''image'', JString (cs_image c)), (''state'', JString (cs_state c)),
      (''networks'', jstrings (cs_networks c))]"

definition image_json :: "image_summary \<Rightarrow> json" where
  "image_json i = JObject
     [(''id'', JString (im_id i)), (''repo_tags'', jstrings (im_repo_tags i)),
      (''repo_digests'', jstrings (im_repo_digests i)), (''size'', jint (im_size i)),
      (''created'', JString (im_created i))]"

definition firewall_rule_json :: "proto_firewall_rule \<Rightarrow> json" where
  "firewall_rule_json r = JObject
     [(''id'', JString (pf_id r)), (''namespace'', JString (pf_namespace r)),
      (''src'', JString (pf_src r)), (''dst'', JString (pf_dst r)),
      (''proto'', JString (pf_proto r)), (''port'', jint (uint (pf_port r)))]"

definition output_json :: "string \<Rightarrow> json" where
  "output_json out = JObject [(''output'', JString out)]"

fun body_from_proto :: "(string \<Rightarrow> json option) \<Rightarrow> proto_body \<Rightarrow> response_body" where
  "body_from_proto jp (BContainersList cs) = Ok (JArray (map container_json cs))"
| "body_from_proto jp (BImagesPull digest out) =
     Ok (JObject [(''digest'', JString digest), (''output'', JString out)])"
| "body_from_proto jp (BImagesList images) = Ok (JArray (map image_json images))"
| "body_from_proto jp (BImagesDelete out) = Ok (output_json out)"
| "body_from_proto jp (BContainersCreate i) = Ok (JObject [(''id'', JString i)])"
| "body_from_proto jp (BContainersStart out) = Ok (output_json out)"
| "body_from_proto jp (BContainersStop out) = Ok (output_json out)"
| "body_from_proto jp (BContainersRestart out) = Ok (output_json out)"
| "body_from_proto jp (BContainersDelete out) = Ok (output_json out)"
| "body_from_proto jp (BContainersInspect txt) =
     Ok (case jp txt of Some v \<Rightarrow> v | None \<Rightarrow> JObject [(''raw'', JString txt)])"
| "body_from_proto jp (BContainersLogs out) = Ok (output_json out)"
| "body_from_proto jp (BContainersExec code out) =
     Ok (JObject [(''exit_code'', jint code), (''output'', JString out)])"
| "body_from_proto jp (BContainersHealthcheckRun out) = Ok (output_json out)"
| "body_from_proto jp (BIngressApply out) = Ok (output_json out)"
| "body_from_proto jp (BIngressStop out) = Ok (output_json out)"
| "body_from_proto jp (BFirewallAllow i out) =
     Ok (JObject [(''id'', JString i), (''output'', JString out)])"
| "body_from_proto jp (BFirewallRevoke out) = Ok (output_json out)"
| "body_from_proto jp (BFirewallList rules) = Ok (JArray (map firewall_rule_json rules))"
| "body_from_proto jp (BFirewallReconcile out) = Ok (output_json out)"
| "body_from_proto jp (BCooldLogs out) = Ok (output_json out)"
| "body_from_proto jp (BCorrosionTables out) = Ok (output_json out)"
| "body_from_proto jp (BHostJwtSet applied) = Ok (JObject [(''applied'', JBool applied)])"
| "body_from_proto jp (BError code msg) = Error code msg"

definition try_from_proto :: "(string \<Rightarrow> json option) \<Rightarrow> proto_response \<Rightarrow> response_body option" where
  "try_from_proto jp resp =
     (case pr_body resp of
        Some b \<Rightarrow> Some (body_from_proto jp b)
      | None \<Rightarrow> Some (Error 500 ''empty response body''))"

text \<open>Every coold response becomes a body: the conversion is total.\<close>

lemma try_from_proto_total: "\<exists>b. try_from_proto jp resp = Some b"
  by (simp add: try_from_proto_def split: option.splits)

lemma try_from_proto_not_None [simp]: "try_from_proto jp resp \<noteq> None"
  by (simp add: try_from_proto_def split: option.splits)

text \<open>An error body comes only from an error response or an empty one.\<close>

lemma body_from_proto_Error: "body_from_proto jp b = Error c m \<longleftrightarrow> b = BError c m"
  by (cases b) auto

text \<open>A command that is read from an envelope has the kind its \<open>type\<close> member names (the
  two old ingress tags stand for the new ones), and every tag outside the table is refused.\<close>

theorem command_kind_is_tag:
  "(command_from_json v = Some c \<longrightarrow>
      (\<exists>tag. json_get v ''type'' = Some (JString tag) \<and> tag \<in> fst ` set command_readers
         \<and> kind c = canonical_tag tag))
   \<and> (json_get v ''type'' = Some (JString t) \<longrightarrow> t \<notin> fst ` set command_readers \<longrightarrow>
        command_from_json v = None)"
proof -
  have str: "as_str x = Some s \<longleftrightarrow> x = JString s" for x s by (cases x) auto
  have "kind c = canonical_tag tag" if "map_of command_readers tag = Some rd" "rd v = Some c" for tag rd
    using reader_kind map_of_SomeD [OF that(1)] that(2) unfolding reads_kind_def by fast
  moreover have "map_of command_readers tag = Some rd \<Longrightarrow> tag \<in> fst ` set command_readers" for tag rd
    by (force dest: map_of_SomeD)
  moreover have "t \<notin> fst ` set command_readers \<Longrightarrow> map_of command_readers t = None"
    by (simp add: map_of_eq_None_iff)
  ultimately show ?thesis
    by (auto simp: command_from_json_def req_field_def bind_eq_Some_conv str)
qed

theorem command_kind_is_tag_witness:
  "\<exists>c. command_from_json (JObject [(''type'', JString ''stop_caddy_ingress'')]) = Some c
     \<and> kind c = ''ingress.stop''"
proof -
  have "command_from_json (JObject [(''type'', JString ''stop_caddy_ingress'')])
          = Some (StopIngress ''caddy'')"
    by code_simp
  with command_kind_is_tag [of "JObject [(''type'', JString ''stop_caddy_ingress'')]"
      "StopIngress ''caddy''"]
  show ?thesis by (simp add: canonical_tag_def)
qed

end
