(* ===== verification/FluxStreams.thy ===== *)
theory FluxStreams
  imports FluxEnvelope "HOL-Library.Multiset"
begin

text \<open>
  \<open>flux/src/state.rs\<close>, the stream table: one \<open>stream_entry\<close> per connected host, keyed by
  host id. The channel handle \<open>tx\<close> is a type parameter. \<open>Instant\<close>s and \<open>Duration\<close>s are
  natural numbers of nanoseconds; the reading of the clock an operation makes is its argument
  \<open>now\<close>.
\<close>

definition from_secs :: "u64 \<Rightarrow> nat" where
  "from_secs s = s * 1000000000"

section \<open>State and operations\<close>

record 'tx stream_handle =
  sh_tx :: 'tx
  sh_caps :: "string list"
  sh_advertised_caps :: "string list"

record 'tx stream_entry =
  se_tx :: 'tx
  se_caps :: "string list"
  se_advertised_caps :: "string list"
  se_last_seen_at :: nat
  se_reachable :: bool

type_synonym 'tx streams = "(string, 'tx stream_entry) hmap"

definition streams_new :: "'tx streams" where
  "streams_new = []"

definition fresh_entry :: "'tx stream_handle \<Rightarrow> nat \<Rightarrow> 'tx stream_entry" where
  "fresh_entry h now =
     \<lparr>se_tx = sh_tx h, se_caps = sh_caps h, se_advertised_caps = sh_advertised_caps h,
      se_last_seen_at = now, se_reachable = True\<rparr>"

definition streams_insert :: "nat \<Rightarrow> string \<Rightarrow> 'tx stream_handle \<Rightarrow> 'tx streams \<Rightarrow> 'tx streams" where
  "streams_insert now host_id h s = hm_insert host_id (fresh_entry h now) s"

definition update_capabilities :: "string \<Rightarrow> string list \<Rightarrow> 'tx streams \<Rightarrow> 'tx streams" where
  "update_capabilities host_id caps s = hm_modify host_id (\<lambda>e. e\<lparr>se_caps := caps\<rparr>) s"

definition streams_remove :: "string \<Rightarrow> 'tx streams \<Rightarrow> 'tx streams" where
  "streams_remove host_id s = hm_remove host_id s"

definition streams_get :: "'tx streams \<Rightarrow> string \<Rightarrow> 'tx stream_handle option" where
  "streams_get s host_id =
     map_option (\<lambda>e. \<lparr>sh_tx = se_tx e, sh_caps = se_caps e, sh_advertised_caps = se_advertised_caps e\<rparr>)
       (hm_get s host_id)"

definition get_tx :: "'tx streams \<Rightarrow> string \<Rightarrow> 'tx option" where
  "get_tx s host_id = map_option se_tx (hm_get s host_id)"

definition streams_len :: "'tx streams \<Rightarrow> nat" where
  "streams_len s = length s"

definition inventory_item :: "string \<times> 'tx stream_entry \<Rightarrow> stream_inventory_item" where
  "inventory_item p =
     \<lparr>si_host_id = fst p, si_caps = remdups_adj (sort (se_caps (snd p)))\<rparr>"

definition snapshot :: "'tx streams \<Rightarrow> stream_inventory_item list" where
  "snapshot s = sort_key si_host_id (map inventory_item s)"

definition touch :: "nat \<Rightarrow> string \<Rightarrow> 'tx streams \<Rightarrow> bool \<times> 'tx streams" where
  "touch now host_id s =
     (case hm_get s host_id of
        None \<Rightarrow> (False, s)
      | Some e \<Rightarrow>
          (\<not> se_reachable e,
           hm_modify host_id (\<lambda>e. e\<lparr>se_last_seen_at := now, se_reachable := True\<rparr>) s))"

definition ping_targets :: "'tx streams \<Rightarrow> (string \<times> 'tx) list" where
  "ping_targets s = map (\<lambda>(k, e). (k, se_tx e)) s"

text \<open>\<open>now.duration_since(t)\<close> saturates at zero, as \<open>nat\<close> subtraction does.\<close>

definition is_stale :: "nat \<Rightarrow> nat \<Rightarrow> 'tx stream_entry \<Rightarrow> bool" where
  "is_stale now timeout e = (se_reachable e \<and> timeout \<le> now - se_last_seen_at e)"

definition mark_stale :: "nat \<Rightarrow> nat \<Rightarrow> 'tx streams \<Rightarrow> string list \<times> 'tx streams" where
  "mark_stale now timeout s =
     (sort (map fst (filter (\<lambda>(k, e). is_stale now timeout e) s)),
      map (\<lambda>(k, e). (k, if is_stale now timeout e then e\<lparr>se_reachable := False\<rparr> else e)) s)"

section \<open>Laws\<close>

interpretation stream_store: keyed_store "hm_get :: 'tx streams \<Rightarrow> _" hm_insert hm_remove
  by unfold_locales simp_all

lemma streams_get_insert:
  "streams_get (streams_insert now h sh s) h' =
     (if h' = h then Some \<lparr>sh_tx = sh_tx sh, sh_caps = sh_caps sh,
                           sh_advertised_caps = sh_advertised_caps sh\<rparr>
      else streams_get s h')"
  by (simp add: streams_get_def streams_insert_def stream_store.lookup_put fresh_entry_def)

lemma streams_get_remove:
  "streams_get (streams_remove h s) h' = (if h' = h then None else streams_get s h')"
  by (simp add: streams_get_def streams_remove_def stream_store.lookup_del)

lemma streams_get_insert_same: "streams_get (streams_insert now h sh s) h = Some sh"
  for sh :: "'tx stream_handle"
  by (simp add: streams_get_insert)

lemma streams_wf_ops:
  "hm_wf s \<Longrightarrow> hm_wf (streams_insert now h sh s)"
  "hm_wf s \<Longrightarrow> hm_wf (update_capabilities h caps s)"
  "hm_wf s \<Longrightarrow> hm_wf (streams_remove h s)"
  by (simp_all add: streams_insert_def update_capabilities_def streams_remove_def
      hm_wf_insert hm_wf_modify hm_wf_remove)

lemma touch_wf: "hm_wf s \<Longrightarrow> hm_wf (snd (touch now h s))"
  by (auto simp: touch_def split: option.splits)

lemma mark_stale_keys: "map fst (snd (mark_stale now t s)) = map fst s"
  by (simp add: mark_stale_def comp_def case_prod_beta)

lemma mark_stale_wf: "hm_wf s \<Longrightarrow> hm_wf (snd (mark_stale now t s))"
  by (simp add: hm_wf_def mark_stale_keys)

lemma mark_stale_get:
  "hm_get (snd (mark_stale now t s)) h =
     map_option (\<lambda>e. if is_stale now t e then e\<lparr>se_reachable := False\<rparr> else e) (hm_get s h)"
  by (induction s) (auto simp: mark_stale_def)

lemma mark_stale_reports:
  assumes "hm_wf s"
  shows "h \<in> set (fst (mark_stale now t s)) \<longleftrightarrow> (\<exists>e. hm_get s h = Some e \<and> is_stale now t e)"
  using assms by (force simp: mark_stale_def hm_get_mem)

lemma mark_stale_sorted: "sorted (fst (mark_stale now t s))"
  by (simp add: mark_stale_def)

lemma mark_stale_none_stale:
  "is_stale now' t' (if is_stale now t e then e\<lparr>se_reachable := False\<rparr> else e) \<Longrightarrow>
   is_stale now' t' e \<and> \<not> is_stale now t e"
  by (auto simp: is_stale_def split: if_splits)

section \<open>Properties\<close>

text \<open>The heartbeat sweep reports, in order, exactly the reachable hosts that were silent
  for the timeout, and marks them; a marked host is not reported again by any later sweep until
  \<open>touch\<close>, which answers that the host was restored and resets its clock.\<close>

theorem heartbeat_reports_once:
  assumes "hm_wf s" "mark_stale now t s = (lost, s1)"
  shows "sorted lost
       \<and> (\<forall>h. h \<in> set lost \<longleftrightarrow>
            (\<exists>e. hm_get s h = Some e \<and> se_reachable e \<and> t \<le> now - se_last_seen_at e))
       \<and> (h \<in> set lost \<longrightarrow> h \<notin> set (fst (mark_stale now2 t2 s1)))
       \<and> (h \<in> set lost \<longrightarrow> fst (touch now3 h s1)
            \<and> (0 < t2 \<longrightarrow> h \<notin> set (fst (mark_stale now3 t2 (snd (touch now3 h s1)))))
            \<and> (t2 \<le> now4 - now3 \<longrightarrow> h \<in> set (fst (mark_stale now4 t2 (snd (touch now3 h s1))))))"
proof -
  have s1: "s1 = snd (mark_stale now t s)" and l: "lost = fst (mark_stale now t s)"
    using assms(2) by simp_all
  have wf: "hm_wf s1" using assms(1) by (simp add: s1 mark_stale_wf)
  note rep = mark_stale_reports [OF assms(1)] mark_stale_reports [OF wf]
    mark_stale_reports [OF hm_wf_modify [OF wf]]
  have get: "hm_get s1 h = map_option (\<lambda>e. if is_stale now t e then e\<lparr>se_reachable := False\<rparr> else e)
               (hm_get s h)" for h
    by (simp add: s1 mark_stale_get)
  show ?thesis
    by (auto simp: l rep mark_stale_sorted get is_stale_def touch_def split: if_splits)
qed

theorem heartbeat_reports_once_witness:
  "fst (touch 200 ''h'' (snd (mark_stale 100 90
      (streams_insert 0 ''h'' \<lparr>sh_tx = (), sh_caps = [], sh_advertised_caps = []\<rparr> streams_new))))"
proof -
  let ?s = "streams_insert 0 ''h'' \<lparr>sh_tx = (), sh_caps = [], sh_advertised_caps = []\<rparr> streams_new"
  have "hm_wf ?s" by (simp add: streams_wf_ops streams_new_def)
  from heartbeat_reports_once [OF this surjective_pairing [of "mark_stale 100 90 ?s"],
      of "''h''" 0 0 200 0]
  show ?thesis by (simp add: streams_insert_def streams_new_def fresh_entry_def)
qed

text \<open>The inventory lists every connected host exactly once, ordered by host id, each with
  its capabilities sorted and without repetition.\<close>

theorem snapshot_exact:
  assumes "hm_wf s"
  shows "map si_host_id (snapshot s) = sorted_list_of_set (fst ` set s)
       \<and> (\<forall>i\<in>set (snapshot s). \<exists>e. hm_get s (si_host_id i) = Some e
             \<and> sorted (si_caps i) \<and> distinct (si_caps i) \<and> set (si_caps i) = set (se_caps e))"
proof -
  have "mset (map si_host_id (snapshot s)) = mset (map fst s)"
    by (simp add: snapshot_def inventory_item_def multiset.map_comp comp_def)
  moreover have "sorted (map si_host_id (snapshot s))"
    by (simp add: snapshot_def)
  moreover have "distinct (map si_host_id (snapshot s))"
    using assms calculation(1) mset_eq_imp_distinct_iff by (fastforce simp: hm_wf_def)
  ultimately have "map si_host_id (snapshot s) = sorted_list_of_set (fst ` set s)"
    by (metis list.set_map mset_eq_setD sorted_list_of_set.idem_if_sorted_distinct)
  then show ?thesis
    using assms sorted_distinct_dedup
    by (fastforce simp: snapshot_def inventory_item_def hm_get_mem)
qed

theorem snapshot_exact_witness:
  "map si_host_id (snapshot (streams_insert 0 ''b'' \<lparr>sh_tx = (), sh_caps = [], sh_advertised_caps = []\<rparr>
     (streams_insert 0 ''a'' \<lparr>sh_tx = (), sh_caps = [], sh_advertised_caps = []\<rparr> streams_new)))
     = [''a'', ''b'']"
proof -
  let ?s = "streams_insert 0 ''b'' \<lparr>sh_tx = (), sh_caps = [], sh_advertised_caps = []\<rparr>
     (streams_insert 0 ''a'' \<lparr>sh_tx = (), sh_caps = [], sh_advertised_caps = []\<rparr> streams_new)"
  have "hm_wf ?s" by (simp add: streams_wf_ops streams_new_def)
  from snapshot_exact [OF this] show ?thesis
    by (simp add: streams_insert_def streams_new_def)
qed

end
