(* ===== verification/FluxConfig.thy ===== *)
theory FluxConfig
  imports FluxStreams
begin

text \<open>
  \<open>flux/src/config.rs\<close>, \<open>flux/src/registry.rs\<close> and \<open>flux/src/resource_status.rs\<close>: the
  configuration and the two clients that report to the control plane. Command-line parsing is a
  library's; \<open>config_load\<close> starts from what it parsed. The HTTP client is the parameter
  \<open>send\<close>: what one request is answered.
\<close>

section \<open>Configuration\<close>

record config =
  cf_grpc_bind :: string
  cf_unix_socket_path :: string
  cf_unix_socket_group :: "string option"
  cf_pending_max :: usize
  cf_jwt_public_key_path :: string
  cf_jwt_public_key :: string
  cf_jwt_keys_dir :: "string option"
  cf_jwt_additional_keys :: "(string, string) hmap"
  cf_require_host_binding :: bool
  cf_require_team_id :: bool
  cf_allow_wildcard_capabilities :: bool
  cf_max_token_lifetime_secs :: u64
  cf_revocation_path :: string
  cf_tls_cert_path :: "string option"
  cf_tls_key_path :: "string option"
  cf_log_level :: string
  cf_dispatch_timeout_secs :: u64
  cf_flux_id :: "string option"
  cf_flux_public_url :: "string option"
  cf_flux_internal_url :: "string option"
  cf_flux_region :: "string option"
  cf_laravel_api_url :: "string option"
  cf_laravel_api_token :: "string option"
  cf_agent_capacity :: usize
  cf_laravel_heartbeat_interval_secs :: u64
  cf_coold_ping_interval_secs :: u64
  cf_coold_pong_timeout_secs :: u64

definition env_flag :: "string option \<Rightarrow> bool" where
  "env_flag v =
     (case v of
        None \<Rightarrow> False
      | Some s \<Rightarrow> to_ascii_lowercase (trim s) \<in> {''1'', ''true'', ''yes'', ''on''})"

definition flag_default_true :: "string option \<Rightarrow> bool" where
  "flag_default_true v =
     (case v of
        None \<Rightarrow> True
      | Some s \<Rightarrow> to_ascii_lowercase (trim s) \<notin> {''0'', ''false'', ''no'', ''off''})"

text \<open>The directory listing is a list of file names with what reading each gives. \<open>Path::file_stem\<close>
  and \<open>Path::extension\<close> split a name at its last dot, unless that dot is its first character.\<close>

definition stem_and_extension :: "string \<Rightarrow> string \<times> string option" where
  "stem_and_extension f =
     (case rsplit_once (CHR ''.'') f of
        Some (a # as, ext) \<Rightarrow> (a # as, Some ext)
      | _ \<Rightarrow> (f, None))"

fun load_keys :: "string \<Rightarrow> (string, string) hmap \<Rightarrow> (string \<times> string result) list \<Rightarrow> (string, string) hmap result" where
  "load_keys dir keys [] = Inr keys"
| "load_keys dir keys ((name, contents) # rest) =
     (case stem_and_extension name of
        (kid, ext) \<Rightarrow>
          if ext \<noteq> Some ''pub'' then load_keys dir keys rest
          else (case contents of
                  Inl e \<Rightarrow> Inl (''read JWT key '' @ dir @ ''/'' @ name @ '': '' @ e)
                | Inr pem \<Rightarrow> load_keys dir (hm_insert kid pem keys) rest))"

definition load_jwt_keys_dir ::
  "string option \<Rightarrow> (string \<times> string result) list result \<Rightarrow> (string, string) hmap result" where
  "load_jwt_keys_dir dir listing =
     (case dir of
        None \<Rightarrow> Inr []
      | Some d \<Rightarrow>
          (case listing of
             Inl e \<Rightarrow> Inl (''read JWT keys dir '' @ d @ '': '' @ e)
           | Inr files \<Rightarrow> load_keys d [] files))"

definition config_load ::
  "config \<Rightarrow> string result \<Rightarrow> (string \<times> string result) list result \<Rightarrow> (string \<rightharpoonup> string) \<Rightarrow> config result" where
  "config_load parsed pubkey listing env =
     (case pubkey of
        Inl e \<Rightarrow> Inl (''read JWT pubkey '' @ cf_jwt_public_key_path parsed @ '': '' @ e)
      | Inr pem \<Rightarrow>
          and_then (load_jwt_keys_dir (cf_jwt_keys_dir parsed) listing) (\<lambda>keys.
            Inr (parsed
              \<lparr>cf_jwt_public_key := pem,
               cf_jwt_additional_keys := keys,
               cf_allow_wildcard_capabilities := env_flag (env ''COOLIFY_FLUX_ALLOW_WILDCARD_CAPABILITIES''),
               cf_require_host_binding := flag_default_true (env ''COOLIFY_FLUX_REQUIRE_HOST_BINDING''),
               cf_require_team_id := flag_default_true (env ''COOLIFY_FLUX_REQUIRE_TEAM_ID'')\<rparr>)))"

section \<open>Registry client\<close>

record http_request =
  hq_url :: string
  hq_bearer :: string
  hq_json :: json

text \<open>An answer: whether the status is a success, the status line and the body.\<close>

type_synonym http_send = "http_request \<Rightarrow> (bool \<times> string \<times> string) result"

record registry_client =
  rc_base_url :: string
  rc_token :: string
  rc_flux_id :: string
  rc_public_url :: string
  rc_internal_url :: string
  rc_region :: "string option"
  rc_capacity :: usize

definition from_config :: "config \<Rightarrow> registry_client option" where
  "from_config c =
     Option.bind (map_option (\<lambda>u. trim_end_matches (CHR ''/'') (trim u)) (cf_laravel_api_url c)) (\<lambda>base_url.
     Option.bind (map_option trim (cf_laravel_api_token c)) (\<lambda>token.
     Option.bind (map_option trim (cf_flux_id c)) (\<lambda>flux_id.
     Option.bind (map_option trim (cf_flux_public_url c)) (\<lambda>public_url.
     Option.bind (map_option trim (cf_flux_internal_url c)) (\<lambda>internal_url.
       if base_url = [] \<or> token = [] \<or> flux_id = [] \<or> public_url = [] \<or> internal_url = [] then None
       else Some \<lparr>rc_base_url = base_url, rc_token = token, rc_flux_id = flux_id,
                  rc_public_url = public_url, rc_internal_url = internal_url,
                  rc_region = cf_flux_region c, rc_capacity = cf_agent_capacity c\<rparr>)))))"

text \<open>The JSON of a payload: a field marked \<open>skip_serializing_if\<close> is absent when it is \<open>None\<close>.\<close>

definition opt_member :: "string \<Rightarrow> string option \<Rightarrow> (string \<times> json) list" where
  "opt_member k v = (case v of None \<Rightarrow> [] | Some s \<Rightarrow> [(k, JString s)])"

definition heartbeat_payload :: "registry_client \<Rightarrow> usize \<Rightarrow> json" where
  "heartbeat_payload c n = JObject
     ([(''flux_id'', JString (rc_flux_id c)), (''public_url'', JString (rc_public_url c)),
       (''internal_url'', JString (rc_internal_url c))]
      @ opt_member ''region'' (rc_region c)
      @ [(''capacity'', jint (int (rc_capacity c))), (''connected_agents_count'', jint (int n))])"

definition registry_post :: "http_send \<Rightarrow> registry_client \<Rightarrow> string \<Rightarrow> json \<Rightarrow> unit result" where
  "registry_post send c path payload =
     (let url = rc_base_url c @ path in
      case send \<lparr>hq_url = url, hq_bearer = rc_token c, hq_json = payload\<rparr> of
        Inl e \<Rightarrow> Inl (''POST Laravel registry '' @ url @ '': '' @ e)
      | Inr (ok, status, body) \<Rightarrow>
          if \<not> ok then Inl (''Laravel registry '' @ url @ '' returned '' @ status @ '': '' @ body)
          else Inr ())"

definition registry_heartbeat :: "http_send \<Rightarrow> registry_client \<Rightarrow> usize \<Rightarrow> unit result" where
  "registry_heartbeat send c n =
     registry_post send c ''/api/v1/internal/fluxs/heartbeat'' (heartbeat_payload c n)"

definition agent_connection_payload :: "string \<Rightarrow> string \<Rightarrow> string list \<Rightarrow> string option \<Rightarrow> json" where
  "agent_connection_payload flux_id host_id caps version = JObject
     ([(''flux_id'', JString flux_id), (''host_id'', JString host_id), (''capabilities'', jstrings caps)]
      @ opt_member ''coold_version'' version)"

definition upsert_connection ::
  "http_send \<Rightarrow> registry_client \<Rightarrow> string \<Rightarrow> string list \<Rightarrow> string option \<Rightarrow> unit result" where
  "upsert_connection send c host_id caps version =
     registry_post send c ''/api/v1/internal/agent-connections/upsert''
       (agent_connection_payload (rc_flux_id c) host_id caps version)"

definition disconnect_payload :: "string \<Rightarrow> string \<Rightarrow> string \<Rightarrow> json" where
  "disconnect_payload flux_id host_id reason = JObject
     [(''flux_id'', JString flux_id), (''host_id'', JString host_id), (''reason'', JString reason)]"

definition registry_disconnect ::
  "http_send \<Rightarrow> registry_client \<Rightarrow> string \<Rightarrow> string \<Rightarrow> unit result" where
  "registry_disconnect send c host_id reason =
     registry_post send c ''/api/v1/internal/agent-connections/disconnect''
       (disconnect_payload (rc_flux_id c) host_id reason)"

text \<open>One tick of \<open>heartbeat_loop\<close>: nothing without a client, otherwise one report.\<close>

definition heartbeat_loop_tick :: "http_send \<Rightarrow> config \<Rightarrow> 'tx streams \<Rightarrow> unit result option" where
  "heartbeat_loop_tick send c s =
     map_option (\<lambda>client. registry_heartbeat send client (streams_len s)) (from_config c)"

section \<open>Status publisher\<close>

record publisher =
  pb_endpoint_url :: "string option"
  pb_token :: "string option"

definition non_empty :: "string option \<Rightarrow> string option" where
  "non_empty v = (case v of Some s \<Rightarrow> if s = [] then None else Some s | None \<Rightarrow> None)"

definition publisher_new :: "string option \<Rightarrow> string option \<Rightarrow> publisher" where
  "publisher_new laravel_api_url token =
     \<lparr>pb_endpoint_url =
        map_option (\<lambda>url. url @ ''/api/v1/internal/flux/resource-status'')
          (non_empty (map_option (\<lambda>url. trim_end_matches (CHR ''/'') (trim url)) laravel_api_url)),
      pb_token = non_empty (map_option trim token)\<rparr>"

definition resource_status_payload :: "resource_status_update \<Rightarrow> json" where
  "resource_status_payload u = JObject
     [(''resource_type'', JString (rs_resource_type u)), (''host_id'', JString (rs_host_id u)),
      (''container_id'', JString (rs_container_id u)), (''container_name'', JString (rs_container_name u)),
      (''status'', JString (rs_status u)), (''status_message'', JString (rs_status_message u))]"

text \<open>\<open>publish\<close> makes at most one request and swallows its outcome.\<close>

definition publish :: "publisher \<Rightarrow> resource_status_update \<Rightarrow> http_request option" where
  "publish p update =
     (case pb_endpoint_url p of
        None \<Rightarrow> None
      | Some url \<Rightarrow>
          (case pb_token p of
             None \<Rightarrow> None
           | Some token \<Rightarrow>
               Some \<lparr>hq_url = url, hq_bearer = token, hq_json = resource_status_payload update\<rparr>))"

section \<open>Properties\<close>

text \<open>The security switches are safe by default. Host binding and the tenant requirement are
  off only for an explicit falsy value, wildcard capabilities are on only for an explicit truthy
  one, and with none of the variables set the loaded configuration enforces all three.\<close>

theorem security_switches_default_safe:
  assumes "config_load parsed pubkey listing env = Inr c"
  shows "(cf_require_host_binding c \<longleftrightarrow>
            \<not> (\<exists>v. env ''COOLIFY_FLUX_REQUIRE_HOST_BINDING'' = Some v
                 \<and> to_ascii_lowercase (trim v) \<in> {''0'', ''false'', ''no'', ''off''}))
       \<and> (cf_require_team_id c \<longleftrightarrow>
            \<not> (\<exists>v. env ''COOLIFY_FLUX_REQUIRE_TEAM_ID'' = Some v
                 \<and> to_ascii_lowercase (trim v) \<in> {''0'', ''false'', ''no'', ''off''}))
       \<and> (cf_allow_wildcard_capabilities c \<longleftrightarrow>
            (\<exists>v. env ''COOLIFY_FLUX_ALLOW_WILDCARD_CAPABILITIES'' = Some v
                 \<and> to_ascii_lowercase (trim v) \<in> {''1'', ''true'', ''yes'', ''on''}))"
  using assms
  by (auto simp: config_load_def and_then_eq_Inr flag_default_true_def env_flag_def
      split: sum.splits option.splits)

definition sample_config :: config where
  "sample_config =
     \<lparr>cf_grpc_bind = ''10.42.0.1:6443'', cf_unix_socket_path = ''/run/coolify/flux.sock'',
      cf_unix_socket_group = None, cf_pending_max = 10000, cf_jwt_public_key_path = ''/etc/coolify/jwt.pub'',
      cf_jwt_public_key = [], cf_jwt_keys_dir = None, cf_jwt_additional_keys = [],
      cf_require_host_binding = False, cf_require_team_id = False, cf_allow_wildcard_capabilities = False,
      cf_max_token_lifetime_secs = 3600, cf_revocation_path = ''/r.json'', cf_tls_cert_path = None,
      cf_tls_key_path = None, cf_log_level = ''info'', cf_dispatch_timeout_secs = 30, cf_flux_id = None,
      cf_flux_public_url = None, cf_flux_internal_url = None, cf_flux_region = None,
      cf_laravel_api_url = None, cf_laravel_api_token = None, cf_agent_capacity = 10000,
      cf_laravel_heartbeat_interval_secs = 10, cf_coold_ping_interval_secs = 10,
      cf_coold_pong_timeout_secs = 45\<rparr>"

definition loaded_sample_config :: config where
  "loaded_sample_config =
     sample_config\<lparr>cf_jwt_public_key := ''PEM'', cf_require_host_binding := True, cf_require_team_id := True\<rparr>"

lemma sample_config_load: "config_load sample_config (Inr ''PEM'') (Inr []) Map.empty = Inr loaded_sample_config"
  by (simp add: config_load_def load_jwt_keys_dir_def sample_config_def loaded_sample_config_def
      env_flag_def flag_default_true_def)

theorem security_switches_default_safe_witness:
  "cf_require_host_binding loaded_sample_config \<and> cf_require_team_id loaded_sample_config
     \<and> \<not> cf_allow_wildcard_capabilities loaded_sample_config"
  using security_switches_default_safe [OF sample_config_load] by simp

lemma load_keys_get:
  assumes "load_keys dir keys files = Inr m" "\<forall>k. hm_get keys k \<noteq> None \<longrightarrow> P k"
    and "\<forall>name pem k. (name, Inr pem) \<in> set files \<longrightarrow> stem_and_extension name = (k, Some ''pub'') \<longrightarrow> P k"
  shows "hm_get m kid \<noteq> None \<longrightarrow> P kid"
  using assms
proof (induction files arbitrary: keys)
  case (Cons f files)
  obtain name contents kid' ext where f: "f = (name, contents)" "stem_and_extension name = (kid', ext)"
    by (metis surj_pair)
  show ?case
  proof (cases "ext = Some ''pub''")
    case True
    with Cons.prems f obtain pem where c: "contents = Inr pem"
      and l: "load_keys dir (hm_insert kid' pem keys) files = Inr m"
      by (auto split: sum.splits)
    have "P kid'" using Cons.prems(3) f True c by auto
    then have "\<forall>k. hm_get (hm_insert kid' pem keys) k \<noteq> None \<longrightarrow> P k" using Cons.prems(2) by simp
    moreover have "\<forall>name pem k. (name, Inr pem) \<in> set files \<longrightarrow>
        stem_and_extension name = (k, Some ''pub'') \<longrightarrow> P k"
      using Cons.prems(3) by auto
    ultimately show ?thesis by (rule Cons.IH [OF l])
  next
    case False
    then show ?thesis using Cons.IH [of keys] Cons.prems f by simp
  qed
qed simp

text \<open>Every rotation key comes from a file of the key directory named by its \<open>kid\<close> with the
  extension \<open>pub\<close>; other files contribute no key.\<close>

theorem rotation_keys_from_pub_files:
  assumes "load_jwt_keys_dir dir (Inr files) = Inr keys" "hm_get keys kid = Some pem"
  shows "\<exists>name contents. (name, Inr contents) \<in> set files
           \<and> stem_and_extension name = (kid, Some ''pub'')"
proof -
  let ?P = "\<lambda>k. \<exists>name contents. (name, Inr contents) \<in> set files
              \<and> stem_and_extension name = (k, Some ''pub'')"
  obtain d where "load_keys d [] files = Inr keys"
    using assms by (cases dir) (auto simp: load_jwt_keys_dir_def)
  from load_keys_get [OF this, of ?P kid] assms(2) show ?thesis by auto
qed

theorem rotation_keys_from_pub_files_witness:
  "\<exists>name contents. (name, Inr contents) \<in> set [(''k1.pub'', Inr ''PEM''), (''notes.txt'', Inl ''x'')]
     \<and> stem_and_extension name = (''k1'', Some ''pub'')"
proof -
  have "load_jwt_keys_dir (Some ''/k'') (Inr [(''k1.pub'', Inr ''PEM''), (''notes.txt'', Inl ''x'')])
          = Inr [(''k1'', ''PEM'')]"
    by code_simp
  from rotation_keys_from_pub_files [OF this, of "''k1''" "''PEM''"] show ?thesis by simp
qed

end
