(* ===== verification/FluxRevocation.thy ===== *)
theory FluxRevocation
  imports Prelude "HOL-Library.Multiset"
begin

text \<open>
  \<open>flux/src/revocation.rs\<close>: the denylist of revoked token ids, held in memory and written to a
  JSON file. The disk is a map from paths to contents; the JSON writer and reader are parameters
  (\<open>to_json\<close>, \<open>of_json\<close>), and so is what the operating system answers to each file operation
  (\<open>io_faults\<close>). An error is the context message the code attaches.
\<close>

section \<open>State and operations\<close>

record revocation_entry =
  rv_jti :: string
  rv_expires_at :: "u64 option"

record revocation_store =
  st_inner :: "(string, u64 option) hmap"
  st_path :: "string option"

type_synonym disk = "string \<rightharpoonup> string"

text \<open>A failed write may have failed to open the temporary file (\<open>Some None\<close>) or have written the
  first \<open>n\<close> bytes of it (\<open>Some (Some n)\<close>).\<close>

record io_faults =
  io_mkdir :: bool
  io_serialize :: bool
  io_write :: "nat option option"
  io_rename :: bool

definition no_faults :: io_faults where
  "no_faults = \<lparr>io_mkdir = False, io_serialize = False, io_write = None, io_rename = False\<rparr>"

definition is_none_or :: "('a \<Rightarrow> bool) \<Rightarrow> 'a option \<Rightarrow> bool" where
  "is_none_or P x = (case x of None \<Rightarrow> True | Some a \<Rightarrow> P a)"

definition load_entries :: "u64 \<Rightarrow> revocation_entry list \<Rightarrow> (string, u64 option) hmap" where
  "load_entries now entries =
     hm_of_list (map (\<lambda>e. (rv_jti e, rv_expires_at e))
       (filter (\<lambda>e. is_none_or (\<lambda>exp. now < exp) (rv_expires_at e)) entries))"

text \<open>A missing file, an unreadable one and a malformed one all start empty.\<close>

definition load ::
  "(string \<Rightarrow> revocation_entry list option) \<Rightarrow> u64 \<Rightarrow> string \<Rightarrow> disk \<Rightarrow> revocation_store" where
  "load of_json now path d =
     \<lparr>st_inner =
        (case d path of
           Some bytes \<Rightarrow>
             (case of_json bytes of Some entries \<Rightarrow> load_entries now entries | None \<Rightarrow> [])
         | None \<Rightarrow> []),
      st_path = Some path\<rparr>"

definition in_memory :: revocation_store where
  "in_memory = \<lparr>st_inner = [], st_path = None\<rparr>"

definition revocation_list :: "revocation_store \<Rightarrow> revocation_entry list" where
  "revocation_list st =
     sort_key rv_jti (map (\<lambda>(j, e). \<lparr>rv_jti = j, rv_expires_at = e\<rparr>) (st_inner st))"

text \<open>\<open>Path::parent\<close> and \<open>Path::with_extension\<close> of a path that does not end in a slash.\<close>

definition path_parent :: "string \<Rightarrow> string" where
  "path_parent p = (case rsplit_once (CHR ''/'') p of None \<Rightarrow> [] | Some (d, _) \<Rightarrow> d)"

definition with_extension :: "string \<Rightarrow> string \<Rightarrow> string" where
  "with_extension p ext =
     (case rsplit_once (CHR ''/'') p of
        None \<Rightarrow> (case rsplit_once (CHR ''.'') p of Some (a # as, _) \<Rightarrow> a # as | _ \<Rightarrow> p) @ ''.'' @ ext
      | Some (d, f) \<Rightarrow>
          d @ ''/'' @ (case rsplit_once (CHR ''.'') f of Some (a # as, _) \<Rightarrow> a # as | _ \<Rightarrow> f) @ ''.'' @ ext)"

text \<open>\<open>persist\<close>: the directory, the temporary file, then the rename onto the path.\<close>

definition persist ::
  "(revocation_entry list \<Rightarrow> string) \<Rightarrow> io_faults \<Rightarrow> revocation_store \<Rightarrow> disk \<Rightarrow> unit result \<times> disk" where
  "persist to_json io st d =
     (case st_path st of
        None \<Rightarrow> (Inr (), d)
      | Some path \<Rightarrow>
          (let tmp = with_extension path ''json.tmp''; json = to_json (revocation_list st) in
           if io_mkdir io then (Inl (''create revocation dir '' @ path_parent path), d)
           else if io_serialize io then (Inl ''serialize revocations'', d)
           else case io_write io of
              Some None \<Rightarrow> (Inl (''write revocation tmp '' @ tmp), d)
            | Some (Some n) \<Rightarrow> (Inl (''write revocation tmp '' @ tmp), d(tmp \<mapsto> take n json))
            | None \<Rightarrow>
                (let d1 = d(tmp \<mapsto> json) in
                 if io_rename io then (Inl (''rename revocation file '' @ path), d1)
                 else (Inr (), (d1(tmp := None))(path := d1 tmp)))))"

definition revoke ::
  "(revocation_entry list \<Rightarrow> string) \<Rightarrow> io_faults \<Rightarrow> string \<Rightarrow> u64 option \<Rightarrow>
   revocation_store \<times> disk \<Rightarrow> unit result \<times> revocation_store \<times> disk" where
  "revoke to_json io jti expires_at sd =
     (let st = (fst sd)\<lparr>st_inner := hm_insert jti expires_at (st_inner (fst sd))\<rparr>;
          (r, d) = persist to_json io st (snd sd) in
      (r, st, d))"

definition unrevoke ::
  "(revocation_entry list \<Rightarrow> string) \<Rightarrow> io_faults \<Rightarrow> string \<Rightarrow>
   revocation_store \<times> disk \<Rightarrow> bool result \<times> revocation_store \<times> disk" where
  "unrevoke to_json io jti sd =
     (let removed = hm_get (st_inner (fst sd)) jti \<noteq> None;
          st = (fst sd)\<lparr>st_inner := hm_remove jti (st_inner (fst sd))\<rparr>;
          (r, d) = persist to_json io st (snd sd) in
      (and_then r (\<lambda>_. Inr removed), st, d))"

definition prune ::
  "(revocation_entry list \<Rightarrow> string) \<Rightarrow> io_faults \<Rightarrow> u64 \<Rightarrow>
   revocation_store \<times> disk \<Rightarrow> usize result \<times> revocation_store \<times> disk" where
  "prune to_json io now sd =
     (let before = length (st_inner (fst sd));
          kept = filter (\<lambda>(_, e). is_none_or (\<lambda>exp. now < exp) e) (st_inner (fst sd));
          st = (fst sd)\<lparr>st_inner := kept\<rparr>;
          pruned = before - length kept in
      if 0 < pruned
      then (let (r, d) = persist to_json io st (snd sd) in (and_then r (\<lambda>_. Inr pruned), st, d))
      else (Inr pruned, st, snd sd))"

definition is_revoked :: "revocation_store \<Rightarrow> string \<Rightarrow> bool" where
  "is_revoked st jti = (hm_get (st_inner st) jti \<noteq> None)"

section \<open>The interface of the auth layer\<close>

text \<open>
  What the auth layer (the trait \<open>RevocationCheck\<close>) relies on: the predicate after the store's
  operations.
\<close>

locale revocation_check =
  fixes revoked :: "'s \<Rightarrow> string \<Rightarrow> bool"
    and add :: "string \<Rightarrow> u64 option \<Rightarrow> 's \<Rightarrow> 's"
    and del :: "string \<Rightarrow> 's \<Rightarrow> 's"
  assumes revoked_add: "revoked (add j e s) j' \<longleftrightarrow> j' = j \<or> revoked s j'"
    and revoked_del: "revoked (del j s) j' \<longleftrightarrow> j' \<noteq> j \<and> revoked s j'"
begin

lemma revoked_fold_add: "j \<in> fst ` set js \<Longrightarrow> revoked (fold (\<lambda>(j, e). add j e) js s) j"
proof -
  have keep: "revoked s j \<Longrightarrow> revoked (fold (\<lambda>(j, e). add j e) js s) j" for s js
    by (induction js arbitrary: s) (auto simp: revoked_add)
  have "revoked (fold (\<lambda>(j, e). add j e) js (add j e s)) j" for e s js
    by (rule keep) (simp add: revoked_add)
  then show "j \<in> fst ` set js \<Longrightarrow> revoked (fold (\<lambda>(j, e). add j e) js s) j"
    by (induction js arbitrary: s) auto
qed

lemma revoked_add_del_other: "j \<noteq> j' \<Longrightarrow> revoked (del j' (add j e s)) j"
  by (simp add: revoked_add revoked_del)

end

definition revoke_mem :: "string \<Rightarrow> u64 option \<Rightarrow> revocation_store \<Rightarrow> revocation_store" where
  "revoke_mem jti e st = st\<lparr>st_inner := hm_insert jti e (st_inner st)\<rparr>"

definition unrevoke_mem :: "string \<Rightarrow> revocation_store \<Rightarrow> revocation_store" where
  "unrevoke_mem jti st = st\<lparr>st_inner := hm_remove jti (st_inner st)\<rparr>"

interpretation denylist: revocation_check is_revoked revoke_mem unrevoke_mem
  by unfold_locales (auto simp: is_revoked_def revoke_mem_def unrevoke_mem_def)

lemma revoke_store: "fst (snd (revoke tj io j e sd)) = revoke_mem j e (fst sd)"
  by (simp add: revoke_def revoke_mem_def Let_def split: prod.split)

lemma unrevoke_store: "fst (snd (unrevoke tj io j sd)) = unrevoke_mem j (fst sd)"
  by (simp add: unrevoke_def unrevoke_mem_def Let_def split: prod.split)

lemma prune_store:
  "st_inner (fst (snd (prune tj io now sd)))
     = filter (\<lambda>(_, e). is_none_or (\<lambda>exp. now < exp) e) (st_inner (fst sd))"
  by (simp add: prune_def Let_def split: prod.split)

lemma hm_get_filter:
  assumes "hm_wf m"
  shows "hm_get (filter (\<lambda>(_, e). P e) m) k = Some e \<longleftrightarrow> hm_get m k = Some e \<and> P e"
proof -
  have "hm_wf (filter (\<lambda>(_, e). P e) m)"
    using assms by (simp add: hm_wf_def distinct_map_filter_fst)
  with assms show ?thesis by (auto simp: hm_get_mem)
qed

lemma load_entries_get:
  assumes "distinct (map rv_jti es)"
  shows "hm_get (load_entries now es) j = Some e \<longleftrightarrow>
     (\<exists>x\<in>set es. rv_jti x = j \<and> rv_expires_at x = e \<and> is_none_or (\<lambda>exp. now < exp) e)"
proof -
  have "distinct (map fst (map (\<lambda>e. (rv_jti e, rv_expires_at e))
          (filter (\<lambda>e. is_none_or (\<lambda>exp. now < exp) (rv_expires_at e)) es)))"
    using assms by (simp add: comp_def distinct_map_filter)
  then show ?thesis
    by (auto simp: load_entries_def hm_get_of_list image_iff)
qed

lemma revocation_list_set:
  "set (revocation_list st) = (\<lambda>(j, e). \<lparr>rv_jti = j, rv_expires_at = e\<rparr>) ` set (st_inner st)"
  by (simp add: revocation_list_def)

lemma revocation_list_distinct:
  assumes "hm_wf (st_inner st)"
  shows "distinct (map rv_jti (revocation_list st))"
proof -
  have "mset (map rv_jti (revocation_list st)) = mset (map fst (st_inner st))"
    by (simp add: revocation_list_def multiset.map_comp comp_def case_prod_beta)
  with assms show ?thesis by (metis hm_wf_def mset_eq_imp_distinct_iff)
qed

lemma load_entries_list:
  assumes "hm_wf (st_inner st)"
  shows "hm_get (load_entries now (revocation_list st)) j = Some e \<longleftrightarrow>
     hm_get (st_inner st) j = Some e \<and> is_none_or (\<lambda>exp. now < exp) e"
  using assms
  by (force simp: load_entries_get [OF revocation_list_distinct] revocation_list_set hm_get_mem)

section \<open>Properties\<close>

text \<open>C22: The denylist survives a restart. When an operation's write succeeded, loading the file
  at any time gives back exactly the entries that were in memory and have not expired, so a
  revoked token stays revoked.\<close>

theorem persist_reload:
  assumes "hm_wf (st_inner st)" "st_path st = Some path"
    and "persist to_json io st d = (Inr (), d')"
    and "of_json (to_json (revocation_list st)) = Some (revocation_list st)"
  shows "hm_get (st_inner (load of_json now path d')) j = Some e \<longleftrightarrow>
           hm_get (st_inner st) j = Some e \<and> is_none_or (\<lambda>exp. now < exp) e"
proof -
  have "d' path = Some (to_json (revocation_list st))"
    using assms(2,3) by (auto simp: persist_def Let_def split: if_splits option.splits)
  then show ?thesis
    using assms(1,4) by (simp add: load_def load_entries_list)
qed

theorem persist_reload_witness:
  "hm_get (st_inner (load (\<lambda>s. if s = ''[a]'' then Some [\<lparr>rv_jti = ''a'', rv_expires_at = Some 9\<rparr>] else None)
       5 ''/d/r.json'' (snd (persist (\<lambda>_. ''[a]'') no_faults
          \<lparr>st_inner = [(''a'', Some 9)], st_path = Some ''/d/r.json''\<rparr> Map.empty)))) ''a''
     = Some (Some 9)"
proof -
  let ?st = "\<lparr>st_inner = [(''a'', Some (9::nat))], st_path = Some ''/d/r.json''\<rparr>"
  let ?p = "persist (\<lambda>_. ''[a]'') no_faults ?st Map.empty"
  have "?p = (Inr (), snd ?p)" by (simp add: persist_def no_faults_def Let_def)
  from persist_reload [OF _ _ this, of "''/d/r.json''"
      "\<lambda>s. if s = ''[a]'' then Some [\<lparr>rv_jti = ''a'', rv_expires_at = Some 9\<rparr>] else None" 5 "''a''" "Some 9"]
  show ?thesis by (simp add: hm_wf_def revocation_list_def is_none_or_def)
qed

text \<open>A revocation and its withdrawal act on the in-memory denylist at once and on that
  token id only, even when the write to disk fails and the call returns the error; a successful
  \<open>unrevoke\<close> says whether the id was listed.\<close>

theorem revoke_unrevoke_effect:
  "(is_revoked (fst (snd (revoke tj io j e sd))) j' \<longleftrightarrow> j' = j \<or> is_revoked (fst sd) j')
   \<and> (is_revoked (fst (snd (unrevoke tj io j sd))) j' \<longleftrightarrow> j' \<noteq> j \<and> is_revoked (fst sd) j')
   \<and> (fst (unrevoke tj io j sd) = Inr b \<longrightarrow> (b \<longleftrightarrow> is_revoked (fst sd) j))
   \<and> (st_path (fst sd) = None \<longrightarrow>
        fst (revoke tj io j e sd) = Inr () \<and> snd (snd (revoke tj io j e sd)) = snd sd)"
  by (auto simp: revoke_store unrevoke_store denylist.revoked_add denylist.revoked_del)
    (auto simp: unrevoke_def revoke_def is_revoked_def persist_def Let_def and_then_eq_Inr
      split: prod.splits)

theorem revoke_unrevoke_effect_witness:
  "fst (unrevoke (\<lambda>_. []) no_faults ''a'' (in_memory, Map.empty)) = Inr False"
proof -
  have "fst (unrevoke (\<lambda>_. []) no_faults ''a'' (in_memory, Map.empty)) = Inr False"
    by (simp add: unrevoke_def in_memory_def persist_def)
  with revoke_unrevoke_effect [of "\<lambda>_. []" no_faults "''a''" None "(in_memory, Map.empty)" "''a''" False]
  show ?thesis by simp
qed

text \<open>Pruning at \<open>now\<close> drops exactly the entries whose token has expired by then, keeps the
  entries without an expiry, and returns how many it dropped.\<close>

theorem prune_exact:
  assumes "hm_wf (st_inner (fst sd))"
  shows "(hm_get (st_inner (fst (snd (prune tj io now sd)))) j = Some e \<longleftrightarrow>
            hm_get (st_inner (fst sd)) j = Some e \<and> is_none_or (\<lambda>exp. now < exp) e)
       \<and> (fst (prune tj io now sd) = Inr n \<longrightarrow>
            length (st_inner (fst (snd (prune tj io now sd)))) + n = length (st_inner (fst sd)))"
proof
  let ?kept = "filter (\<lambda>(_, e). is_none_or (\<lambda>exp. now < exp) e) (st_inner (fst sd))"
  show "hm_get (st_inner (fst (snd (prune tj io now sd)))) j = Some e \<longleftrightarrow>
          hm_get (st_inner (fst sd)) j = Some e \<and> is_none_or (\<lambda>exp. now < exp) e"
    unfolding prune_store by (rule hm_get_filter [OF assms])
  have "length ?kept \<le> length (st_inner (fst sd))" by (rule length_filter_le)
  moreover have "fst (prune tj io now sd) = Inr n \<Longrightarrow> n = length (st_inner (fst sd)) - length ?kept"
    by (auto simp: prune_def Let_def and_then_eq_Inr split: if_splits prod.splits)
  ultimately show "fst (prune tj io now sd) = Inr n \<longrightarrow>
      length (st_inner (fst (snd (prune tj io now sd)))) + n = length (st_inner (fst sd))"
    unfolding prune_store by (metis le_add_diff_inverse)
qed

theorem prune_exact_witness:
  "hm_get (st_inner (fst (snd (prune (\<lambda>_. []) no_faults 5
      (\<lparr>st_inner = [(''a'', Some 9), (''b'', Some 5)], st_path = None\<rparr>, Map.empty))))) ''a'' = Some (Some 9)"
  using prune_exact [of "(\<lparr>st_inner = [(''a'', Some 9), (''b'', Some 5)], st_path = None\<rparr>, Map.empty)"
      "\<lambda>_. []" no_faults 5 "''a''" "Some 9" 1]
  by (simp add: hm_wf_def is_none_or_def)

end
