(* ===== verification/NetAddr.thy ===== *)
theory NetAddr
  imports Prelude
begin

text \<open>
  The addresses of \<open>std::net\<close>: an \<open>Ipv4Addr\<close> is its 32-bit value (\<open>u32::from(ip)\<close>), an
  \<open>Ipv6Addr\<close> its eight 16-bit segments. \<open>read_ipv4\<close>, \<open>read_groups\<close> and \<open>read_ipv6\<close> follow the
  standard library's recursive-descent parser: they return the value and the unread input.
\<close>

type_synonym ipv4 = u32

datatype ip_addr = V4 ipv4 | V6 "u16 list"

definition octet :: "ipv4 \<Rightarrow> nat \<Rightarrow> nat" where
  "octet a i = unat a div 256 ^ (3 - i) mod 256"

definition octets :: "ipv4 \<Rightarrow> nat list" where
  "octets a = [octet a 0, octet a 1, octet a 2, octet a 3]"

definition of_octets :: "nat \<Rightarrow> nat \<Rightarrow> nat \<Rightarrow> nat \<Rightarrow> ipv4" where
  "of_octets a b c d = word_of_nat (((a * 256 + b) * 256 + c) * 256 + d)"

definition show_ipv4 :: "ipv4 \<Rightarrow> string" where
  "show_ipv4 a = join ''.'' (map show_nat (octets a))"

text \<open>\<open>Display\<close> of an \<open>Ipv6Addr\<close>: an IPv4-mapped address ends in its dotted form; otherwise the first
  longest run of at least two zero segments is printed as two colons.\<close>

fun show_hex :: "nat \<Rightarrow> string" where
  "show_hex n = (if n < 16 then [hex_digit n] else show_hex (n div 16) @ [hex_digit (n mod 16)])"

declare show_hex.simps [simp del]

fun zero_span :: "nat \<Rightarrow> u16 list \<Rightarrow> nat \<times> nat \<Rightarrow> nat \<times> nat \<Rightarrow> nat \<times> nat" where
  "zero_span i [] current longest = longest"
| "zero_span i (g # gs) (start, len) longest =
     (if g = 0 then
        (let current = (if len = 0 then i else start, Suc len) in
         zero_span (Suc i) gs current (if snd longest < snd current then current else longest))
      else zero_span (Suc i) gs (0, 0) longest)"

definition show_segments :: "u16 list \<Rightarrow> string" where
  "show_segments gs = join '':'' (map (\<lambda>g. show_hex (unat g)) gs)"

definition show_ipv6 :: "u16 list \<Rightarrow> string" where
  "show_ipv6 gs =
     (if take 6 gs = [0, 0, 0, 0, 0, 0xFFFF] then
        ''::ffff:'' @ show_ipv4 (of_octets (unat (gs ! 6) div 256) (unat (gs ! 6) mod 256)
                                        (unat (gs ! 7) div 256) (unat (gs ! 7) mod 256))
      else (case zero_span 0 gs (0, 0) (0, 0) of (start, len) \<Rightarrow>
        if 1 < len then show_segments (take start gs) @ ''::'' @ show_segments (drop (start + len) gs)
        else show_segments gs))"

definition show_ip :: "ip_addr \<Rightarrow> string" where
  "show_ip a = (case a of V4 v \<Rightarrow> show_ipv4 v | V6 gs \<Rightarrow> show_ipv6 gs)"

section \<open>Parsing\<close>

definition hex_val :: "char \<Rightarrow> nat option" where
  "hex_val c =
     (let n = of_char c :: nat in
      if 48 \<le> n \<and> n \<le> 57 then Some (n - 48)
      else if 97 \<le> n \<and> n \<le> 102 then Some (n - 87)
      else if 65 \<le> n \<and> n \<le> 70 then Some (n - 55)
      else None)"

fun take_digits :: "(char \<Rightarrow> nat option) \<Rightarrow> string \<Rightarrow> nat list \<times> string" where
  "take_digits dv [] = ([], [])"
| "take_digits dv (c # cs) =
     (case dv c of
        None \<Rightarrow> ([], c # cs)
      | Some d \<Rightarrow> (case take_digits dv cs of (ds, rest) \<Rightarrow> (d # ds, rest)))"

definition digits_num :: "nat \<Rightarrow> nat list \<Rightarrow> nat" where
  "digits_num radix ds = foldl (\<lambda>n d. n * radix + d) 0 ds"

definition read_octet :: "string \<Rightarrow> (nat \<times> string) option" where
  "read_octet s =
     (case take_digits digit_val s of
        (ds, rest) \<Rightarrow>
          if ds = [] \<or> 3 < length ds \<or> (hd ds = 0 \<and> 1 < length ds) \<or> 255 < digits_num 10 ds then None
          else Some (digits_num 10 ds, rest))"

definition read_char :: "char \<Rightarrow> string \<Rightarrow> string option" where
  "read_char c s = (case s of [] \<Rightarrow> None | x # xs \<Rightarrow> if x = c then Some xs else None)"

fun read_more_octets :: "nat \<Rightarrow> string \<Rightarrow> (nat list \<times> string) option" where
  "read_more_octets 0 s = Some ([], s)"
| "read_more_octets (Suc n) s =
     (case read_char (CHR ''.'') s of
        None \<Rightarrow> None
      | Some s1 \<Rightarrow>
          (case read_octet s1 of
             None \<Rightarrow> None
           | Some (d, s2) \<Rightarrow>
               (case read_more_octets n s2 of
                  None \<Rightarrow> None
                | Some (ds, s3) \<Rightarrow> Some (d # ds, s3))))"

definition read_ipv4 :: "string \<Rightarrow> (ipv4 \<times> string) option" where
  "read_ipv4 s =
     (case read_octet s of
        None \<Rightarrow> None
      | Some (a, s1) \<Rightarrow>
          (case read_more_octets 3 s1 of
             Some ([b, c, d], s2) \<Rightarrow> Some (of_octets a b c d, s2)
           | _ \<Rightarrow> None))"

definition read_group :: "string \<Rightarrow> (u16 \<times> string) option" where
  "read_group s =
     (case take_digits hex_val s of
        (ds, rest) \<Rightarrow>
          if ds = [] \<or> 4 < length ds then None
          else Some (word_of_nat (digits_num 16 ds), rest))"

text \<open>\<open>read_separator\<close>: a colon before every group but the first.\<close>

definition read_sep :: "nat \<Rightarrow> string \<Rightarrow> string option" where
  "read_sep i s = (if i = 0 then Some s else read_char (CHR '':'') s)"

text \<open>\<open>read_groups i room s\<close>: the groups from position \<open>i\<close> on, at most \<open>room\<close> of them, and
  whether the last two came from a dotted IPv4 tail.\<close>

fun read_groups :: "nat \<Rightarrow> nat \<Rightarrow> string \<Rightarrow> u16 list \<times> bool \<times> string" where
  "read_groups i 0 s = ([], False, s)"
| "read_groups i (Suc room) s =
     (case read_sep i s of
        None \<Rightarrow> ([], False, s)
      | Some s1 \<Rightarrow>
          (case (if room = 0 then None else read_ipv4 s1) of
             Some (a, s2) \<Rightarrow>
               ([word_of_nat (unat a div 65536), word_of_nat (unat a mod 65536)], True, s2)
           | None \<Rightarrow>
               (case read_group s1 of
                  None \<Rightarrow> ([], False, s)
                | Some (g, s2) \<Rightarrow>
                    (case read_groups (Suc i) room s2 of
                       (gs, v4, s3) \<Rightarrow> (g # gs, v4, s3)))))"

definition read_ipv6 :: "string \<Rightarrow> (u16 list \<times> string) option" where
  "read_ipv6 s =
     (case read_groups 0 8 s of
        (head, v4, s1) \<Rightarrow>
          if length head = 8 then Some (head, s1)
          else if v4 then None
          else (case read_char (CHR '':'') s1 of
                  None \<Rightarrow> None
                | Some s2 \<Rightarrow>
                    (case read_char (CHR '':'') s2 of
                       None \<Rightarrow> None
                     | Some s3 \<Rightarrow>
                         (case read_groups 0 (8 - (length head + 1)) s3 of
                            (tail, _, s4) \<Rightarrow>
                              Some (head @ replicate (8 - length head - length tail) 0 @ tail, s4)))))"

definition whole :: "('a \<times> string) option \<Rightarrow> 'a option" where
  "whole r = (case r of Some (a, []) \<Rightarrow> Some a | _ \<Rightarrow> None)"

definition parse_ipv4 :: "string \<Rightarrow> ipv4 option" where
  "parse_ipv4 s = (if 15 < length s then None else whole (read_ipv4 s))"

definition parse_ip :: "string \<Rightarrow> ip_addr option" where
  "parse_ip s =
     (case read_ipv4 s of
        Some (a, rest) \<Rightarrow> if rest = [] then Some (V4 a) else None
      | None \<Rightarrow> map_option V6 (whole (read_ipv6 s)))"

text \<open>\<open>SocketAddr\<close>: an IPv4 address with a port, or an IPv6 address in brackets with a port. The scope
  id of an IPv6 address is read and not kept.\<close>

definition read_number :: "nat \<Rightarrow> string \<Rightarrow> (nat \<times> string) option" where
  "read_number m s =
     (case take_digits digit_val s of
        (ds, rest) \<Rightarrow> if ds = [] \<or> m < digits_num 10 ds then None else Some (digits_num 10 ds, rest))"

definition read_port :: "string \<Rightarrow> (u16 \<times> string) option" where
  "read_port s =
     Option.bind (read_char (CHR '':'') s) (\<lambda>s1.
     map_option (\<lambda>(n, rest). (word_of_nat n, rest)) (read_number 65535 s1))"

definition skip_scope_id :: "string \<Rightarrow> string" where
  "skip_scope_id s =
     (case Option.bind (read_char (CHR 0x25) s) (read_number (2 ^ 32 - 1)) of Some (_, rest) \<Rightarrow> rest | None \<Rightarrow> s)"

definition read_socket_addr :: "string \<Rightarrow> ((ip_addr \<times> u16) \<times> string) option" where
  "read_socket_addr s =
     (case Option.bind (read_ipv4 s) (\<lambda>(a, s1). map_option (\<lambda>(p, s2). ((V4 a, p), s2)) (read_port s1)) of
        Some r \<Rightarrow> Some r
      | None \<Rightarrow>
          Option.bind (read_char (CHR ''['') s) (\<lambda>s1.
          Option.bind (read_ipv6 s1) (\<lambda>(gs, s2).
          Option.bind (read_char (CHR '']'') (skip_scope_id s2)) (\<lambda>s3.
          map_option (\<lambda>(p, s4). ((V6 gs, p), s4)) (read_port s3)))))"

definition parse_socket_addr :: "string \<Rightarrow> (ip_addr \<times> u16) option" where
  "parse_socket_addr s = whole (read_socket_addr s)"

section \<open>Printing and parsing agree\<close>

lemma octet_less [simp]: "octet a i < 256"
  by (simp add: octet_def)

lemma of_octets_octets: "of_octets (octet a 0) (octet a 1) (octet a 2) (octet a 3) = a"
proof -
  have b: "unat a < 256 * 16777216" by (rule order_less_le_trans [OF unsigned_less]) simp
  have "octet a 0 = unat a div 16777216" using b by (simp add: octet_def less_mult_imp_div_less)
  moreover have "octet a 1 = unat a div 65536 mod 256" "octet a 2 = unat a div 256 mod 256"
    "octet a 3 = unat a mod 256" by (simp_all add: octet_def)
  moreover have "n div 16777216 = n div 65536 div 256" "n div 65536 = n div 256 div 256" for n :: nat
    by (simp_all add: div_mult2_eq [symmetric])
  ultimately have "((octet a 0 * 256 + octet a 1) * 256 + octet a 2) * 256 + octet a 3 = unat a"
    by (simp add: div_mult_mod_eq)
  then show ?thesis by (simp add: of_octets_def)
qed

lemma take_digits_append:
  "(\<forall>c\<in>set xs. dv c \<noteq> None) \<Longrightarrow> (ys = [] \<or> dv (hd ys) = None) \<Longrightarrow>
   take_digits dv (xs @ ys) = (map (the \<circ> dv) xs, ys)"
proof (induction xs)
  case Nil
  then show ?case by (cases ys) auto
qed (auto split: option.splits)

lemma digits_num_val:
  "digits_val acc xs = Some n \<Longrightarrow> foldl (\<lambda>n d. n * 10 + d) acc (map (the \<circ> digit_val) xs) = n"
  by (induction xs arbitrary: acc) (auto split: option.splits simp: mult.commute)

lemma digits_num_show: "digits_num 10 (map (the \<circ> digit_val) (show_nat n)) = n"
  using digits_num_val [OF digits_val_show] by (simp add: digits_num_def)

lemma length_show_nat: "n < 1000 \<Longrightarrow> length (show_nat n) \<le> 3"
  by (simp add: show_nat.simps [of n] show_nat.simps [of "n div 10"] show_nat.simps [of "n div 10 div 10"])

lemma show_nat_head: "0 < n \<Longrightarrow> hd (show_nat n) \<noteq> digit_char 0"
proof (induction n rule: show_nat.induct)
  case (1 n)
  show ?case
  proof (cases "n < 10")
    case True
    with "1.prems" digit_val_char [of n] digit_val_char [of 0] show ?thesis
      by (auto simp: show_nat.simps [of n])
  next
    case False
    then have "0 < n div 10" by simp
    with False "1.IH" [OF False] show ?thesis by (simp add: show_nat.simps [of n])
  qed
qed

lemma digit_val_zero: "digit_val c = Some 0 \<longleftrightarrow> c = digit_char 0"
  by (auto simp: digit_val_def digit_char_def split: if_splits)
    (metis Suc_numeral char_of_char le_antisym)

lemma read_octet_show:
  assumes "n < 256" "ys = [] \<or> digit_val (hd ys) = None"
  shows "read_octet (show_nat n @ ys) = Some (n, ys)"
proof -
  let ?ds = "map (the \<circ> digit_val) (show_nat n)"
  have dig: "\<forall>c\<in>set (show_nat n). digit_val c \<noteq> None"
    using show_nat_digits by (auto simp: digit_val_def)
  then have td: "take_digits digit_val (show_nat n @ ys) = (?ds, ys)"
    using assms(2) by (rule take_digits_append)
  have len: "length ?ds \<le> 3" using length_show_nat [of n] assms(1) by simp
  have "\<not> (hd ?ds = 0 \<and> 1 < length ?ds)"
  proof (cases "n = 0")
    case True
    then show ?thesis by (simp add: show_nat.simps)
  next
    case False
    have "hd (show_nat n) \<in> set (show_nat n)" by simp
    with dig obtain d where d: "digit_val (hd (show_nat n)) = Some d" by blast
    with False show_nat_head [of n] digit_val_zero [of "hd (show_nat n)"] have "d \<noteq> 0" by auto
    with d show ?thesis by (simp add: hd_map)
  qed
  with td len assms(1) digits_num_show [of n] show ?thesis
    by (auto simp: read_octet_def)
qed

text \<open>An address printed is an address parsed.\<close>

lemma read_ipv4_show:
  assumes "ys = [] \<or> digit_val (hd ys) = None"
  shows "read_ipv4 (show_ipv4 a @ ys) = Some (a, ys)"
proof -
  have three: "read_more_octets 3 s = read_more_octets (Suc (Suc (Suc 0))) s" for s
    by (simp add: numeral_3_eq_3)
  have dot: "digit_val (CHR ''.'') = None" by (simp add: digit_val_def)
  show ?thesis
    using assms of_octets_octets [of a]
    by (simp add: show_ipv4_def octets_def read_ipv4_def read_octet_show read_char_def three dot)
qed

lemma length_show_ipv4: "length (show_ipv4 a) \<le> 15"
proof -
  have "length (show_nat (octet a i)) \<le> 3" for i
    using length_show_nat [of "octet a i"] octet_less [of a i] by simp
  from this [of 0] this [of 1] this [of 2] this [of 3] show ?thesis
    by (simp add: show_ipv4_def octets_def)
qed

lemma parse_show_ipv4: "parse_ipv4 (show_ipv4 a) = Some a"
  using read_ipv4_show [of "[]" a] length_show_ipv4 [of a]
  by (simp add: parse_ipv4_def whole_def)

lemma parse_ip_show_ipv4: "parse_ip (show_ipv4 a) = Some (V4 a)"
  using read_ipv4_show [of "[]" a] by (simp add: parse_ip_def)

lemma show_ipv4_inj: "show_ipv4 a = show_ipv4 b \<longleftrightarrow> a = b"
  by (metis option.inject parse_show_ipv4)

end
