(* ===== verification/FluxAuth.thy ===== *)
theory FluxAuth
  imports FluxRevocation Proto NetAddr
begin

text \<open>
  \<open>flux/src/auth.rs\<close>: verification of a host's token and its binding to the connecting host.
  The \<open>jsonwebtoken\<close> library is the parameter \<open>jwt_lib\<close>: reading a header, loading a key, and
  decoding a token with a key under a \<open>Validation\<close> at the library's clock reading, which yields
  the payload. The errors are values of \<open>auth_error\<close>, one per message of the code.
\<close>

section \<open>Claims\<close>

definition DEFAULT_KID :: string where
  "DEFAULT_KID = ''flux-default''"

record claims =
  cl_sub :: string
  cl_caps :: "string list"
  cl_exp :: u64
  cl_jti :: "string option"
  cl_team_id :: "string option"

fun number_to_string :: "json_number \<Rightarrow> string" where
  "number_to_string (NInt n) = (if n < 0 then ''-'' @ show_nat (nat (- n)) else show_nat (nat n))"
| "number_to_string (NOther s) = s"

text \<open>\<open>None\<close> inside is an absent value, \<open>Inl\<close> the rejected value.\<close>

fun deserialize_flexible_id :: "json option \<Rightarrow> json + string option" where
  "deserialize_flexible_id None = Inr None"
| "deserialize_flexible_id (Some JNull) = Inr None"
| "deserialize_flexible_id (Some (JString s)) = Inr (Some s)"
| "deserialize_flexible_id (Some (JNumber n)) = Inr (Some (number_to_string n))"
| "deserialize_flexible_id (Some other) = Inl other"

fun json_strings :: "json list \<Rightarrow> string list option" where
  "json_strings [] = Some []"
| "json_strings (v # vs) =
     (case (as_str v, json_strings vs) of (Some s, Some ss) \<Rightarrow> Some (s # ss) | _ \<Rightarrow> None)"

fun json_u64 :: "json \<Rightarrow> u64 option" where
  "json_u64 (JNumber (NInt n)) = (if 0 \<le> n \<and> n < 2 ^ 64 then Some (nat n) else None)"
| "json_u64 _ = None"

text \<open>The derived \<open>Deserialize\<close> of \<open>Claims\<close> on the payload object: \<open>sub\<close> and \<open>exp\<close> are
  required, the others default.\<close>

definition claims_from_json :: "json \<Rightarrow> claims option" where
  "claims_from_json v =
     (case (Option.bind (json_get v ''sub'') as_str,
            case json_get v ''caps'' of
              None \<Rightarrow> Some [] | Some c \<Rightarrow> Option.bind (as_array c) json_strings,
            Option.bind (json_get v ''exp'') json_u64,
            case json_get v ''jti'' of
              None \<Rightarrow> Some None | Some JNull \<Rightarrow> Some None | Some j \<Rightarrow> map_option Some (as_str j),
            deserialize_flexible_id (json_get v ''team_id'')) of
        (Some sub, Some caps, Some exp, Some jti, Inr team) \<Rightarrow>
          Some \<lparr>cl_sub = sub, cl_caps = caps, cl_exp = exp, cl_jti = jti, cl_team_id = team\<rparr>
      | _ \<Rightarrow> None)"

record verified_jwt =
  vj_host_id :: string
  vj_caps :: "string list"
  vj_exp :: u64
  vj_team_id :: "string option"

section \<open>Keys and lifetimes\<close>

datatype algorithm =
    HS256 | HS384 | HS512 | ES256 | ES384 | RS256 | RS384 | RS512 | PS256 | PS384 | PS512 | EdDSA

datatype key_kind = Ec | Rsa

datatype auth_error =
    HeaderParse string
  | UnknownKid string
  | LoadPubkey string
  | AlgNotAllowed algorithm
  | VerificationFailed string
  | LifetimeExceeds u64 u64
  | JtiRevoked string

record jwt_keys =
  jk_default_pem :: string
  jk_by_kid :: "(string, string) hmap"

definition jwt_keys_single :: "string \<Rightarrow> jwt_keys" where
  "jwt_keys_single pem = \<lparr>jk_default_pem = pem, jk_by_kid = []\<rparr>"

definition resolve :: "jwt_keys \<Rightarrow> string option \<Rightarrow> auth_error + string" where
  "resolve keys kid =
     (case kid of
        None \<Rightarrow> Inr (jk_default_pem keys)
      | Some k \<Rightarrow>
          if k = DEFAULT_KID then Inr (jk_default_pem keys)
          else (case hm_get (jk_by_kid keys) k of
                  Some pem \<Rightarrow> Inr pem
                | None \<Rightarrow> Inl (UnknownKid k)))"

definition seconds_until_expiry :: "u64 \<Rightarrow> u64 \<Rightarrow> u64" where
  "seconds_until_expiry exp now = exp - now"

definition token_expired :: "u64 \<Rightarrow> u64 \<Rightarrow> bool" where
  "token_expired exp now = (exp \<le> now)"

definition lifetime_within_clamp :: "u64 \<Rightarrow> u64 \<Rightarrow> u64 \<Rightarrow> bool" where
  "lifetime_within_clamp exp now max_lifetime_secs =
     (if max_lifetime_secs = 0 then True
      else seconds_until_expiry exp now \<le> max_lifetime_secs)"

section \<open>Verification\<close>

record jwt_header =
  jh_alg :: algorithm
  jh_kid :: "string option"

record validation =
  va_alg :: algorithm
  va_audience :: "string list"
  va_leeway :: u64

record 'k jwt_lib =
  jl_decode_header :: "string \<Rightarrow> jwt_header result"
  jl_from_ec_pem :: "string \<Rightarrow> 'k option"
  jl_from_rsa_pem :: "string \<Rightarrow> 'k result"
  jl_decode :: "string \<Rightarrow> 'k \<Rightarrow> validation \<Rightarrow> u64 \<Rightarrow> json result"
  jl_claims_error :: "json \<Rightarrow> string"

definition load_key :: "'k jwt_lib \<Rightarrow> string \<Rightarrow> auth_error + 'k \<times> key_kind" where
  "load_key lib pem =
     (case jl_from_ec_pem lib pem of
        Some k \<Rightarrow> Inr (k, Ec)
      | None \<Rightarrow> and_then (map_err LoadPubkey (jl_from_rsa_pem lib pem)) (\<lambda>k. Inr (k, Rsa)))"

fun alg_allowed :: "key_kind \<Rightarrow> algorithm \<Rightarrow> bool" where
  "alg_allowed Ec alg = (alg \<in> {ES256, ES384})"
| "alg_allowed Rsa alg = (alg \<in> {RS256, RS384, RS512, PS256, PS384, PS512})"

definition coold_validation :: "algorithm \<Rightarrow> validation" where
  "coold_validation alg = \<lparr>va_alg = alg, va_audience = [''coold''], va_leeway = 60\<rparr>"

definition decode_claims ::
  "'k jwt_lib \<Rightarrow> string \<Rightarrow> 'k \<Rightarrow> algorithm \<Rightarrow> u64 \<Rightarrow> auth_error + claims" where
  "decode_claims lib token key alg clock =
     and_then (map_err VerificationFailed (jl_decode lib token key (coold_validation alg) clock))
       (\<lambda>payload. case claims_from_json payload of
          Some c \<Rightarrow> Inr c
        | None \<Rightarrow> Inl (VerificationFailed (jl_claims_error lib payload)))"

definition admit_claims ::
  "(string \<Rightarrow> bool) \<Rightarrow> u64 \<Rightarrow> u64 \<Rightarrow> claims \<Rightarrow> auth_error + verified_jwt" where
  "admit_claims revoked now max_lifetime_secs c =
     (if \<not> lifetime_within_clamp (cl_exp c) now max_lifetime_secs
      then Inl (LifetimeExceeds (seconds_until_expiry (cl_exp c) now) max_lifetime_secs)
      else
        let ok = \<lparr>vj_host_id = cl_sub c, vj_caps = cl_caps c, vj_exp = cl_exp c,
                  vj_team_id = cl_team_id c\<rparr> in
        case cl_jti c of
          Some jti \<Rightarrow> if revoked jti then Inl (JtiRevoked jti) else Inr ok
        | None \<Rightarrow> Inr ok)"

text \<open>\<open>clock\<close> is the library's own reading of the clock.\<close>

definition verify_jwt ::
  "'k jwt_lib \<Rightarrow> u64 \<Rightarrow> string \<Rightarrow> jwt_keys \<Rightarrow> (string \<Rightarrow> bool) \<Rightarrow> u64 \<Rightarrow> u64 \<Rightarrow>
   auth_error + verified_jwt" where
  "verify_jwt lib clock token keys revoked now max_lifetime_secs =
     and_then (map_err HeaderParse (jl_decode_header lib token)) (\<lambda>header.
     and_then (resolve keys (jh_kid header)) (\<lambda>pem.
     and_then (load_key lib pem) (\<lambda>(key, kind).
       if \<not> alg_allowed kind (jh_alg header) then Inl (AlgNotAllowed (jh_alg header))
       else and_then (decode_claims lib token key (jh_alg header) clock)
              (admit_claims revoked now max_lifetime_secs))))"

definition team_id_satisfied :: "string option \<Rightarrow> bool \<Rightarrow> bool" where
  "team_id_satisfied team_id required =
     (if \<not> required then True
      else (case team_id of None \<Rightarrow> False | Some team \<Rightarrow> trim team \<noteq> []))"

section \<open>Host binding\<close>

datatype binding_detail =
    PeerMismatch ip_addr ip_addr
  | HelloMismatch string string string

datatype host_binding =
    Transport
  | HelloFallback string
  | Unenforced binding_detail

definition reject_or_unenforced :: "bool \<Rightarrow> binding_detail \<Rightarrow> binding_detail + host_binding" where
  "reject_or_unenforced req detail = (if req then Inl detail else Inr (Unenforced detail))"

definition bind_via_hello ::
  "string \<Rightarrow> string \<Rightarrow> bool \<Rightarrow> string \<Rightarrow> binding_detail + host_binding" where
  "bind_via_hello token_sub advertised req reason =
     (if token_sub \<noteq> [] \<and> advertised = token_sub then Inr (HelloFallback reason)
      else reject_or_unenforced req (HelloMismatch reason advertised token_sub))"

definition decide_host_binding ::
  "string \<Rightarrow> string \<Rightarrow> ip_addr option \<Rightarrow> bool \<Rightarrow> binding_detail + host_binding" where
  "decide_host_binding token_sub advertised peer_ip req =
     (case peer_ip of
        Some peer \<Rightarrow>
          (case parse_ip token_sub of
             Some sub_ip \<Rightarrow>
               if peer = sub_ip then Inr Transport
               else reject_or_unenforced req (PeerMismatch peer sub_ip)
           | None \<Rightarrow>
               bind_via_hello token_sub advertised req
                 ''token sub is not an IP address; transport binding not applicable'')
      | None \<Rightarrow> bind_via_hello token_sub advertised req ''transport peer address unavailable'')"

section \<open>Properties\<close>

lemma decode_claims_Inr:
  "decode_claims lib t k alg clock = Inr c \<longleftrightarrow>
     (\<exists>p. jl_decode lib t k (coold_validation alg) clock = Inr p \<and> claims_from_json p = Some c)"
  by (auto simp: decode_claims_def and_then_eq_Inr split: option.splits)

lemma load_key_Inr:
  "load_key lib pem = Inr (k, kd) \<longleftrightarrow>
     jl_from_ec_pem lib pem = Some k \<and> kd = Ec \<or>
     jl_from_ec_pem lib pem = None \<and> jl_from_rsa_pem lib pem = Inr k \<and> kd = Rsa"
  by (auto simp: load_key_def and_then_eq_Inr split: option.splits)

lemma admit_claims_Inr:
  "admit_claims revoked now mx c = Inr v \<longleftrightarrow>
     (mx = 0 \<or> cl_exp c - now \<le> mx) \<and> (\<forall>j. cl_jti c = Some j \<longrightarrow> \<not> revoked j) \<and>
     v = \<lparr>vj_host_id = cl_sub c, vj_caps = cl_caps c, vj_exp = cl_exp c, vj_team_id = cl_team_id c\<rparr>"
  by (auto simp: admit_claims_def lifetime_within_clamp_def seconds_until_expiry_def Let_def
      split: option.splits if_splits)

lemma verify_jwt_Inr:
  "verify_jwt lib clock t keys revoked now mx = Inr v \<longleftrightarrow>
     (\<exists>h pem k kd c. jl_decode_header lib t = Inr h \<and> resolve keys (jh_kid h) = Inr pem \<and>
        load_key lib pem = Inr (k, kd) \<and> alg_allowed kd (jh_alg h) \<and>
        decode_claims lib t k (jh_alg h) clock = Inr c \<and> admit_claims revoked now mx c = Inr v)"
  by (simp add: verify_jwt_def and_then_eq_Inr guard_eq_Inr)

lemma resolve_Inr:
  "resolve keys kid = Inr pem \<longleftrightarrow>
     (if kid \<in> {None, Some DEFAULT_KID} then pem = jk_default_pem keys
      else hm_get (jk_by_kid keys) (the kid) = Some pem)"
  by (auto simp: resolve_def split: option.splits)

lemma usable_key_iff:
  "(\<exists>kd. load_key lib pem = Inr (k, kd) \<and> alg_allowed kd a) \<longleftrightarrow>
     jl_from_ec_pem lib pem = Some k \<and> a \<in> {ES256, ES384}
     \<or> jl_from_ec_pem lib pem = None \<and> jl_from_rsa_pem lib pem = Inr k
       \<and> a \<in> {RS256, RS384, RS512, PS256, PS384, PS512}"
  by (cases "jl_from_ec_pem lib pem") (simp_all add: load_key_Inr conj_commute)

text \<open>C6: a token is admitted exactly when its header parses, its \<open>kid\<close> names a known key, the
  header's algorithm is one of the signature algorithms of that kind of key, the library accepts
  the token under the audience \<open>coold\<close>, its remaining lifetime is within the clamp, and its
  \<open>jti\<close> is not revoked; the stream then gets the host, capabilities, expiry and team of the
  claims.\<close>

theorem verify_jwt_admits_iff:
  "verify_jwt lib clock t keys revoked now mx = Inr v \<longleftrightarrow>
     (\<exists>h pem k p c.
        jl_decode_header lib t = Inr h
      \<and> (if jh_kid h \<in> {None, Some DEFAULT_KID} then pem = jk_default_pem keys
         else hm_get (jk_by_kid keys) (the (jh_kid h)) = Some pem)
      \<and> (jl_from_ec_pem lib pem = Some k \<and> jh_alg h \<in> {ES256, ES384}
         \<or> jl_from_ec_pem lib pem = None \<and> jl_from_rsa_pem lib pem = Inr k
           \<and> jh_alg h \<in> {RS256, RS384, RS512, PS256, PS384, PS512})
      \<and> jl_decode lib t k \<lparr>va_alg = jh_alg h, va_audience = [''coold''], va_leeway = 60\<rparr> clock = Inr p
      \<and> claims_from_json p = Some c
      \<and> (mx = 0 \<or> cl_exp c - now \<le> mx)
      \<and> (case cl_jti c of None \<Rightarrow> True | Some j \<Rightarrow> \<not> revoked j)
      \<and> v = \<lparr>vj_host_id = cl_sub c, vj_caps = cl_caps c, vj_exp = cl_exp c, vj_team_id = cl_team_id c\<rparr>)"
proof -
  have jti: "(case cl_jti c of None \<Rightarrow> True | Some j \<Rightarrow> \<not> revoked j) \<longleftrightarrow>
      (\<forall>j. cl_jti c = Some j \<longrightarrow> \<not> revoked j)" for c
    by (simp split: option.split)
  show ?thesis
    unfolding verify_jwt_Inr decode_claims_Inr admit_claims_Inr jti resolve_Inr [symmetric]
      usable_key_iff [symmetric] coold_validation_def
    by blast
qed

text \<open>A token whose header names an HMAC algorithm or EdDSA is rejected whatever key is
  loaded and whatever the library would decode: the public key cannot be used as an HMAC
  secret.\<close>

theorem hmac_and_eddsa_rejected:
  assumes "jl_decode_header lib t = Inr h" "jh_alg h \<in> {HS256, HS384, HS512, EdDSA}"
  shows "\<not> is_ok (verify_jwt lib clock t keys revoked now mx)"
  using assms by (auto simp: is_ok_iff verify_jwt_Inr elim: alg_allowed.elims)

definition hmac_lib :: "unit jwt_lib" where
  "hmac_lib =
     \<lparr>jl_decode_header = (\<lambda>_. Inr \<lparr>jh_alg = HS256, jh_kid = None\<rparr>), jl_from_ec_pem = (\<lambda>_. Some ()),
      jl_from_rsa_pem = (\<lambda>_. Inr ()), jl_decode = (\<lambda>_ _ _ _. Inr JNull), jl_claims_error = (\<lambda>_. [])\<rparr>"

theorem hmac_and_eddsa_rejected_witness:
  "\<not> is_ok (verify_jwt hmac_lib 0 ''t'' (jwt_keys_single ''pem'') (\<lambda>_. False) 0 0)"
  using hmac_and_eddsa_rejected [of hmac_lib "''t''" "\<lparr>jh_alg = HS256, jh_kid = None\<rparr>"]
  by (simp add: hmac_lib_def)

text \<open>The operations on the denylist: a revocation with its expiry, a withdrawal, and a turn of the
  sweeper that prunes at a time of the clock.\<close>

datatype denylist_call =
    DenyRevoke io_faults string "u64 option"
  | DenyWithdraw io_faults string
  | DenyPrune io_faults u64

fun denylist_op ::
  "(revocation_entry list \<Rightarrow> string) \<Rightarrow> revocation_store \<times> disk \<Rightarrow> denylist_call \<Rightarrow> revocation_store \<times> disk" where
  "denylist_op tj sd (DenyRevoke io j e) = snd (revoke tj io j e sd)"
| "denylist_op tj sd (DenyWithdraw io j) = snd (unrevoke tj io j sd)"
| "denylist_op tj sd (DenyPrune io now) = snd (prune tj io now sd)"

text \<open>Whether the entry of \<open>j\<close>, made with expiry \<open>e\<close>, is still there after the operations: none
  withdraws it, and no sweep comes at or after the expiry of the last revocation before it.\<close>

fun entry_outlives :: "string \<Rightarrow> u64 option \<Rightarrow> denylist_call list \<Rightarrow> bool" where
  "entry_outlives j e [] = True"
| "entry_outlives j e (DenyRevoke io j' e' # ops) = entry_outlives j (if j' = j then e' else e) ops"
| "entry_outlives j e (DenyWithdraw io j' # ops) = (j' \<noteq> j \<and> entry_outlives j e ops)"
| "entry_outlives j e (DenyPrune io now # ops) = ((case e of None \<Rightarrow> True | Some x \<Rightarrow> now < x) \<and> entry_outlives j e ops)"

lemma get_filter_keeps: "hm_get m k = Some e \<Longrightarrow> P e \<Longrightarrow> hm_get (filter (\<lambda>(_, e). P e) m) k = Some e"
  by (induction m) (auto split: if_splits)

lemma outlives_revoked:
  assumes "hm_get (st_inner (fst sd)) j = Some e" "entry_outlives j e ops"
  shows "is_revoked (fst (foldl (denylist_op tj) sd ops)) j"
  using assms
proof (induction j e ops arbitrary: sd rule: entry_outlives.induct)
  case (1 j e)
  then show ?case by (simp add: is_revoked_def)
next
  case (2 j e io j' e' ops)
  have "hm_get (st_inner (fst (denylist_op tj sd (DenyRevoke io j' e')))) j = Some (if j' = j then e' else e)"
    using "2.prems"(1) by (simp add: revoke_store revoke_mem_def)
  from "2.IH" [OF this] "2.prems"(2) show ?case by simp
next
  case (3 j e io j' ops)
  have "hm_get (st_inner (fst (denylist_op tj sd (DenyWithdraw io j')))) j = Some e"
    using "3.prems" by (auto simp: unrevoke_store unrevoke_mem_def)
  from "3.IH" [OF this] "3.prems"(2) show ?case by simp
next
  case (4 j e io now ops)
  have "hm_get (st_inner (fst (denylist_op tj sd (DenyPrune io now)))) j = Some e"
    using "4.prems" by (simp add: prune_store get_filter_keeps is_none_or_def)
  from "4.IH" [OF this] "4.prems"(2) show ?case by simp
qed

text \<open>C21: Once \<open>revoke\<close> was called for a token id, also when its write to disk failed, a token with
  that id is rejected after any further revocations, withdrawals and sweeps, until its id is withdrawn
  or a sweep comes at or after the expiry the id was last revoked with. (A sweep after the expiry does
  forget the id, and within the leeway of the token library the token is then admitted again, see
  \<open>revoked_token_readmitted_after_prune\<close>; and a failed write means that a restart forgets it.)\<close>

theorem revoked_token_rejected:
  assumes "\<And>k v p. jl_decode lib t k v clock = Inr p \<Longrightarrow>
             map_option cl_jti (claims_from_json p) = Some (Some j)"
    and "entry_outlives j e ops"
  shows "\<not> is_ok (verify_jwt lib clock t keys
      (is_revoked (fst (foldl (denylist_op tj) (snd (revoke tj io j e sd)) ops))) now mx)"
proof -
  have "hm_get (st_inner (fst (snd (revoke tj io j e sd)))) j = Some e"
    by (simp add: revoke_store revoke_mem_def)
  from outlives_revoked [OF this assms(2)] show ?thesis
    using assms(1) by (fastforce simp: is_ok_iff verify_jwt_Inr decode_claims_Inr admit_claims_Inr)
qed

definition payload_lib :: "algorithm \<Rightarrow> json \<Rightarrow> unit jwt_lib" where
  "payload_lib alg payload =
     \<lparr>jl_decode_header = (\<lambda>_. Inr \<lparr>jh_alg = alg, jh_kid = None\<rparr>), jl_from_ec_pem = (\<lambda>_. Some ()),
      jl_from_rsa_pem = (\<lambda>_. Inl []),
      jl_decode = (\<lambda>_ _ v now. case json_get payload ''exp'' of
         Some (JNumber (NInt e)) \<Rightarrow>
           if int now \<le> e + int (va_leeway v) then Inr payload else Inl ''ExpiredSignature''
       | _ \<Rightarrow> Inl ''MissingRequiredClaim''),
      jl_claims_error = (\<lambda>_. [])\<rparr>"

lemma payload_lib_simps [simp]:
  "jl_decode_header (payload_lib alg p) t = Inr \<lparr>jh_alg = alg, jh_kid = None\<rparr>"
  "jl_from_ec_pem (payload_lib alg p) pem = Some ()"
  by (simp_all add: payload_lib_def)

definition sample_payload :: json where
  "sample_payload =
     JObject [(''sub'', JString ''10.0.0.1''), (''exp'', jint 100), (''jti'', JString ''j1''), (''team_id'', jint 7)]"

lemma sample_claims:
  "claims_from_json sample_payload =
     Some \<lparr>cl_sub = ''10.0.0.1'', cl_caps = [], cl_exp = 100, cl_jti = Some ''j1'', cl_team_id = Some ''7''\<rparr>"
  by code_simp

theorem revoked_token_rejected_witness:
  "\<not> is_ok (verify_jwt (payload_lib ES256 sample_payload) 50 ''t'' (jwt_keys_single ''pem'')
      (is_revoked (fst (foldl (denylist_op (\<lambda>_. [])) (snd (revoke (\<lambda>_. []) no_faults ''j1'' (Some 100)
        (in_memory, Map.empty)))
        [DenyWithdraw no_faults ''j2'', DenyPrune no_faults 40, DenyRevoke no_faults ''j3'' (Some 45), DenyPrune no_faults 50])))
      50 3600)"
proof -
  have "map_option cl_jti (claims_from_json p) = Some (Some ''j1'')"
    if "jl_decode (payload_lib ES256 sample_payload) ''t'' k v 50 = Inr p" for k v p
    using that sample_claims
    by (auto simp: payload_lib_def split: option.splits json.splits json_number.splits if_splits)
  then show ?thesis by (intro revoked_token_rejected) simp_all
qed

text \<open>C38: The denylist forgets an entry when the clock reaches the token's expiry, but
  verification still accepts the token for the library's leeway of 60 seconds. So a token that was
  revoked with its own expiry is rejected before the sweep and admitted again after it.\<close>

theorem revoked_token_readmitted_after_prune:
  assumes "hm_wf (st_inner st)" "hm_get (st_inner st) j = Some (Some exp)"
    and "jl_decode_header lib t = Inr h" "jh_kid h = None"
    and "jl_from_ec_pem lib (jk_default_pem keys) = Some k" "jh_alg h = ES256"
    and "jl_decode lib t k (coold_validation ES256) clock = Inr p"
    and "claims_from_json p = Some c" "cl_jti c = Some j" "cl_exp c = exp"
    and "exp \<le> now"
  shows "\<not> is_ok (verify_jwt lib clock t keys (is_revoked st) now mx)
       \<and> is_ok (verify_jwt lib clock t keys
            (is_revoked (fst (snd (prune tj io now (st, d))))) now mx)"
proof -
  have "\<not> is_revoked (fst (snd (prune tj io now (st, d)))) j"
    using hm_get_filter [OF assms(1), of "is_none_or (\<lambda>exp. now < exp)" j] assms(2,11)
    by (auto simp: is_revoked_def prune_store is_none_or_def)
  moreover have "is_revoked st j" using assms(2) by (simp add: is_revoked_def)
  ultimately show ?thesis
    using assms(3-11)
    by (simp add: verify_jwt_def resolve_def load_key_def decode_claims_def admit_claims_def
        lifetime_within_clamp_def seconds_until_expiry_def)
qed

theorem revoked_token_readmitted_after_prune_witness:
  "is_ok (verify_jwt (payload_lib ES256 sample_payload) 130 ''t'' (jwt_keys_single ''pem'')
      (is_revoked (fst (snd (prune (\<lambda>_. []) no_faults 130
         (\<lparr>st_inner = [(''j1'', Some 100)], st_path = None\<rparr>, Map.empty))))) 130 3600)"
proof -
  have "jl_decode (payload_lib ES256 sample_payload) ''t'' () (coold_validation ES256) 130 = Inr sample_payload"
    by (simp add: payload_lib_def sample_payload_def jint_def coold_validation_def)
  from revoked_token_readmitted_after_prune [OF _ _ _ _ _ _ this sample_claims,
      of "\<lparr>st_inner = [(''j1'', Some 100)], st_path = None\<rparr>" "''j1''" 100
         "\<lparr>jh_alg = ES256, jh_kid = None\<rparr>" "jwt_keys_single ''pem''" 130 3600 "\<lambda>_. []" no_faults Map.empty]
  show ?thesis by (simp add: hm_wf_def payload_lib_def)
qed

text \<open>With host binding required, a stream is bound exactly when the transport peer is the
  address the token names, or when no such comparison is possible and the host's hello repeats the
  token's non-empty subject; it is never admitted unbound. Without the requirement the decision
  never rejects.\<close>

theorem host_binding_decision:
  "(decide_host_binding sub adv peer True = Inr b \<longleftrightarrow>
      (\<exists>ip. peer = Some ip \<and> parse_ip sub = Some ip \<and> b = Transport)
      \<or> (peer = None \<or> parse_ip sub = None) \<and> sub \<noteq> [] \<and> adv = sub
        \<and> (\<exists>reason. b = HelloFallback reason
             \<and> reason = (if peer = None then ''transport peer address unavailable''
                 else ''token sub is not an IP address; transport binding not applicable'')))
   \<and> is_ok (decide_host_binding sub adv peer False)"
  by (auto simp: decide_host_binding_def bind_via_hello_def reject_or_unenforced_def
      split: option.splits if_splits)

text \<open>On the mesh, where the token's subject is the host's printed IPv4 address, a token
  replayed from any other peer address is rejected whatever its hello claims.\<close>

theorem replayed_token_rejected:
  assumes "peer \<noteq> V4 a"
  shows "decide_host_binding (show_ipv4 a) adv (Some peer) True = Inl (PeerMismatch peer (V4 a))"
  using assms
  by (simp add: decide_host_binding_def parse_ip_show_ipv4 reject_or_unenforced_def)

theorem replayed_token_rejected_witness:
  "decide_host_binding (show_ipv4 0x0A000001) ''10.0.0.1'' (Some (V4 0x0A000002)) True
     = Inl (PeerMismatch (V4 0x0A000002) (V4 0x0A000001))"
  using replayed_token_rejected [of "V4 0x0A000002" "0x0A000001" "''10.0.0.1''"] by simp

text \<open>A team id minted as an integer satisfies the tenant requirement exactly like its
  decimal string, a blank or absent one does not, and any other JSON type fails the token.\<close>

theorem team_id_claim:
  "(deserialize_flexible_id (Some (jint (int n))) = deserialize_flexible_id (Some (JString (show_nat n))))
   \<and> team_id_satisfied (Some (show_nat n)) True
   \<and> \<not> team_id_satisfied None True \<and> \<not> team_id_satisfied (Some '' '') True
   \<and> (deserialize_flexible_id v = Inl w \<longleftrightarrow>
        v = Some w \<and> (case w of JBool _ \<Rightarrow> True | JArray _ \<Rightarrow> True | JObject _ \<Rightarrow> True | _ \<Rightarrow> False))"
proof -
  have "deserialize_flexible_id v = Inl w \<longleftrightarrow>
        v = Some w \<and> (case w of JBool _ \<Rightarrow> True | JArray _ \<Rightarrow> True | JObject _ \<Rightarrow> True | _ \<Rightarrow> False)"
    by (cases v rule: deserialize_flexible_id.cases) auto
  moreover have "trim '' '' = []" by code_simp
  ultimately show ?thesis
    by (simp add: team_id_satisfied_def trim_show_nat jint_def)
qed

end
