(* ===== verification/FluxPending.thy ===== *)
theory FluxPending
  imports FluxStreams "HOL-Library.Multiset"
begin

text \<open>
  \<open>flux/src/state.rs\<close>, the table of pending dispatches. A \<open>oneshot\<close> sender is the number of
  its channel. \<open>park\<close>, \<open>deliver\<close> and \<open>drain_expired\<close> are made of sections that each hold a
  lock of the table: \<open>park_lock\<close>, \<open>deliver_lock\<close> and \<open>expired_ids\<close> are the locked sections,
  and the removal that follows is a separate one. The operations compose them as the code does;
  the machine at the end interleaves them, as the tasks of the server do.
\<close>

section \<open>State and operations\<close>

definition LANDED_TTL_SECS :: u64 where
  "LANDED_TTL_SECS = 30"

datatype pending_kind = Coold

datatype response_data = CooldData response_body

datatype pending_state = Waiting "nat list" | Landed response_data nat

record pending_entry =
  pe_host_id :: string
  pe_kind :: pending_kind
  pe_started_at :: nat
  pe_state :: pending_state

record pending_snapshot =
  ps_host_id :: string
  ps_kind :: pending_kind

datatype park_result = Parked nat | AlreadyLanded response_data | NotFound

datatype insert_outcome = Inserted | Duplicate | AtCapacity

type_synonym pending = "(string, pending_entry) hmap"

definition pending_new :: pending where
  "pending_new = []"

definition snap :: "pending_entry \<Rightarrow> pending_snapshot" where
  "snap e = \<lparr>ps_host_id = pe_host_id e, ps_kind = pe_kind e\<rparr>"

text \<open>The \<open>entry()\<close> section of \<open>insert_waiting\<close>; the capacity is sampled before it.\<close>

definition insert_entry :: "nat \<Rightarrow> string \<Rightarrow> string \<Rightarrow> pending_kind \<Rightarrow> pending \<Rightarrow> insert_outcome \<times> pending" where
  "insert_entry now rid host_id k p =
     (case hm_get p rid of
        Some _ \<Rightarrow> (Duplicate, p)
      | None \<Rightarrow>
          (Inserted,
           hm_insert rid \<lparr>pe_host_id = host_id, pe_kind = k, pe_started_at = now,
                          pe_state = Waiting []\<rparr> p))"

definition insert_waiting ::
  "nat \<Rightarrow> string \<Rightarrow> string \<Rightarrow> pending_kind \<Rightarrow> usize \<Rightarrow> pending \<Rightarrow> insert_outcome \<times> pending" where
  "insert_waiting now rid host_id k mx p =
     (if mx \<le> length p then (AtCapacity, p) else insert_entry now rid host_id k p)"

definition pending_remove :: "string \<Rightarrow> pending \<Rightarrow> pending_snapshot option \<times> pending" where
  "pending_remove rid p = (map_option snap (hm_get p rid), hm_remove rid p)"

definition pending_get :: "pending \<Rightarrow> string \<Rightarrow> pending_snapshot option" where
  "pending_get p rid = map_option snap (hm_get p rid)"

text \<open>The locked section of \<open>park\<close>; \<open>sink\<close> is the channel \<open>oneshot::channel()\<close> makes.\<close>

definition park_lock :: "nat \<Rightarrow> string \<Rightarrow> pending \<Rightarrow> park_result \<times> pending" where
  "park_lock sink rid p =
     (case hm_get p rid of
        None \<Rightarrow> (NotFound, p)
      | Some e \<Rightarrow>
          (case pe_state e of
             Waiting sinks \<Rightarrow>
               (Parked sink, hm_modify rid (\<lambda>e. e\<lparr>pe_state := Waiting (sinks @ [sink])\<rparr>) p)
           | Landed body _ \<Rightarrow> (AlreadyLanded body, p)))"

definition park :: "nat \<Rightarrow> string \<Rightarrow> pending \<Rightarrow> park_result \<times> pending" where
  "park sink rid p =
     (case park_lock sink rid p of
        (NotFound, p') \<Rightarrow> (NotFound, p')
      | (Parked rx, p') \<Rightarrow> (Parked rx, p')
      | (AlreadyLanded body, p') \<Rightarrow> (AlreadyLanded body, hm_remove rid p'))"

text \<open>The locked section of \<open>deliver\<close>: the sends it makes, and whether a sink was parked.\<close>

definition deliver_lock ::
  "nat \<Rightarrow> string \<Rightarrow> response_data \<Rightarrow> pending \<Rightarrow> (nat \<times> response_data) list \<times> bool \<times> pending" where
  "deliver_lock now rid body p =
     (case hm_get p rid of
        None \<Rightarrow> ([], False, p)
      | Some e \<Rightarrow>
          (let p' = hm_modify rid
                 (\<lambda>e. e\<lparr>pe_state := Landed body (now + from_secs LANDED_TTL_SECS)\<rparr>) p in
           case pe_state e of
             Waiting sinks \<Rightarrow> (map (\<lambda>s. (s, body)) sinks, sinks \<noteq> [], p')
           | Landed _ _ \<Rightarrow> ([], False, p')))"

definition deliver ::
  "nat \<Rightarrow> string \<Rightarrow> response_data \<Rightarrow> pending \<Rightarrow> (nat \<times> response_data) list \<times> pending" where
  "deliver now rid body p =
     (let (sends, live, p') = deliver_lock now rid body p in
      (sends, if live then hm_remove rid p' else p'))"

definition is_expired :: "nat \<Rightarrow> nat \<Rightarrow> pending_entry \<Rightarrow> bool" where
  "is_expired now coold_timeout e =
     (case pe_state e of
        Waiting _ \<Rightarrow> coold_timeout \<le> now - pe_started_at e
      | Landed _ until \<Rightarrow> until \<le> now)"

definition expired_ids :: "nat \<Rightarrow> nat \<Rightarrow> pending \<Rightarrow> string list" where
  "expired_ids now coold_timeout p =
     map fst (filter (\<lambda>(k, e). is_expired now coold_timeout e) p)"

fun remove_all :: "string list \<Rightarrow> pending \<Rightarrow> (string \<times> pending_snapshot) list \<times> pending" where
  "remove_all [] p = ([], p)"
| "remove_all (i # ids) p =
     (case pending_remove i p of
        (r, p') \<Rightarrow>
          (case remove_all ids p' of
             (rs, p'') \<Rightarrow> ((case r of Some s \<Rightarrow> (i, s) # rs | None \<Rightarrow> rs), p'')))"

definition drain_expired ::
  "nat \<Rightarrow> nat \<Rightarrow> pending \<Rightarrow> (string \<times> pending_snapshot) list \<times> pending" where
  "drain_expired now coold_timeout p = remove_all (expired_ids now coold_timeout p) p"

section \<open>Laws of the sequential operations\<close>

interpretation pending_store: keyed_store "hm_get :: pending \<Rightarrow> _" hm_insert hm_remove
  by unfold_locales simp_all

lemma insert_entry_wf: "hm_wf p \<Longrightarrow> hm_wf (snd (insert_entry now rid h k p))"
  by (auto simp: insert_entry_def split: option.splits)

lemma insert_waiting_wf: "hm_wf p \<Longrightarrow> hm_wf (snd (insert_waiting now rid h k mx p))"
  by (simp add: insert_waiting_def insert_entry_wf)

lemma park_lock_wf: "hm_wf p \<Longrightarrow> hm_wf (snd (park_lock s rid p))"
  by (auto simp: park_lock_def split: option.splits pending_state.splits)

lemma deliver_lock_wf: "hm_wf p \<Longrightarrow> hm_wf (snd (snd (deliver_lock now rid b p)))"
  by (auto simp: deliver_lock_def Let_def split: option.splits pending_state.splits)

lemma snd_remove_all_Cons: "snd (remove_all (i # ids) p) = snd (remove_all ids (hm_remove i p))"
  by (simp add: pending_remove_def split: prod.split)

lemma hm_get_remove_all:
  "hm_get (snd (remove_all ids p)) rid = (if rid \<in> set ids then None else hm_get p rid)"
  by (induction ids arbitrary: p) (simp_all add: snd_remove_all_Cons del: remove_all.simps(2))

lemma fst_remove_all_Cons:
  "fst (remove_all (i # ids) p) =
     (case hm_get p i of Some e \<Rightarrow> [(i, snap e)] | None \<Rightarrow> []) @ fst (remove_all ids (hm_remove i p))"
  by (simp add: pending_remove_def case_prod_beta split: option.split)

lemma remove_all_reports:
  "(rid, sn) \<in> set (fst (remove_all ids p)) \<longleftrightarrow>
     rid \<in> set ids \<and> map_option snap (hm_get p rid) = Some sn"
  by (induction ids arbitrary: p)
    (auto simp: fst_remove_all_Cons simp del: remove_all.simps(2) split: option.splits if_splits
      dest: sym)

lemma insert_waiting_bound:
  assumes "hm_wf p" "length p \<le> mx"
  shows "length (snd (insert_waiting now rid h k mx p)) \<le> mx"
  using assms hm_length_insert [of p rid]
  by (auto simp: insert_waiting_def insert_entry_def split: option.splits)

section \<open>The interleaved machine\<close>

text \<open>
  Tasks of the server run the locked sections in any order. \<open>m_evict\<close> holds the removals that
  a section has decided and not yet made (after a landed body was claimed, after a fan-out, after
  the sweep), \<open>m_owner\<close> the request each issued sink was parked on, \<open>m_sent\<close> the sends and
  \<open>m_dropped\<close> the sinks that were dropped unsent (their handler answers 504).
\<close>

record machine =
  m_table :: pending
  m_evict :: "string list"
  m_owner :: "string list"
  m_sent :: "(nat \<times> string \<times> response_data) list"
  m_dropped :: "nat list"

datatype event =
    EInsert nat string string pending_kind
  | EPark string
  | EDeliver nat string response_data
  | ESweep nat nat
  | EEvict nat
  | ERemove string

definition entry_sinks :: "pending_entry \<Rightarrow> nat list" where
  "entry_sinks e = (case pe_state e of Waiting ss \<Rightarrow> ss | Landed _ _ \<Rightarrow> [])"

definition sinks_at :: "pending \<Rightarrow> string \<Rightarrow> nat list" where
  "sinks_at p rid = (case hm_get p rid of None \<Rightarrow> [] | Some e \<Rightarrow> entry_sinks e)"

definition drop_entry :: "string \<Rightarrow> machine \<Rightarrow> machine" where
  "drop_entry rid s =
     s\<lparr>m_table := hm_remove rid (m_table s), m_dropped := m_dropped s @ sinks_at (m_table s) rid\<rparr>"

fun mstep :: "machine \<Rightarrow> event \<Rightarrow> machine" where
  "mstep s (EInsert now rid h k) = s\<lparr>m_table := snd (insert_entry now rid h k (m_table s))\<rparr>"
| "mstep s (EPark rid) =
     (case park_lock (length (m_owner s)) rid (m_table s) of
        (NotFound, _) \<Rightarrow> s
      | (Parked _, p) \<Rightarrow> s\<lparr>m_table := p, m_owner := m_owner s @ [rid]\<rparr>
      | (AlreadyLanded _, p) \<Rightarrow> s\<lparr>m_table := p, m_evict := m_evict s @ [rid]\<rparr>)"
| "mstep s (EDeliver now rid body) =
     (case deliver_lock now rid body (m_table s) of
        (sends, live, p) \<Rightarrow>
          s\<lparr>m_table := p, m_sent := m_sent s @ map (\<lambda>(k, b). (k, rid, b)) sends,
            m_evict := m_evict s @ (if live then [rid] else [])\<rparr>)"
| "mstep s (ESweep now t) = s\<lparr>m_evict := m_evict s @ expired_ids now t (m_table s)\<rparr>"
| "mstep s (EEvict i) =
     (if i < length (m_evict s)
      then drop_entry (m_evict s ! i)
             (s\<lparr>m_evict := take i (m_evict s) @ drop (Suc i) (m_evict s)\<rparr>)
      else s)"
| "mstep s (ERemove rid) = drop_entry rid s"

definition machine_init :: machine where
  "machine_init = \<lparr>m_table = pending_new, m_evict = [], m_owner = [], m_sent = [], m_dropped = []\<rparr>"

subsection \<open>Conservation of sinks\<close>

definition table_sinks :: "pending \<Rightarrow> nat list" where
  "table_sinks p = concat (map (\<lambda>(k, e). entry_sinks e) p)"

definition conserved :: "machine \<Rightarrow> bool" where
  "conserved s \<longleftrightarrow>
     hm_wf (m_table s) \<and>
     mset (table_sinks (m_table s)) + mset (map fst (m_sent s)) + mset (m_dropped s)
       = mset [0..<length (m_owner s)]"

lemma table_sinks_Cons [simp]: "table_sinks ((k, e) # p) = entry_sinks e @ table_sinks p"
  by (simp add: table_sinks_def)

lemma table_sinks_Nil [simp]: "table_sinks [] = []"
  by (simp add: table_sinks_def)

lemma hm_remove_absent: "k \<notin> fst ` set m \<Longrightarrow> hm_remove k m = m"
  by (force simp: hm_remove_def filter_id_conv)

lemma table_sinks_remove:
  assumes "hm_wf p"
  shows "mset (table_sinks (hm_remove k p)) + mset (sinks_at p k) = mset (table_sinks p)"
  using assms
proof (induction p)
  case Nil
  then show ?case by (simp add: hm_remove_def sinks_at_def)
next
  case (Cons q p)
  obtain a e where q: "q = (a, e)" by (cases q)
  show ?case
  proof (cases "a = k")
    case True
    then have "hm_remove k (q # p) = p" "sinks_at (q # p) k = entry_sinks e"
      using Cons.prems hm_remove_absent [of k p]
      by (auto simp: q hm_remove_def hm_wf_def sinks_at_def)
    then show ?thesis by (simp add: q)
  next
    case False
    then have "hm_remove k (q # p) = q # hm_remove k p" "sinks_at (q # p) k = sinks_at p k"
      by (auto simp: q hm_remove_def sinks_at_def)
    with Cons show ?thesis by (simp add: q hm_wf_def)
  qed
qed

lemma table_sinks_modify:
  assumes "hm_wf p" "hm_get p k = Some e"
  shows "mset (table_sinks (hm_modify k f p)) + mset (entry_sinks e)
           = mset (table_sinks p) + mset (entry_sinks (f e))"
  using assms
proof (induction p)
  case Nil
  then show ?case by simp
next
  case (Cons q p)
  obtain a v where q: "q = (a, v)" by (cases q)
  show ?case
  proof (cases "a = k")
    case True
    then have "hm_modify k f p = p"
      using Cons.prems by (force simp: q hm_modify_def hm_wf_def intro!: map_idI)
    then show ?thesis using True Cons.prems by (simp add: q hm_modify_def)
  next
    case False
    with Cons show ?thesis by (simp add: q hm_modify_def hm_wf_def)
  qed
qed

lemma table_sinks_insert_vacant:
  "hm_get p k = None \<Longrightarrow> entry_sinks e = [] \<Longrightarrow> table_sinks (hm_insert k e p) = table_sinks p"
  by (simp add: hm_insert_def hm_remove_absent map_of_eq_None_iff)

lemma conserved_insert: "conserved s \<Longrightarrow> conserved (mstep s (EInsert now rid h k))"
  by (auto simp: conserved_def insert_entry_def table_sinks_insert_vacant entry_sinks_def
      split: option.splits)

lemma table_sinks_park:
  assumes "hm_wf p" "hm_get p rid = Some e" "pe_state e = Waiting ss"
  shows "mset (table_sinks (hm_modify rid (\<lambda>e. e\<lparr>pe_state := Waiting (ss @ [k])\<rparr>) p))
           = add_mset k (mset (table_sinks p))"
  using table_sinks_modify [OF assms(1,2), of "\<lambda>e. e\<lparr>pe_state := Waiting (ss @ [k])\<rparr>"] assms(3)
  by (simp add: entry_sinks_def)

lemma table_sinks_deliver:
  assumes "hm_wf p" "hm_get p rid = Some e"
  shows "mset (table_sinks (hm_modify rid (\<lambda>e. e\<lparr>pe_state := Landed b u\<rparr>) p)) + mset (entry_sinks e)
           = mset (table_sinks p)"
  using table_sinks_modify [OF assms, of "\<lambda>e. e\<lparr>pe_state := Landed b u\<rparr>"]
  by (simp add: entry_sinks_def)

lemma conserved_park: "conserved s \<Longrightarrow> conserved (mstep s (EPark rid))"
  by (auto simp: conserved_def park_lock_def table_sinks_park simp del: mset_upt
      split: option.splits pending_state.splits)

lemma conserved_deliver:
  assumes "conserved s"
  shows "conserved (mstep s (EDeliver now rid b))"
proof (cases "hm_get (m_table s) rid")
  case None
  then show ?thesis using assms by (simp add: deliver_lock_def)
next
  case (Some e)
  note d = table_sinks_deliver [OF _ Some, of b "now + from_secs LANDED_TTL_SECS", symmetric]
  show ?thesis
  proof (cases "pe_state e")
    case (Waiting ss)
    with Some d assms show ?thesis
      by (auto simp: conserved_def deliver_lock_def entry_sinks_def comp_def ac_simps
          simp del: mset_upt)
  next
    case (Landed x y)
    with Some d assms show ?thesis
      by (auto simp: conserved_def deliver_lock_def entry_sinks_def simp del: mset_upt)
  qed
qed

lemma conserved_drop: "conserved s \<Longrightarrow> conserved (drop_entry rid s)"
  using table_sinks_remove [of "m_table s" rid]
  by (auto simp: conserved_def drop_entry_def ac_simps)

lemma conserved_evict_list [simp]: "conserved (s\<lparr>m_evict := x\<rparr>) = conserved s"
  by (simp add: conserved_def)

lemma conserved_step: "conserved s \<Longrightarrow> conserved (mstep s e)"
  by (cases e) (simp_all add: conserved_insert conserved_park conserved_deliver conserved_drop
      del: mstep.simps(1-3))

interpretation pending_conserved: step_invariant mstep conserved
  by unfold_locales (rule conserved_step)

lemma conserved_init: "conserved machine_init"
  by (simp add: conserved_def machine_init_def pending_new_def)

subsection \<open>Responses reach only their own request\<close>

definition routed :: "machine \<Rightarrow> bool" where
  "routed s \<longleftrightarrow>
     (\<forall>rid e k. hm_get (m_table s) rid = Some e \<longrightarrow> k \<in> set (entry_sinks e) \<longrightarrow>
        k < length (m_owner s) \<and> m_owner s ! k = rid) \<and>
     (\<forall>(k, rid, b)\<in>set (m_sent s). k < length (m_owner s) \<and> m_owner s ! k = rid)"

lemma routed_park:
  assumes "routed s"
  shows "routed (mstep s (EPark rid))"
proof (cases "hm_get (m_table s) rid")
  case None
  then show ?thesis using assms by (simp add: park_lock_def)
next
  case (Some e)
  show ?thesis
  proof (cases "pe_state e")
    case (Waiting ss)
    with assms Some have "k \<in> set ss \<Longrightarrow> k < length (m_owner s) \<and> m_owner s ! k = rid" for k
      by (auto simp: routed_def entry_sinks_def)
    with assms Some Waiting show ?thesis
      by (auto simp: routed_def park_lock_def entry_sinks_def nth_append less_Suc_eq
          split: if_splits)
  next
    case (Landed x y)
    with assms Some show ?thesis by (simp add: park_lock_def routed_def)
  qed
qed

lemma routed_deliver:
  assumes "routed s"
  shows "routed (mstep s (EDeliver now rid b))"
proof (cases "hm_get (m_table s) rid")
  case None
  then show ?thesis using assms by (simp add: deliver_lock_def)
next
  case (Some e)
  show ?thesis
  proof (cases "pe_state e")
    case (Waiting ss)
    with assms Some have "k \<in> set ss \<Longrightarrow> k < length (m_owner s) \<and> m_owner s ! k = rid" for k
      by (auto simp: routed_def entry_sinks_def)
    with assms Some Waiting show ?thesis
      by (auto simp: routed_def deliver_lock_def entry_sinks_def split: if_splits)
  next
    case (Landed x y)
    with assms Some show ?thesis
      by (auto simp: routed_def deliver_lock_def entry_sinks_def split: if_splits)
  qed
qed

lemma routed_drop: "routed s \<Longrightarrow> routed (drop_entry rid s)"
  by (auto simp: routed_def drop_entry_def split: if_splits)

lemma routed_insert: "routed s \<Longrightarrow> routed (mstep s (EInsert now rid h k))"
  by (auto simp: routed_def insert_entry_def entry_sinks_def split: option.splits if_splits)

lemma routed_evict_list [simp]: "routed (s\<lparr>m_evict := x\<rparr>) = routed s"
  by (simp add: routed_def)

lemma routed_step: "routed s \<Longrightarrow> routed (mstep s e)"
  by (cases e) (simp_all add: routed_insert routed_park routed_deliver routed_drop
      del: mstep.simps(1-3))

interpretation pending_routed: step_invariant mstep routed
  by unfold_locales (rule routed_step)

lemma routed_init: "routed machine_init"
  by (simp add: routed_def machine_init_def pending_new_def)

lemma sent_step:
  "(k, rid, b) \<in> set (m_sent (mstep s e)) \<Longrightarrow>
   (k, rid, b) \<in> set (m_sent s) \<or> (\<exists>now. e = EDeliver now rid b)"
  by (cases e) (auto simp: drop_entry_def deliver_lock_def Let_def
      split: option.splits pending_state.splits park_result.splits prod.splits if_splits)

lemma sent_run:
  "(k, rid, b) \<in> set (m_sent (foldl mstep s es)) \<Longrightarrow>
   (k, rid, b) \<in> set (m_sent s) \<or> (\<exists>now. EDeliver now rid b \<in> set es)"
proof (induction es arbitrary: s)
  case Nil
  then show ?case by simp
next
  case (Cons e es)
  then have "(k, rid, b) \<in> set (m_sent (mstep s e)) \<or> (\<exists>now. EDeliver now rid b \<in> set es)"
    by simp
  then show ?case by (metis list.set_intros sent_step)
qed

lemma machine_conserved: "conserved (foldl mstep machine_init es)"
  by (rule pending_conserved.run_inv [OF conserved_init])

lemma machine_routed: "routed (foldl mstep machine_init es)"
  by (rule pending_routed.run_inv [OF routed_init])

section \<open>Properties\<close>

text \<open>C4: in every interleaving of inserts, parks, deliveries, sweeps and removals, each handler
  that was parked is in exactly one place: still waiting in the table, sent a response, or dropped
  (answered 504). So no handler is lost, and none is sent two responses.\<close>

theorem parked_handlers_conserved:
  "mset (table_sinks (m_table (foldl mstep machine_init es)))
     + mset (map fst (m_sent (foldl mstep machine_init es)))
     + mset (m_dropped (foldl mstep machine_init es))
     = mset [0..<length (m_owner (foldl mstep machine_init es))]
   \<and> distinct (map fst (m_sent (foldl mstep machine_init es)))"
proof -
  let ?s = "foldl mstep machine_init es"
  have eq: "mset (table_sinks (m_table ?s)) + mset (map fst (m_sent ?s)) + mset (m_dropped ?s)
              = mset [0..<length (m_owner ?s)]"
    using machine_conserved by (simp add: conserved_def)
  then have "mset (table_sinks (m_table ?s) @ map fst (m_sent ?s) @ m_dropped ?s)
              = mset [0..<length (m_owner ?s)]"
    by (simp add: ac_simps del: mset_upt)
  then have "distinct (table_sinks (m_table ?s) @ map fst (m_sent ?s) @ m_dropped ?s)"
    by (metis distinct_upt mset_eq_imp_distinct_iff)
  with eq show ?thesis by simp
qed

text \<open>a response that is sent to a handler was delivered for the request the handler parked
  on, with that body: no interleaving makes responses of different requests cross.\<close>

theorem response_reaches_own_request:
  assumes "(k, rid, body) \<in> set (m_sent (foldl mstep machine_init es))"
  shows "k < length (m_owner (foldl mstep machine_init es))
       \<and> m_owner (foldl mstep machine_init es) ! k = rid
       \<and> (\<exists>now. EDeliver now rid body \<in> set es)"
  using assms machine_routed [of es] sent_run [OF assms]
  by (fastforce simp: routed_def machine_init_def)

theorem response_reaches_own_request_witness:
  "m_owner (foldl mstep machine_init
      [EInsert 0 ''r1'' ''h'' Coold, EInsert 0 ''r2'' ''h'' Coold, EPark ''r2'', EPark ''r1'',
       EDeliver 5 ''r2'' (CooldData (Ok JNull))]) ! 0 = ''r2''"
  using response_reaches_own_request
    [of 0 "''r2''" "CooldData (Ok JNull)"
      "[EInsert 0 ''r1'' ''h'' Coold, EInsert 0 ''r2'' ''h'' Coold, EPark ''r2'', EPark ''r1'',
        EDeliver 5 ''r2'' (CooldData (Ok JNull))]"]
  by (simp add: machine_init_def pending_new_def insert_entry_def park_lock_def deliver_lock_def
      hm_insert_def hm_remove_def hm_modify_def)

text \<open>Whether the handler parks before the response arrives or after it, it gets the body
  of the response, and afterwards the table holds what it held before the dispatch.\<close>

theorem dispatch_either_order:
  assumes "insert_waiting now rid h k mx p = (Inserted, p1)"
  shows "fst (park s rid p1) = Parked s
    \<and> fst (deliver now' rid body (snd (park s rid p1))) = [(s, body)]
    \<and> hm_get (snd (deliver now' rid body (snd (park s rid p1)))) = hm_get p
    \<and> fst (deliver now' rid body p1) = []
    \<and> fst (park s rid (snd (deliver now' rid body p1))) = AlreadyLanded body
    \<and> hm_get (snd (park s rid (snd (deliver now' rid body p1)))) = hm_get p"
  using assms
  by (auto simp: insert_waiting_def insert_entry_def park_def park_lock_def deliver_def
      deliver_lock_def fun_eq_iff split: if_splits option.splits)

theorem dispatch_either_order_witness:
  "fst (deliver 9 ''r'' (CooldData (Ok JNull))
      (snd (park 3 ''r'' (snd (insert_waiting 0 ''r'' ''h'' Coold 8 pending_new)))))
     = [(3, CooldData (Ok JNull))]"
proof -
  have "insert_waiting 0 ''r'' ''h'' Coold 8 pending_new
          = (Inserted, snd (insert_waiting 0 ''r'' ''h'' Coold 8 pending_new))"
    by (simp add: insert_waiting_def insert_entry_def pending_new_def)
  from dispatch_either_order [OF this, of 3 9 "CooldData (Ok JNull)"] show ?thesis by simp
qed

text \<open>The sweep removes exactly the expired entries (a wait past the timeout, a landed
  response past its time to live), leaves every other entry as it was, and reports the removed
  ones with their host.\<close>

theorem drain_expired_exact:
  assumes "hm_wf p"
  shows "hm_get (snd (drain_expired now t p)) rid
           = (case hm_get p rid of
                Some e \<Rightarrow> if is_expired now t e then None else Some e | None \<Rightarrow> None)
       \<and> ((rid, sn) \<in> set (fst (drain_expired now t p)) \<longleftrightarrow>
            (\<exists>e. hm_get p rid = Some e \<and> is_expired now t e \<and> sn = snap e))"
proof -
  have "rid \<in> set (expired_ids now t p) \<longleftrightarrow> (\<exists>e. hm_get p rid = Some e \<and> is_expired now t e)"
    using assms by (force simp: expired_ids_def hm_get_mem)
  then show ?thesis
    by (auto simp: drain_expired_def hm_get_remove_all remove_all_reports split: option.splits)
qed

theorem drain_expired_exact_witness:
  "hm_get (snd (drain_expired 70 60 (snd (insert_waiting 0 ''r'' ''h'' Coold 8 pending_new)))) ''r''
     = None"
proof -
  have "hm_wf (snd (insert_waiting 0 ''r'' ''h'' Coold 8 pending_new))"
    by (rule insert_waiting_wf) (simp add: pending_new_def)
  from drain_expired_exact [OF this, of 70 60 "''r''"] show ?thesis
    by (simp add: insert_waiting_def insert_entry_def pending_new_def is_expired_def)
qed

text \<open>\<open>insert_waiting\<close> answers exactly one of the three outcomes, keeps the table within
  its capacity, and never replaces an entry: a duplicate or a full table leaves it unchanged.\<close>

theorem insert_waiting_outcomes:
  assumes "hm_wf p"
  shows "(fst (insert_waiting now rid h k mx p) = AtCapacity \<longleftrightarrow> mx \<le> length p)
       \<and> (fst (insert_waiting now rid h k mx p) = Duplicate \<longleftrightarrow>
            length p < mx \<and> hm_get p rid \<noteq> None)
       \<and> (fst (insert_waiting now rid h k mx p) \<noteq> Inserted \<longrightarrow>
            snd (insert_waiting now rid h k mx p) = p)
       \<and> hm_get p \<subseteq>\<^sub>m hm_get (snd (insert_waiting now rid h k mx p))
       \<and> length (snd (insert_waiting now rid h k mx p)) \<le> max mx (length p)"
  using hm_length_insert [OF assms, of rid]
  by (auto simp: insert_waiting_def insert_entry_def map_le_def split: option.splits)

theorem insert_waiting_outcomes_witness:
  "fst (insert_waiting 0 ''r'' ''h'' Coold 0 pending_new) = AtCapacity"
  using insert_waiting_outcomes [of pending_new 0 "''r''" "''h''" Coold 0]
  by (simp add: pending_new_def)

end
