(* ===== verification/FluxRouting.thy ===== *)
theory FluxRouting
  imports FluxStreams
begin

text \<open>
  \<open>flux/src/routing.rs\<close>: from an envelope and the stream table to the message for the host or
  an error for the caller.
\<close>

datatype route_outcome = SendCoold string server_msg | PushError u32 string

fun required_capability :: "command_payload \<Rightarrow> string" where
  "required_capability (ImagesPull _) = ''images.pull''"
| "required_capability ImagesList = ''images.list''"
| "required_capability (ImagesDelete _ _) = ''images.delete''"
| "required_capability (ContainersCreate _) = ''containers.create''"
| "required_capability (ContainersStart _) = ''containers.start''"
| "required_capability (ContainersStop _ _) = ''containers.stop''"
| "required_capability (ContainersRestart _ _) = ''containers.restart''"
| "required_capability (ContainersDelete _ _) = ''containers.delete''"
| "required_capability (ContainersInspect _) = ''containers.inspect''"
| "required_capability ContainersList = ''containers.list''"
| "required_capability (ContainersLogs _ _ _ _) = ''containers.logs''"
| "required_capability (ContainersExec _ _) = ''containers.exec''"
| "required_capability (ContainersHealthcheckRun _) = ''containers.healthcheck.run''"
| "required_capability (ApplyIngress _ _ _ _) = ''ingress.apply''"
| "required_capability (StopIngress _) = ''ingress.stop''"
| "required_capability (FirewallAllow _) = ''firewall.allow''"
| "required_capability (FirewallRevoke _) = ''firewall.revoke''"
| "required_capability (FirewallList _) = ''firewall.list''"
| "required_capability FirewallReconcile = ''firewall.reconcile''"
| "required_capability (CooldLogs _) = ''coold.logs''"
| "required_capability (CorrosionTables _) = ''corrosion.tables''"
| "required_capability (HostJwtSet _) = ''host.jwt.set''"

definition to_proto_port :: "port_mapping \<Rightarrow> proto_port_mapping" where
  "to_proto_port p =
     \<lparr>pp_host_ip = pm_host_ip p, pp_host_port = pm_host_port p,
      pp_container_port = pm_container_port p, pp_protocol = pm_protocol p\<rparr>"

definition to_create_req :: "containers_create \<Rightarrow> containers_create_req" where
  "to_create_req c =
     \<lparr>cr_name = cc_name c, cr_image = cc_image c, cr_command = cc_command c, cr_env = cc_env c,
      cr_networks = cc_networks c, cr_volumes = cc_volumes c,
      cr_ports = map to_proto_port (cc_ports c), cr_dns = cc_dns c,
      cr_dns_search = cc_dns_search c, cr_network_aliases = cc_network_aliases c,
      cr_restart_policy = cc_restart_policy c, cr_privileged = cc_privileged c,
      cr_network_mode = cc_network_mode c, cr_capabilities = cc_capabilities c\<rparr>"

definition to_proto_app :: "ingress_app_config \<Rightarrow> proto_ingress_app" where
  "to_proto_app a = \<lparr>pia_name = ia_name a, pia_config = ia_config a\<rparr>"

definition to_proto_rule :: "firewall_allow_payload \<Rightarrow> proto_firewall_rule" where
  "to_proto_rule r =
     \<lparr>pf_namespace = fa_namespace r, pf_src = fa_src r, pf_dst = fa_dst r,
      pf_proto = fa_proto r, pf_port = fa_port r, pf_id = fa_id r\<rparr>"

text \<open>The match of \<open>route_coold\<close> that builds the command.\<close>

fun to_server_command :: "command_payload \<Rightarrow> server_command" where
  "to_server_command (ImagesPull r) = CmdImagesPull r"
| "to_server_command ImagesList = CmdImagesList"
| "to_server_command (ImagesDelete r f) = CmdImagesDelete r f"
| "to_server_command (ContainersCreate c) = CmdContainersCreate (to_create_req c)"
| "to_server_command (ContainersStart i) = CmdContainersStart i"
| "to_server_command (ContainersStop i t) = CmdContainersStop i t"
| "to_server_command (ContainersRestart i t) = CmdContainersRestart i t"
| "to_server_command (ContainersDelete i f) = CmdContainersDelete i f"
| "to_server_command (ContainersInspect i) = CmdContainersInspect i"
| "to_server_command ContainersList = CmdContainersList"
| "to_server_command (ContainersLogs i t out err) = CmdContainersLogs i t out err"
| "to_server_command (ContainersExec i c) = CmdContainersExec i c"
| "to_server_command (ContainersHealthcheckRun i) = CmdContainersHealthcheckRun i"
| "to_server_command (ApplyIngress k c apps m) = CmdIngressApply k c m (map to_proto_app apps)"
| "to_server_command (StopIngress k) = CmdIngressStop k"
| "to_server_command (FirewallAllow r) = CmdFirewallAllow (Some (to_proto_rule r))"
| "to_server_command (FirewallRevoke i) = CmdFirewallRevoke i"
| "to_server_command (FirewallList n) = CmdFirewallList n"
| "to_server_command FirewallReconcile = CmdFirewallReconcile"
| "to_server_command (CooldLogs t) = CmdCooldLogs t"
| "to_server_command (CorrosionTables l) = CmdCorrosionTables l"
| "to_server_command (HostJwtSet j) = CmdHostJwtSet j"

definition route_coold :: "'tx streams \<Rightarrow> dispatch_envelope \<Rightarrow> route_outcome" where
  "route_coold streams env =
     (case streams_get streams (de_host_id env) of
        None \<Rightarrow> PushError 404 ''host not connected''
      | Some stream \<Rightarrow>
          (let cap = required_capability (de_command env) in
           if cap \<notin> set (sh_caps stream)
           then (if cap \<in> set (sh_advertised_caps stream)
                 then PushError 403
                        (''capability '' @ cap @ '' is not authorized for this host token'')
                 else PushError 501 (''primitive '' @ cap @ '' is not supported by host''))
           else SendCoold (de_host_id env)
                  \<lparr>sm_request_id = de_request_id env,
                   sm_command = Some (to_server_command (de_command env))\<rparr>))"

section \<open>Properties\<close>

lemma required_capability_kind: "required_capability c = kind c"
  by (cases c) simp_all

lemma inj_records:
  "to_proto_port p = to_proto_port q \<longleftrightarrow> p = q"
  "to_proto_app a = to_proto_app b \<longleftrightarrow> a = b"
  "to_proto_rule r = to_proto_rule r' \<longleftrightarrow> r = r'"
  by (auto simp: to_proto_port_def to_proto_app_def to_proto_rule_def)

lemma map_eq_inj: "(\<And>x y. f x = f y \<longleftrightarrow> x = y) \<Longrightarrow> map f xs = map f ys \<longleftrightarrow> xs = ys"
  by (metis (mono_tags, opaque_lifting) inj_def list.inj_map inj_eq)

lemma to_create_req_inj: "to_create_req c = to_create_req d \<longleftrightarrow> c = d"
  by (auto simp: to_create_req_def map_eq_inj [OF inj_records(1)])

text \<open>Dispatch is authorized by exactly one capability, the kind of the command: a
  disconnected host answers 404, a host that supports the command without being allowed it 403,
  one that does not support it 501, and otherwise the message goes to that host with the
  request's id and the translated command.\<close>

theorem route_coold_decision:
  "route_coold streams env =
     (case hm_get streams (de_host_id env) of
        None \<Rightarrow> PushError 404 ''host not connected''
      | Some e \<Rightarrow>
          if kind (de_command env) \<in> set (se_caps e)
          then SendCoold (de_host_id env)
                 \<lparr>sm_request_id = de_request_id env,
                  sm_command = Some (to_server_command (de_command env))\<rparr>
          else if kind (de_command env) \<in> set (se_advertised_caps e)
          then PushError 403
                 (''capability '' @ kind (de_command env) @ '' is not authorized for this host token'')
          else PushError 501
                 (''primitive '' @ kind (de_command env) @ '' is not supported by host''))"
  by (simp add: route_coold_def streams_get_def required_capability_kind Let_def split: option.splits)

text \<open>The translation to the wire loses nothing: two commands with the same wire message are
  the same command, with every field.\<close>

theorem to_server_command_injective:
  "to_server_command c = to_server_command d \<longleftrightarrow> c = d"
  by (cases c; cases d)
    (simp_all add: to_create_req_inj inj_records map_eq_inj [OF inj_records(2)] conj_ac)

end
