(* ===== verification/FluxServer.thy ===== *)
theory FluxServer
  imports FluxConfig FluxAuth FluxPending FluxRouting
begin

text \<open>
  \<open>flux/src/main.rs\<close>: the gRPC service that accepts host streams, the loop of one stream, the
  heartbeat and the sweepers. \<open>server\<close> is the state the tasks share; a channel to a host is a
  number. What is spawned towards the control plane is collected in \<open>sv_reports\<close>, what is sent to
  parked handlers in \<open>sv_sends\<close>. Clock readings are arguments: \<open>now\<close> in seconds of wall-clock time
  for tokens, \<open>inst\<close> in nanoseconds for the tables.
\<close>

section \<open>Capabilities, schema and bind checks\<close>

definition FLUX_SCHEMA_MIN :: u32 where
  "FLUX_SCHEMA_MIN = 1"

definition FLUX_SCHEMA_MAX :: u32 where
  "FLUX_SCHEMA_MAX = 1"

definition STATUS_PUBLISH_CONCURRENCY :: usize where
  "STATUS_PUBLISH_CONCURRENCY = 256"

definition schema_overlaps :: "u32 \<Rightarrow> u32 \<Rightarrow> u32 \<Rightarrow> u32 \<Rightarrow> bool" where
  "schema_overlaps coold_min coold_max flux_min flux_max =
     (coold_min \<le> flux_max \<and> flux_min \<le> coold_max)"

fun is_unspecified :: "ip_addr \<Rightarrow> bool" where
  "is_unspecified (V4 a) = (a = 0)"
| "is_unspecified (V6 gs) = (gs = replicate 8 0)"

text \<open>\<open>Inl\<close> is the refusal; its message only repeats the address.\<close>

definition validate_bind :: "ip_addr \<times> u16 \<Rightarrow> bool \<Rightarrow> (ip_addr \<times> u16) + unit" where
  "validate_bind addr allow_public =
     (if is_unspecified (fst addr) \<and> \<not> allow_public then Inl addr else Inr ())"

definition capability_profile_authorizes_all :: "string \<Rightarrow> bool" where
  "capability_profile_authorizes_all c = (c \<in> {''*'', ''host-agent:dev'', ''host-agent:default''})"

definition contains_wildcard_profile :: "string list \<Rightarrow> bool" where
  "contains_wildcard_profile jwt_caps = list_ex capability_profile_authorizes_all jwt_caps"

definition effective_capabilities :: "string list \<Rightarrow> string list \<Rightarrow> bool \<Rightarrow> string list" where
  "effective_capabilities advertised jwt_caps allow_wildcard =
     (if allow_wildcard \<and> contains_wildcard_profile jwt_caps then advertised
      else filter (\<lambda>c. c \<in> set jwt_caps) advertised)"

definition missing_capabilities :: "string list \<Rightarrow> string list \<Rightarrow> string list" where
  "missing_capabilities advertised effective = filter (\<lambda>c. c \<notin> set effective) advertised"

text \<open>\<open>read\<close> is what reading a file gives.\<close>

definition build_tls_config :: "(string \<Rightarrow> string result) \<Rightarrow> config \<Rightarrow> (string \<times> string) option result" where
  "build_tls_config read c =
     (case (cf_tls_cert_path c, cf_tls_key_path c) of
        (Some cert_path, Some key_path) \<Rightarrow>
          and_then (map_err (\<lambda>e. ''read TLS cert '' @ cert_path) (read cert_path)) (\<lambda>cert.
          and_then (map_err (\<lambda>e. ''read TLS key '' @ key_path) (read key_path)) (\<lambda>key.
            Inr (Some (cert, key))))
      | (None, None) \<Rightarrow> Inr None
      | _ \<Rightarrow> Inl (''TLS misconfigured: set BOTH COOLIFY_FLUX_TLS_CERT_PATH and ''
                 @ ''COOLIFY_FLUX_TLS_KEY_PATH, or neither''))"

section \<open>Shared state\<close>

datatype report =
    Publish resource_status_update
  | Upsert string "string list" "string option"
  | Disconnected string string

record server =
  sv_config :: config
  sv_streams :: "nat streams"
  sv_pending :: pending
  sv_permits :: usize
  sv_sends :: "(nat \<times> response_data) list"
  sv_reports :: "report list"

definition server_new :: "config \<Rightarrow> server" where
  "server_new c =
     \<lparr>sv_config = c, sv_streams = streams_new, sv_pending = pending_new,
      sv_permits = STATUS_PUBLISH_CONCURRENCY, sv_sends = [], sv_reports = []\<rparr>"

definition coold_status_update :: "string \<Rightarrow> string \<Rightarrow> string \<Rightarrow> resource_status_update" where
  "coold_status_update host_id status status_message =
     \<lparr>rs_resource_type = ''server'', rs_host_id = host_id, rs_container_id = [],
      rs_container_name = [], rs_status = status, rs_status_message = status_message\<rparr>"

definition report :: "report list \<Rightarrow> server \<Rightarrow> server" where
  "report rs s = s\<lparr>sv_reports := sv_reports s @ rs\<rparr>"

text \<open>A registry call is made only when a registry client is configured.\<close>

definition registry_report :: "report list \<Rightarrow> server \<Rightarrow> server" where
  "registry_report rs s = (case from_config (sv_config s) of None \<Rightarrow> s | Some _ \<Rightarrow> report rs s)"

definition spawn_bounded_publish :: "resource_status_update \<Rightarrow> server \<Rightarrow> server" where
  "spawn_bounded_publish u s =
     (if 0 < sv_permits s then report [Publish u] (s\<lparr>sv_permits := sv_permits s - 1\<rparr>) else s)"

text \<open>The task of a bounded publish ends and returns its permit.\<close>

definition publish_done :: "server \<Rightarrow> server" where
  "publish_done s =
     (if sv_permits s < STATUS_PUBLISH_CONCURRENCY then s\<lparr>sv_permits := sv_permits s + 1\<rparr> else s)"

section \<open>Accepting a stream\<close>

datatype inbound = InMsg client_msg | InErr string | InEnd

datatype status =
    Unauthenticated string
  | InvalidArgument string
  | FailedPrecondition string
  | Upstream string

record stream_request =
  rq_authorization :: "string option"
  rq_peer_ip :: "ip_addr option"
  rq_first :: inbound

record session =
  ss_host_id :: string
  ss_token_exp :: u64
  ss_channel :: nat

definition bearer_token :: "stream_request \<Rightarrow> status + string" where
  "bearer_token r =
     (case Option.bind (rq_authorization r) (\<lambda>v. strip_prefix v ''Bearer '') of
        Some jwt \<Rightarrow> Inr jwt
      | None \<Rightarrow> Inl (Unauthenticated ''invalid credentials''))"

definition server_keys :: "config \<Rightarrow> jwt_keys" where
  "server_keys c = \<lparr>jk_default_pem = cf_jwt_public_key c, jk_by_kid = cf_jwt_additional_keys c\<rparr>"

definition read_hello :: "inbound \<Rightarrow> status + hello" where
  "read_hello i =
     (case i of
        InMsg (Some (PHello h)) \<Rightarrow> Inr h
      | InErr e \<Rightarrow> Inl (Upstream e)
      | _ \<Rightarrow> Inl (InvalidArgument ''hello required''))"

text \<open>The checks of \<open>stream\<close> before the table is touched.\<close>

definition stream_admit ::
  "'k jwt_lib \<Rightarrow> u64 \<Rightarrow> u64 \<Rightarrow> revocation_store \<Rightarrow> config \<Rightarrow> stream_request \<Rightarrow>
   status + verified_jwt \<times> hello" where
  "stream_admit lib clock now revs c r =
     and_then (bearer_token r) (\<lambda>jwt.
     and_then (map_err (\<lambda>_. Unauthenticated ''invalid credentials'')
        (verify_jwt lib clock jwt (server_keys c) (is_revoked revs) now (cf_max_token_lifetime_secs c)))
        (\<lambda>v.
     if \<not> team_id_satisfied (vj_team_id v) (cf_require_team_id c)
     then Inl (Unauthenticated ''invalid credentials'')
     else and_then (read_hello (rq_first r)) (\<lambda>h.
     if \<not> schema_overlaps (he_schema_min h) (he_schema_max h) FLUX_SCHEMA_MIN FLUX_SCHEMA_MAX
     then Inl (FailedPrecondition ''coold/flux schema versions are incompatible'')
     else and_then (map_err (\<lambda>_. Unauthenticated ''invalid credentials'')
        (decide_host_binding (vj_host_id v) (he_host_mgmt_ip h) (rq_peer_ip r)
           (cf_require_host_binding c)))
        (\<lambda>_. Inr (v, h)))))"

text \<open>\<open>ch\<close> is the channel made for the stream.\<close>

definition stream ::
  "'k jwt_lib \<Rightarrow> u64 \<Rightarrow> u64 \<Rightarrow> nat \<Rightarrow> revocation_store \<Rightarrow> nat \<Rightarrow> stream_request \<Rightarrow> server \<Rightarrow>
   (status + session) \<times> server" where
  "stream lib clock now inst revs ch r s =
     (case stream_admit lib clock now revs (sv_config s) r of
        Inl e \<Rightarrow> (Inl e, s)
      | Inr (v, h) \<Rightarrow>
          (let host_id = vj_host_id v;
               effective = effective_capabilities (he_capabilities h) (vj_caps v)
                             (cf_allow_wildcard_capabilities (sv_config s));
               s1 = s\<lparr>sv_streams := streams_insert inst host_id
                        \<lparr>sh_tx = ch, sh_caps = effective, sh_advertised_caps = he_capabilities h\<rparr>
                        (sv_streams s)\<rparr>;
               s2 = report [Publish (coold_status_update host_id ''installed'' ''coold stream connected.'')] s1;
               s3 = registry_report [Upsert host_id effective (Some (he_coold_version h))] s2 in
           (Inr \<lparr>ss_host_id = host_id, ss_token_exp = vj_exp v, ss_channel = ch\<rparr>, s3)))"

section \<open>The loop of a stream\<close>

fun response_body_type :: "proto_body option \<Rightarrow> string" where
  "response_body_type (Some (BImagesPull _ _)) = ''images.pull''"
| "response_body_type (Some (BImagesList _)) = ''images.list''"
| "response_body_type (Some (BImagesDelete _)) = ''images.delete''"
| "response_body_type (Some (BContainersCreate _)) = ''containers.create''"
| "response_body_type (Some (BContainersStart _)) = ''containers.start''"
| "response_body_type (Some (BContainersStop _)) = ''containers.stop''"
| "response_body_type (Some (BContainersRestart _)) = ''containers.restart''"
| "response_body_type (Some (BContainersDelete _)) = ''containers.delete''"
| "response_body_type (Some (BContainersInspect _)) = ''containers.inspect''"
| "response_body_type (Some (BContainersList _)) = ''containers.list''"
| "response_body_type (Some (BContainersLogs _)) = ''containers.logs''"
| "response_body_type (Some (BContainersExec _ _)) = ''containers.exec''"
| "response_body_type (Some (BContainersHealthcheckRun _)) = ''containers.healthcheck.run''"
| "response_body_type (Some (BIngressApply _)) = ''ingress.apply''"
| "response_body_type (Some (BIngressStop _)) = ''ingress.stop''"
| "response_body_type (Some (BFirewallAllow _ _)) = ''firewall.allow''"
| "response_body_type (Some (BFirewallRevoke _)) = ''firewall.revoke''"
| "response_body_type (Some (BFirewallList _)) = ''firewall.list''"
| "response_body_type (Some (BFirewallReconcile _)) = ''firewall.reconcile''"
| "response_body_type (Some (BCooldLogs _)) = ''coold.logs''"
| "response_body_type (Some (BCorrosionTables _)) = ''corrosion.tables''"
| "response_body_type (Some (BHostJwtSet _)) = ''host.jwt.set''"
| "response_body_type (Some (BError _ _)) = ''error''"
| "response_body_type None = ''none''"

definition deliver_response ::
  "(string \<Rightarrow> json option) \<Rightarrow> nat \<Rightarrow> string \<Rightarrow> proto_response \<Rightarrow> server \<Rightarrow> server" where
  "deliver_response jp inst host_id resp s =
     (case pending_get (sv_pending s) (pr_request_id resp) of
        None \<Rightarrow> s
      | Some _ \<Rightarrow>
          (case try_from_proto jp resp of
             None \<Rightarrow> s
           | Some body \<Rightarrow>
               (case deliver inst (pr_request_id resp) (CooldData body) (sv_pending s) of
                  (sends, p) \<Rightarrow> s\<lparr>sv_pending := p, sv_sends := sv_sends s @ sends\<rparr>)))"

fun stream_msg ::
  "(string \<Rightarrow> json option) \<Rightarrow> nat \<Rightarrow> string \<Rightarrow> client_msg \<Rightarrow> server \<Rightarrow> server" where
  "stream_msg jp inst host_id (Some (PResponse resp)) s = deliver_response jp inst host_id resp s"
| "stream_msg jp inst host_id (Some (PResourceStatusUpdate u)) s = spawn_bounded_publish u s"
| "stream_msg jp inst host_id (Some (PPong _)) s =
     (case touch inst host_id (sv_streams s) of
        (restored, st) \<Rightarrow>
          (let s1 = s\<lparr>sv_streams := st\<rparr> in
           if restored
           then spawn_bounded_publish
                  (coold_status_update host_id ''installed'' ''coold heartbeat restored.'') s1
           else s1))"
| "stream_msg jp inst host_id (Some (PHello _)) s = s"
| "stream_msg jp inst host_id None s = s"

text \<open>One turn of the \<open>select!\<close>: the token's expiry, or the next inbound item. The result is the
  reason the loop ends with, if it ends.\<close>

datatype turn = Expiry | Recv nat inbound

fun stream_turn ::
  "(string \<Rightarrow> json option) \<Rightarrow> string \<Rightarrow> turn \<Rightarrow> server \<Rightarrow> string option \<times> server" where
  "stream_turn jp host_id Expiry s = (Some ''token_expired'', s)"
| "stream_turn jp host_id (Recv inst InEnd) s = (Some ''stream_closed'', s)"
| "stream_turn jp host_id (Recv inst (InErr e)) s = (Some ''stream_error'', s)"
| "stream_turn jp host_id (Recv inst (InMsg m)) s = (None, stream_msg jp inst host_id m s)"

definition stream_close :: "string \<Rightarrow> string \<Rightarrow> server \<Rightarrow> server" where
  "stream_close host_id reason s =
     registry_report [Disconnected host_id reason]
       (report [Publish (coold_status_update host_id ''unreachable'' ''coold stream disconnected.'')]
         (s\<lparr>sv_streams := streams_remove host_id (sv_streams s)\<rparr>))"

fun stream_loop ::
  "(string \<Rightarrow> json option) \<Rightarrow> string \<Rightarrow> turn list \<Rightarrow> server \<Rightarrow> server" where
  "stream_loop jp host_id [] s = s"
| "stream_loop jp host_id (t # ts) s =
     (case stream_turn jp host_id t s of
        (Some reason, s') \<Rightarrow> stream_close host_id reason s'
      | (None, s') \<Rightarrow> stream_loop jp host_id ts s')"

section \<open>Heartbeat and sweepers\<close>

definition ping_msg :: "string \<Rightarrow> server_msg" where
  "ping_msg request_id = \<lparr>sm_request_id = request_id, sm_command = Some CmdPing\<rparr>"

text \<open>One tick of the heartbeat: the stale hosts are reported, then every host is pinged.
  \<open>uuid\<close> gives the request id of the ping to each host.\<close>

definition heartbeat_tick :: "(string \<Rightarrow> string) \<Rightarrow> nat \<Rightarrow> server \<Rightarrow> (nat \<times> server_msg) list \<times> server" where
  "heartbeat_tick uuid inst s =
     (let (lost, st) = mark_stale inst (from_secs (max 1 (cf_coold_pong_timeout_secs (sv_config s))))
                         (sv_streams s) in
      (map (\<lambda>(h, tx). (tx, ping_msg (uuid h))) (ping_targets st),
       report (map (\<lambda>h. Publish (coold_status_update h ''unreachable'' ''coold heartbeat timed out.'')) lost)
         (s\<lparr>sv_streams := st\<rparr>)))"

definition pending_sweep_tick :: "nat \<Rightarrow> server \<Rightarrow> (string \<times> pending_snapshot) list \<times> server" where
  "pending_sweep_tick inst s =
     (let (expired, p) = drain_expired inst (from_secs (cf_dispatch_timeout_secs (sv_config s))) (sv_pending s) in
      (expired, s\<lparr>sv_pending := p\<rparr>))"

definition revocation_sweep_tick ::
  "(revocation_entry list \<Rightarrow> string) \<Rightarrow> io_faults \<Rightarrow> u64 \<Rightarrow> revocation_store \<times> disk \<Rightarrow> revocation_store \<times> disk" where
  "revocation_sweep_tick tj io now sd = snd (prune tj io now sd)"

end
