(* ===== verification/FluxBridge.thy ===== *)
theory FluxBridge
  imports FluxServer
begin

text \<open>
  \<open>flux/src/unix_bridge.rs\<close>: the handlers of the Unix-socket lane. A dispatch runs in two parts:
  \<open>coold_dispatch\<close> up to the await, and \<open>await_coold\<close> on what the await yields. \<open>try_send\<close> on a
  host's channel is a parameter; the message it accepted is returned.
\<close>

datatype try_send_result = SendOk | SendFull | SendClosed

type_synonym http_response = "nat \<times> response_envelope"

text \<open>Every code of the two ranges is a valid status code, so the fallbacks are not reached.\<close>

definition code_to_status :: "u32 \<Rightarrow> nat" where
  "code_to_status code =
     (if 400 \<le> code \<and> code \<le> 499 then unat code
      else if 500 \<le> code \<and> code \<le> 599 then unat code
      else 500)"

definition coold_err :: "string \<Rightarrow> u32 \<Rightarrow> string \<Rightarrow> http_response" where
  "coold_err request_id code message =
     (code_to_status code, \<lparr>re_request_id = request_id, re_body = Error code message\<rparr>)"

datatype dispatch_outcome =
    Answered http_response
  | Awaiting string nat "nat \<times> server_msg"

definition remove_pending :: "string \<Rightarrow> server \<Rightarrow> server" where
  "remove_pending rid s = s\<lparr>sv_pending := snd (pending_remove rid (sv_pending s))\<rparr>"

text \<open>The part of \<open>coold_dispatch\<close> after the handler is parked on channel \<open>rx\<close>.\<close>

definition dispatch_send ::
  "(nat \<Rightarrow> server_msg \<Rightarrow> try_send_result) \<Rightarrow> string \<Rightarrow> string \<Rightarrow> nat \<Rightarrow> server_msg \<Rightarrow> server \<Rightarrow>
   dispatch_outcome \<times> server" where
  "dispatch_send try_send rid target rx msg s =
     (case get_tx (sv_streams s) target of
        None \<Rightarrow> (Answered (coold_err rid 503 ''host stream gone''), remove_pending rid s)
      | Some tx \<Rightarrow>
          (case try_send tx msg of
             SendFull \<Rightarrow> (Answered (coold_err rid 503 ''host command queue full''), remove_pending rid s)
           | SendClosed \<Rightarrow> (Answered (coold_err rid 503 ''host stream send failed''), remove_pending rid s)
           | SendOk \<Rightarrow> (Awaiting rid rx (tx, msg), s)))"

definition coold_dispatch ::
  "(nat \<Rightarrow> server_msg \<Rightarrow> try_send_result) \<Rightarrow> nat \<Rightarrow> nat \<Rightarrow> dispatch_envelope \<Rightarrow> server \<Rightarrow>
   dispatch_outcome \<times> server" where
  "coold_dispatch try_send inst sink env s =
     (let rid = de_request_id env in
      case route_coold (sv_streams s) env of
        PushError code message \<Rightarrow> (Answered (coold_err rid code message), s)
      | SendCoold target msg \<Rightarrow>
          (case insert_waiting inst rid target Coold (cf_pending_max (sv_config s)) (sv_pending s) of
             (Duplicate, _) \<Rightarrow> (Answered (coold_err rid 409 ''request_id already in flight''), s)
           | (AtCapacity, _) \<Rightarrow> (Answered (coold_err rid 503 ''flux at pending-dispatch capacity''), s)
           | (Inserted, p) \<Rightarrow>
               (case park sink rid p of
                  (Parked rx, p') \<Rightarrow> dispatch_send try_send rid target rx msg (s\<lparr>sv_pending := p'\<rparr>)
                | (_, p') \<Rightarrow>
                    (Answered (coold_err rid 500 ''pending state lost after insert''), s\<lparr>sv_pending := p'\<rparr>))))"

datatype awaited = Response response_data | SinkDropped | Elapsed

fun await_coold :: "string \<Rightarrow> awaited \<Rightarrow> http_response" where
  "await_coold rid (Response (CooldData body)) = (200, \<lparr>re_request_id = rid, re_body = body\<rparr>)"
| "await_coold rid SinkDropped = coold_err rid 504 ''dispatch timeout''"
| "await_coold rid Elapsed = coold_err rid 504 ''dispatch timeout''"

section \<open>Token endpoints\<close>

record revoke_request =
  rr_jti :: string
  rr_expires_at :: "u64 option"

definition revoke_token ::
  "(revocation_entry list \<Rightarrow> string) \<Rightarrow> io_faults \<Rightarrow> revoke_request \<Rightarrow> revocation_store \<times> disk \<Rightarrow>
   (nat \<times> json) \<times> revocation_store \<times> disk" where
  "revoke_token tj io req sd =
     (if trim (rr_jti req) = [] then ((400, JObject [(''error'', JString ''jti is required'')]), sd)
      else (case revoke tj io (rr_jti req) (rr_expires_at req) sd of
              (Inr _, sd') \<Rightarrow> ((200, JObject [(''revoked'', JString (rr_jti req))]), sd')
            | (Inl _, sd') \<Rightarrow> ((500, JObject [(''error'', JString ''failed to persist revocation'')]), sd')))"

definition unrevoke_token ::
  "(revocation_entry list \<Rightarrow> string) \<Rightarrow> io_faults \<Rightarrow> string \<Rightarrow> revocation_store \<times> disk \<Rightarrow>
   (nat \<times> json) \<times> revocation_store \<times> disk" where
  "unrevoke_token tj io jti sd =
     (case unrevoke tj io jti sd of
        (Inr removed, sd') \<Rightarrow> ((200, JObject [(''jti'', JString jti), (''removed'', JBool removed)]), sd')
      | (Inl _, sd') \<Rightarrow> ((500, JObject [(''error'', JString ''failed to persist revocation'')]), sd'))"

definition list_revocations :: "revocation_store \<Rightarrow> revocation_entry list" where
  "list_revocations st = revocation_list st"

definition health :: json where
  "health = JObject [(''ok'', JBool True)]"

definition stream_inventory :: "server \<Rightarrow> stream_inventory_item list" where
  "stream_inventory s = snapshot (sv_streams s)"

section \<open>Admission of a stream\<close>

lemma stream_admit_Inr:
  "stream_admit lib clock now revs c r = Inr (v, h) \<longleftrightarrow>
     (\<exists>jwt b. rq_authorization r = Some (''Bearer '' @ jwt)
       \<and> verify_jwt lib clock jwt (server_keys c) (is_revoked revs) now (cf_max_token_lifetime_secs c) = Inr v
       \<and> team_id_satisfied (vj_team_id v) (cf_require_team_id c)
       \<and> rq_first r = InMsg (Some (PHello h))
       \<and> schema_overlaps (he_schema_min h) (he_schema_max h) FLUX_SCHEMA_MIN FLUX_SCHEMA_MAX
       \<and> decide_host_binding (vj_host_id v) (he_host_mgmt_ip h) (rq_peer_ip r) (cf_require_host_binding c) = Inr b)"
proof -
  have "bearer_token r = Inr jwt \<longleftrightarrow> rq_authorization r = Some (''Bearer '' @ jwt)" for jwt
    by (auto simp: bearer_token_def strip_prefix_def starts_with_iff bind_eq_Some_conv
        split: option.splits if_splits)
  moreover have "read_hello (rq_first r) = Inr h \<longleftrightarrow> rq_first r = InMsg (Some (PHello h))" for h
    by (auto simp: read_hello_def split: inbound.splits option.splits client_payload.splits)
  ultimately show ?thesis
    by (auto simp: stream_admit_def and_then_eq_Inr guard_eq_Inr)
qed

lemma effective_capabilities_iff:
  "c \<in> set (effective_capabilities adv jwt w) \<longleftrightarrow>
     c \<in> set adv \<and> (c \<in> set jwt \<or> w \<and> contains_wildcard_profile jwt)"
  by (auto simp: effective_capabilities_def)

lemma sv_streams_reports [simp]:
  "sv_streams (report rs s) = sv_streams s" "sv_streams (registry_report rs s) = sv_streams s"
  "sv_pending (report rs s) = sv_pending s" "sv_pending (registry_report rs s) = sv_pending s"
  "sv_config (report rs s) = sv_config s" "sv_config (registry_report rs s) = sv_config s"
  "sv_permits (report rs s) = sv_permits s" "sv_permits (registry_report rs s) = sv_permits s"
  "sv_sends (report rs s) = sv_sends s" "sv_sends (registry_report rs s) = sv_sends s"
  by (auto simp: report_def registry_report_def split: option.splits)

lemma stream_Inr:
  assumes "stream lib clock now inst revs ch r s = (Inr ses, s')"
  obtains v h where "stream_admit lib clock now revs (sv_config s) r = Inr (v, h)"
    and "ss_host_id ses = vj_host_id v" "ss_token_exp ses = vj_exp v" "ss_channel ses = ch"
    and "sv_streams s' = streams_insert inst (vj_host_id v)
           \<lparr>sh_tx = ch,
            sh_caps = effective_capabilities (he_capabilities h) (vj_caps v)
                        (cf_allow_wildcard_capabilities (sv_config s)),
            sh_advertised_caps = he_capabilities h\<rparr> (sv_streams s)"
  using assms by (auto simp: stream_def Let_def split: sum.splits prod.splits)

lemma route_SendCoold:
  "route_coold st env = SendCoold t m \<longleftrightarrow>
     (\<exists>e. hm_get st (de_host_id env) = Some e \<and> kind (de_command env) \<in> set (se_caps e)
        \<and> t = de_host_id env
        \<and> m = \<lparr>sm_request_id = de_request_id env, sm_command = Some (to_server_command (de_command env))\<rparr>)"
  by (auto simp: route_coold_def streams_get_def required_capability_kind Let_def split: option.splits)

text \<open>A stream is registered only for a request that carries a bearer token which verifies,
  satisfies the tenant requirement, opens with a hello whose schema range contains flux's version,
  and is bound to its host; the table then holds this stream's channel for the token's host. A
  refused request changes nothing.\<close>

theorem stream_admission:
  assumes "stream lib clock now inst revs ch r s = (out, s')"
  shows "case out of
      Inl e \<Rightarrow> s' = s
    | Inr ses \<Rightarrow>
        \<exists>jwt v h b. rq_authorization r = Some (''Bearer '' @ jwt)
        \<and> verify_jwt lib clock jwt (server_keys (sv_config s)) (is_revoked revs) now
            (cf_max_token_lifetime_secs (sv_config s)) = Inr v
        \<and> (cf_require_team_id (sv_config s) \<longrightarrow> (\<exists>t. vj_team_id v = Some t \<and> trim t \<noteq> []))
        \<and> rq_first r = InMsg (Some (PHello h)) \<and> he_schema_min h \<le> 1 \<and> 1 \<le> he_schema_max h
        \<and> decide_host_binding (vj_host_id v) (he_host_mgmt_ip h) (rq_peer_ip r)
            (cf_require_host_binding (sv_config s)) = Inr b
        \<and> ss_host_id ses = vj_host_id v \<and> ss_token_exp ses = vj_exp v
        \<and> get_tx (sv_streams s') (vj_host_id v) = Some ch"
proof (cases out)
  case (Inl e)
  then show ?thesis
    using assms by (auto simp: stream_def Let_def split: sum.splits prod.splits)
next
  case (Inr ses)
  with assms obtain v h where
    admit: "stream_admit lib clock now revs (sv_config s) r = Inr (v, h)"
    and ses: "ss_host_id ses = vj_host_id v" "ss_token_exp ses = vj_exp v"
    and st: "sv_streams s' = streams_insert inst (vj_host_id v)
           \<lparr>sh_tx = ch,
            sh_caps = effective_capabilities (he_capabilities h) (vj_caps v)
                        (cf_allow_wildcard_capabilities (sv_config s)),
            sh_advertised_caps = he_capabilities h\<rparr> (sv_streams s)"
    by (auto elim: stream_Inr)
  have "get_tx (sv_streams s') (vj_host_id v) = Some ch"
    by (simp add: st get_tx_def streams_insert_def fresh_entry_def)
  with admit ses Inr show ?thesis
    unfolding stream_admit_Inr
    by (auto simp: schema_overlaps_def FLUX_SCHEMA_MIN_def FLUX_SCHEMA_MAX_def team_id_satisfied_def
        split: option.splits)
qed

section \<open>Dispatch\<close>

lemma insert_park:
  assumes "insert_waiting inst rid t k mx p = (Inserted, p1)"
  shows "hm_get p rid = None"
    and "park sink rid p1 = (Parked sink, snd (park sink rid p1))"
    and "hm_get (snd (park sink rid p1)) = (hm_get p)(rid \<mapsto>
           \<lparr>pe_host_id = t, pe_kind = k, pe_started_at = inst, pe_state = Waiting [sink]\<rparr>)"
  using assms
  by (auto simp: insert_waiting_def insert_entry_def park_def park_lock_def fun_eq_iff
      split: if_splits option.splits)

lemma coold_err_status: "400 \<le> fst (coold_err rid c m) \<and> fst (coold_err rid c m) < 600"
  by (auto simp: coold_err_def code_to_status_def word_le_nat_alt)

lemma coold_err_id [simp]: "re_request_id (snd (coold_err rid c m)) = rid"
  by (simp add: coold_err_def)

lemma dispatch_send_cases:
  assumes "dispatch_send ts rid target rx msg s = (out, s')"
  shows "case out of
      Answered r \<Rightarrow> s' = remove_pending rid s \<and> 400 \<le> fst r \<and> fst r < 600 \<and> re_request_id (snd r) = rid
    | Awaiting rid' rx' m \<Rightarrow> s' = s \<and> rid' = rid \<and> rx' = rx \<and> snd m = msg
        \<and> get_tx (sv_streams s) target = Some (fst m) \<and> ts (fst m) msg = SendOk"
  using assms
  by (auto simp: dispatch_send_def coold_err_status split: option.splits try_send_result.splits)

lemma coold_dispatch_inserted:
  assumes "route_coold (sv_streams s) env = SendCoold target msg"
    and "insert_waiting inst (de_request_id env) target Coold (cf_pending_max (sv_config s)) (sv_pending s)
           = (Inserted, p)"
  shows "coold_dispatch ts inst sink env s =
           dispatch_send ts (de_request_id env) target sink msg
             (s\<lparr>sv_pending := snd (park sink (de_request_id env) p)\<rparr>)"
proof -
  obtain p' where "park sink (de_request_id env) p = (Parked sink, p')"
    using insert_park(2) [OF assms(2)] by blast
  with assms show ?thesis by (simp add: coold_dispatch_def)
qed

lemma dispatch_balance:
  assumes "coold_dispatch try_send inst sink env s = (out, s')"
  shows "case out of
      Answered r \<Rightarrow> hm_get (sv_pending s') = hm_get (sv_pending s) \<and> 400 \<le> fst r \<and> fst r < 600
        \<and> re_request_id (snd r) = de_request_id env
    | Awaiting rid rx (tx, msg) \<Rightarrow>
        rid = de_request_id env \<and> rx = sink
        \<and> hm_get (sv_pending s) rid = None
        \<and> hm_get (sv_pending s') = (hm_get (sv_pending s))(rid \<mapsto>
            \<lparr>pe_host_id = de_host_id env, pe_kind = Coold, pe_started_at = inst, pe_state = Waiting [sink]\<rparr>)
        \<and> get_tx (sv_streams s) (de_host_id env) = Some tx \<and> try_send tx msg = SendOk
        \<and> msg = \<lparr>sm_request_id = rid, sm_command = Some (to_server_command (de_command env))\<rparr>"
proof (cases "route_coold (sv_streams s) env")
  case (PushError c m)
  with assms show ?thesis by (auto simp: coold_dispatch_def coold_err_status)
next
  case (SendCoold target msg)
  note route = this [unfolded route_SendCoold]
  obtain o1 p where ins: "insert_waiting inst (de_request_id env) target Coold
      (cf_pending_max (sv_config s)) (sv_pending s) = (o1, p)" by fastforce
  show ?thesis
  proof (cases o1)
    case Inserted
    note ins = ins [unfolded Inserted]
    have d: "dispatch_send try_send (de_request_id env) target sink msg
        (s\<lparr>sv_pending := snd (park sink (de_request_id env) p)\<rparr>) = (out, s')"
      using assms coold_dispatch_inserted [OF SendCoold ins] by simp
    show ?thesis
    proof (cases out)
      case (Answered r)
      then show ?thesis
        using dispatch_send_cases [OF d] insert_park(1,3) [OF ins]
        by (simp add: remove_pending_def pending_remove_def fun_eq_iff)
    next
      case (Awaiting rid rx m)
      then show ?thesis
        using dispatch_send_cases [OF d] route insert_park(1,3) [OF ins]
        by (auto split: prod.splits)
    qed
  next
    case Duplicate
    with assms SendCoold ins show ?thesis by (auto simp: coold_dispatch_def coold_err_status)
  next
    case AtCapacity
    with assms SendCoold ins show ?thesis by (auto simp: coold_dispatch_def coold_err_status)
  qed
qed

text \<open>A dispatch that is answered at once leaves the pending table as it found it, so no
  failure path leaks an entry, and answers an error status. A dispatch that goes on to wait has
  created exactly its own entry, with its handler parked, and handed exactly one message, with the
  request's id, to the channel of the target host.\<close>

theorem dispatch_pending_balance:
  assumes "coold_dispatch try_send inst sink env s = (out, s')"
  shows "case out of
      Answered r \<Rightarrow> hm_get (sv_pending s') = hm_get (sv_pending s) \<and> 400 \<le> fst r \<and> fst r < 600
        \<and> re_request_id (snd r) = de_request_id env
    | Awaiting rid rx (tx, msg) \<Rightarrow>
        rid = de_request_id env \<and> rx = sink
        \<and> hm_get (sv_pending s) rid = None
        \<and> hm_get (sv_pending s') = (hm_get (sv_pending s))(rid \<mapsto>
            \<lparr>pe_host_id = de_host_id env, pe_kind = Coold, pe_started_at = inst, pe_state = Waiting [sink]\<rparr>)
        \<and> get_tx (sv_streams s) (de_host_id env) = Some tx \<and> try_send tx msg = SendOk
        \<and> msg = \<lparr>sm_request_id = rid, sm_command = Some (to_server_command (de_command env))\<rparr>"
  using dispatch_balance [OF assms] .

text \<open>End to end. Once a dispatch waits, the response with its request id, arriving on a
  stream, is sent to its handler, which answers 200 with the translated body, and the pending
  table holds again what it held before the dispatch.\<close>

theorem dispatch_round_trip:
  assumes "coold_dispatch try_send inst sink env s = (Awaiting rid rx m, s1)"
    and "pr_request_id resp = rid"
  shows "\<exists>body. try_from_proto jp resp = Some body
      \<and> sv_sends (stream_msg jp inst2 host (Some (PResponse resp)) s1) = sv_sends s1 @ [(rx, CooldData body)]
      \<and> hm_get (sv_pending (stream_msg jp inst2 host (Some (PResponse resp)) s1)) = hm_get (sv_pending s)
      \<and> await_coold rid (Response (CooldData body)) = (200, \<lparr>re_request_id = rid, re_body = body\<rparr>)"
proof -
  obtain tx msg where m: "m = (tx, msg)" by (cases m)
  have b: "rx = sink" "hm_get (sv_pending s) rid = None"
    "hm_get (sv_pending s1) = (hm_get (sv_pending s))(rid \<mapsto>
       \<lparr>pe_host_id = de_host_id env, pe_kind = Coold, pe_started_at = inst, pe_state = Waiting [sink]\<rparr>)"
    using dispatch_balance [OF assms(1)] by (auto simp: m)
  obtain body where "try_from_proto jp resp = Some body" using try_from_proto_total by blast
  with b assms(2) show ?thesis
    by (simp add: deliver_response_def pending_get_def deliver_def deliver_lock_def fun_eq_iff)
qed

text \<open>The response is not checked against the host it was asked of. A response that any other
  host's stream sends with the request id of a waiting dispatch is delivered to its handler as the
  answer of the target host.\<close>

theorem response_of_other_host_accepted:
  assumes "coold_dispatch try_send inst sink env s = (Awaiting rid rx m, s1)"
    and "other \<noteq> de_host_id env" "pr_request_id resp = rid"
  shows "\<exists>body. sv_sends (stream_msg jp inst2 other (Some (PResponse resp)) s1)
           = sv_sends s1 @ [(rx, CooldData body)] \<and> try_from_proto jp resp = Some body"
proof -
  obtain tx msg where m: "m = (tx, msg)" by (cases m)
  have b: "rx = sink" "hm_get (sv_pending s1) rid = Some
       \<lparr>pe_host_id = de_host_id env, pe_kind = Coold, pe_started_at = inst, pe_state = Waiting [sink]\<rparr>"
    using dispatch_balance [OF assms(1)] by (auto simp: m)
  obtain body where "try_from_proto jp resp = Some body" using try_from_proto_total by blast
  with b assms(3) show ?thesis
    by (simp add: deliver_response_def pending_get_def deliver_def deliver_lock_def)
qed

text \<open>C37: After a host reconnects, the end of its older stream removes the newer one from the
  table: commands for the host are refused with 404 although its new stream is open.\<close>

theorem older_stream_end_drops_newer:
  assumes "stream lib clock now inst revs ch r s = (Inr newer, s')"
    and "ss_host_id older = ss_host_id newer" "de_host_id env = ss_host_id newer"
  shows "get_tx (sv_streams s') (ss_host_id newer) = Some ch
       \<and> route_coold (sv_streams (stream_loop jp (ss_host_id older) [Expiry] s')) env
           = PushError 404 ''host not connected''"
proof -
  from assms(1) have "get_tx (sv_streams s') (ss_host_id newer) = Some ch"
    by (elim stream_Inr) (simp add: get_tx_def streams_insert_def fresh_entry_def)
  moreover have "hm_get (sv_streams (stream_close (ss_host_id newer) rs s')) (ss_host_id newer) = None" for rs
    by (simp add: stream_close_def streams_remove_def)
  ultimately show ?thesis
    using assms(2,3) by (simp add: route_coold_def streams_get_def)
qed

text \<open>A flood of status updates spawns at most as many publish tasks as there are permits, at
  most 256 on a fresh server; the rest is dropped, and nothing else of the state changes.\<close>

theorem status_flood_bounded:
  "length (sv_reports (foldl (\<lambda>s u. spawn_bounded_publish u s) s us))
     = length (sv_reports s) + min (length us) (sv_permits s)
   \<and> sv_permits (foldl (\<lambda>s u. spawn_bounded_publish u s) s us) = sv_permits s - length us
   \<and> sv_streams (foldl (\<lambda>s u. spawn_bounded_publish u s) s us) = sv_streams s
   \<and> sv_pending (foldl (\<lambda>s u. spawn_bounded_publish u s) s us) = sv_pending s
   \<and> sv_permits (server_new c) = 256"
proof (induction us arbitrary: s)
  case (Cons u us)
  show ?case
    using Cons.IH [of "spawn_bounded_publish u s"]
    by (auto simp: spawn_bounded_publish_def report_def)
qed (simp add: server_new_def STATUS_PUBLISH_CONCURRENCY_def)

text \<open>TLS is configured with both paths, off with neither, and a start-up error when exactly
  one is set, whatever the files hold.\<close>

theorem tls_needs_both_paths:
  "(is_ok (build_tls_config read c) \<longrightarrow> (cf_tls_cert_path c = None \<longleftrightarrow> cf_tls_key_path c = None))
   \<and> (build_tls_config read c = Inr None \<longleftrightarrow> cf_tls_cert_path c = None \<and> cf_tls_key_path c = None)
   \<and> (build_tls_config read c = Inr (Some (cert, key)) \<longleftrightarrow>
        (\<exists>a b. cf_tls_cert_path c = Some a \<and> cf_tls_key_path c = Some b
           \<and> read a = Inr cert \<and> read b = Inr key))"
  by (auto simp: build_tls_config_def is_ok_iff and_then_eq_Inr split: option.splits)

section \<open>Witnesses\<close>

text \<open>A stream that is admitted, and a dispatch to it.\<close>

definition sample_hello :: hello where
  "sample_hello =
     \<lparr>he_host_mgmt_ip = ''10.0.0.1'', he_coold_version = ''1'', he_schema_min = 1, he_schema_max = 2,
      he_capabilities = [''containers.list'', ''images.list'']\<rparr>"

definition sample_request :: stream_request where
  "sample_request =
     \<lparr>rq_authorization = Some ''Bearer t'', rq_peer_ip = Some (V4 0x0A000001),
      rq_first = InMsg (Some (PHello sample_hello))\<rparr>"

definition list_payload :: json where
  "list_payload = JObject
     [(''sub'', JString ''10.0.0.1''), (''exp'', jint 100), (''team_id'', jint 7),
      (''caps'', jstrings [''containers.list''])]"

definition sample_env :: dispatch_envelope where
  "sample_env = \<lparr>de_host_id = ''10.0.0.1'', de_request_id = ''r1'', de_command = ContainersList\<rparr>"

definition connected_server :: server where
  "connected_server = snd (stream (payload_lib ES256 list_payload) 50 50 0 in_memory 7 sample_request
      (server_new loaded_sample_config))"

definition sample_verified :: verified_jwt where
  "sample_verified =
     \<lparr>vj_host_id = ''10.0.0.1'', vj_caps = [''containers.list''], vj_exp = 100, vj_team_id = Some ''7''\<rparr>"

lemma list_claims:
  "claims_from_json list_payload =
     Some \<lparr>cl_sub = ''10.0.0.1'', cl_caps = [''containers.list''], cl_exp = 100, cl_jti = None,
           cl_team_id = Some ''7''\<rparr>"
  by code_simp

lemma sample_verify:
  "verify_jwt (payload_lib ES256 list_payload) 50 ''t'' (server_keys loaded_sample_config) revoked 50 3600
     = Inr sample_verified"
proof -
  have "jl_decode (payload_lib ES256 list_payload) ''t'' () (coold_validation ES256) 50 = Inr list_payload"
    by (simp add: payload_lib_def list_payload_def jint_def)
  then show ?thesis
    by (simp add: verify_jwt_def resolve_def load_key_def decode_claims_def list_claims admit_claims_def
        lifetime_within_clamp_def seconds_until_expiry_def sample_verified_def)
qed

lemma sample_admit:
  "stream_admit (payload_lib ES256 list_payload) 50 50 in_memory loaded_sample_config sample_request
     = Inr (sample_verified, sample_hello)"
proof -
  have "show_ipv4 0x0A000001 = ''10.0.0.1''"
    by (simp add: show_ipv4_def octets_def octet_def show_nat.simps rust_string)
  then have "parse_ip ''10.0.0.1'' = Some (V4 0x0A000001)" using parse_ip_show_ipv4 by metis
  moreover have "trim ''7'' \<noteq> []" by code_simp
  moreover have "cf_max_token_lifetime_secs loaded_sample_config = 3600"
    by (simp add: loaded_sample_config_def sample_config_def)
  ultimately show ?thesis
    unfolding stream_admit_Inr
    by (intro exI [of _ "''t''"] exI [of _ Transport])
      (simp add: sample_verify, simp add: sample_request_def sample_hello_def sample_verified_def
        team_id_satisfied_def schema_overlaps_def FLUX_SCHEMA_MIN_def FLUX_SCHEMA_MAX_def
        decide_host_binding_def)
qed

lemma sample_stream:
  "stream (payload_lib ES256 list_payload) 50 50 0 in_memory 7 sample_request (server_new loaded_sample_config)
     = (Inr \<lparr>ss_host_id = ''10.0.0.1'', ss_token_exp = 100, ss_channel = 7\<rparr>, connected_server)"
  using sample_admit
  by (simp add: connected_server_def stream_def server_new_def sample_verified_def Let_def)

lemma connected_streams:
  "sv_streams connected_server = [(''10.0.0.1'', \<lparr>se_tx = 7, se_caps = [''containers.list''],
     se_advertised_caps = [''containers.list'', ''images.list''], se_last_seen_at = 0, se_reachable = True\<rparr>)]"
  "sv_pending connected_server = []"
  "cf_pending_max (sv_config connected_server) = 10000"
  using sample_admit
  by (simp_all add: connected_server_def stream_def server_new_def sample_verified_def sample_hello_def
      streams_insert_def fresh_entry_def streams_new_def hm_insert_def hm_remove_def pending_new_def
      effective_capabilities_def loaded_sample_config_def sample_config_def
      contains_wildcard_profile_def capability_profile_authorizes_all_def Let_def)

definition sample_msg :: server_msg where
  "sample_msg = \<lparr>sm_request_id = ''r1'', sm_command = Some CmdContainersList\<rparr>"

lemma sample_route: "route_coold (sv_streams connected_server) sample_env = SendCoold ''10.0.0.1'' sample_msg"
  by (simp add: route_SendCoold connected_streams sample_env_def sample_msg_def)

lemma sample_dispatch:
  "\<exists>s1. coold_dispatch (\<lambda>_ _. SendOk) 0 3 sample_env connected_server = (Awaiting ''r1'' 3 (7, sample_msg), s1)"
proof -
  have "get_tx (sv_streams connected_server) ''10.0.0.1'' = Some 7"
    by (simp add: connected_streams get_tx_def)
  moreover have "de_request_id sample_env = ''r1''" by (simp add: sample_env_def)
  ultimately show ?thesis
    by (simp add: coold_dispatch_def sample_route insert_waiting_def insert_entry_def park_def
        park_lock_def connected_streams(2,3) dispatch_send_def Let_def)
qed

theorem stream_admission_witness:
  "get_tx (sv_streams connected_server) ''10.0.0.1'' = Some 7"
  using stream_admission [OF sample_stream] by auto

theorem dispatch_pending_balance_witness:
  "\<exists>s1. coold_dispatch (\<lambda>_ _. SendOk) 0 3 sample_env connected_server = (Awaiting ''r1'' 3 (7, sample_msg), s1)
     \<and> hm_get (sv_pending s1) ''r1'' \<noteq> None"
proof -
  obtain s1 where s1: "coold_dispatch (\<lambda>_ _. SendOk) 0 3 sample_env connected_server
      = (Awaiting ''r1'' 3 (7, sample_msg), s1)" using sample_dispatch by blast
  with dispatch_pending_balance [OF s1] show ?thesis by simp
qed

theorem dispatch_round_trip_witness:
  "\<exists>s1. coold_dispatch (\<lambda>_ _. SendOk) 0 3 sample_env connected_server = (Awaiting ''r1'' 3 (7, sample_msg), s1)
     \<and> hm_get (sv_pending (stream_msg (\<lambda>_. None) 5 ''10.0.0.1''
          (Some (PResponse \<lparr>pr_request_id = ''r1'', pr_body = None\<rparr>)) s1)) = Map.empty"
proof -
  obtain s1 where s1: "coold_dispatch (\<lambda>_ _. SendOk) 0 3 sample_env connected_server
      = (Awaiting ''r1'' 3 (7, sample_msg), s1)" using sample_dispatch by blast
  from dispatch_round_trip [OF s1, of "\<lparr>pr_request_id = ''r1'', pr_body = None\<rparr>" "\<lambda>_. None" 5 "''10.0.0.1''"] s1
  show ?thesis by (auto simp: connected_streams)
qed

theorem response_of_other_host_accepted_witness:
  "\<exists>s1 body. coold_dispatch (\<lambda>_ _. SendOk) 0 3 sample_env connected_server = (Awaiting ''r1'' 3 (7, sample_msg), s1)
     \<and> sv_sends (stream_msg (\<lambda>_. None) 5 ''10.0.0.66''
          (Some (PResponse \<lparr>pr_request_id = ''r1'', pr_body = None\<rparr>)) s1) = sv_sends s1 @ [(3, body)]"
proof -
  obtain s1 where s1: "coold_dispatch (\<lambda>_ _. SendOk) 0 3 sample_env connected_server
      = (Awaiting ''r1'' 3 (7, sample_msg), s1)" using sample_dispatch by blast
  from response_of_other_host_accepted [OF s1, of "''10.0.0.66''" "\<lparr>pr_request_id = ''r1'', pr_body = None\<rparr>"
      "\<lambda>_. None" 5] s1
  show ?thesis by (auto simp: sample_env_def)
qed

theorem older_stream_end_drops_newer_witness:
  "route_coold (sv_streams (stream_loop (\<lambda>_. None) ''10.0.0.1'' [Expiry] connected_server)) sample_env
     = PushError 404 ''host not connected''"
  using older_stream_end_drops_newer [OF sample_stream,
      of "\<lparr>ss_host_id = ''10.0.0.1'', ss_token_exp = 90, ss_channel = 6\<rparr>" sample_env "\<lambda>_. None"]
  by (simp add: sample_env_def)

theorem tls_needs_both_paths_witness:
  "\<not> is_ok (build_tls_config (\<lambda>_. Inr ''PEM'') (loaded_sample_config\<lparr>cf_tls_cert_path := Some ''/c''\<rparr>))"
  using tls_needs_both_paths [of "\<lambda>_. Inr ''PEM''" "loaded_sample_config\<lparr>cf_tls_cert_path := Some ''/c''\<rparr>"]
  by (auto simp: loaded_sample_config_def sample_config_def)

end
