(* ===== verification/Effects.thy ===== *)
theory Effects
  imports Prelude
begin

text \<open>
  Computations with effects. A computation on the outside world (the machines the CLI reaches over
  ssh, or the host coold runs on) is a function of the state \<open>'w\<close> of that world; an error ends it
  but keeps what it did to the world. The world and the operations on it are parameters of the
  definitions that use them. The theory also holds the lossy decoding of \<open>String::from_utf8_lossy\<close>,
  which is applied to whatever the world returns.
\<close>

named_theorems io_simps \<open>unfolding of the computations with effects\<close>

section \<open>Fallible computations on a world\<close>

type_synonym ('w, 'a) io = "'w \<Rightarrow> 'a result \<times> 'w"

definition io_return :: "'a \<Rightarrow> ('w, 'a) io" where
  "io_return a w = (Inr a, w)"

definition io_fail :: "string \<Rightarrow> ('w, 'a) io" where
  "io_fail e w = (Inl e, w)"

definition io_lift :: "'a result \<Rightarrow> ('w, 'a) io" where
  "io_lift r w = (r, w)"

definition io_bind :: "('w, 'a) io \<Rightarrow> ('a \<Rightarrow> ('w, 'b) io) \<Rightarrow> ('w, 'b) io" where
  "io_bind m f w = (case m w of (Inl e, w') \<Rightarrow> (Inl e, w') | (Inr a, w') \<Rightarrow> f a w')"

text \<open>\<open>.context(c)\<close>, printed with \<open>{:#}\<close>: the context, a colon, the cause.\<close>

definition with_context :: "string \<Rightarrow> 'a result \<Rightarrow> 'a result" where
  "with_context c r = (case r of Inl e \<Rightarrow> Inl (c @ '': '' @ e) | Inr a \<Rightarrow> Inr a)"

definition io_context :: "string \<Rightarrow> ('w, 'a) io \<Rightarrow> ('w, 'a) io" where
  "io_context c m w = (case m w of (r, w') \<Rightarrow> (with_context c r, w'))"

text \<open>\<open>io_try m\<close> hands the result of \<open>m\<close> to the caller instead of ending it: a \<open>match\<close> on the
  \<open>Result\<close>, \<open>.ok()\<close>, \<open>.is_ok()\<close>, \<open>.unwrap_or_default()\<close>.\<close>

definition io_try :: "('w, 'a) io \<Rightarrow> ('w, 'a result) io" where
  "io_try m w = (case m w of (r, w') \<Rightarrow> (Inr r, w'))"

text \<open>Loops whose body may end them with \<open>?\<close>.\<close>

fun io_each :: "('a \<Rightarrow> ('w, unit) io) \<Rightarrow> 'a list \<Rightarrow> ('w, unit) io" where
  "io_each f [] = io_return ()"
| "io_each f (x # xs) = io_bind (f x) (\<lambda>_. io_each f xs)"

fun io_map :: "('a \<Rightarrow> ('w, 'b) io) \<Rightarrow> 'a list \<Rightarrow> ('w, 'b list) io" where
  "io_map f [] = io_return []"
| "io_map f (x # xs) = io_bind (f x) (\<lambda>y. io_bind (io_map f xs) (\<lambda>ys. io_return (y # ys)))"

lemma with_context_simps [simp, result_simps]:
  "with_context c (Inl e) = Inl (c @ '': '' @ e)" "with_context c (Inr a) = Inr a"
  by (simp_all add: with_context_def)

lemma with_context_eq_Inr [simp]: "with_context c r = Inr a \<longleftrightarrow> r = Inr a"
  by (cases r) auto

lemmas io_basic_defs [io_simps] = io_return_def io_fail_def io_lift_def io_context_def io_try_def

lemma io_bind_pair [io_simps]:
  "m w = (Inr a, w') \<Longrightarrow> io_bind m f w = f a w'" "m w = (Inl e, w') \<Longrightarrow> io_bind m f w = (Inl e, w')"
  by (simp_all add: io_bind_def)

lemma io_bind_return [simp]: "io_bind (io_return a) f = f a"
  by (simp add: fun_eq_iff io_bind_def io_return_def)

lemma io_bind_lift_Inr [simp]: "io_bind (io_lift (Inr a)) f = f a"
  by (simp add: fun_eq_iff io_bind_def io_lift_def)

lemma io_bind_lift_Inl [simp]: "io_bind (io_lift (Inl e)) f = io_fail e"
  by (simp add: fun_eq_iff io_bind_def io_lift_def io_fail_def)

lemma io_bind_fail [simp]: "io_bind (io_fail e) f = io_fail e"
  by (simp add: fun_eq_iff io_bind_def io_fail_def)

lemma io_bind_return_right [simp]: "io_bind m io_return = m"
  by (auto simp: fun_eq_iff io_bind_def io_return_def split: prod.splits sum.splits)

lemma io_bind_assoc: "io_bind (io_bind m f) g = io_bind m (\<lambda>a. io_bind (f a) g)"
  by (auto simp: fun_eq_iff io_bind_def split: prod.splits sum.splits)

lemma io_bind_eq_Inr:
  "io_bind m f w = (Inr b, w'') \<longleftrightarrow> (\<exists>a w'. m w = (Inr a, w') \<and> f a w' = (Inr b, w''))"
  by (auto simp: io_bind_def split: prod.splits sum.splits)

lemma io_bind_eq_Inl:
  "io_bind m f w = (Inl e, w'') \<longleftrightarrow>
     m w = (Inl e, w'') \<or> (\<exists>a w'. m w = (Inr a, w') \<and> f a w' = (Inl e, w''))"
  by (auto simp: io_bind_def split: prod.splits sum.splits)

lemma io_context_eq_Inr [simp]: "io_context c m w = (Inr a, w') \<longleftrightarrow> m w = (Inr a, w')"
  by (auto simp: io_context_def split: prod.splits)

lemma io_context_eq_Inl:
  "io_context c m w = (Inl e, w') \<longleftrightarrow> (\<exists>e'. e = c @ '': '' @ e' \<and> m w = (Inl e', w'))"
  by (auto simp: io_context_def with_context_def split: prod.splits sum.splits)

lemma io_lift_eq [simp]: "io_lift r w = (r', w') \<longleftrightarrow> r' = r \<and> w' = w"
  by (auto simp: io_lift_def)

lemma io_return_eq [simp]: "io_return a w = (r', w') \<longleftrightarrow> r' = Inr a \<and> w' = w"
  by (auto simp: io_return_def)

lemma io_fail_eq [simp]: "io_fail e w = (r', w') \<longleftrightarrow> r' = Inl e \<and> w' = w"
  by (auto simp: io_fail_def)

lemma io_try_eq [simp]: "io_try m w = (r, w') \<longleftrightarrow> (\<exists>r'. r = Inr r' \<and> m w = (r', w'))"
  by (auto simp: io_try_def split: prod.splits)

section \<open>HTTP\<close>

text \<open>An answer: whether its status is a success, the status line, and the body, whose transfer may
  still fail.\<close>

record http_reply =
  hr_success :: bool
  hr_status :: string
  hr_body :: "string result"

section \<open>Lossy decoding\<close>

text \<open>
  One step of the decoder on a non-empty input: whether a well-formed character starts here, and
  how many bytes it has or, if it has not, how many bytes the replacement character stands for.
\<close>

definition utf8_step :: "string \<Rightarrow> bool \<times> nat" where
  "utf8_step s =
     (let a = hd s; ok = (\<lambda>i lo hi. i < length s \<and> byte_in lo hi (s ! i)) in
      if byte_in 0 0x7F a then (True, 1)
      else if byte_in 0xC2 0xDF a then (if ok 1 0x80 0xBF then (True, 2) else (False, 1))
      else if byte_in 0xE0 0xEF a then
        (if \<not> ok 1 (if byte_in 0xE0 0xE0 a then 0xA0 else 0x80) (if byte_in 0xED 0xED a then 0x9F else 0xBF)
         then (False, 1)
         else if \<not> ok 2 0x80 0xBF then (False, 2) else (True, 3))
      else if byte_in 0xF0 0xF4 a then
        (if \<not> ok 1 (if byte_in 0xF0 0xF0 a then 0x90 else 0x80) (if byte_in 0xF4 0xF4 a then 0x8F else 0xBF)
         then (False, 1)
         else if \<not> ok 2 0x80 0xBF then (False, 2)
         else if \<not> ok 3 0x80 0xBF then (False, 3) else (True, 4))
      else (False, 1))"

lemma utf8_step_pos: "0 < snd (utf8_step s)"
  by (simp add: utf8_step_def Let_def)

function from_utf8_lossy :: "string \<Rightarrow> string" where
  "from_utf8_lossy s =
     (if s = [] then []
      else (case utf8_step s of (valid, n) \<Rightarrow>
        (if valid then take n s else [CHR 0xEF, CHR 0xBF, CHR 0xBD]) @ from_utf8_lossy (drop n s)))"
  by pat_completeness auto
termination
proof (relation "measure length", goal_cases)
  case (2 s)
  then show ?case using utf8_step_pos [of s] by (cases "utf8_step s") auto
qed simp

declare from_utf8_lossy.simps [simp del]

lemma from_utf8_lossy_Nil [simp]: "from_utf8_lossy [] = []"
  by (simp add: from_utf8_lossy.simps)

lemma from_utf8_lossy_ascii:
  "\<forall>c\<in>set s. byte_in 0 0x7F c \<Longrightarrow> from_utf8_lossy s = s"
proof (induction s)
  case (Cons c s)
  then have "utf8_step (c # s) = (True, 1)" by (simp add: utf8_step_def Let_def)
  with Cons show ?case by (subst from_utf8_lossy.simps) simp
qed simp

lemma from_utf8_lossy_valid: "valid_utf8 s \<Longrightarrow> from_utf8_lossy s = s"
proof (induction s rule: valid_utf8.induct)
  case (2 a s)
  have step: "utf8_step (a # s) = (True, n) \<Longrightarrow> from_utf8_lossy (drop n (a # s)) = drop n (a # s) \<Longrightarrow>
      from_utf8_lossy (a # s) = a # s" for n
    by (subst from_utf8_lossy.simps) simp
  show ?case
  proof (cases "byte_in 0 0x7F a")
    case True
    then have "from_utf8_lossy s = s" using 2 by simp
    then show ?thesis using True by (intro step [of 1]) (auto simp: utf8_step_def Let_def)
  next
    case a: False
    then obtain b s2 where s: "s = b # s2" using "2.prems" by (cases s) auto
    show ?thesis
    proof (cases "byte_in 0xC2 0xDF a")
      case True
      then have "byte_in 0x80 0xBF b" "from_utf8_lossy s2 = s2"
        using a s "2.prems" "2.IH"(2) [OF a s True] by auto
      then show ?thesis using a s True by (intro step [of 2]) (auto simp: utf8_step_def Let_def)
    next
      case b: False
      then obtain c s3 where s2: "s2 = c # s3" using "2.prems" a s by (cases s2) auto
      show ?thesis
      proof (cases "byte_in 0xE0 0xEF a")
        case True
        then have "from_utf8_lossy s3 = s3"
          using a b s s2 "2.prems" "2.IH"(3) [OF a s b s2 True] by auto
        then show ?thesis
          using a b s s2 True "2.prems" by (intro step [of 3]) (auto simp: utf8_step_def Let_def)
      next
        case c: False
        then obtain d s4 where s3: "s3 = d # s4" using "2.prems" a b s s2 by (cases s3) auto
        then have "from_utf8_lossy s4 = s4"
          using a b c s s2 "2.prems" "2.IH"(4) [OF a s b s2 c s3] by auto
        then show ?thesis
          using a b c s s2 s3 "2.prems" by (intro step [of 4]) (auto simp: utf8_step_def Let_def)
      qed
    qed
  qed
qed simp

section \<open>Characters and paths\<close>

text \<open>\<open>is_ascii_alphanumeric\<close>.\<close>

definition is_alnum :: "char \<Rightarrow> bool" where
  "is_alnum c = (byte_in 48 57 c \<or> byte_in 65 90 c \<or> byte_in 97 122 c)"

text \<open>\<open>Path::components\<close>: repeated slashes and inner dots do not count.\<close>

definition path_components :: "string \<Rightarrow> string list" where
  "path_components p =
     (let parts = split_on (CHR ''/'') p; plain = filter (\<lambda>c. c \<noteq> [] \<and> c \<noteq> ''.'') parts in
      if starts_with p ''/'' then ''/'' # plain
      else if hd parts = ''.'' then ''.'' # plain
      else plain)"

text \<open>\<open>Path::join\<close>: an absolute path replaces the one it is joined to.\<close>

definition path_join :: "string \<Rightarrow> string \<Rightarrow> string" where
  "path_join a b =
     (if starts_with b ''/'' then b else if a = [] \<or> ends_with a ''/'' then a @ b else a @ ''/'' @ b)"

text \<open>\<open>Path::parent\<close>: slashes and inner dots at the end do not count; the root and the empty path have
  no parent.\<close>

fun rtrim_path :: "string \<Rightarrow> string" where
  "rtrim_path (c # cs) =
     (if c = CHR ''/'' then rtrim_path cs
      else if c = CHR ''.'' \<and> cs \<noteq> [] \<and> hd cs = CHR ''/'' then rtrim_path (tl cs)
      else c # cs)"
| "rtrim_path [] = []"

definition path_trim :: "string \<Rightarrow> string" where
  "path_trim p =
     (let q = rev (rtrim_path (rev p)) in if q = [] \<and> starts_with p ''/'' then ''/'' else q)"

definition path_parent :: "string \<Rightarrow> string option" where
  "path_parent p =
     (let q = path_trim p in
      if q = [] \<or> q = ''/'' then None
      else Some (path_trim (rev (dropWhile (\<lambda>c. c \<noteq> CHR ''/'') (rev q)))))"

end
