(* ===== verification/HostFiles.thy ===== *)
theory HostFiles
  imports Effects
begin

text \<open>
  The host coold runs on: its files (content and permission bits), which the operations of
  \<open>std::fs\<close> and \<open>tokio::fs\<close> change, and everything else it has, which only external programs
  reach. The record \<open>host_ops\<close> holds what is outside: the programs, and the failures of the
  operating system.
\<close>

section \<open>Files\<close>

record host_file =
  fi_content :: string
  fi_mode :: nat

record 'k host =
  ho_files :: "(string, host_file) hmap"
  ho_rest :: 'k

type_synonym ('k, 'a) hio = "('k host, 'a) io"

definition file_at :: "'k host \<Rightarrow> string \<Rightarrow> host_file option" where
  "file_at w p = hm_get (ho_files w) p"

definition put_file :: "string \<Rightarrow> host_file \<Rightarrow> 'k host \<Rightarrow> 'k host" where
  "put_file p f w = w\<lparr>ho_files := hm_insert p f (ho_files w)\<rparr>"

definition drop_file :: "string \<Rightarrow> 'k host \<Rightarrow> 'k host" where
  "drop_file p w = w\<lparr>ho_files := hm_remove p (ho_files w)\<rparr>"

interpretation host_files: keyed_store file_at put_file drop_file
  by unfold_locales (simp_all add: fun_eq_iff file_at_def put_file_def drop_file_def)

lemmas host_files_simps [simp] = host_files.lookup_put host_files.lookup_del

lemma host_rest_simps [simp]: "ho_rest (put_file p f w) = ho_rest w" "ho_rest (drop_file p w) = ho_rest w"
  by (simp_all add: put_file_def drop_file_def)

section \<open>The outside\<close>

record cmd_output =
  ou_success :: bool
  ou_status :: string
  ou_stdout :: string
  ou_stderr :: string

text \<open>A write that fails may have failed to open the file or have written only a part of it.\<close>

datatype write_fault = OpenFails string | WriteFails string nat

record 'k host_ops =
  op_command :: "string \<Rightarrow> string list \<Rightarrow> ('k, cmd_output) hio"
  op_fault :: "string \<Rightarrow> string \<Rightarrow> 'k host \<Rightarrow> string option"
  op_write_fault :: "string \<Rightarrow> 'k host \<Rightarrow> write_fault option"
  op_create_mode :: nat

section \<open>Operations of the standard library\<close>

definition NOT_FOUND :: string where
  "NOT_FOUND = ''No such file or directory (os error 2)''"

definition fs_exists :: "string \<Rightarrow> 'k host \<Rightarrow> bool" where
  "fs_exists p w = (file_at w p \<noteq> None)"

definition fs_guard :: "'k host_ops \<Rightarrow> string \<Rightarrow> string \<Rightarrow> ('k, unit) hio" where
  "fs_guard H what p w = (case op_fault H what p w of Some e \<Rightarrow> (Inl e, w) | None \<Rightarrow> (Inr (), w))"

definition fs_read :: "'k host_ops \<Rightarrow> string \<Rightarrow> ('k, string) hio" where
  "fs_read H p w =
     (case file_at w p of
        None \<Rightarrow> (Inl NOT_FOUND, w)
      | Some f \<Rightarrow> (case op_fault H ''read'' p w of Some e \<Rightarrow> (Inl e, w) | None \<Rightarrow> (Inr (fi_content f), w)))"

definition fs_read_to_string :: "'k host_ops \<Rightarrow> string \<Rightarrow> ('k, string) hio" where
  "fs_read_to_string H p =
     io_bind (fs_read H p) (\<lambda>s.
     if valid_utf8 s then io_return s else io_fail ''stream did not contain valid UTF-8'')"

definition file_mode :: "'k host_ops \<Rightarrow> string \<Rightarrow> nat \<Rightarrow> 'k host \<Rightarrow> nat" where
  "file_mode H p mode w = (case file_at w p of Some f \<Rightarrow> fi_mode f | None \<Rightarrow> mode)"

definition fs_write_with :: "'k host_ops \<Rightarrow> nat \<Rightarrow> string \<Rightarrow> string \<Rightarrow> ('k, unit) hio" where
  "fs_write_with H mode p content w =
     (case op_write_fault H p w of
        None \<Rightarrow> (Inr (), put_file p \<lparr>fi_content = content, fi_mode = file_mode H p mode w\<rparr> w)
      | Some (OpenFails e) \<Rightarrow> (Inl e, w)
      | Some (WriteFails e n) \<Rightarrow>
          (Inl e, put_file p \<lparr>fi_content = take n content, fi_mode = file_mode H p mode w\<rparr> w))"

definition fs_write :: "'k host_ops \<Rightarrow> string \<Rightarrow> string \<Rightarrow> ('k, unit) hio" where
  "fs_write H p content = fs_write_with H (op_create_mode H) p content"

definition fs_create_dir_all :: "'k host_ops \<Rightarrow> string \<Rightarrow> ('k, unit) hio" where
  "fs_create_dir_all H p = fs_guard H ''mkdir'' p"

definition fs_rename :: "'k host_ops \<Rightarrow> string \<Rightarrow> string \<Rightarrow> ('k, unit) hio" where
  "fs_rename H a b w =
     (case file_at w a of
        None \<Rightarrow> (Inl NOT_FOUND, w)
      | Some f \<Rightarrow>
          (case op_fault H ''rename'' a w of
             Some e \<Rightarrow> (Inl e, w)
           | None \<Rightarrow> (Inr (), put_file b f (drop_file a w))))"

definition fs_remove_file :: "'k host_ops \<Rightarrow> string \<Rightarrow> ('k, unit) hio" where
  "fs_remove_file H p w =
     (case file_at w p of
        None \<Rightarrow> (Inl NOT_FOUND, w)
      | Some _ \<Rightarrow>
          (case op_fault H ''remove'' p w of Some e \<Rightarrow> (Inl e, w) | None \<Rightarrow> (Inr (), drop_file p w)))"

definition fs_set_mode :: "'k host_ops \<Rightarrow> string \<Rightarrow> nat \<Rightarrow> ('k, unit) hio" where
  "fs_set_mode H p mode w =
     (case file_at w p of
        None \<Rightarrow> (Inl NOT_FOUND, w)
      | Some f \<Rightarrow>
          (case op_fault H ''chmod'' p w of
             Some e \<Rightarrow> (Inl e, w)
           | None \<Rightarrow> (Inr (), put_file p (f\<lparr>fi_mode := mode\<rparr>) w)))"

definition fs_stat_mode :: "'k host_ops \<Rightarrow> string \<Rightarrow> ('k, nat) hio" where
  "fs_stat_mode H p w =
     (case file_at w p of
        None \<Rightarrow> (Inl NOT_FOUND, w)
      | Some f \<Rightarrow> (case op_fault H ''stat'' p w of Some e \<Rightarrow> (Inl e, w) | None \<Rightarrow> (Inr (fi_mode f), w)))"

text \<open>The names of the files directly in a directory.\<close>

definition dir_entries :: "string \<Rightarrow> 'k host \<Rightarrow> string list" where
  "dir_entries dir w =
     List.map_filter (\<lambda>(p, f).
        case strip_prefix p (dir @ ''/'') of
          Some n \<Rightarrow> if CHR ''/'' \<in> set n \<or> n = [] then None else Some n
        | None \<Rightarrow> None) (ho_files w)"

definition fs_read_dir :: "'k host_ops \<Rightarrow> string \<Rightarrow> ('k, string list) hio" where
  "fs_read_dir H dir = io_bind (fs_guard H ''readdir'' dir) (\<lambda>_ w. (Inr (dir_entries dir w), w))"

lemma fs_write_Inr:
  "fs_write H p c w = (Inr (), w') \<Longrightarrow> \<exists>m. w' = put_file p \<lparr>fi_content = c, fi_mode = m\<rparr> w"
  by (auto simp: fs_write_def fs_write_with_def split: option.splits write_fault.splits)

section \<open>A host for the witnesses\<close>

text \<open>Nothing fails, and a program succeeds in silence, noting its command line.\<close>

definition calm_ops :: "string list list host_ops" where
  "calm_ops =
     \<lparr>op_command = (\<lambda>prog args w.
        (Inr \<lparr>ou_success = True, ou_status = ''exit status: 0'', ou_stdout = [], ou_stderr = []\<rparr>,
         w\<lparr>ho_rest := ho_rest w @ [prog # args]\<rparr>)),
      op_fault = (\<lambda>_ _ _. None), op_write_fault = (\<lambda>_ _. None), op_create_mode = 420\<rparr>"

definition empty_host :: "string list list host" where
  "empty_host = \<lparr>ho_files = [], ho_rest = []\<rparr>"

lemma calm_ops_sel [simp]:
  "op_fault calm_ops a b w = None" "op_write_fault calm_ops a w = None" "op_create_mode calm_ops = 420"
  "op_command calm_ops prog args w =
     (Inr \<lparr>ou_success = True, ou_status = ''exit status: 0'', ou_stdout = [], ou_stderr = []\<rparr>,
      w\<lparr>ho_rest := ho_rest w @ [prog # args]\<rparr>)"
  by (simp_all add: calm_ops_def)

end
