(* ===== verification/FluxSocket.thy ===== *)
theory FluxSocket
  imports FluxServer HostFiles
begin

text \<open>
  How flux comes to listen: \<open>bind\<close> and \<open>resolve_gid\<close> of \<open>flux/src/unix_bridge.rs\<close>, which make the Unix
  socket, and the start of \<open>grpc_server::run\<close> in \<open>flux/src/main.rs\<close>, up to the address and the TLS
  identity it serves with. The group database, \<open>chown\<close>, the mode the system gives a new socket, and
  tonic's check of a TLS identity are parameters; the owner of a file is no part of its record.
\<close>

section \<open>The Unix socket\<close>

record 'k bind_ops =
  bo_socket_mode :: nat
  bo_getgrnam :: "string \<Rightarrow> nat option"
  bo_chown :: "string \<Rightarrow> nat \<Rightarrow> 'k \<Rightarrow> string option \<times> 'k"

text \<open>\<open>UnixListener::bind\<close>: a file at the path is in the way; otherwise a socket is made there.\<close>

definition listener_bind :: "'k host_ops \<Rightarrow> 'k bind_ops \<Rightarrow> string \<Rightarrow> ('k, unit) hio" where
  "listener_bind H B p w =
     (if fs_exists p w then (Inl ''Address already in use (os error 98)'', w)
      else (case op_fault H ''bind'' p w of
              Some e \<Rightarrow> (Inl e, w)
            | None \<Rightarrow> (Inr (), put_file p \<lparr>fi_content = [], fi_mode = bo_socket_mode B\<rparr> w)))"

definition fs_chown :: "'k bind_ops \<Rightarrow> string \<Rightarrow> nat \<Rightarrow> ('k, unit) hio" where
  "fs_chown B p gid w =
     (case bo_chown B p gid (ho_rest w) of
        (Some e, k) \<Rightarrow> (Inl e, w\<lparr>ho_rest := k\<rparr>)
      | (None, k) \<Rightarrow> (Inr (), w\<lparr>ho_rest := k\<rparr>))"

text \<open>\<open>CString::new\<close> refuses a name with a NUL byte.\<close>

definition resolve_gid :: "'k bind_ops \<Rightarrow> string \<Rightarrow> nat result" where
  "resolve_gid B name =
     (if CHR 0x00 \<in> set name
      then Inl (''group name: nul byte found in provided data at position: '' @
        show_nat (length (takeWhile (\<lambda>c. c \<noteq> CHR 0x00) name)))
      else (case bo_getgrnam B name of
              None \<Rightarrow> Inl (''group '' @ name @ '' not found'')
            | Some gid \<Rightarrow> Inr gid))"

definition remove_stale_socket :: "'k host_ops \<Rightarrow> string \<Rightarrow> ('k, unit) hio" where
  "remove_stale_socket H p =
     io_bind (io_try (fs_remove_file H p)) (\<lambda>r.
     case r of
       Inr _ \<Rightarrow> io_return ()
     | Inl e \<Rightarrow> if e = NOT_FOUND then io_return () else io_fail (''remove stale socket '' @ p @ '': '' @ e))"

definition socket_file_mode :: "string option \<Rightarrow> nat" where
  "socket_file_mode grp = (case grp of Some _ \<Rightarrow> 432 | None \<Rightarrow> 384)"

definition bind_socket :: "'k host_ops \<Rightarrow> 'k bind_ops \<Rightarrow> string \<Rightarrow> string option \<Rightarrow> ('k, unit) hio" where
  "bind_socket H B p grp =
     io_bind (case path_parent p of
                Some parent \<Rightarrow> io_context (''create '' @ parent) (fs_create_dir_all H parent)
              | None \<Rightarrow> io_return ()) (\<lambda>_.
     io_bind (remove_stale_socket H p) (\<lambda>_.
     io_bind (io_context (''bind '' @ p) (listener_bind H B p)) (\<lambda>_.
     io_bind (io_context (''chmod '' @ p) (fs_set_mode H p (socket_file_mode grp))) (\<lambda>_.
     case grp of
       None \<Rightarrow> io_return ()
     | Some g \<Rightarrow>
         io_bind (io_context (''resolve group '' @ g) (io_lift (resolve_gid B g))) (\<lambda>gid.
         io_context (''chown :'' @ g @ '' '' @ p) (fs_chown B p gid))))))"

section \<open>The gRPC listener\<close>

definition allow_public_bind :: "(string \<Rightarrow> string option) \<Rightarrow> bool" where
  "allow_public_bind env = (env ''COOLIFY_FLUX_ALLOW_PUBLIC_BIND'' = Some ''1'')"

datatype listen_error =
    BadBind string
  | RefusedBind "ip_addr \<times> u16"
  | TlsFiles string
  | TlsIdentity string

text \<open>The address the server serves on and the certificate and key it does so with.\<close>

definition grpc_listen ::
  "(string \<Rightarrow> string option) \<Rightarrow> (string \<Rightarrow> string result) \<Rightarrow> (string \<times> string \<Rightarrow> string option) \<Rightarrow> config \<Rightarrow>
   listen_error + (ip_addr \<times> u16) \<times> (string \<times> string) option" where
  "grpc_listen env read tls_config c =
     (case parse_socket_addr (cf_grpc_bind c) of
        None \<Rightarrow> Inl (BadBind (''parse COOLIFY_FLUX_GRPC_BIND='' @ cf_grpc_bind c))
      | Some addr \<Rightarrow>
          (case validate_bind addr (allow_public_bind env) of
             Inl a \<Rightarrow> Inl (RefusedBind a)
           | Inr _ \<Rightarrow>
               (case build_tls_config read c of
                  Inl e \<Rightarrow> Inl (TlsFiles e)
                | Inr None \<Rightarrow> Inr (addr, None)
                | Inr (Some identity) \<Rightarrow>
                    (case tls_config identity of
                       Some e \<Rightarrow> Inl (TlsIdentity e)
                     | None \<Rightarrow> Inr (addr, Some identity)))))"

section \<open>Properties\<close>

lemma remove_stale_Inr:
  assumes "remove_stale_socket H p w = (Inr u, w')"
  shows "w' = w \<and> file_at w p = None \<or> w' = drop_file p w \<or> w' = w \<and> op_fault H ''remove'' p w = Some NOT_FOUND"
  using assms
  by (auto simp: remove_stale_socket_def io_bind_def io_simps fs_remove_file_def
      split: option.splits prod.splits if_splits sum.splits)

lemma listener_bind_Inr:
  "listener_bind H B p w = (Inr u, w') \<Longrightarrow>
     file_at w p = None \<and> w' = put_file p \<lparr>fi_content = [], fi_mode = bo_socket_mode B\<rparr> w"
  by (auto simp: listener_bind_def fs_exists_def split: if_splits option.splits)

lemma fs_chown_Inr:
  "fs_chown B p gid w = (Inr u, w') \<Longrightarrow>
     (\<exists>k. bo_chown B p gid (ho_rest w) = (None, k) \<and> w' = w\<lparr>ho_rest := k\<rparr>)"
  by (auto simp: fs_chown_def split: prod.splits option.splits)

lemma file_at_rest [simp]: "file_at (w\<lparr>ho_rest := k\<rparr>) = file_at w"
  by (simp add: file_at_def fun_eq_iff)

text \<open>C30: When the bridge listens, its socket is open to the owner alone, or to the owner and the
  configured group, which then exists and was made the socket's group; what was at the path before is
  gone, and no other file changed.\<close>

theorem socket_is_private:
  assumes "bind_socket H B p grp w = (Inr (), w')"
  shows "file_at w' = (file_at w)(p \<mapsto> \<lparr>fi_content = [], fi_mode = (if grp = None then 384 else 432)\<rparr>) \<and>
     (case grp of
        None \<Rightarrow> ho_rest w' = ho_rest w
      | Some g \<Rightarrow> \<exists>gid. bo_getgrnam B g = Some gid \<and> bo_chown B p gid (ho_rest w) = (None, ho_rest w'))"
proof -
  let ?last = "case grp of
       None \<Rightarrow> io_return ()
     | Some g \<Rightarrow>
         io_bind (io_context (''resolve group '' @ g) (io_lift (resolve_gid B g))) (\<lambda>gid.
         io_context (''chown :'' @ g @ '' '' @ p) (fs_chown B p gid))"
  obtain w1 w2 w3 w4 where
    a: "(case path_parent p of Some parent \<Rightarrow> io_context (''create '' @ parent) (fs_create_dir_all H parent) | None \<Rightarrow> io_return ()) w
       = (Inr (), w1)"
    and r: "remove_stale_socket H p w1 = (Inr (), w2)" and b: "listener_bind H B p w2 = (Inr (), w3)"
    and m: "fs_set_mode H p (socket_file_mode grp) w3 = (Inr (), w4)" and e: "?last w4 = (Inr (), w')"
    using assms unfolding bind_socket_def io_bind_eq_Inr io_context_eq_Inr by auto
  have w1: "w1 = w" using a by (auto simp: fs_create_dir_all_def fs_guard_def split: option.splits)
  have w3: "w3 = put_file p \<lparr>fi_content = [], fi_mode = bo_socket_mode B\<rparr> w2" using listener_bind_Inr [OF b] by simp
  have w2: "w2 = w1 \<or> w2 = drop_file p w1" using remove_stale_Inr [OF r] by auto
  have "w4 = put_file p \<lparr>fi_content = [], fi_mode = socket_file_mode grp\<rparr> w3"
    using m w3 by (auto simp: fs_set_mode_def split: option.splits)
  then have w4: "file_at w4 = (file_at w)(p \<mapsto> \<lparr>fi_content = [], fi_mode = socket_file_mode grp\<rparr>)" "ho_rest w4 = ho_rest w"
    using w1 w2 w3 by auto
  have "file_at w' = file_at w4 \<and> (case grp of
        None \<Rightarrow> ho_rest w' = ho_rest w4
      | Some g \<Rightarrow> \<exists>gid. bo_getgrnam B g = Some gid \<and> bo_chown B p gid (ho_rest w4) = (None, ho_rest w'))"
    using e by (cases grp)
      (auto simp: io_bind_eq_Inr resolve_gid_def dest!: fs_chown_Inr split: if_splits option.splits)
  then show ?thesis using w4 by (auto simp: socket_file_mode_def split: option.splits)
qed

definition sample_bind_ops :: "string list list bind_ops" where
  "sample_bind_ops =
     \<lparr>bo_socket_mode = 493, bo_getgrnam = (\<lambda>g. if g = ''www'' then Some 33 else None), bo_chown = (\<lambda>p g k. (None, k @ [[p]]))\<rparr>"

definition stale_host :: "string list list host" where
  "stale_host = \<lparr>ho_files = [(''/run/f.sock'', \<lparr>fi_content = [], fi_mode = 511\<rparr>)], ho_rest = []\<rparr>"

theorem socket_is_private_witness:
  "\<exists>w'. bind_socket calm_ops sample_bind_ops ''/run/f.sock'' (Some ''www'') stale_host = (Inr (), w') \<and>
     file_at w' ''/run/f.sock'' = Some \<lparr>fi_content = [], fi_mode = 432\<rparr>"
proof -
  have "path_parent ''/run/f.sock'' = Some ''/run''" by code_simp
  then obtain w' where r: "bind_socket calm_ops sample_bind_ops ''/run/f.sock'' (Some ''www'') stale_host = (Inr (), w')"
    by (simp add: bind_socket_def fs_create_dir_all_def fs_guard_def remove_stale_socket_def fs_remove_file_def stale_host_def
        file_at_def drop_file_def hm_remove_def listener_bind_def fs_exists_def put_file_def hm_insert_def fs_set_mode_def
        resolve_gid_def fs_chown_def sample_bind_ops_def io_bind_def io_simps)
  from socket_is_private [OF r] r show ?thesis by simp
qed

subsection \<open>The unspecified address in IPv6 notation\<close>

lemmas mapped_reads = read_octet_def read_char_def read_sep_def digit_val_def hex_val_def digits_num_def read_group_def

lemma read_zero: "read_ipv4 ''0.0.0.0]:6443'' = Some (0, '']:6443'')"
  by (simp add: read_ipv4_def mapped_reads numeral_3_eq_3 of_octets_def)

lemma mapped_head: "read_groups 0 8 ''::ffff:0.0.0.0]:6443'' = ([], False, ''::ffff:0.0.0.0]:6443'')"
proof -
  have "(8::nat) = Suc 7" by simp
  then show ?thesis by (simp only: read_groups.simps) (simp add: read_ipv4_def mapped_reads)
qed

lemma read_hex_tail: "read_ipv4 ''ffff:0.0.0.0]:6443'' = None"
  by (simp add: read_ipv4_def mapped_reads)

lemma mapped_tail: "read_groups 0 7 ''ffff:0.0.0.0]:6443'' = ([0xFFFF, 0, 0], True, '']:6443'')"
proof -
  have "read_groups (Suc 0) 6 '':0.0.0.0]:6443'' = ([0, 0], True, '']:6443'')"
  proof -
    have "(6::nat) = Suc 5" by simp
    then show ?thesis by (simp only: read_groups.simps) (simp add: read_zero read_sep_def read_char_def)
  qed
  moreover have "read_group ''ffff:0.0.0.0]:6443'' = Some (0xFFFF, '':0.0.0.0]:6443'')" by (simp add: mapped_reads)
  moreover have "(7::nat) = Suc 6" by simp
  ultimately show ?thesis by (simp only: read_groups.simps) (simp add: read_hex_tail read_sep_def)
qed

lemma mapped_addr: "read_ipv6 ''::ffff:0.0.0.0]:6443'' = Some ([0, 0, 0, 0, 0, 0xFFFF, 0, 0], '']:6443'')"
  proof -
  have "replicate 5 (0::u16) = [0, 0, 0, 0, 0]" by (simp add: numeral_eq_Suc)
  then show ?thesis by (simp add: read_ipv6_def mapped_head read_char_def mapped_tail)
qed

lemma mapped_port: "read_port '':6443'' = Some (6443, [])"
  by (simp add: read_port_def read_number_def mapped_reads)

lemma parse_mapped:
  "parse_socket_addr ''[::ffff:0.0.0.0]:6443'' = Some (V6 [0, 0, 0, 0, 0, 0xFFFF, 0, 0], 6443)"
  by (simp add: parse_socket_addr_def read_socket_addr_def mapped_addr mapped_port whole_def skip_scope_id_def read_char_def
      read_ipv4_def read_octet_def digit_val_def)

definition plain_listener :: "config \<Rightarrow> config" where
  "plain_listener c =
     c\<lparr>cf_grpc_bind := ''[::ffff:0.0.0.0]:6443'', cf_tls_cert_path := None, cf_tls_key_path := None\<rparr>"

lemma mapped_listen:
  "grpc_listen (\<lambda>_. None) read tls_config (plain_listener c) = Inr ((V6 [0, 0, 0, 0, 0, 0xFFFF, 0, 0], 6443), None)"
proof -
  have "[0, 0, 0, 0, 0, 0xFFFF, 0, 0] \<noteq> replicate 8 (0 :: u16)"
  proof
    assume "[0, 0, 0, 0, 0, 0xFFFF, 0, 0] = replicate 8 (0 :: u16)"
    from arg_cong [OF this, of "\<lambda>xs. xs ! 5"] show False by simp
  qed
  then show ?thesis by (simp add: grpc_listen_def validate_bind_def build_tls_config_def plain_listener_def parse_mapped)
qed

text \<open>Flux serves on an address of the unspecified kind only when told to, with TLS exactly when both
  files are configured, and then with what they hold.\<close>

theorem listener_is_guarded:
  assumes "grpc_listen env read tls_config c = Inr (addr, tls)"
  shows "parse_socket_addr (cf_grpc_bind c) = Some addr \<and>
     (is_unspecified (fst addr) \<longrightarrow> allow_public_bind env) \<and>
     (case tls of
        None \<Rightarrow> cf_tls_cert_path c = None \<and> cf_tls_key_path c = None
      | Some (cert, key) \<Rightarrow> \<exists>cp kp. cf_tls_cert_path c = Some cp \<and> cf_tls_key_path c = Some kp \<and>
          read cp = Inr cert \<and> read kp = Inr key \<and> tls_config (cert, key) = None)"
  using assms
  by (auto simp: grpc_listen_def validate_bind_def build_tls_config_def and_then_def map_err_def
      split: option.splits sum.splits if_splits)

theorem listener_is_guarded_witness:
  "cf_tls_cert_path (plain_listener sample_config) = None \<and>
   parse_socket_addr (cf_grpc_bind (plain_listener sample_config)) = Some (V6 [0, 0, 0, 0, 0, 0xFFFF, 0, 0], 6443)"
  using listener_is_guarded [OF mapped_listen [of Inr "\<lambda>_. None" sample_config]] by simp

text \<open>The unspecified IPv4 address in IPv6 notation is not of that kind: flux serves on it without
  the opt-in, in plain text.\<close>

theorem mapped_unspecified_passes:
  "grpc_listen (\<lambda>_. None) read tls_config (plain_listener c) = Inr ((V6 [0, 0, 0, 0, 0, 0xFFFF, 0, 0], 6443), None) \<and>
   show_ipv6 [0, 0, 0, 0, 0, 0xFFFF, 0, 0] = ''::ffff:0.0.0.0''"
  by (simp add: mapped_listen show_ipv6_def show_ipv4_def octets_def octet_def of_octets_def show_nat.simps digit_char_eval)

end
