(* ===== verification/CliSubnet.thy ===== *)
theory CliSubnet
  imports NetAddr
begin

text \<open>
  \<open>coolify-cli/src/wireguard/subnet.rs\<close>: assignment of subnets and management addresses. The
  crate \<open>ipnet\<close> is the parameter \<open>I\<close>, a record of the operations the code calls; \<open>ipnet_ok\<close>
  states what its documentation says of them. The search for a free slot is a loop that need not
  end, so it is a partial function into \<open>option\<close>: \<open>None\<close> is not returning.
\<close>

section \<open>Networks\<close>

record 'n ipnet =
  net_network :: "'n \<Rightarrow> ipv4"
  net_broadcast :: "'n \<Rightarrow> ipv4"
  net_prefix_len :: "'n \<Rightarrow> nat"
  net_contains :: "'n \<Rightarrow> ipv4 \<Rightarrow> bool"
  net_new :: "ipv4 \<Rightarrow> nat \<Rightarrow> 'n result"
  net_show :: "'n \<Rightarrow> string"
  net_parse :: "string \<Rightarrow> 'n option"

definition ipnet_ok :: "'n ipnet \<Rightarrow> bool" where
  "ipnet_ok I \<longleftrightarrow>
     (\<forall>n. net_prefix_len I n \<le> 32 \<and>
        2 ^ (32 - net_prefix_len I n) dvd unat (net_network I n) \<and>
        unat (net_broadcast I n) + 1 = unat (net_network I n) + 2 ^ (32 - net_prefix_len I n) \<and>
        (\<forall>a. net_contains I n a \<longleftrightarrow> net_network I n \<le> a \<and> a \<le> net_broadcast I n)) \<and>
     (\<forall>a p. p \<le> 32 \<longrightarrow>
        (\<exists>n. net_new I a p = Inr n \<and> net_prefix_len I n = p \<and>
           unat (net_network I n) = unat a div 2 ^ (32 - p) * 2 ^ (32 - p)))"

text \<open>An instance: an address with a prefix length capped at 32.\<close>

definition mask_to :: "nat \<Rightarrow> ipv4 \<Rightarrow> ipv4" where
  "mask_to p a = word_of_nat (unat a div 2 ^ (32 - p) * 2 ^ (32 - p))"

definition pair_net :: "(ipv4 \<times> nat) ipnet" where
  "pair_net =
     \<lparr>net_network = (\<lambda>(a, p). mask_to (min p 32) a),
      net_broadcast = (\<lambda>(a, p). word_of_nat
         (unat a div 2 ^ (32 - min p 32) * 2 ^ (32 - min p 32) + 2 ^ (32 - min p 32) - 1)),
      net_prefix_len = (\<lambda>(a, p). min p 32),
      net_contains = (\<lambda>(a, p) b. unat b div 2 ^ (32 - min p 32) = unat a div 2 ^ (32 - min p 32)),
      net_new = (\<lambda>a p. if p \<le> 32 then Inr (a, p) else Inl ''invalid IP prefix length''),
      net_show = (\<lambda>(a, p). show_ipv4 a @ ''/'' @ show_nat p),
      net_parse = (\<lambda>s. case split_once (CHR ''/'') s of
         None \<Rightarrow> None
       | Some (x, y) \<Rightarrow> (case (parse_ipv4 x, parse_unsigned 33 y) of (Some a, Some p) \<Rightarrow> Some (a, p) | _ \<Rightarrow> None))\<rparr>"

section \<open>Operations\<close>

record warning =
  wa_host :: string
  wa_reason :: string

definition sat_add :: "u32 \<Rightarrow> u32 \<Rightarrow> u32" where
  "sat_add a b = (if unat a + unat b < 2 ^ 32 then a + b else - 1)"

text \<open>The plain addition wraps (in a release build) when the network is the last address.\<close>

definition machine_ip :: "'n ipnet \<Rightarrow> 'n \<Rightarrow> ipv4" where
  "machine_ip I net = net_network I net + 1"

definition step_of :: "nat \<Rightarrow> u32" where
  "step_of prefix = (if prefix = 0 then 1 else 2 ^ (32 - prefix))"

fun first_duplicate :: "string list \<Rightarrow> string list \<Rightarrow> string option" where
  "first_duplicate seen [] = None"
| "first_duplicate seen (h # hs) = (if h \<in> set seen then Some h else first_duplicate (h # seen) hs)"

text \<open>The inner loop: from \<open>n\<close> upwards by \<open>step\<close> until the pool is full or a number is free.
  \<open>Some None\<close> is exhaustion.\<close>

partial_function (option) free_slot ::
  "(u32 \<Rightarrow> bool) \<Rightarrow> u32 \<Rightarrow> u32 list \<Rightarrow> u32 \<Rightarrow> u32 option option" where
  "free_slot full step used n =
     (if full n then Some None
      else if n \<notin> set used then Some (Some n)
      else free_slot full step used (sat_add n step))"

declare free_slot.simps [code]

text \<open>One turn of the first loop of both allocators: an existing assignment \<open>v\<close> of \<open>host\<close> is
  ignored when the host is not wanted, dropped with a warning when it is not usable or its slot is
  taken, and kept otherwise. The two loops differ in \<open>usable\<close>, \<open>slot\<close> and the warnings.\<close>

fun keep_existing ::
  "('v \<Rightarrow> bool) \<Rightarrow> ('v \<Rightarrow> u32) \<Rightarrow> ('v \<Rightarrow> string) \<Rightarrow> ('v \<Rightarrow> string) \<Rightarrow> string list \<Rightarrow> string \<times> 'v \<Rightarrow>
   (string, 'v) btree \<times> u32 list \<times> warning list \<Rightarrow> (string, 'v) btree \<times> u32 list \<times> warning list" where
  "keep_existing usable slot unusable duplicate hosts (host, v) (result, used, warnings) =
     (if host \<notin> set hosts then (result, used, warnings)
      else if \<not> usable v then
        (result, used, warnings @ [\<lparr>wa_host = host, wa_reason = unusable v\<rparr>])
      else if slot v \<in> set used then
        (result, used, warnings @ [\<lparr>wa_host = host, wa_reason = duplicate v\<rparr>])
      else (bt_insert host v result, slot v # used, warnings))"

definition keep_net ::
  "'n ipnet \<Rightarrow> 'n \<Rightarrow> nat \<Rightarrow> string list \<Rightarrow> string \<times> 'n \<Rightarrow>
   (string, 'n) btree \<times> u32 list \<times> warning list \<Rightarrow> (string, 'n) btree \<times> u32 list \<times> warning list" where
  "keep_net I pool prefix hosts =
     keep_existing
       (\<lambda>net. \<not> (net_prefix_len I net \<noteq> prefix \<or> \<not> net_contains I pool (net_network I net)))
       (net_network I)
       (\<lambda>net. ''existing subnet '' @ net_show I net @ '' is not a /'' @ show_nat prefix
          @ '' inside pool '' @ net_show I pool @ '', reassigning'')
       (\<lambda>net. ''duplicate subnet '' @ net_show I net @ '', reassigning'')
       hosts"

text \<open>The second loop: a free slot for every host that has none.\<close>

fun assign_slots ::
  "(u32 list \<Rightarrow> u32 option option) \<Rightarrow> (u32 \<Rightarrow> 'v result) \<Rightarrow> string \<Rightarrow>
   (string, 'v) btree \<Rightarrow> u32 list \<Rightarrow> string list \<Rightarrow> (string, 'v) btree result option" where
  "assign_slots search mk exhausted result used [] = Some (Inr result)"
| "assign_slots search mk exhausted result used (host # hosts) =
     (if bt_get result host \<noteq> None then assign_slots search mk exhausted result used hosts
      else
        (case search used of
           None \<Rightarrow> None
         | Some None \<Rightarrow> Some (Inl exhausted)
         | Some (Some n) \<Rightarrow>
             (case mk n of
                Inl e \<Rightarrow> Some (Inl e)
              | Inr v \<Rightarrow> assign_slots search mk exhausted (bt_insert host v result) (n # used) hosts)))"

definition allocate ::
  "'n ipnet \<Rightarrow> 'n \<Rightarrow> nat \<Rightarrow> (string, 'n) btree \<Rightarrow> string list \<Rightarrow>
   ((string, 'n) btree \<times> warning list) result option" where
  "allocate I pool prefix existing hosts =
     (if prefix < net_prefix_len I pool \<or> 32 < prefix
      then Some (Inl (''prefix /'' @ show_nat prefix @ '' is not valid inside pool '' @ net_show I pool))
      else (case first_duplicate [] hosts of
              Some h \<Rightarrow> Some (Inl (''duplicate host in --nodes: '' @ h))
            | None \<Rightarrow>
                (case fold (keep_net I pool prefix hosts) existing ([], [], []) of
                   (result, used, warnings) \<Rightarrow>
                     map_option (\<lambda>r. and_then r (\<lambda>res. Inr (res, warnings)))
                       (assign_slots
                          (\<lambda>u. free_slot (\<lambda>n. net_broadcast I pool < n) (step_of prefix) u (net_network I pool))
                          (\<lambda>n. net_new I n prefix)
                          (''pool '' @ net_show I pool @ '' is exhausted (no free /'' @ show_nat prefix @ '' subnets)'')
                          result used hosts))))"

definition keep_ip ::
  "'n ipnet \<Rightarrow> 'n \<Rightarrow> string list \<Rightarrow> string \<times> ipv4 \<Rightarrow>
   (string, ipv4) btree \<times> u32 list \<times> warning list \<Rightarrow> (string, ipv4) btree \<times> u32 list \<times> warning list" where
  "keep_ip I pool hosts =
     keep_existing
       (\<lambda>ip. \<not> (ip = net_network I pool \<or> ip = net_broadcast I pool \<or> \<not> net_contains I pool ip))
       (\<lambda>ip. ip)
       (\<lambda>ip. ''existing mgmt IP '' @ show_ipv4 ip @ '' is not usable inside pool ''
          @ net_show I pool @ '', reassigning'')
       (\<lambda>ip. ''duplicate mgmt IP '' @ show_ipv4 ip @ '', reassigning'')
       hosts"

definition allocate_mgmt_ips ::
  "'n ipnet \<Rightarrow> 'n \<Rightarrow> (string, ipv4) btree \<Rightarrow> string list \<Rightarrow>
   ((string, ipv4) btree \<times> warning list) result option" where
  "allocate_mgmt_ips I pool existing hosts =
     (case first_duplicate [] hosts of
        Some h \<Rightarrow> Some (Inl (''duplicate host in --nodes: '' @ h))
      | None \<Rightarrow>
          (case fold (keep_ip I pool hosts) existing ([], [], []) of
             (result, used, warnings) \<Rightarrow>
               map_option (\<lambda>r. and_then r (\<lambda>res. Inr (res, warnings)))
                 (assign_slots
                    (\<lambda>u. free_slot (\<lambda>n. net_broadcast I pool \<le> n) 1 u (sat_add (net_network I pool) 1))
                    Inr
                    (''pool '' @ net_show I pool @ '' is exhausted (no free management IPs)'')
                    result used hosts)))"

definition ns_key :: "string \<Rightarrow> string \<Rightarrow> string" where
  "ns_key ns h = ns @ ''/'' @ h"

definition all_existing ::
  "(string, (string, 'n) btree) btree \<Rightarrow> string list \<Rightarrow> string list \<Rightarrow> (string, 'n) btree" where
  "all_existing existing namespaces hosts =
     foldl (\<lambda>m (ns, h).
        case Option.bind (bt_get existing ns) (\<lambda>m. bt_get m h) of
          Some n \<Rightarrow> bt_insert (ns_key ns h) n m
        | None \<Rightarrow> m) [] (List.product namespaces hosts)"

text \<open>\<open>flat[&key]\<close> panics for a missing key; \<open>None\<close> stands for that.\<close>

fun collect_namespaced ::
  "(string, 'n) btree \<Rightarrow> (string \<times> string) list \<Rightarrow> (string, (string, 'n) btree) btree \<Rightarrow>
   (string, (string, 'n) btree) btree option" where
  "collect_namespaced flat [] out = Some out"
| "collect_namespaced flat ((ns, h) # rest) out =
     (case bt_get flat (ns_key ns h) of
        None \<Rightarrow> None
      | Some n \<Rightarrow>
          collect_namespaced flat rest
            (bt_insert ns (bt_insert h n (case bt_get out ns of Some m \<Rightarrow> m | None \<Rightarrow> [])) out))"

definition allocate_namespaced ::
  "'n ipnet \<Rightarrow> 'n \<Rightarrow> nat \<Rightarrow> (string, (string, 'n) btree) btree \<Rightarrow> string list \<Rightarrow> string list \<Rightarrow>
   ((string, (string, 'n) btree) btree \<times> warning list) result option" where
  "allocate_namespaced I pool prefix existing namespaces hosts =
     (case first_duplicate [] namespaces of
        Some ns \<Rightarrow> Some (Inl (''duplicate namespace in --namespaces: '' @ ns))
      | None \<Rightarrow>
          (case allocate I pool prefix (all_existing existing namespaces hosts)
                  (map (\<lambda>(ns, h). ns_key ns h) (List.product namespaces hosts)) of
             None \<Rightarrow> None
           | Some (Inl e) \<Rightarrow> Some (Inl e)
           | Some (Inr (flat, warnings)) \<Rightarrow>
               map_option (\<lambda>out. Inr (out, warnings))
                 (collect_namespaced flat (List.product namespaces hosts) [])))"

section \<open>The search\<close>

lemma unat_less_2p: "unat (n :: u32) < 2 ^ 32"
  by (rule order_less_le_trans [OF unsigned_less]) simp

lemma unat_sat_add:
  "unat (sat_add a b) = (if unat a + unat b < 2 ^ 32 then unat a + unat b else 2 ^ 32 - 1)"
proof -
  have "unat (- 1 :: u32) = 2 ^ 32 - 1"
    by (simp add: unsigned_minus_1_eq_mask mask_eq_exp_minus_1)
  moreover have "unat a + unat b < 2 ^ 32 \<Longrightarrow> unat (a + b) = unat a + unat b"
    using unat_add_lem [of a b] by simp
  ultimately show ?thesis by (simp add: sat_add_def)
qed

lemma free_slot_result:
  assumes full: "\<And>m. full m \<longleftrightarrow> hi \<le> unat m" and hi: "hi < 2 ^ 32" and step: "0 < unat step"
  shows "(\<exists>m k. free_slot full step used n = Some (Some m) \<and> m \<notin> set used
            \<and> unat m = unat n + k * unat step \<and> unat m < hi)
       \<or> free_slot full step used n = Some None
          \<and> (\<forall>k. unat n + k * unat step < hi \<longrightarrow> word_of_nat (unat n + k * unat step) \<in> set used)"
proof (induction "hi - unat n" arbitrary: n rule: less_induct)
  case less
  show ?case
  proof (cases "full n")
    case True
    then show ?thesis using full by (auto simp: free_slot.simps [of _ _ _ n])
  next
    case nf: False
    show ?thesis
    proof (cases "n \<in> set used")
      case False
      then have "free_slot full step used n = Some (Some n)" using nf by (simp add: free_slot.simps [of _ _ _ n])
      then show ?thesis using False nf full by (intro disjI1 exI [of _ n] exI [of _ 0]) auto
    next
      case True
      let ?n = "sat_add n step"
      have eq: "free_slot full step used n = free_slot full step used ?n"
        using nf True by (simp add: free_slot.simps [of _ _ _ n])
      have lt: "unat n < hi" using nf full by simp
      have gt: "unat n < unat ?n" using hi lt step by (simp add: unat_sat_add)
      have small: "unat ?n < hi \<Longrightarrow> unat ?n = unat n + unat step"
        using hi by (auto simp: unat_sat_add split: if_splits)
      from less [of ?n] gt lt consider
          (found) m k where "free_slot full step used ?n = Some (Some m)" "m \<notin> set used"
            "unat m = unat ?n + k * unat step" "unat m < hi"
        | (none) "free_slot full step used ?n = Some None"
            "\<forall>k. unat ?n + k * unat step < hi \<longrightarrow> word_of_nat (unat ?n + k * unat step) \<in> set used"
        by (metis diff_less_mono2)
      then show ?thesis
      proof cases
        case found
        then have "unat m = unat n + Suc k * unat step" using small by simp
        then show ?thesis using found eq by metis
      next
        case none
        have "word_of_nat (unat n + k * unat step) \<in> set used" if b: "unat n + k * unat step < hi" for k
        proof (cases k)
          case 0
          then show ?thesis using True by simp
        next
          case (Suc j)
          then have "unat ?n = unat n + unat step" using b hi by (simp add: unat_sat_add)
          then show ?thesis using none(2) b Suc by (auto simp: add.assoc)
        qed
        then show ?thesis using none(1) eq by auto
      qed
    qed
  qed
qed

section \<open>Both allocators\<close>

text \<open>
  What the two allocators share: the invariant of the table being built. Every entry's slot (its
  network, or the address itself) is recorded as used, satisfies \<open>P\<close>, and no two entries have the
  same slot.
\<close>

definition slots_ok :: "('v \<Rightarrow> u32) \<Rightarrow> ('v \<Rightarrow> bool) \<Rightarrow> (string, 'v) btree \<Rightarrow> u32 list \<Rightarrow> bool" where
  "slots_ok slot P result used \<longleftrightarrow>
     bt_wf result \<and>
     (\<forall>h h' v v'. bt_get result h = Some v \<longrightarrow> bt_get result h' = Some v' \<longrightarrow>
        slot v = slot v' \<longrightarrow> h = h') \<and>
     (\<forall>h v. bt_get result h = Some v \<longrightarrow> slot v \<in> set used \<and> P v)"

lemma slots_ok_Nil [simp]: "slots_ok slot P [] used"
  by (simp add: slots_ok_def)

lemma slots_ok_insert:
  assumes "slots_ok slot P result used" "slot v \<notin> set used" "P v" "bt_get result h = None"
  shows "slots_ok slot P (bt_insert h v result) (slot v # used)"
  using assms unfolding slots_ok_def
  by (auto simp: bt_wf_insert split: if_splits) metis+

lemma assign_slots_ok:
  assumes "assign_slots search mk ex result used hosts = Some (Inr res)"
    and "slots_ok slot P result used"
    and "\<And>u n. search u = Some (Some n) \<Longrightarrow> n \<notin> set u \<and> (\<forall>v. mk n = Inr v \<longrightarrow> slot v = n \<and> P v)"
  shows "\<exists>used'. slots_ok slot P res used' \<and> bt_get result \<subseteq>\<^sub>m bt_get res
           \<and> dom (bt_get res) = dom (bt_get result) \<union> set hosts"
  using assms(1,2)
proof (induction hosts arbitrary: result used)
  case Nil
  then show ?case by auto
next
  case (Cons h hosts)
  show ?case
  proof (cases "bt_get result h")
    case None
    with Cons.prems obtain n v where nv: "search used = Some (Some n)" "mk n = Inr v"
      and rest: "assign_slots search mk ex (bt_insert h v result) (n # used) hosts = Some (Inr res)"
      by (auto split: option.splits sum.splits)
    have "slots_ok slot P (bt_insert h v result) (n # used)"
      using slots_ok_insert [OF Cons.prems(2), of v h] assms(3) [OF nv(1)] nv(2) None by auto
    from Cons.IH [OF rest this] None show ?thesis
      by (auto simp: map_le_def dom_def)
  next
    case (Some v)
    with Cons show ?thesis by (auto simp: insert_absorb domI)
  qed
qed

lemma assign_slots_total:
  assumes "\<And>u. search u \<noteq> None"
  shows "assign_slots search mk ex result used hosts \<noteq> None"
proof (induction hosts arbitrary: result used)
  case (Cons h hosts)
  obtain r where "search used = Some r" using assms by fastforce
  with Cons show ?case by (auto split: option.splits sum.splits)
qed simp

lemma assign_slots_error:
  assumes "assign_slots search mk ex result used hosts = Some (Inl e)" "\<And>n. mk n \<noteq> Inl e"
  shows "\<exists>u. search u = Some None \<and> e = ex"
  using assms by (induction hosts arbitrary: result used) (auto split: option.splits sum.splits if_splits)

lemma first_duplicate_None: "first_duplicate seen hs = None \<longleftrightarrow> distinct hs \<and> set seen \<inter> set hs = {}"
  by (induction hs arbitrary: seen) auto

section \<open>Subnets\<close>

lemma ipnet_okD:
  assumes "ipnet_ok I"
  shows "net_prefix_len I n \<le> 32"
    and "2 ^ (32 - net_prefix_len I n) dvd unat (net_network I n)"
    and "unat (net_broadcast I n) + 1 = unat (net_network I n) + 2 ^ (32 - net_prefix_len I n)"
    and "net_contains I n a \<longleftrightarrow> net_network I n \<le> a \<and> a \<le> net_broadcast I n"
  using assms by (simp_all add: ipnet_ok_def)

lemma ipnet_ok_new:
  assumes "ipnet_ok I" "p \<le> 32" "net_new I a p = Inr n"
  shows "net_prefix_len I n = p" "unat (net_network I n) = unat a div 2 ^ (32 - p) * 2 ^ (32 - p)"
proof -
  obtain m where "net_new I a p = Inr m" "net_prefix_len I m = p"
    "unat (net_network I m) = unat a div 2 ^ (32 - p) * 2 ^ (32 - p)"
    using assms(1,2) unfolding ipnet_ok_def by blast
  with assms(3) show "net_prefix_len I n = p"
    "unat (net_network I n) = unat a div 2 ^ (32 - p) * 2 ^ (32 - p)" by simp_all
qed

text \<open>A subnet of the pool: the right prefix, and every address of it in the pool.\<close>

definition inside_pool :: "'n ipnet \<Rightarrow> 'n \<Rightarrow> nat \<Rightarrow> 'n \<Rightarrow> bool" where
  "inside_pool I pool prefix net \<longleftrightarrow>
     net_prefix_len I net = prefix \<and> net_network I pool \<le> net_network I net \<and>
     net_broadcast I net \<le> net_broadcast I pool"

text \<open>The slots of the pool are the multiples of the subnet size, so a network number up to the
  pool's broadcast address leaves room for the whole subnet.\<close>

lemma aligned_room:
  assumes "s dvd a" "s dvd b" "a < b"
  shows "a + s \<le> (b :: nat)"
proof -
  obtain i j where "a = s * i" "b = s * j" using assms(1,2) by (auto elim!: dvdE)
  moreover have "i < j" using assms(3) calculation by simp
  then have "s * i + s \<le> s * j" using mult_le_mono2 [of "Suc i" j s] by simp
  ultimately show ?thesis by simp
qed

lemma inside_poolI:
  assumes "ipnet_ok I" "net_prefix_len I pool \<le> prefix" "net_prefix_len I net = prefix"
    and "net_network I pool \<le> net_network I net" "net_network I net \<le> net_broadcast I pool"
  shows "inside_pool I pool prefix net"
proof -
  note ok = ipnet_okD [OF assms(1)]
  let ?s = "2 ^ (32 - prefix) :: nat" and ?ps = "2 ^ (32 - net_prefix_len I pool) :: nat"
  have div: "?s dvd ?ps" using assms(2) by (simp add: le_imp_power_dvd)
  have a: "?s dvd unat (net_network I net)" using ok(2) [of net] assms(3) by simp
  have b: "?s dvd unat (net_broadcast I pool) + 1"
    unfolding ok(3) [of pool] using dvd_trans [OF div ok(2) [of pool]] div by (rule dvd_add)
  have "unat (net_network I net) + ?s \<le> unat (net_broadcast I pool) + 1"
    using aligned_room [OF a b] assms(5) by (simp add: word_le_nat_alt)
  then have "net_broadcast I net \<le> net_broadcast I pool"
    using ok(3) [of net] assms(3) by (simp add: word_le_nat_alt)
  with assms show ?thesis by (simp add: inside_pool_def)
qed

lemma unat_step_of:
  assumes "0 < prefix" "prefix \<le> 32"
  shows "unat (step_of prefix) = 2 ^ (32 - prefix)"
proof -
  have "(2 :: u32) ^ (32 - prefix) = word_of_nat (2 ^ (32 - prefix))" by simp
  moreover have "unat (word_of_nat (2 ^ (32 - prefix)) :: u32) = take_bit 32 (2 ^ (32 - prefix))"
    unfolding unsigned_of_nat by simp
  moreover have "(2 :: nat) ^ (32 - prefix) < 2 ^ 32"
    by (rule power_strict_increasing) (use assms in simp_all)
  moreover have "step_of prefix = 2 ^ (32 - prefix)" using assms by (simp add: step_of_def)
  ultimately show ?thesis by (metis take_bit_nat_eq_self)
qed

text \<open>The conditions under which the arithmetic of the search is exact: a prefix valid in the pool,
  and a pool that does not end at 255.255.255.255.\<close>

definition pool_ok :: "'n ipnet \<Rightarrow> 'n \<Rightarrow> nat \<Rightarrow> bool" where
  "pool_ok I pool prefix \<longleftrightarrow>
     ipnet_ok I \<and> net_prefix_len I pool \<le> prefix \<and> prefix \<le> 32 \<and> unat (net_broadcast I pool) < 2 ^ 32 - 1"

lemma pool_ok_prefix:
  assumes "pool_ok I pool prefix"
  shows "0 < prefix"
proof (rule ccontr)
  assume "\<not> 0 < prefix"
  then have "net_prefix_len I pool = 0" using assms by (simp add: pool_ok_def)
  then have "unat (net_broadcast I pool) + 1 \<ge> 2 ^ 32"
    using ipnet_okD(3) [of I pool] assms by (simp add: pool_ok_def)
  then show False using assms by (simp add: pool_ok_def)
qed

abbreviation subnet_search :: "'n ipnet \<Rightarrow> 'n \<Rightarrow> nat \<Rightarrow> u32 list \<Rightarrow> u32 option option" where
  "subnet_search I pool prefix u \<equiv>
     free_slot (\<lambda>n. net_broadcast I pool < n) (step_of prefix) u (net_network I pool)"

lemma subnet_search_result:
  assumes "pool_ok I pool prefix"
  shows "(\<exists>m k. subnet_search I pool prefix u = Some (Some m) \<and> m \<notin> set u
            \<and> unat m = unat (net_network I pool) + k * 2 ^ (32 - prefix) \<and> m \<le> net_broadcast I pool)
       \<or> subnet_search I pool prefix u = Some None
          \<and> (\<forall>k. unat (net_network I pool) + k * 2 ^ (32 - prefix) \<le> unat (net_broadcast I pool) \<longrightarrow>
               word_of_nat (unat (net_network I pool) + k * 2 ^ (32 - prefix)) \<in> set u)"
proof -
  have st: "unat (step_of prefix) = 2 ^ (32 - prefix)"
    using unat_step_of pool_ok_prefix [OF assms] assms by (simp add: pool_ok_def)
  show ?thesis
    using free_slot_result [of "\<lambda>n. net_broadcast I pool < n" "unat (net_broadcast I pool) + 1"
        "step_of prefix" u "net_network I pool"] assms
    by (simp add: st pool_ok_def word_less_nat_alt word_le_nat_alt less_Suc_eq_le Suc_le_eq)
qed

lemma subnet_make:
  assumes "pool_ok I pool prefix" "unat m = unat (net_network I pool) + k * 2 ^ (32 - prefix)"
    and "m \<le> net_broadcast I pool" "net_new I m prefix = Inr v"
  shows "net_network I v = m \<and> inside_pool I pool prefix v"
proof -
  have ok: "ipnet_ok I" "prefix \<le> 32" "net_prefix_len I pool \<le> prefix"
    using assms(1) by (simp_all add: pool_ok_def)
  note new = ipnet_ok_new [OF ok(1,2) assms(4)]
  have "(2::nat) ^ (32 - prefix) dvd 2 ^ (32 - net_prefix_len I pool)"
    using ok(3) by (simp add: le_imp_power_dvd)
  then have "2 ^ (32 - prefix) dvd unat m"
    unfolding assms(2) using ipnet_okD(2) [OF ok(1), of pool] by (intro dvd_add) (auto intro: dvd_trans)
  then have "unat (net_network I v) = unat m" using new(2) by simp
  then have nv: "net_network I v = m" by (simp add: unsigned_word_eqI)
  moreover have "net_network I pool \<le> m" using assms(2) by (simp add: word_le_nat_alt)
  ultimately show ?thesis
    using inside_poolI [OF ok(1,3) new(1)] assms(3) by simp
qed

lemma keep_existing_cases:
  "keep_existing us sl un du hosts (h, v) (r, u, w) = (bt_insert h v r, sl v # u, w)
     \<and> h \<in> set hosts \<and> us v \<and> sl v \<notin> set u
   \<or> (\<exists>w'. keep_existing us sl un du hosts (h, v) (r, u, w) = (r, u, w'))"
  by simp

lemma keep_existing_fold:
  assumes "\<And>v. us v \<Longrightarrow> P v"
    and "distinct (map fst existing)" "\<forall>h\<in>set (map fst existing). bt_get r h = None"
    and "slots_ok slot P r u"
    and "fold (keep_existing us slot un du hosts) existing (r, u, w) = (r', u', w')"
  shows "slots_ok slot P r' u' \<and> bt_get r \<subseteq>\<^sub>m bt_get r' \<and> dom (bt_get r') \<subseteq> dom (bt_get r) \<union> set hosts"
  using assms(2-)
proof (induction existing arbitrary: r u w)
  case Nil
  then show ?case by simp
next
  case (Cons hn existing)
  obtain h n where hn: "hn = (h, n)" by (cases hn)
  have none: "\<forall>k\<in>set (map fst existing). bt_get r k = None" "bt_get r h = None"
    "h \<notin> set (map fst existing)" "distinct (map fst existing)"
    using Cons.prems(1,2) by (auto simp: hn)
  from keep_existing_cases [of us slot un du hosts h n r u w] show ?case
  proof
    assume k: "keep_existing us slot un du hosts (h, n) (r, u, w) = (bt_insert h n r, slot n # u, w)
      \<and> h \<in> set hosts \<and> us n \<and> slot n \<notin> set u"
    then have ok: "slots_ok slot P (bt_insert h n r) (slot n # u)"
      using slots_ok_insert [OF Cons.prems(3)] assms(1) none(2) by blast
    have "fold (keep_existing us slot un du hosts) existing (bt_insert h n r, slot n # u, w) = (r', u', w')"
      using Cons.prems(4) k by (simp add: hn)
    moreover have "\<forall>k\<in>set (map fst existing). bt_get (bt_insert h n r) k = None"
      using none(1,3) by auto
    ultimately have ih: "slots_ok slot P r' u'" "bt_get (bt_insert h n r) \<subseteq>\<^sub>m bt_get r'"
      "dom (bt_get r') \<subseteq> dom (bt_get (bt_insert h n r)) \<union> set hosts"
      using Cons.IH [OF none(4) _ ok] by blast+
    have "bt_get r \<subseteq>\<^sub>m bt_get (bt_insert h n r)" using none(2) by (auto simp: map_le_def)
    with ih k show ?thesis by (auto intro: map_le_trans)
  next
    assume "\<exists>w'. keep_existing us slot un du hosts (h, n) (r, u, w) = (r, u, w')"
    then obtain w2 where "keep_existing us slot un du hosts hn (r, u, w) = (r, u, w2)"
      by (auto simp: hn)
    then have "fold (keep_existing us slot un du hosts) existing (r, u, w2) = (r', u', w')"
      using Cons.prems(4) by simp
    from Cons.IH [OF none(4,1) Cons.prems(3) this] show ?thesis .
  qed
qed

text \<open>A table that is already valid is kept as it is, with no warning.\<close>

lemma bt_insert_last: "\<forall>k\<in>set (map fst m). k < h \<Longrightarrow> bt_insert h v m = m @ [(h, v)]"
  by (induction m) (auto simp: not_less_iff_gr_or_eq)

lemma keep_existing_id:
  assumes "bt_wf (r @ existing)" "\<forall>(h, v)\<in>set existing. h \<in> set hosts \<and> us v"
    and "distinct (map (slot \<circ> snd) existing)" "set u \<inter> set (map (slot \<circ> snd) existing) = {}"
  shows "\<exists>u'. fold (keep_existing us slot un du hosts) existing (r, u, w) = (r @ existing, u', w)"
  using assms
proof (induction existing arbitrary: r u)
  case (Cons hv existing)
  obtain h v where hv: "hv = (h, v)" by (cases hv)
  have "\<forall>k\<in>set (map fst r). k < h" using Cons.prems(1) by (auto simp: bt_wf_def sorted_wrt_append hv)
  then have "keep_existing us slot un du hosts hv (r, u, w) = (r @ [(h, v)], slot v # u, w)"
    using Cons.prems(2,4) by (simp add: hv bt_insert_last)
  moreover have "\<exists>u'. fold (keep_existing us slot un du hosts) existing (r @ [(h, v)], slot v # u, w)
      = ((r @ [(h, v)]) @ existing, u', w)"
    using Cons.prems by (intro Cons.IH) (auto simp: hv)
  ultimately show ?case by (simp add: hv)
qed simp

lemma assign_slots_nothing:
  "\<forall>h\<in>set hosts. bt_get r h \<noteq> None \<Longrightarrow> assign_slots search mk ex r u hosts = Some (Inr r)"
  by (induction hosts) auto

lemma same_prefix_disjoint:
  assumes "ipnet_ok I" "net_prefix_len I a = net_prefix_len I b" "net_contains I a x" "net_contains I b x"
  shows "net_network I a = net_network I b"
proof -
  let ?s = "2 ^ (32 - net_prefix_len I b) :: nat"
  have div: "unat (net_network I n) = unat x div ?s * ?s"
    if p: "net_prefix_len I n = net_prefix_len I b" and c: "net_contains I n x" for n
  proof -
    obtain i where i: "unat (net_network I n) = ?s * i"
      using ipnet_okD(2) [OF assms(1), of n] p by (auto elim!: dvdE)
    have "?s * i \<le> unat x" "unat x < ?s * i + ?s"
      using ipnet_okD(3,4) [OF assms(1), of n] p c i by (auto simp: word_le_nat_alt)
    then have "unat x div ?s = i" by (intro div_nat_eqI) (simp_all add: algebra_simps)
    with i show ?thesis by simp
  qed
  have "unat (net_network I a) = unat (net_network I b)"
    using div [of a] div [of b] assms(2-) by simp
  then show ?thesis by (rule unsigned_word_eqI)
qed

lemma allocate_Inr:
  assumes "allocate I pool prefix existing hosts = Some (Inr (res, ws))" "ipnet_ok I" "bt_wf existing"
    and "unat (net_broadcast I pool) < 2 ^ 32 - 1"
  shows "pool_ok I pool prefix"
    and "\<exists>used. slots_ok (net_network I) (inside_pool I pool prefix) res used"
    and "dom (bt_get res) = set hosts" and "distinct hosts"
proof -
  show pk: "pool_ok I pool prefix"
    using assms by (auto simp: allocate_def pool_ok_def split: if_splits)
  show "distinct hosts"
    using assms(1) by (auto simp: allocate_def first_duplicate_None split: if_splits option.splits)
  obtain r u w where keep: "fold (keep_net I pool prefix hosts) existing ([], [], []) = (r, u, w)"
    by (metis surj_pair)
  let ?mk = "\<lambda>n. net_new I n prefix"
  obtain ex where as: "assign_slots (subnet_search I pool prefix) ?mk ex r u hosts = Some (Inr res)"
    using assms(1) keep
    by (auto simp: allocate_def and_then_eq_Inr split: if_splits option.splits)
  have us: "inside_pool I pool prefix v"
    if "\<not> (net_prefix_len I v \<noteq> prefix \<or> \<not> net_contains I pool (net_network I v))" for v
    using that ipnet_okD(4) [OF assms(2)] inside_poolI [OF assms(2)] pk by (simp add: pool_ok_def)
  from keep_existing_fold [OF us _ _ slots_ok_Nil keep [unfolded keep_net_def]]
  have r: "slots_ok (net_network I) (inside_pool I pool prefix) r u" "dom (bt_get r) \<subseteq> set hosts"
    using bt_wf_distinct [OF assms(3)] by auto
  have search: "n \<notin> set u' \<and> (\<forall>v. ?mk n = Inr v \<longrightarrow> net_network I v = n \<and> inside_pool I pool prefix v)"
    if "subnet_search I pool prefix u' = Some (Some n)" for u' n
    using subnet_search_result [OF pk, of u'] subnet_make [OF pk] that by fastforce
  from assign_slots_ok [OF as r(1) search] r(2)
  show "\<exists>used. slots_ok (net_network I) (inside_pool I pool prefix) res used"
    "dom (bt_get res) = set hosts" by blast+
qed

lemma allocate_sound:
  assumes "ipnet_ok I" "bt_wf existing" "unat (net_broadcast I pool) < 2 ^ 32 - 1"
    and "allocate I pool prefix existing hosts = Some (Inr (res, ws))"
  shows "dom (bt_get res) = set hosts"
    and "\<And>h net. bt_get res h = Some net \<Longrightarrow> net_prefix_len I net = prefix
          \<and> (\<forall>x. net_contains I net x \<longrightarrow> net_contains I pool x)"
    and "\<And>h h' net net' x. bt_get res h = Some net \<Longrightarrow> bt_get res h' = Some net' \<Longrightarrow>
          net_contains I net x \<Longrightarrow> net_contains I net' x \<Longrightarrow> h = h'"
proof -
  note a = allocate_Inr [OF assms(4,1,2,3)]
  obtain used where so: "slots_ok (net_network I) (inside_pool I pool prefix) res used" using a(2) by blast
  have ins: "inside_pool I pool prefix net" if "bt_get res h = Some net" for h net
    using so that by (auto simp: slots_ok_def)
  then have "net_contains I pool x" if "bt_get res h = Some net" "net_contains I net x" for h net x
    using that ipnet_okD(4) [OF assms(1)] by (meson inside_pool_def order_trans)
  moreover have "h = h'" if "bt_get res h = Some net" "bt_get res h' = Some net'"
    "net_contains I net x" "net_contains I net' x" for h h' net net' x
  proof -
    have "net_network I net = net_network I net'"
      using same_prefix_disjoint [OF assms(1) _ that(3,4)] ins that(1,2) by (simp add: inside_pool_def)
    with so that(1,2) show ?thesis unfolding slots_ok_def by blast
  qed
  ultimately show "dom (bt_get res) = set hosts"
    and "\<And>h net. bt_get res h = Some net \<Longrightarrow> net_prefix_len I net = prefix
          \<and> (\<forall>x. net_contains I net x \<longrightarrow> net_contains I pool x)"
    and "\<And>h h' net net' x. bt_get res h = Some net \<Longrightarrow> bt_get res h' = Some net' \<Longrightarrow>
          net_contains I net x \<Longrightarrow> net_contains I net' x \<Longrightarrow> h = h'"
    using a(3) ins unfolding inside_pool_def by blast+
qed

text \<open>C7: when \<open>allocate\<close> succeeds on a pool that does not end at 255.255.255.255, every host has
  exactly one subnet, of the requested size and inside the pool, and no address belongs to the subnets
  of two hosts. (At the very end of the address range the claim fails, see \<open>allocate_at_top_of_range\<close>.)\<close>

theorem allocate_disjoint_inside_pool:
  assumes "ipnet_ok I" "bt_wf existing" "unat (net_broadcast I pool) < 2 ^ 32 - 1"
    and "allocate I pool prefix existing hosts = Some (Inr (res, ws))"
  shows "dom (bt_get res) = set hosts
    \<and> (\<forall>h net. bt_get res h = Some net \<longrightarrow> net_prefix_len I net = prefix
          \<and> (\<forall>x. net_contains I net x \<longrightarrow> net_contains I pool x))
    \<and> (\<forall>h h' net net' x. bt_get res h = Some net \<longrightarrow> bt_get res h' = Some net' \<longrightarrow>
          net_contains I net x \<longrightarrow> net_contains I net' x \<longrightarrow> h = h')"
  using allocate_sound [OF assms] by blast

lemma allocate_total:
  assumes "ipnet_ok I" "unat (net_broadcast I pool) < 2 ^ 32 - 1"
  shows "\<exists>r. allocate I pool prefix existing hosts = Some r"
proof (cases "prefix < net_prefix_len I pool \<or> 32 < prefix")
  case True
  then show ?thesis by (simp add: allocate_def)
next
  case False
  then have "pool_ok I pool prefix" using assms by (auto simp: pool_ok_def)
  then have "subnet_search I pool prefix u \<noteq> None" for u
    using subnet_search_result [of I pool prefix u] by auto
  from assign_slots_total [OF this] False show ?thesis
    by (auto simp: allocate_def split: option.splits prod.splits)
qed

text \<open>C33: \<open>allocate\<close> returns, for every pool that does not end at 255.255.255.255: its search ends
  with a free subnet or finds every subnet of the pool in use.\<close>

theorem allocate_returns:
  assumes "ipnet_ok I" "unat (net_broadcast I pool) < 2 ^ 32 - 1"
  shows "\<exists>r. allocate I pool prefix existing hosts = Some r"
  using allocate_total [OF assms] .

text \<open>The assignment is stable. Running \<open>allocate\<close> again on its own result, for the same
  hosts, changes nothing and warns of nothing.\<close>

theorem allocate_idempotent:
  assumes "ipnet_ok I" "bt_wf existing" "unat (net_broadcast I pool) < 2 ^ 32 - 1"
    and "allocate I pool prefix existing hosts = Some (Inr (res, ws))"
  shows "allocate I pool prefix res hosts = Some (Inr (res, []))"
proof -
  note a = allocate_Inr [OF assms(4,1,2,3)]
  obtain used where so: "slots_ok (net_network I) (inside_pool I pool prefix) res used" using a(2) by blast
  have wf: "bt_wf res" and inj: "\<And>h h' v v'. bt_get res h = Some v \<Longrightarrow> bt_get res h' = Some v' \<Longrightarrow>
      net_network I v = net_network I v' \<Longrightarrow> h = h'"
    using so by (auto simp: slots_ok_def)
  note dist = bt_wf_distinct [OF wf]
  have mem: "(h, v) \<in> set res \<longleftrightarrow> bt_get res h = Some v" for h v
    using dist by simp
  have "h \<in> set hosts \<and> net_prefix_len I v = prefix \<and> net_contains I pool (net_network I v)"
    if hv: "(h, v) \<in> set res" for h v
  proof (intro conjI)
    show "h \<in> set hosts" using hv a(3) mem by blast
    from hv so have ins: "inside_pool I pool prefix v" using mem by (auto simp: slots_ok_def)
    then show "net_prefix_len I v = prefix" by (simp add: inside_pool_def)
    have "net_network I v \<le> net_broadcast I v"
      using ipnet_okD(3) [OF assms(1), of v] one_le_numeral [of Num.One]
        one_le_power [of "2 :: nat" "32 - net_prefix_len I v"]
      unfolding word_le_nat_alt by linarith
    with ins show "net_contains I pool (net_network I v)"
      unfolding inside_pool_def ipnet_okD(4) [OF assms(1)] by (meson order_trans)
  qed
  then have us: "\<forall>(h, v)\<in>set res. h \<in> set hosts \<and>
      \<not> (net_prefix_len I v \<noteq> prefix \<or> \<not> net_contains I pool (net_network I v))"
    by auto
  have "inj_on (\<lambda>p. net_network I (snd p)) (set res)"
  proof (rule inj_onI)
    fix p q assume pq: "p \<in> set res" "q \<in> set res" "net_network I (snd p) = net_network I (snd q)"
    then have g: "bt_get res (fst p) = Some (snd p)" "bt_get res (fst q) = Some (snd q)"
      by (simp_all add: mem [symmetric])
    then have "fst p = fst q" using inj pq(3) by blast
    with g show "p = q" by (simp add: prod_eq_iff)
  qed
  then have ds: "distinct (map (net_network I \<circ> snd) res)"
    using dist by (auto simp: distinct_map comp_def)
  have "\<exists>u. fold (keep_net I pool prefix hosts) res ([], [], []) = ([] @ res, u, [])"
    unfolding keep_net_def by (rule keep_existing_id [OF _ us ds]) (use wf in simp_all)
  then obtain u where "fold (keep_net I pool prefix hosts) res ([], [], []) = (res, u, [])" by auto
  moreover have "first_duplicate [] hosts = None" using a(4) by (simp add: first_duplicate_None)
  moreover have "\<forall>h\<in>set hosts. bt_get res h \<noteq> None" using a(3) by auto
  ultimately show ?thesis
    using a(1) assign_slots_nothing [of hosts res] by (simp add: allocate_def pool_ok_def)
qed

section \<open>Management addresses\<close>

definition usable_mgmt :: "'n ipnet \<Rightarrow> 'n \<Rightarrow> ipv4 \<Rightarrow> bool" where
  "usable_mgmt I pool ip \<longleftrightarrow> net_network I pool < ip \<and> ip < net_broadcast I pool"

abbreviation mgmt_search :: "'n ipnet \<Rightarrow> 'n \<Rightarrow> u32 list \<Rightarrow> u32 option option" where
  "mgmt_search I pool u \<equiv>
     free_slot (\<lambda>n. net_broadcast I pool \<le> n) 1 u (sat_add (net_network I pool) 1)"

lemma mgmt_search_result:
  "(\<exists>m. mgmt_search I pool u = Some (Some m) \<and> m \<notin> set u \<and> usable_mgmt I pool m)
   \<or> mgmt_search I pool u = Some None \<and> (\<forall>ip. usable_mgmt I pool ip \<longrightarrow> ip \<in> set u)"
proof -
  let ?b = "sat_add (net_network I pool) 1"
  have res: "(\<exists>m k. mgmt_search I pool u = Some (Some m) \<and> m \<notin> set u \<and> unat m = unat ?b + k
        \<and> unat m < unat (net_broadcast I pool))
     \<or> mgmt_search I pool u = Some None
       \<and> (\<forall>k. unat ?b + k < unat (net_broadcast I pool) \<longrightarrow> word_of_nat (unat ?b + k) \<in> set u)"
    using free_slot_result [of "\<lambda>n. net_broadcast I pool \<le> n" "unat (net_broadcast I pool)" 1 u ?b]
    by (simp add: word_le_nat_alt unat_less_2p [simplified])
  have base: "unat (net_network I pool) < unat (net_broadcast I pool) \<Longrightarrow>
      unat ?b = unat (net_network I pool) + 1"
    using unat_less_2p [of "net_broadcast I pool"] by (simp add: unat_sat_add)
  have ge: "unat ?b < unat (net_broadcast I pool) \<Longrightarrow> unat ?b = unat (net_network I pool) + 1"
    using unat_less_2p [of "net_broadcast I pool"] by (simp add: unat_sat_add split: if_splits)
  from res show ?thesis
  proof
    assume "\<exists>m k. mgmt_search I pool u = Some (Some m) \<and> m \<notin> set u \<and> unat m = unat ?b + k
        \<and> unat m < unat (net_broadcast I pool)"
    then show ?thesis using ge by (fastforce simp: usable_mgmt_def word_less_nat_alt)
  next
    assume r: "mgmt_search I pool u = Some None
       \<and> (\<forall>k. unat ?b + k < unat (net_broadcast I pool) \<longrightarrow> word_of_nat (unat ?b + k) \<in> set u)"
    have "ip \<in> set u" if "usable_mgmt I pool ip" for ip
    proof -
      from that have lt: "unat (net_network I pool) < unat ip" "unat ip < unat (net_broadcast I pool)"
        by (simp_all add: usable_mgmt_def word_less_nat_alt)
      then have "unat ip = unat ?b + (unat ip - unat ?b)" using base by simp
      then have "word_of_nat (unat ip) \<in> set u" using r lt(2) by metis
      then show ?thesis by simp
    qed
    with r show ?thesis by blast
  qed
qed

lemma allocate_mgmt_ips_spec:
  assumes "ipnet_ok I" "bt_wf existing"
  shows "\<exists>r. allocate_mgmt_ips I pool existing hosts = Some r \<and>
    (case r of
       Inr (res, ws) \<Rightarrow> dom (bt_get res) = set hosts \<and> inj_on (bt_get res) (set hosts)
         \<and> (\<forall>h ip. bt_get res h = Some ip \<longrightarrow> usable_mgmt I pool ip)
     | Inl e \<Rightarrow> distinct hosts \<longrightarrow> e = ''pool '' @ net_show I pool @ '' is exhausted (no free management IPs)'')"
proof (cases "first_duplicate [] hosts")
  case (Some h)
  then have "\<not> distinct hosts" using first_duplicate_None [of "[]" hosts] by simp
  with Some show ?thesis by (simp add: allocate_mgmt_ips_def)
next
  case None
  obtain r u w where keep: "fold (keep_ip I pool hosts) existing ([], [], []) = (r, u, w)"
    by (metis surj_pair)
  have us: "usable_mgmt I pool ip"
    if "\<not> (ip = net_network I pool \<or> ip = net_broadcast I pool \<or> \<not> net_contains I pool ip)" for ip
    using that ipnet_okD(4) [OF assms(1)] by (auto simp: usable_mgmt_def)
  from keep_existing_fold [OF us _ _ slots_ok_Nil keep [unfolded keep_ip_def]]
  have r: "slots_ok (\<lambda>ip. ip) (usable_mgmt I pool) r u" "dom (bt_get r) \<subseteq> set hosts"
    using bt_wf_distinct [OF assms(2)] by auto
  let ?ex = "''pool '' @ net_show I pool @ '' is exhausted (no free management IPs)''"
  have tot: "mgmt_search I pool u' \<noteq> None" for u' using mgmt_search_result [of I pool u'] by auto
  obtain out where out: "assign_slots (mgmt_search I pool) Inr ?ex r u hosts = Some out"
    using assign_slots_total [of "mgmt_search I pool", OF tot] by blast
  have eq: "allocate_mgmt_ips I pool existing hosts = Some (and_then out (\<lambda>res. Inr (res, w)))"
    using None keep out by (simp add: allocate_mgmt_ips_def)
  show ?thesis
  proof (cases out)
    case (Inl e)
    then show ?thesis using assign_slots_error [of "mgmt_search I pool" Inr ?ex r u hosts e] out eq by auto
  next
    case (Inr res)
    have "n \<notin> set u' \<and> (\<forall>v. Inr n = Inr v \<longrightarrow> v = n \<and> usable_mgmt I pool v)"
      if "mgmt_search I pool u' = Some (Some n)" for u' n
      using mgmt_search_result [of I pool u'] that by auto
    from assign_slots_ok [OF out [unfolded Inr] r(1) this] r(2) obtain used where
      so: "slots_ok (\<lambda>ip. ip) (usable_mgmt I pool) res used" and dom: "dom (bt_get res) = set hosts" by blast
    have "inj_on (bt_get res) (set hosts)"
    proof (rule inj_onI)
      fix x y assume xy: "x \<in> set hosts" "bt_get res x = bt_get res y"
      then obtain ip where "bt_get res x = Some ip" using dom by blast
      with xy(2) so show "x = y" unfolding slots_ok_def by metis
    qed
    moreover have "\<forall>h ip. bt_get res h = Some ip \<longrightarrow> usable_mgmt I pool ip"
      using so by (simp add: slots_ok_def)
    ultimately show ?thesis using eq Inr dom by simp
  qed
qed

text \<open>\<open>allocate_mgmt_ips\<close> always returns. On success every host has one address, strictly
  between the pool's network and broadcast addresses, and no two hosts share one; for distinct
  hosts it fails only by exhaustion.\<close>

theorem allocate_mgmt_ips_correct:
  assumes "ipnet_ok I" "bt_wf existing"
  shows "\<exists>r. allocate_mgmt_ips I pool existing hosts = Some r \<and>
    (case r of
       Inr (res, ws) \<Rightarrow> dom (bt_get res) = set hosts \<and> inj_on (bt_get res) (set hosts)
         \<and> (\<forall>h ip. bt_get res h = Some ip \<longrightarrow> usable_mgmt I pool ip)
     | Inl e \<Rightarrow> distinct hosts \<longrightarrow> e = ''pool '' @ net_show I pool @ '' is exhausted (no free management IPs)'')"
  by (rule allocate_mgmt_ips_spec [OF assms])

section \<open>The instance, and where the search fails\<close>

lemma unat_word_of_nat_small: "n < 2 ^ 32 \<Longrightarrow> unat (word_of_nat n :: u32) = n"
  unfolding unsigned_of_nat by (simp add: take_bit_nat_eq_self)

lemma pair_net_range:
  assumes "p \<le> 32"
  defines "s \<equiv> 2 ^ (32 - p) :: nat"
  shows "unat (a :: u32) div s * s + s \<le> 2 ^ 32" "0 < s"
proof -
  show "0 < s" by (simp add: s_def)
  have "s dvd 2 ^ 32" unfolding s_def by (rule le_imp_power_dvd) simp
  moreover have "unat a div s * s < 2 ^ 32"
    using unat_less_2p [of a] by (meson div_times_less_eq_dividend le_less_trans)
  ultimately show "unat a div s * s + s \<le> 2 ^ 32" using aligned_room [of s "unat a div s * s"] by simp
qed

lemma div_eq_range:
  assumes "0 < (s :: nat)"
  shows "b div s = q \<longleftrightarrow> q * s \<le> b \<and> b \<le> q * s + s - 1"
proof
  assume "b div s = q"
  then show "q * s \<le> b \<and> b \<le> q * s + s - 1"
    using div_times_less_eq_dividend [of b s] dividend_less_div_times [OF assms, of b] by auto
next
  assume "q * s \<le> b \<and> b \<le> q * s + s - 1"
  then show "b div s = q"
    using assms by (intro div_nat_eqI) (simp_all add: mult.commute, linarith)
qed

lemma pair_net_ok: "ipnet_ok pair_net"
proof -
  have "net_prefix_len pair_net (a, p) \<le> 32 \<and>
      2 ^ (32 - net_prefix_len pair_net (a, p)) dvd unat (net_network pair_net (a, p)) \<and>
      unat (net_broadcast pair_net (a, p)) + 1
        = unat (net_network pair_net (a, p)) + 2 ^ (32 - net_prefix_len pair_net (a, p)) \<and>
      (\<forall>b. net_contains pair_net (a, p) b \<longleftrightarrow>
         net_network pair_net (a, p) \<le> b \<and> b \<le> net_broadcast pair_net (a, p))" for a p
  proof -
    let ?p = "min p 32"
    let ?s = "2 ^ (32 - ?p) :: nat"
    let ?x = "unat a div ?s * ?s"
    have r: "?x + ?s \<le> 2 ^ 32" "0 < ?s" using pair_net_range(1) [of ?p a] by simp_all
    have "?x < 2 ^ 32" "?x + ?s - 1 < 2 ^ 32" using r by linarith+
    note small = this [THEN unat_word_of_nat_small]
    have n: "unat (net_network pair_net (a, p)) = ?x"
      using small(1) unfolding pair_net_def ipnet.select_convs prod.case mask_to_def .
    have b: "unat (net_broadcast pair_net (a, p)) = ?x + ?s - 1"
      using small(2) unfolding pair_net_def ipnet.select_convs prod.case .
    have "unat b div ?s = unat a div ?s \<longleftrightarrow> ?x \<le> unat b \<and> unat b \<le> ?x + ?s - 1" for b :: u32
      using r(2) by (rule div_eq_range)
    then have "net_contains pair_net (a, p) b \<longleftrightarrow>
         net_network pair_net (a, p) \<le> b \<and> b \<le> net_broadcast pair_net (a, p)" for b
      unfolding word_le_nat_alt n b by (simp add: pair_net_def)
    moreover have "net_prefix_len pair_net (a, p) = ?p" by (simp add: pair_net_def)
    ultimately show ?thesis using n b r by simp
  qed
  moreover have "\<exists>n. net_new pair_net a p = Inr n \<and> net_prefix_len pair_net n = p \<and>
      unat (net_network pair_net n) = unat a div 2 ^ (32 - p) * 2 ^ (32 - p)" if p: "p \<le> 32" for a p
  proof -
    have "unat (word_of_nat (unat a div 2 ^ (32 - p) * 2 ^ (32 - p)) :: u32) = unat a div 2 ^ (32 - p) * 2 ^ (32 - p)"
      by (rule unat_word_of_nat_small) (use pair_net_range [OF p] in \<open>meson less_add_same_cancel1 less_le_trans\<close>)
    with p show ?thesis
      by (simp add: pair_net_def mask_to_def min_absorb1 del: of_nat_mult of_nat_power)
  qed
  ultimately show ?thesis unfolding ipnet_ok_def by auto
qed

section \<open>Namespaces\<close>

definition ns_get :: "(string, (string, 'n) btree) btree \<Rightarrow> string \<Rightarrow> string \<Rightarrow> 'n option" where
  "ns_get out ns h = Option.bind (bt_get out ns) (\<lambda>m. bt_get m h)"

lemma ns_get_insert:
  "ns_get (bt_insert ns (bt_insert h n (case bt_get out ns of Some m \<Rightarrow> m | None \<Rightarrow> [])) out) ns' h'
     = (if ns' = ns \<and> h' = h then Some n else ns_get out ns' h')"
  by (auto simp: ns_get_def split: option.splits)

lemma collect_namespaced_get:
  assumes "\<forall>(ns, h)\<in>set ps. bt_get flat (ns_key ns h) \<noteq> None"
  shows "\<exists>out'. collect_namespaced flat ps out = Some out'
    \<and> (\<forall>ns h. ns_get out' ns h = (if (ns, h) \<in> set ps then bt_get flat (ns_key ns h) else ns_get out ns h))"
  using assms
proof (induction ps arbitrary: out)
  case (Cons p ps)
  obtain ns h where p: "p = (ns, h)" by (cases p)
  with Cons.prems obtain n where n: "bt_get flat (ns_key ns h) = Some n" by auto
  let ?out = "bt_insert ns (bt_insert h n (case bt_get out ns of Some m \<Rightarrow> m | None \<Rightarrow> [])) out"
  obtain out' where "collect_namespaced flat ps ?out = Some out'"
    "\<forall>ns h. ns_get out' ns h = (if (ns, h) \<in> set ps then bt_get flat (ns_key ns h) else ns_get ?out ns h)"
    using Cons.IH [of ?out] Cons.prems by auto
  then show ?case by (auto simp: p n ns_get_insert)
qed simp

lemma bt_wf_all_existing: "bt_wf (all_existing existing namespaces hosts)"
proof -
  have "bt_wf (foldl (\<lambda>m (ns, h). case f ns h of Some n \<Rightarrow> bt_insert (g ns h) n m | None \<Rightarrow> m) m ps)"
    if "bt_wf m" for f g m ps
    using that by (induction ps arbitrary: m) (simp_all add: bt_wf_insert split: option.split prod.split)
  from this [of "[]"] show ?thesis by (simp add: all_existing_def)
qed

lemma allocate_namespaced_spec:
  assumes "ipnet_ok I" "unat (net_broadcast I pool) < 2 ^ 32 - 1"
  shows "\<exists>r. allocate_namespaced I pool prefix existing namespaces hosts = Some r \<and>
    (case r of Inl _ \<Rightarrow> True
     | Inr (out, ws) \<Rightarrow>
        (\<forall>ns\<in>set namespaces. \<forall>h\<in>set hosts. \<exists>net. ns_get out ns h = Some net
           \<and> net_prefix_len I net = prefix \<and> (\<forall>x. net_contains I net x \<longrightarrow> net_contains I pool x))
      \<and> (\<forall>ns\<in>set namespaces. \<forall>h\<in>set hosts. \<forall>ns'\<in>set namespaces. \<forall>h'\<in>set hosts. \<forall>x net net'.
           ns_get out ns h = Some net \<longrightarrow> ns_get out ns' h' = Some net' \<longrightarrow>
           net_contains I net x \<longrightarrow> net_contains I net' x \<longrightarrow> (ns, h) = (ns', h')))"
proof (cases "first_duplicate [] namespaces")
  case (Some ns)
  then show ?thesis by (simp add: allocate_namespaced_def)
next
  case None
  let ?ps = "List.product namespaces hosts"
  let ?keys = "map (\<lambda>(ns, h). ns_key ns h) ?ps"
  let ?ex = "all_existing existing namespaces hosts"
  obtain r where r: "allocate I pool prefix ?ex ?keys = Some r"
    using allocate_total [OF assms] by blast
  show ?thesis
  proof (cases r)
    case (Inl e)
    with None r show ?thesis by (simp add: allocate_namespaced_def)
  next
    case (Inr fw)
    obtain flat ws where fw: "fw = (flat, ws)" by (cases fw)
    note al = r [unfolded Inr fw]
    note ok = allocate_Inr [OF al assms(1) bt_wf_all_existing assms(2)]
    note sound = allocate_sound [OF assms(1) bt_wf_all_existing assms(2) al]
    have "bt_get flat (ns_key ns h) \<noteq> None" if "(ns, h) \<in> set ?ps" for ns h
      using ok(3) that by force
    then obtain out where out: "collect_namespaced flat ?ps [] = Some out"
      "\<And>ns h. (ns, h) \<in> set ?ps \<Longrightarrow> ns_get out ns h = bt_get flat (ns_key ns h)"
      using collect_namespaced_get [of ?ps flat "[]"] by auto
    have inj_on: "inj_on (\<lambda>(ns, h). ns_key ns h) (set ?ps)" using ok(4) by (simp only: distinct_map)
    have inj: "(ns, h) = (ns', h')"
      if "(ns, h) \<in> set ?ps" "(ns', h') \<in> set ?ps" "ns_key ns h = ns_key ns' h'" for ns h ns' h'
      using inj_onD [OF inj_on _ that(1,2)] that(3) by simp
    have eq: "allocate_namespaced I pool prefix existing namespaces hosts = Some (Inr (out, ws))"
      using None al out(1) by (simp add: allocate_namespaced_def)
    have "\<exists>net. ns_get out ns h = Some net \<and> net_prefix_len I net = prefix
        \<and> (\<forall>x. net_contains I net x \<longrightarrow> net_contains I pool x)"
      if "ns \<in> set namespaces" "h \<in> set hosts" for ns h
    proof -
      have p: "(ns, h) \<in> set ?ps" using that by simp
      then obtain net where "bt_get flat (ns_key ns h) = Some net" using ok(3) by force
      then show ?thesis using sound(2) out(2) [OF p] by auto
    qed
    moreover have "(ns, h) = (ns', h')"
      if "ns \<in> set namespaces" "h \<in> set hosts" "ns' \<in> set namespaces" "h' \<in> set hosts"
        "ns_get out ns h = Some net" "ns_get out ns' h' = Some net'"
        "net_contains I net x" "net_contains I net' x" for ns h ns' h' x net net'
    proof -
      have m: "(ns, h) \<in> set ?ps" "(ns', h') \<in> set ?ps" using that(1-4) by simp_all
      have "ns_key ns h = ns_key ns' h'"
        using that(5,6) unfolding out(2) [OF m(1)] out(2) [OF m(2)] by (rule sound(3)) (rule that(7,8))+
      then show ?thesis by (rule inj [OF m])
    qed
    ultimately show ?thesis
      unfolding eq option.inject ex_simps simp_thms sum.case prod.case by blast
  qed
qed

text \<open>When the mesh's container subnets are assigned, every pair of a namespace and a host has
  one, of the requested size and inside the pool, the lookup of the result never fails, and the
  subnets of two different pairs have no address in common.\<close>

theorem allocate_namespaced_correct:
  assumes "ipnet_ok I" "unat (net_broadcast I pool) < 2 ^ 32 - 1"
  shows "\<exists>r. allocate_namespaced I pool prefix existing namespaces hosts = Some r \<and>
    (case r of Inl _ \<Rightarrow> True
     | Inr (out, ws) \<Rightarrow>
        (\<forall>ns\<in>set namespaces. \<forall>h\<in>set hosts. \<exists>net. ns_get out ns h = Some net
           \<and> net_prefix_len I net = prefix \<and> (\<forall>x. net_contains I net x \<longrightarrow> net_contains I pool x))
      \<and> (\<forall>ns\<in>set namespaces. \<forall>h\<in>set hosts. \<forall>ns'\<in>set namespaces. \<forall>h'\<in>set hosts. \<forall>x net net'.
           ns_get out ns h = Some net \<longrightarrow> ns_get out ns' h' = Some net' \<longrightarrow>
           net_contains I net x \<longrightarrow> net_contains I net' x \<longrightarrow> (ns, h) = (ns', h')))"
  by (rule allocate_namespaced_spec [OF assms])

section \<open>Where the search goes wrong\<close>

lemma step_of_24: "step_of 24 = 0x100"
  by (simp add: step_of_def)

lemmas alloc_eval = allocate_def step_of_24 free_slot.simps sat_add_def pair_net_def mask_to_def

lemma sat_add_top:
  assumes "unat n = 2 ^ 32 - 1" "0 < unat step"
  shows "sat_add n step = n"
proof (rule unsigned_word_eqI)
  have "\<not> unat n + unat step < 2 ^ 32" using assms by linarith
  then show "unat (sat_add n step) = unat n" using assms(1) by (simp add: unat_sat_add)
qed

lemma free_slot_stuck:
  assumes "free_slot full step used n = Some r"
  shows "\<not> (unat n = 2 ^ 32 - 1 \<and> n \<in> set used \<and> \<not> full n \<and> 0 < unat step)"
proof (rule free_slot.raw_induct [where P = "\<lambda>full step used n r.
    \<not> (unat n = 2 ^ 32 - 1 \<and> n \<in> set used \<and> \<not> full n \<and> 0 < unat step)", OF _ assms])
  fix fs full step used n y
  assume ih: "\<And>full step used n y. fs full step used n = Some y \<Longrightarrow>
      \<not> (unat n = 2 ^ 32 - 1 \<and> n \<in> set used \<and> \<not> full n \<and> 0 < unat step)"
    and eq: "(if full n then Some None else if n \<notin> set used then Some (Some n)
      else fs full step used (sat_add n step)) = Some y"
  show "\<not> (unat n = 2 ^ 32 - 1 \<and> n \<in> set used \<and> \<not> full n \<and> 0 < unat step)"
  proof
    assume a: "unat n = 2 ^ 32 - 1 \<and> n \<in> set used \<and> \<not> full n \<and> 0 < unat step"
    then have "sat_add n step = n" by (intro sat_add_top) auto
    then have "fs full step used n = Some y" using eq a by simp
    from ih [OF this] a show False by blast
  qed
qed

text \<open>C36: in the pool 255.255.255.0/24, which ends at the last address, the search steps past the
  only /24 by saturation to 255.255.255.255, which passes the bound check: the second host gets a
  subnet with the same addresses as the first, and for a third host the search never ends.\<close>

theorem allocate_at_top_of_range:
  "allocate pair_net (0xFFFFFF00, 24) 24 [] [''a'', ''b'']
     = Some (Inr ([(''a'', (0xFFFFFF00, 24)), (''b'', (0xFFFFFFFF, 24))], []))
   \<and> net_network pair_net (0xFFFFFF00, 24) = net_network pair_net (0xFFFFFFFF, 24)
   \<and> allocate pair_net (0xFFFFFF00, 24) 24 [] [''a'', ''b'', ''c''] = None"
proof (intro conjI)
  show "allocate pair_net (0xFFFFFF00, 24) 24 [] [''a'', ''b'']
     = Some (Inr ([(''a'', (0xFFFFFF00, 24)), (''b'', (0xFFFFFFFF, 24))], []))"
    by (simp add: alloc_eval)
  show "net_network pair_net (0xFFFFFF00, 24) = net_network pair_net (0xFFFFFFFF, 24)"
    by (simp add: pair_net_def mask_to_def)
  have top: "unat (0xFFFFFFFF :: u32) = 2 ^ 32 - 1" "(0xFFFFFFFF :: u32) \<in> set [0xFFFFFFFF, 0xFFFFFF00]"
    "\<not> (0xFFFFFFFF :: u32) < 0xFFFFFFFF" "0 < unat (0x100 :: u32)"
    by simp_all
  have "free_slot (\<lambda>n. 0xFFFFFFFF < n) 0x100 [0xFFFFFFFF, 0xFFFFFF00] 0xFFFFFFFF = Some r \<Longrightarrow> False" for r
    using free_slot_stuck [of "\<lambda>n. 0xFFFFFFFF < n" "0x100" "[0xFFFFFFFF, 0xFFFFFF00]" "0xFFFFFFFF"] top by blast
  then have stuck: "free_slot (\<lambda>n. 0xFFFFFFFF < n) 0x100 [0xFFFFFFFF, 0xFFFFFF00] 0xFFFFFFFF = None"
    by (metis option.exhaust)
  have s0: "free_slot (\<lambda>n. 0xFFFFFFFF < n) 0x100 [] 0xFFFFFF00 = Some (Some 0xFFFFFF00)"
    by (subst free_slot.simps) simp
  have s1: "free_slot (\<lambda>n. 0xFFFFFFFF < n) 0x100 [0xFFFFFF00] 0xFFFFFF00 = Some (Some 0xFFFFFFFF)"
    by (simp add: free_slot.simps sat_add_def)
  have s2: "free_slot (\<lambda>n. 0xFFFFFFFF < n) 0x100 [0xFFFFFFFF, 0xFFFFFF00] 0xFFFFFF00 = None"
  proof -
    have "sat_add 0xFFFFFF00 0x100 = 0xFFFFFFFF" by (simp add: sat_add_def)
    then show ?thesis by (subst free_slot.simps) (simp add: stuck)
  qed
  have n: "net_network pair_net (0xFFFFFF00, 24) = 0xFFFFFF00"
    "net_broadcast pair_net (0xFFFFFF00, 24) = 0xFFFFFFFF" "net_prefix_len pair_net (0xFFFFFF00, 24) = 24"
    by (simp_all add: pair_net_def mask_to_def)
  have new: "net_new pair_net a 24 = Inr (a, 24)" for a by (simp add: pair_net_def)
  show "allocate pair_net (0xFFFFFF00, 24) 24 [] [''a'', ''b'', ''c''] = None"
    unfolding allocate_def by (simp only: n new step_of_24) (simp add: s0 s1 s2)
qed

section \<open>Witnesses\<close>

lemma sample_alloc:
  "allocate pair_net (0x0A000000, 16) 24 [] [''a'', ''b'']
     = Some (Inr ([(''a'', (0x0A000000, 24)), (''b'', (0x0A000100, 24))], []))"
  by (simp add: alloc_eval)

lemma sample_pool_bound: "unat (net_broadcast pair_net (0x0A000000, 16)) < 2 ^ 32 - 1"
  by (simp add: pair_net_def)

theorem allocate_disjoint_inside_pool_witness:
  "dom (bt_get [(''a'', (0x0A000000 :: ipv4, 24 :: nat)), (''b'', (0x0A000100, 24))]) = set [''a'', ''b''] \<and>
   (\<forall>x. \<not> (net_contains pair_net (0x0A000000, 24) x \<and> net_contains pair_net (0x0A000100, 24) x))"
proof -
  let ?res = "[(''a'', (0x0A000000 :: ipv4, 24 :: nat)), (''b'', (0x0A000100, 24))]"
  have g: "bt_get ?res ''a'' = Some (0x0A000000, 24)" "bt_get ?res ''b'' = Some (0x0A000100, 24)"
    by simp_all
  note t = allocate_disjoint_inside_pool [OF pair_net_ok _ sample_pool_bound sample_alloc]
  have d: "dom (bt_get ?res) = set [''a'', ''b'']" by (rule t [THEN conjunct1]) simp
  have "bt_get ?res ''a'' = Some (0x0A000000, 24) \<longrightarrow> bt_get ?res ''b'' = Some (0x0A000100, 24) \<longrightarrow>
      net_contains pair_net (0x0A000000, 24) x \<longrightarrow> net_contains pair_net (0x0A000100, 24) x \<longrightarrow> ''a'' = ''b''" for x
    by (intro t [THEN conjunct2, THEN conjunct2, THEN spec, THEN spec, THEN spec, THEN spec, THEN spec]) simp
  with g have "\<not> (net_contains pair_net (0x0A000000, 24) x \<and> net_contains pair_net (0x0A000100, 24) x)" for x
    by simp
  with d show ?thesis by blast
qed

theorem allocate_returns_witness:
  "\<exists>r. allocate pair_net (0x0A000000, 16) 24 [] [''a''] = Some r"
  using allocate_returns [OF pair_net_ok sample_pool_bound] by blast

theorem allocate_idempotent_witness:
  "allocate pair_net (0x0A000000, 16) 24 [(''a'', (0x0A000000, 24)), (''b'', (0x0A000100, 24))] [''a'', ''b'']
     = Some (Inr ([(''a'', (0x0A000000, 24)), (''b'', (0x0A000100, 24))], []))"
  using allocate_idempotent [OF pair_net_ok _ sample_pool_bound sample_alloc] by simp

theorem allocate_mgmt_ips_correct_witness:
  "\<exists>r. allocate_mgmt_ips pair_net (0x0A000000, 16) [] [''a''] = Some r"
  using allocate_mgmt_ips_correct [OF pair_net_ok, of "[]" "(0x0A000000, 16)" "[''a'']"] by auto

theorem allocate_namespaced_correct_witness:
  "\<exists>r. allocate_namespaced pair_net (0x0A000000, 16) 24 [] [''default''] [''a''] = Some r"
  using allocate_namespaced_correct [OF pair_net_ok sample_pool_bound, of 24 "[]" "[''default'']" "[''a'']"]
  by blast

end
