(* ===== verification/CliUnits.thy ===== *)
theory CliUnits
  imports CliSubnet
begin

text \<open>
  The texts the provisioning CLI generates: systemd units, configuration files and the shell
  commands that write them (\<open>meshnet.rs\<close>, \<open>wireguard/config.rs\<close>, \<open>wireguard/firewall.rs\<close>,
  \<open>services/mod.rs\<close>, \<open>services/corrosion.rs\<close>, \<open>services/coold.rs\<close>, \<open>services/builder.rs\<close> of \<open>coolify-cli\<close>).
  A text is a byte string; \<open>\<newline>\<close> in a literal is the line feed, a character outside ASCII is
  spelt by its UTF-8 bytes.
\<close>

section \<open>Names and checks of \<open>meshnet.rs\<close>\<close>

definition DEFAULT_NAMESPACE :: string where
  "DEFAULT_NAMESPACE = ''default''"

definition podman_network_for :: "string \<Rightarrow> string" where
  "podman_network_for ns = ''coolify-'' @ ns @ ''-mesh''"

definition in_range :: "char \<Rightarrow> char \<Rightarrow> char \<Rightarrow> bool" where
  "in_range lo hi c = ((of_char lo :: nat) \<le> of_char c \<and> (of_char c :: nat) \<le> of_char hi)"

definition lower_alnum :: "char \<Rightarrow> bool" where
  "lower_alnum c = (in_range (CHR ''a'') (CHR ''z'') c \<or> in_range (CHR ''0'') (CHR ''9'') c)"

definition ascii_alnum :: "char \<Rightarrow> bool" where
  "ascii_alnum c = (lower_alnum c \<or> in_range (CHR ''A'') (CHR ''Z'') c)"

text \<open>
  The crate \<open>regex\<close> is the parameter \<open>is_match\<close>, from the text of a pattern and the text to
  match. \<open>regex_ok\<close> states what its documentation says of the three anchored patterns the code
  compiles: a bracketed class is one character of it, \<open>{m,n}\<close> between \<open>m\<close> and \<open>n\<close> copies, \<open>?\<close>
  an optional group, and \<open>^\<close> and \<open>$\<close> the ends of the text.
\<close>

definition NAMESPACE_RE :: string where
  \<open>NAMESPACE_RE = ''^[a-z0-9]([a-z0-9-]{0,61}[a-z0-9])?$''\<close>

definition INTERFACE_RE :: string where
  \<open>INTERFACE_RE = ''^[a-zA-Z0-9][a-zA-Z0-9._-]{0,14}$''\<close>

definition VERSION_RE :: string where
  \<open>VERSION_RE = ''^[A-Za-z0-9][A-Za-z0-9._-]{0,63}$''\<close>

definition dns_label :: "string \<Rightarrow> bool" where
  "dns_label s =
     (s \<noteq> [] \<and> length s \<le> 63 \<and> lower_alnum (hd s) \<and> lower_alnum (last s) \<and>
      list_all (\<lambda>c. lower_alnum c \<or> c = CHR ''-'') s)"

definition tag_word :: "nat \<Rightarrow> string \<Rightarrow> bool" where
  "tag_word n s =
     (s \<noteq> [] \<and> length s \<le> n \<and> ascii_alnum (hd s) \<and>
      list_all (\<lambda>c. ascii_alnum c \<or> c = CHR ''.'' \<or> c = CHR ''_'' \<or> c = CHR ''-'') s)"

definition regex_ok :: "(string \<Rightarrow> string \<Rightarrow> bool) \<Rightarrow> bool" where
  "regex_ok is_match \<longleftrightarrow>
     (\<forall>s. is_match NAMESPACE_RE s = dns_label s) \<and>
     (\<forall>s. is_match INTERFACE_RE s = tag_word 15 s) \<and>
     (\<forall>s. is_match VERSION_RE s = tag_word 64 s)"

text \<open>The loop of \<open>validate_namespaces\<close>, with the set of the names seen so far.\<close>

fun check_namespaces :: "(string \<Rightarrow> string \<Rightarrow> bool) \<Rightarrow> string list \<Rightarrow> string list \<Rightarrow> unit result" where
  "check_namespaces is_match seen [] = Inr ()"
| "check_namespaces is_match seen (ns # rest) =
     (if \<not> is_match NAMESPACE_RE ns
      then Inl (''invalid namespace '' @ debug_str ns @
        '' (must be a DNS label: lowercase alphanumerics + '' @ [CHR 0x27] @ ''-'' @ [CHR 0x27] @
        '', 1-63 chars)'')
      else if ns \<in> set seen
      then Inl (''duplicate namespace '' @ debug_str ns @ '' in --namespaces'')
      else check_namespaces is_match (ns # seen) rest)"

definition validate_namespaces :: "(string \<Rightarrow> string \<Rightarrow> bool) \<Rightarrow> string list \<Rightarrow> unit result" where
  "validate_namespaces is_match namespaces =
     (if namespaces = [] then Inl ''--namespaces must list at least one namespace''
      else check_namespaces is_match [] namespaces)"

definition validate_namespace :: "(string \<Rightarrow> string \<Rightarrow> bool) \<Rightarrow> string \<Rightarrow> unit result" where
  "validate_namespace is_match ns =
     (if \<not> is_match NAMESPACE_RE ns
      then Inl (''invalid --namespace '' @ debug_str ns @
        '' (must be a DNS label: lowercase alphanumerics + '' @ [CHR 0x27] @ ''-'' @ [CHR 0x27] @
        '', 1-63 chars)'')
      else Inr ())"

definition validate_interface :: "(string \<Rightarrow> string \<Rightarrow> bool) \<Rightarrow> string \<Rightarrow> unit result" where
  "validate_interface is_match iface =
     (if \<not> is_match INTERFACE_RE iface
      then Inl (''invalid --wg-interface '' @ debug_str iface @
        '' (must be 1-15 chars: alphanumerics, '' @ [CHR 0x27] @ ''-'' @ [CHR 0x27] @ '', '' @
        [CHR 0x27] @ ''_'' @ [CHR 0x27] @ '', '' @ [CHR 0x27] @ ''.'' @ [CHR 0x27] @
        '', leading alphanumeric)'')
      else Inr ())"

definition validate_version :: "(string \<Rightarrow> string \<Rightarrow> bool) \<Rightarrow> string \<Rightarrow> string \<Rightarrow> unit result" where
  "validate_version is_match label version =
     (if \<not> is_match VERSION_RE version
      then Inl (''invalid '' @ label @ '' '' @ debug_str version @
        '' (must be 1-64 chars: alphanumerics, '' @ [CHR 0x27] @ ''.'' @ [CHR 0x27] @ '', '' @
        [CHR 0x27] @ ''_'' @ [CHR 0x27] @ '', '' @ [CHR 0x27] @ ''-'' @ [CHR 0x27] @
        '', leading alphanumeric)'')
      else Inr ())"

section \<open>WireGuard configuration\<close>

record 'n peer_config =
  pc_endpoint :: string
  pc_public_key :: string
  pc_mgmt_ip :: ipv4
  pc_container_subnets :: "'n list"

definition show_port :: "u16 \<Rightarrow> string" where
  "show_port p = show_nat (unat p)"

definition genkey_command :: "string" where
  \<open>genkey_command =
     ''mkdir -p /etc/wireguard && (umask 077; wg genkey | tee /etc/wireguard/privatekey '' @
     ''| wg pubkey | tee /etc/wireguard/publickey) && chmod 600 /etc/wireguard/privatekey''\<close>

definition allowed_ips_line :: "'n ipnet \<Rightarrow> 'n peer_config \<Rightarrow> string" where
  "allowed_ips_line I p =
     join '', '' ((show_ipv4 (pc_mgmt_ip p) @ ''/32'') # map (net_show I) (pc_container_subnets p))"

definition endpoint_addr :: "string \<Rightarrow> u16 \<Rightarrow> string" where
  "endpoint_addr endpoint listen_port =
     (if (case rsplit_once (CHR '':'') endpoint of
            None \<Rightarrow> False
          | Some (_, port) \<Rightarrow> parse_unsigned (2 ^ 16) port \<noteq> None)
      then endpoint
      else endpoint @ '':'' @ show_port listen_port)"

definition render_peer :: "'n ipnet \<Rightarrow> u16 \<Rightarrow> 'n peer_config \<Rightarrow> string" where
  \<open>render_peer I listen_port p =
     ''\<newline>'' @ ''[Peer]\<newline>'' @ ''# '' @ pc_endpoint p @ ''\<newline>'' @
     ''PublicKey = '' @ pc_public_key p @ ''\<newline>'' @ ''AllowedIPs = '' @
     allowed_ips_line I p @ ''\<newline>'' @ ''Endpoint = '' @
     endpoint_addr (pc_endpoint p) listen_port @ ''\<newline>'' @
     ''PersistentKeepalive = 25\<newline>''\<close>

definition render_config :: "'n ipnet \<Rightarrow> ipv4 \<Rightarrow> u16 \<Rightarrow> 'n peer_config list \<Rightarrow> string" where
  \<open>render_config I mgmt_ip listen_port peers =
     ''[Interface]\<newline>'' @ ''Address = '' @ show_ipv4 mgmt_ip @ ''/32\<newline>'' @
     ''ListenPort = '' @ show_port listen_port @ ''\<newline>'' @
     ''PrivateKey = __PRIVKEY__\<newline>'' @
     concat (map (render_peer I listen_port) peers)\<close>

definition echo_peer :: "'n ipnet \<Rightarrow> u16 \<Rightarrow> 'n peer_config \<Rightarrow> string" where
  \<open>echo_peer I listen_port p =
     ''echo ""; echo "[Peer]"; echo "# '' @ pc_endpoint p @ ''"; echo "PublicKey = '' @
     pc_public_key p @ ''"; echo "AllowedIPs = '' @ allowed_ips_line I p @
     ''"; echo "Endpoint = '' @ endpoint_addr (pc_endpoint p) listen_port @
     ''"; echo "PersistentKeepalive = 25"; ''\<close>

definition write_config_command :: "'n ipnet \<Rightarrow> string \<Rightarrow> ipv4 \<Rightarrow> u16 \<Rightarrow> 'n peer_config list \<Rightarrow> string" where
  \<open>write_config_command I iface mgmt_ip listen_port peers =
     ''PRIVKEY=$(cat /etc/wireguard/privatekey) && mkdir -p /etc/wireguard '' @
     ''&& { echo "[Interface]"; echo "Address = '' @ show_ipv4 mgmt_ip @
     ''/32"; echo "ListenPort = '' @ show_port listen_port @
     ''"; echo "PrivateKey = $PRIVKEY"; '' @
     concat (map (echo_peer I listen_port) peers) @
     ''} > /etc/wireguard/'' @ iface @ ''.conf.tmp && chmod 600 /etc/wireguard/'' @ iface @
     ''.conf.tmp && mv /etc/wireguard/'' @ iface @ ''.conf.tmp /etc/wireguard/'' @ iface @
     ''.conf''\<close>

section \<open>Firewall unit\<close>

definition ALLOW_RULES_PATH :: "string" where
  \<open>ALLOW_RULES_PATH =
     ''/etc/coolify/allow.rules''\<close>

definition BRIDGE_TABLE_NAME :: "string" where
  \<open>BRIDGE_TABLE_NAME =
     ''coolify_bridge''\<close>

definition BRIDGE_ALLOW_RULES_PATH :: "string" where
  \<open>BRIDGE_ALLOW_RULES_PATH =
     ''/etc/coolify/allow.nft''\<close>

definition BRIDGE_SCAFFOLD_PATH :: "string" where
  \<open>BRIDGE_SCAFFOLD_PATH =
     ''/etc/coolify/bridge-fw.nft''\<close>

definition FIREWALL_UNIT_PATH :: "string" where
  \<open>FIREWALL_UNIT_PATH =
     ''/etc/systemd/system/coolify-mesh-fw.service''\<close>

definition FIREWALL_SERVICE_NAME :: "string" where
  \<open>FIREWALL_SERVICE_NAME =
     ''coolify-mesh-fw.service''\<close>

text \<open>The lines one subnet adds: return before masquerading, removal of the blanket accept, jump to the
  default-deny chain, and the blanket accept. The parameter \<open>sn\<close> is the printed subnet.\<close>

definition fw_nat_lines :: "string \<Rightarrow> string \<Rightarrow> string" where
  \<open>fw_nat_lines iface sn =
     ''ExecStart=/bin/sh -c "/usr/sbin/iptables -t nat -C POSTROUTING '' @ ''-s '' @ sn @
     '' -o '' @ iface @ '' -j RETURN 2>/dev/null || /usr/sbin/iptables -t nat -I POSTROUTING '' @
     ''-s '' @ sn @ '' -o '' @ iface @ '' -j RETURN"\<newline>'' @
     ''ExecStart=/bin/sh -c "nft list chain inet netavark POSTROUTING '' @
     ''>/dev/null 2>&1 && (nft list chain inet netavark POSTROUTING | '' @ ''grep -F '' @
     [CHR 0x27] @ ''ip saddr '' @ sn @ '' oifname '' @ [CHR 0x5C] @ ''"'' @ iface @ [CHR 0x5C] @
     ''" accept'' @ [CHR 0x27] @
     '' >/dev/null 2>&1 || nft insert rule inet netavark POSTROUTING '' @ ''ip saddr '' @ sn @
     '' oifname '' @ [CHR 0x5C] @ ''"'' @ iface @ [CHR 0x5C] @ ''" accept) || true"\<newline>''\<close>

definition fw_drop_accept_lines :: "string \<Rightarrow> string" where
  \<open>fw_drop_accept_lines sn =
     ''ExecStart=/bin/sh -c "/usr/sbin/iptables -D FORWARD -s '' @ sn @
     '' -j ACCEPT 2>/dev/null || true"\<newline>'' @
     ''ExecStart=/bin/sh -c "/usr/sbin/iptables -D FORWARD -d '' @ sn @
     '' -j ACCEPT 2>/dev/null || true"\<newline>''\<close>

definition fw_intra_lines :: "string \<Rightarrow> string" where
  \<open>fw_intra_lines sn =
     ''ExecStart=/bin/sh -c "/usr/sbin/iptables -C FORWARD -d '' @ sn @
     '' -j COOLIFY-INTRA 2>/dev/null || /usr/sbin/iptables -A FORWARD '' @ ''-d '' @ sn @
     '' -j COOLIFY-INTRA"\<newline>'' @
     ''ExecStart=/bin/sh -c "/usr/sbin/iptables -C FORWARD -s '' @ sn @
     '' -j COOLIFY-INTRA 2>/dev/null || /usr/sbin/iptables -A FORWARD '' @ ''-s '' @ sn @
     '' -j COOLIFY-INTRA"\<newline>''\<close>

definition fw_accept_lines :: "string \<Rightarrow> string" where
  \<open>fw_accept_lines sn =
     ''ExecStart=/bin/sh -c "/usr/sbin/iptables -C FORWARD -s '' @ sn @
     '' -j ACCEPT 2>/dev/null || /usr/sbin/iptables -I FORWARD -s '' @ sn @
     '' -j ACCEPT"\<newline>'' @ ''ExecStart=/bin/sh -c "/usr/sbin/iptables -C FORWARD -d '' @ sn @
     '' -j ACCEPT 2>/dev/null || /usr/sbin/iptables -I FORWARD -d '' @ sn @
     '' -j ACCEPT"\<newline>''\<close>

definition fw_deny_chains :: "string" where
  \<open>fw_deny_chains =
     ''\<newline>'' @ ''ExecStart=/bin/sh -c "/usr/sbin/iptables -N COOLIFY-ALLOW 2>/dev/null '' @
     ''|| true"\<newline>'' @
     ''ExecStart=/bin/sh -c "/usr/sbin/iptables -N COOLIFY-INTRA 2>/dev/null '' @
     ''|| true"\<newline>'' @ ''ExecStart=/usr/sbin/iptables -F COOLIFY-INTRA\<newline>'' @
     ''ExecStart=/usr/sbin/iptables -A COOLIFY-INTRA -j COOLIFY-ALLOW\<newline>'' @
     ''ExecStart=/usr/sbin/iptables -A COOLIFY-INTRA -j DROP\<newline>'' @
     ''ExecStart=/bin/sh -c "[ -s '' @ ALLOW_RULES_PATH @
     '' ] && /usr/sbin/iptables -F COOLIFY-ALLOW && /usr/sbin/iptables-restore '' @
     ''--noflush < '' @ ALLOW_RULES_PATH @ '' || true"\<newline>'' @
     ''ExecStart=/bin/sh -c "/usr/sbin/iptables -C FORWARD -m conntrack '' @
     ''--ctstate ESTABLISHED,RELATED -j ACCEPT 2>/dev/null || /usr/sbin/iptables '' @
     ''-I FORWARD 1 -m conntrack --ctstate ESTABLISHED,RELATED -j ACCEPT"\<newline>''\<close>

definition fw_deny_bridge :: "string" where
  \<open>fw_deny_bridge =
     ''ExecStart=/bin/sh -c "nft list table bridge '' @ BRIDGE_TABLE_NAME @
     '' >/dev/null 2>&1 || nft add table bridge '' @ BRIDGE_TABLE_NAME @ ''"\<newline>'' @
     ''ExecStart=/bin/sh -c "nft add chain bridge '' @ BRIDGE_TABLE_NAME @ '' coolify_allow '' @
     [CHR 0x27] @ ''{ }'' @ [CHR 0x27] @ '' 2>/dev/null || true"\<newline>'' @
     ''ExecStart=/bin/sh -c "nft delete chain bridge '' @ BRIDGE_TABLE_NAME @
     '' forward 2>/dev/null || true"\<newline>'' @
     ''ExecStart=/bin/sh -c "nft delete chain bridge '' @ BRIDGE_TABLE_NAME @
     '' coolify_intra 2>/dev/null || true"\<newline>'' @ ''ExecStart=/bin/sh -c "nft -f '' @
     BRIDGE_SCAFFOLD_PATH @ ''"\<newline>'' @ ''ExecStart=/bin/sh -c "[ -s '' @
     BRIDGE_ALLOW_RULES_PATH @ '' ] && nft -f '' @ BRIDGE_ALLOW_RULES_PATH @
     '' || true"\<newline>''\<close>

definition fw_teardown :: "string" where
  \<open>fw_teardown =
     ''# Tear down default-deny scaffold from prior run.\<newline>'' @
     ''ExecStart=/bin/sh -c "/usr/sbin/iptables -F COOLIFY-INTRA 2>/dev/null '' @
     ''|| true"\<newline>'' @
     ''ExecStart=/bin/sh -c "/usr/sbin/iptables -X COOLIFY-INTRA 2>/dev/null '' @
     ''|| true"\<newline>'' @ ''ExecStart=/bin/sh -c "nft delete table bridge '' @
     BRIDGE_TABLE_NAME @ '' 2>/dev/null || true"\<newline>''\<close>

definition firewall_service_unit :: "'n ipnet \<Rightarrow> string \<Rightarrow> string list \<Rightarrow> 'n list \<Rightarrow> bool \<Rightarrow> string" where
  \<open>firewall_service_unit I iface namespaces container_subnets default_deny =
     ''[Unit]\<newline>'' @ ''Description=Coolify mesh firewall rules\<newline>'' @
     ''After=wg-quick@'' @ iface @ ''.service network-online.target\<newline>'' @
     ''Wants=network-online.target\<newline>'' @ ''\<newline>'' @ ''[Service]\<newline>'' @
     ''Type=oneshot\<newline>'' @ ''RemainAfterExit=yes\<newline>'' @ ''\<newline>'' @
     concat (map (\<lambda>sn. fw_nat_lines iface (net_show I sn)) container_subnets) @
     (if default_deny then
        ''# Remove blanket ACCEPT from prior mode-A run.\<newline>'' @
        concat (map (\<lambda>sn. fw_drop_accept_lines (net_show I sn)) container_subnets) @
        fw_deny_chains @
        concat (map (\<lambda>sn. fw_intra_lines (net_show I sn)) container_subnets) @
        fw_deny_bridge
      else
        fw_teardown @ concat (map (\<lambda>sn. fw_accept_lines (net_show I sn)) container_subnets)) @
     ''\<newline>'' @ ''[Install]\<newline>'' @ ''WantedBy=multi-user.target\<newline>''\<close>

definition render_bridge_scaffold :: "'n ipnet \<Rightarrow> 'n list \<Rightarrow> string" where
  \<open>render_bridge_scaffold I subnets =
     (let set_text = ''{ '' @ join '', '' (sort (map (net_show I) subnets)) @ '' }'' in
     ''# Managed by coolify '' @ [CHR 0xE2, CHR 0x80, CHR 0x94] @
     '' do not edit manually.\<newline>'' @ ''add table bridge '' @ BRIDGE_TABLE_NAME @
     ''\<newline>'' @ ''add chain bridge '' @ BRIDGE_TABLE_NAME @ '' coolify_intra\<newline>'' @
     ''flush chain bridge '' @ BRIDGE_TABLE_NAME @ '' coolify_intra\<newline>'' @
     ''add rule bridge '' @ BRIDGE_TABLE_NAME @ '' coolify_intra jump coolify_allow\<newline>'' @
     ''add rule bridge '' @ BRIDGE_TABLE_NAME @ '' coolify_intra drop\<newline>'' @
     ''add chain bridge '' @ BRIDGE_TABLE_NAME @
     '' forward { type filter hook forward priority -200; policy accept; '' @ ''}\<newline>'' @
     ''flush chain bridge '' @ BRIDGE_TABLE_NAME @ '' forward\<newline>'' @ ''add rule bridge '' @
     BRIDGE_TABLE_NAME @ '' forward meta protocol != ip accept\<newline>'' @ ''add rule bridge '' @
     BRIDGE_TABLE_NAME @ '' forward ct state established,related accept\<newline>'' @
     ''add rule bridge '' @ BRIDGE_TABLE_NAME @ '' forward ip saddr '' @ set_text @
     '' jump coolify_intra\<newline>'' @ ''add rule bridge '' @ BRIDGE_TABLE_NAME @
     '' forward ip daddr '' @ set_text @ '' jump coolify_intra\<newline>'')\<close>

definition install_firewall_command :: "'n ipnet \<Rightarrow> string \<Rightarrow> string list \<Rightarrow> 'n list \<Rightarrow> bool \<Rightarrow> string" where
  \<open>install_firewall_command I iface namespaces subnets default_deny =
     (let unit = firewall_service_unit I iface namespaces subnets default_deny in
     ''cat > '' @ FIREWALL_UNIT_PATH @ ''.tmp <<'' @ [CHR 0x27] @ ''COOLIFY_FW_EOF'' @ [CHR 0x27] @
     ''\<newline>'' @ unit @ ''COOLIFY_FW_EOF\<newline>'' @ ''mv '' @ FIREWALL_UNIT_PATH @
     ''.tmp '' @ FIREWALL_UNIT_PATH @ '' && mkdir -p /etc/coolify && '' @
     (if default_deny then
        let scaffold = render_bridge_scaffold I subnets in
        ''cat > '' @ BRIDGE_SCAFFOLD_PATH @ ''.tmp <<'' @ [CHR 0x27] @ ''COOLIFY_BR_EOF'' @
        [CHR 0x27] @ ''\<newline>'' @ scaffold @ ''COOLIFY_BR_EOF\<newline>'' @ ''mv '' @
        BRIDGE_SCAFFOLD_PATH @ ''.tmp '' @ BRIDGE_SCAFFOLD_PATH @ '' && ''
      else
        ''rm -f '' @ BRIDGE_SCAFFOLD_PATH @ '' && '') @
     ''systemctl daemon-reload && systemctl enable '' @ FIREWALL_SERVICE_NAME @
     '' && systemctl restart '' @ FIREWALL_SERVICE_NAME)\<close>

section \<open>Corrosion\<close>

definition COOLIFY_SCHEMA_SQL :: "string" where
  \<open>COOLIFY_SCHEMA_SQL =
     ''CREATE TABLE service_endpoints (\<newline>'' @
     ''    container_id    TEXT NOT NULL DEFAULT '' @ [CHR 0x27, CHR 0x27] @
     '' PRIMARY KEY,\<newline>'' @ ''    container_name  TEXT NOT NULL DEFAULT '' @
     [CHR 0x27, CHR 0x27] @ '',\<newline>'' @ ''    namespace       TEXT NOT NULL DEFAULT '' @
     [CHR 0x27, CHR 0x27] @ '',\<newline>'' @ ''    host_mgmt_ip    TEXT NOT NULL DEFAULT '' @
     [CHR 0x27, CHR 0x27] @ '',\<newline>'' @ ''    container_ip    TEXT NOT NULL DEFAULT '' @
     [CHR 0x27, CHR 0x27] @ '',\<newline>'' @ ''    state           TEXT NOT NULL DEFAULT '' @
     [CHR 0x27, CHR 0x27] @ '',\<newline>'' @ ''    health          TEXT NOT NULL DEFAULT '' @
     [CHR 0x27] @ ''unknown'' @ [CHR 0x27] @ '',\<newline>'' @
     ''    updated_at      INTEGER NOT NULL DEFAULT 0\<newline>'' @ '');\<newline>''\<close>

definition GOSSIP_TLS_DIR :: "string" where
  \<open>GOSSIP_TLS_DIR =
     ''/etc/corrosion/tls''\<close>

definition GOSSIP_TLS_CERT_PATH :: "string" where
  \<open>GOSSIP_TLS_CERT_PATH =
     ''/etc/corrosion/tls/gossip.pem''\<close>

definition GOSSIP_TLS_KEY_PATH :: "string" where
  \<open>GOSSIP_TLS_KEY_PATH =
     ''/etc/corrosion/tls/gossip.key''\<close>

definition gossip_tls_toml :: "string" where
  \<open>gossip_tls_toml =
     ''plaintext = false\<newline>'' @ ''[gossip.tls]\<newline>'' @ ''cert_file = "'' @
     GOSSIP_TLS_CERT_PATH @ ''"\<newline>'' @ ''key_file = "'' @ GOSSIP_TLS_KEY_PATH @
     ''"\<newline>'' @ ''insecure = true''\<close>

text \<open>\<open>assert!\<close> panics; the panic is the error value with its message.\<close>

definition assert_mesh_bind :: "ipv4 \<Rightarrow> unit result" where
  "assert_mesh_bind bind_addr =
     (if bind_addr = 0
      then Inl ''corrosion gossip must bind a WireGuard mesh IP, never 0.0.0.0''
      else Inr ())"

definition config_text :: "ipv4 \<Rightarrow> u16 \<Rightarrow> u16 \<Rightarrow> string \<Rightarrow> string \<Rightarrow> string" where
  \<open>config_text bind_addr gossip_port api_port bootstrap gossip_auth =
     ''# generated by coolify '' @ [CHR 0xE2, CHR 0x80, CHR 0x94] @ '' do not edit\<newline>'' @
     ''[db]\<newline>'' @ ''path = "/var/lib/corrosion/corrosion.db"\<newline>'' @
     ''schema_paths = ["/etc/corrosion/schemas"]\<newline>'' @ ''\<newline>'' @
     ''[gossip]\<newline>'' @ ''addr = "'' @ show_ipv4 bind_addr @ '':'' @ show_port gossip_port @
     ''"\<newline>'' @ ''bootstrap = ['' @ bootstrap @ '']\<newline>'' @ gossip_auth @
     ''\<newline>'' @ ''\<newline>'' @ ''[api]\<newline>'' @ ''addr = "127.0.0.1:'' @
     show_port api_port @ ''"\<newline>'' @ ''\<newline>'' @ ''[admin]\<newline>'' @
     ''path = "/var/run/corrosion/admin.sock"\<newline>''\<close>

definition config_bytes :: "ipv4 \<Rightarrow> u16 \<Rightarrow> u16 \<Rightarrow> ipv4 list \<Rightarrow> bool \<Rightarrow> string result" where
  \<open>config_bytes bind_addr gossip_port api_port peers gossip_tls =
     and_then (assert_mesh_bind bind_addr) (\<lambda>_.
       let bootstrap = join '', '' (map (\<lambda>p. [CHR 0x22] @ show_ipv4 p @ '':'' @ show_port gossip_port @ [CHR 0x22])
                                      (sort peers));
           gossip_auth = (if gossip_tls then gossip_tls_toml else ''plaintext = true'') in
       Inr (config_text bind_addr gossip_port api_port bootstrap gossip_auth))\<close>

definition checksum_verify_snippet :: "string \<Rightarrow> string \<Rightarrow> string \<Rightarrow> string option \<Rightarrow> string" where
  \<open>checksum_verify_snippet tarball url artifact sha256 =
     (case sha256 of
        Some digest \<Rightarrow>
        ''printf '' @ [CHR 0x27] @ ''%s  %s'' @ [CHR 0x5C] @ ''n'' @ [CHR 0x27] @ '' '' @ [CHR 0x27] @
        digest @ [CHR 0x27] @ '' "'' @ tarball @ ''" | sha256sum -c - >/dev/null 2>&1 || { echo "'' @
        artifact @ '': sha256 mismatch (expected pinned '' @ digest @ '')" >&2; exit 1; }''
      | None \<Rightarrow>
        ''if curl -fsSL --retry 3 --max-time 60 -o "'' @ tarball @ ''.sha256" "'' @ url @
        ''.sha256" 2>/dev/null; then printf '' @ [CHR 0x27] @ ''%s  %s'' @ [CHR 0x5C] @ ''n'' @
        [CHR 0x27] @ '' "$(awk '' @ [CHR 0x27] @ ''{print $1}'' @ [CHR 0x27] @ '' "'' @ tarball @
        ''.sha256")" "'' @ tarball @ ''" | sha256sum -c - >/dev/null 2>&1 || { echo "'' @ artifact @
        '': sha256 mismatch vs published checksum" >&2; exit 1; }; else '' @ ''echo "'' @ artifact @
        '': no published sha256 to verify against; proceeding (pin one to '' @ ''enforce)" >&2; fi'')\<close>

definition corrosion_install_command :: "string \<Rightarrow> string option \<Rightarrow> string" where
  \<open>corrosion_install_command version sha256 =
     (let verify = checksum_verify_snippet ''$DLDIR/corrosion.tar.gz'' ''$URL'' ''corrosion'' sha256 in
     ''set -e\<newline>'' @
     ''DEBIAN_FRONTEND=noninteractive apt-get update -qq 2>/dev/null\<newline>'' @
     ''DEBIAN_FRONTEND=noninteractive apt-get install -y -o Dpkg::Options::="--force-confold"'' @
     '' ca-certificates curl tar 2>&1 >/dev/null\<newline>'' @ ''ARCH_RAW=$(uname -m)\<newline>'' @
     ''case "$ARCH_RAW" in\<newline>'' @
     ''  x86_64)  ARCH=x86_64-unknown-linux-gnu ;;\<newline>'' @
     ''  aarch64) ARCH=aarch64-unknown-linux-gnu ;;\<newline>'' @ ''  *'' @
     '') echo "unsupported arch: $ARCH_RAW" >&2; exit 1 ;;\<newline>'' @ ''esac\<newline>'' @
     ''URL="https://github.com/superfly/corrosion/releases/download/'' @ version @
     ''/corrosion-${ARCH}.tar.gz"\<newline>'' @ ''DLDIR=$(mktemp -d)\<newline>'' @ ''trap '' @
     [CHR 0x27] @ ''rm -rf "$DLDIR"'' @ [CHR 0x27] @ '' EXIT\<newline>'' @
     ''curl -fsSL --retry 3 --max-time 120 -o "$DLDIR/corrosion.tar.gz" '' @ ''"$URL"\<newline>'' @
     verify @ ''\<newline>'' @ ''tar -xzf "$DLDIR/corrosion.tar.gz" -C "$DLDIR"\<newline>'' @
     ''test -f "$DLDIR/corrosion" || { echo "corrosion binary not found '' @
     ''in tarball" >&2; exit 1; }\<newline>'' @
     ''install -m 0755 "$DLDIR/corrosion" /usr/local/bin/corrosion.tmp\<newline>'' @
     ''mv /usr/local/bin/corrosion.tmp /usr/local/bin/corrosion\<newline>'' @ ''echo '' @
     [CHR 0x27] @ version @ [CHR 0x27] @ '' > /usr/local/bin/corrosion.version'')\<close>

definition corrosion_service_unit :: "string \<Rightarrow> string" where
  \<open>corrosion_service_unit iface =
     ''[Unit]\<newline>'' @ ''Description=Corrosion agent\<newline>'' @
     ''After=network-online.target wg-quick@'' @ iface @ ''.service\<newline>'' @
     ''Wants=network-online.target\<newline>'' @ ''Requires=wg-quick@'' @ iface @
     ''.service\<newline>'' @ ''\<newline>'' @ ''[Service]\<newline>'' @
     ''ExecStart=/usr/local/bin/corrosion agent --config /etc/corrosion/config.toml\<newline>'' @
     ''Restart=on-failure\<newline>'' @ ''RestartSec=2s\<newline>'' @
     ''StateDirectory=corrosion\<newline>'' @ ''WorkingDirectory=/var/lib/corrosion\<newline>'' @
     ''\<newline>'' @ ''[Install]\<newline>'' @ ''WantedBy=multi-user.target\<newline>''\<close>

section \<open>coold\<close>

definition DEFAULT_COOLD_DNS_ZONE :: "string" where
  \<open>DEFAULT_COOLD_DNS_ZONE =
     ''coolify.internal''\<close>

definition MESH_DNS_ANCHOR_SERVICE :: "string" where
  \<open>MESH_DNS_ANCHOR_SERVICE =
     ''coolify-mesh-dns-anchor.service''\<close>

definition MESH_DNS_RESOLVER_SERVICE :: "string" where
  \<open>MESH_DNS_RESOLVER_SERVICE =
     ''coolify-mesh-dns-resolver.service''\<close>

definition MESH_DNS_ANCHOR_IMAGE :: "string" where
  \<open>MESH_DNS_ANCHOR_IMAGE =
     ''docker.io/library/alpine:3.20''\<close>

record coold_namespace =
  cn_name :: string
  cn_network :: string
  cn_bridge_gateway :: ipv4

record coold_flux_config =
  cf_url :: string
  cf_jwt_path :: string
  cf_tls_pin_path :: "string option"

definition namespaces_env_value :: "coold_namespace list \<Rightarrow> string" where
  "namespaces_env_value ns =
     join '','' (map (\<lambda>n. cn_name n @ '':'' @ cn_network n @ '':'' @ show_ipv4 (cn_bridge_gateway n)) ns)"

definition hardening_directives :: "string" where
  \<open>hardening_directives =
     ''NoNewPrivileges=yes\<newline>'' @ ''ProtectSystem=strict\<newline>'' @
     ''ProtectHome=yes\<newline>'' @ ''PrivateTmp=yes\<newline>'' @
     ''ReadWritePaths=/etc/coolify /data/coolify /var/lib/containers\<newline>'' @
     ''ReadWritePaths=-/run/containers -/run/netavark -/run/libpod\<newline>''\<close>

definition coold_service_unit :: "ipv4 \<Rightarrow> coold_namespace list \<Rightarrow> coold_flux_config option \<Rightarrow> string" where
  \<open>coold_service_unit mgmt_ip namespaces flux =
     (let ns_env =
           (if namespaces = [] then [] else
            ''Environment=COOLIFY_COOLD_NAMESPACES='' @ namespaces_env_value namespaces @ ''\<newline>'' @
            ''Environment=COOLIFY_COOLD_DNS_ZONE='' @ DEFAULT_COOLD_DNS_ZONE @ ''\<newline>'');
          flux_env =
           (case flux of None \<Rightarrow> [] | Some s \<Rightarrow>
            let pin_env = (case cf_tls_pin_path s of None \<Rightarrow> [] | Some p \<Rightarrow>
              ''Environment=COOLIFY_COOLD_FLUX_TLS_PIN_PATH='' @ p @ ''\<newline>'') in
            ''Environment=COOLIFY_COOLD_FLUX_URL='' @ cf_url s @ ''\<newline>'' @
            ''Environment=COOLIFY_COOLD_HOST_JWT_PATH='' @ cf_jwt_path s @ ''\<newline>'' @ pin_env);
          mesh_dns_units =
           (if namespaces = [] then [] else
            '' '' @ MESH_DNS_ANCHOR_SERVICE @ '' '' @ MESH_DNS_RESOLVER_SERVICE) in
     ''[Unit]\<newline>'' @ ''Description=Coolify host agent\<newline>'' @
     ''Wants=corrosion.service'' @ mesh_dns_units @ ''\<newline>'' @
     ''After=corrosion.service network-online.target podman.socket coolify-mesh-fw.service'' @
     mesh_dns_units @ ''\<newline>'' @ ''\<newline>'' @ ''[Service]\<newline>'' @
     ''Environment=COOLIFY_COOLD_HOST_MGMT_IP='' @ show_ipv4 mgmt_ip @ ''\<newline>'' @ ns_env @
     flux_env @ ''ExecStart=/usr/local/bin/coold\<newline>'' @
     ''AmbientCapabilities=CAP_NET_BIND_SERVICE CAP_NET_ADMIN CAP_NET_RAW\<newline>'' @
     hardening_directives @ ''Restart=on-failure\<newline>'' @ ''RestartSec=2s\<newline>'' @
     ''\<newline>'' @ ''[Install]\<newline>'' @ ''WantedBy=multi-user.target\<newline>'')\<close>

definition mesh_dns_anchor_container_name :: "string \<Rightarrow> string" where
  \<open>mesh_dns_anchor_container_name namespace =
     ''coolify-mesh-dns-anchor-'' @ namespace\<close>

definition anchor_start :: "coold_namespace \<Rightarrow> string" where
  \<open>anchor_start n =
     ''podman run -d --replace --name '' @ mesh_dns_anchor_container_name (cn_name n) @
     '' --network '' @ cn_network n @
     '' --label io.coolify.managed=true --label io.coolify.role=mesh-dns-anchor '' @
     ''--label io.coolify.namespace='' @ cn_name n @ '' '' @ MESH_DNS_ANCHOR_IMAGE @
     '' sleep infinity >/dev/null''\<close>

definition anchor_stop :: "coold_namespace \<Rightarrow> string" where
  \<open>anchor_stop n =
     ''podman rm -f '' @ mesh_dns_anchor_container_name (cn_name n) @
     '' >/dev/null 2>&1 || true''\<close>

definition mesh_dns_anchor_unit :: "coold_namespace list \<Rightarrow> string" where
  \<open>mesh_dns_anchor_unit namespaces =
     (let starts = join ''; '' (map anchor_start namespaces);
         stops = join ''; '' (map anchor_stop namespaces) in
     ''[Unit]\<newline>'' @ ''Description=Coolify mesh DNS anchor containers\<newline>'' @
     ''After=network-online.target podman.socket\<newline>'' @
     ''Requires=podman.socket\<newline>'' @ ''\<newline>'' @ ''[Service]\<newline>'' @
     ''Type=oneshot\<newline>'' @ ''RemainAfterExit=yes\<newline>'' @
     ''ExecStart=/bin/sh -eu -c '' @ [CHR 0x27] @ starts @ [CHR 0x27] @ ''\<newline>'' @
     ''ExecStop=/bin/sh -c '' @ [CHR 0x27] @ stops @ [CHR 0x27] @ ''\<newline>'' @ ''\<newline>'' @
     ''[Install]\<newline>'' @ ''WantedBy=multi-user.target\<newline>'')\<close>

definition resolver_command :: "coold_namespace \<Rightarrow> string" where
  \<open>resolver_command n =
     ''iface=$(podman network inspect '' @ cn_network n @ '' --format '' @ [CHR 0x27] @
     ''{{.NetworkInterface}}'' @ [CHR 0x27] @
     '' 2>/dev/null || true); if [ -n "$iface" ]; then resolvectl dns '' @ ''"$iface" '' @
     show_ipv4 (cn_bridge_gateway n) @ '' || true; resolvectl domain "$iface" '' @ [CHR 0x27] @
     ''~'' @ DEFAULT_COOLD_DNS_ZONE @ [CHR 0x27] @
     '' || true; resolvectl default-route "$iface" false || true; fi''\<close>

definition mesh_dns_resolver_unit :: "coold_namespace list \<Rightarrow> string" where
  \<open>mesh_dns_resolver_unit namespaces =
     (let commands = join ''; '' (map resolver_command namespaces) in
     ''[Unit]\<newline>'' @ ''Description=Configure Coolify mesh DNS resolver\<newline>'' @
     ''After=systemd-resolved.service '' @ MESH_DNS_ANCHOR_SERVICE @ ''\<newline>'' @
     ''Wants=systemd-resolved.service '' @ MESH_DNS_ANCHOR_SERVICE @ ''\<newline>'' @
     ''\<newline>'' @ ''[Service]\<newline>'' @ ''Type=oneshot\<newline>'' @
     ''ExecStart=/bin/sh -eu -c '' @ [CHR 0x27] @
     ''command -v resolvectl >/dev/null 2>&1 || exit 0; '' @ commands @ [CHR 0x27] @
     ''\<newline>'' @ ''\<newline>'' @ ''[Install]\<newline>'' @
     ''WantedBy=multi-user.target\<newline>'')\<close>

definition coold_install_command :: "string \<Rightarrow> string option \<Rightarrow> string" where
  \<open>coold_install_command version sha256 =
     (let verify = checksum_verify_snippet ''$DLDIR/coold.tar.gz'' ''$URL'' ''coold'' sha256 in
     ''set -e\<newline>'' @
     ''DEBIAN_FRONTEND=noninteractive apt-get update -qq 2>/dev/null\<newline>'' @
     ''DEBIAN_FRONTEND=noninteractive apt-get install -y -o Dpkg::Options::="--force-confold"'' @
     '' ca-certificates curl tar 2>&1 >/dev/null\<newline>'' @ ''ARCH_RAW=$(uname -m)\<newline>'' @
     ''case "$ARCH_RAW" in\<newline>'' @ ''  x86_64)  ARCH=amd64 ;;\<newline>'' @
     ''  aarch64) ARCH=arm64 ;;\<newline>'' @ ''  *'' @
     '') echo "unsupported arch: $ARCH_RAW" >&2; exit 1 ;;\<newline>'' @ ''esac\<newline>'' @
     ''URL="https://github.com/coollabsio/coold/releases/download/'' @ version @
     ''/coold-linux-${ARCH}.tar.gz"\<newline>'' @ ''DLDIR=$(mktemp -d)\<newline>'' @ ''trap '' @
     [CHR 0x27] @ ''rm -rf "$DLDIR"'' @ [CHR 0x27] @ '' EXIT\<newline>'' @
     ''curl -fsSL --retry 3 --max-time 120 -o "$DLDIR/coold.tar.gz" "$URL"\<newline>'' @ verify @
     ''\<newline>'' @ ''tar -xzf "$DLDIR/coold.tar.gz" -C "$DLDIR"\<newline>'' @
     ''test -f "$DLDIR/coold" || { echo "coold binary not found in tarball" '' @
     ''>&2; exit 1; }\<newline>'' @
     ''install -m 0755 "$DLDIR/coold" /usr/local/bin/coold.tmp\<newline>'' @
     ''mv /usr/local/bin/coold.tmp /usr/local/bin/coold\<newline>'' @ ''echo '' @ [CHR 0x27] @
     version @ [CHR 0x27] @ '' > /usr/local/bin/coold.version'')\<close>

section \<open>The builder\<close>

text \<open>\<open>services/builder.rs\<close>, which no module of the crate declares.\<close>

definition BUILDER_WORK_DIR :: string where
  "BUILDER_WORK_DIR = ''/var/lib/coolify-builder/work''"

definition BUILDER_BINARY_PATH :: string where
  "BUILDER_BINARY_PATH = ''/usr/local/bin/builder''"

definition builder_install_command :: "string \<Rightarrow> string" where
  \<open>builder_install_command version =
     ''set -e\<newline>'' @
     ''DEBIAN_FRONTEND=noninteractive apt-get update -qq 2>/dev/null\<newline>'' @
     ''DEBIAN_FRONTEND=noninteractive apt-get install -y -o Dpkg::Options::="--force-confold"'' @
     '' buildah git ca-certificates 2>&1 >/dev/null\<newline>'' @
     ''mkdir -p '' @ BUILDER_WORK_DIR @ ''\<newline>'' @ ''ARCH_RAW=$(uname -m)\<newline>'' @
     ''case "$ARCH_RAW" in\<newline>'' @ ''  x86_64)  ARCH=amd64 ;;\<newline>'' @
     ''  aarch64) ARCH=arm64 ;;\<newline>'' @ ''  *'' @
     '') echo "unsupported arch: $ARCH_RAW" >&2; exit 1 ;;\<newline>'' @ ''esac\<newline>'' @
     ''URL="https://github.com/coollabsio/coold/releases/download/'' @ version @
     ''/builder-linux-${ARCH}.tar.gz"\<newline>'' @ ''DLDIR=$(mktemp -d)\<newline>'' @ ''trap '' @
     [CHR 0x27] @ ''rm -rf "$DLDIR"'' @ [CHR 0x27] @ '' EXIT\<newline>'' @
     ''curl -fsSL --retry 3 --max-time 120 -o "$DLDIR/builder.tar.gz" "$URL"\<newline>'' @
     ''tar -xzf "$DLDIR/builder.tar.gz" -C "$DLDIR"\<newline>'' @
     ''test -f "$DLDIR/builder" || { echo "builder binary not found in tarball" '' @
     ''>&2; exit 1; }\<newline>'' @
     ''install -m 0755 "$DLDIR/builder" '' @ BUILDER_BINARY_PATH @ ''.tmp\<newline>'' @
     ''mv '' @ BUILDER_BINARY_PATH @ ''.tmp '' @ BUILDER_BINARY_PATH @ ''\<newline>'' @ ''echo '' @ [CHR 0x27] @
     version @ [CHR 0x27] @ '' > '' @ BUILDER_BINARY_PATH @ ''.version''\<close>

end
