(* ===== verification/CliState.thy ===== *)
theory CliState
  imports CliUnits
begin

text \<open>
  \<open>coolify-cli/src/wireguard/state.rs\<close>: what was probed of every host (\<open>mesh_state\<close>) and what
  the operator asked for (\<open>desired_mesh\<close>), with the methods both have. The type variable is the
  network type of \<open>ipnet\<close>.
\<close>

section \<open>Probed state\<close>

record peer =
  pe_public_key :: string
  pe_endpoint :: string
  pe_allowed_ips :: "string list"
  pe_latest_handshake :: int
  pe_persistent_keepalive :: u16

definition peer_default :: peer where
  "peer_default =
     \<lparr>pe_public_key = [], pe_endpoint = [], pe_allowed_ips = [], pe_latest_handshake = 0,
      pe_persistent_keepalive = 0\<rparr>"

record 'n namespace_server_state =
  ns_namespace :: string
  ns_network_exists :: bool
  ns_container_subnet :: "'n option"
  ns_dns_enabled :: bool
  ns_label :: string

definition namespace_default :: "'n namespace_server_state" where
  "namespace_default =
     \<lparr>ns_namespace = [], ns_network_exists = False, ns_container_subnet = None,
      ns_dns_enabled = False, ns_label = []\<rparr>"

record 'n server_state =
  ss_host :: string
  ss_installed :: bool
  ss_keys_exist :: bool
  ss_public_key :: string
  ss_wireguard_mgmt_ip :: "ipv4 option"
  ss_listen_port :: u16
  ss_interface :: string
  ss_active :: bool
  ss_peers :: "peer list"
  ss_podman_installed :: bool
  ss_podman_socket_active :: bool
  ss_namespaces :: "(string, 'n namespace_server_state) btree"
  ss_ip_forward_enabled :: bool
  ss_firewall_active :: bool
  ss_default_deny_active :: bool
  ss_firewall_unit_sha256 :: string
  ss_bridge_table_exists :: bool
  ss_nft_available :: bool
  ss_corrosion_installed :: bool
  ss_corrosion_active :: bool
  ss_corrosion_config_hash :: string
  ss_corrosion_schema_exists :: bool
  ss_corrosion_schema_sha256 :: string
  ss_coold_installed :: bool
  ss_coold_active :: bool
  ss_corrosion_version :: string
  ss_coold_version :: string
  ss_coold_unit_sha256 :: string

definition server_default :: "'n server_state" where
  "server_default =
     \<lparr>ss_host = [], ss_installed = False, ss_keys_exist = False, ss_public_key = [],
      ss_wireguard_mgmt_ip = None, ss_listen_port = 0, ss_interface = [], ss_active = False,
      ss_peers = [], ss_podman_installed = False, ss_podman_socket_active = False,
      ss_namespaces = [], ss_ip_forward_enabled = False, ss_firewall_active = False,
      ss_default_deny_active = False, ss_firewall_unit_sha256 = [],
      ss_bridge_table_exists = False, ss_nft_available = False, ss_corrosion_installed = False,
      ss_corrosion_active = False, ss_corrosion_config_hash = [],
      ss_corrosion_schema_exists = False, ss_corrosion_schema_sha256 = [],
      ss_coold_installed = False, ss_coold_active = False, ss_corrosion_version = [],
      ss_coold_version = [], ss_coold_unit_sha256 = []\<rparr>"

record 'n mesh_state =
  servers :: "(string, 'n server_state) btree"

text \<open>\<open>collect\<close> into a map inserts the pairs in the order of the iterator.\<close>

definition assigned_mgmt_ips :: "'n mesh_state \<Rightarrow> (string, ipv4) btree" where
  "assigned_mgmt_ips cur =
     foldl (\<lambda>m (h, s). case ss_wireguard_mgmt_ip s of Some ip \<Rightarrow> bt_insert h ip m | None \<Rightarrow> m)
       [] (servers cur)"

definition assigned_container_subnets :: "'n mesh_state \<Rightarrow> (string, (string, 'n) btree) btree" where
  "assigned_container_subnets cur =
     foldl (\<lambda>out (host, s).
        foldl (\<lambda>out (ns, st).
           case ns_container_subnet st of
             Some net \<Rightarrow>
               bt_insert ns (bt_insert host net (case bt_get out ns of Some m \<Rightarrow> m | None \<Rightarrow> [])) out
           | None \<Rightarrow> out)
          out (ss_namespaces s))
       [] (servers cur)"

section \<open>Desired state\<close>

datatype intent = Bootstrap | Extend | Upgrade

record self_signed_cert =
  cert_pem :: string
  key_pem :: string

text \<open>\<open>services/tls.rs\<close> over the crate \<open>rcgen\<close>: the default parameters of a certificate, the check of a
  DNS name, a fresh key, and the certificate of a common name and alternative names signed with it.\<close>

datatype san_type = IpAddress ip_addr | DnsName string

record 'key rcgen =
  rc_params :: "unit result"
  rc_dns_name :: "string \<Rightarrow> string result"
  rc_generate :: "string \<Rightarrow> 'key result"
  rc_self_signed :: "string \<Rightarrow> san_type list \<Rightarrow> 'key \<Rightarrow> string result"
  rc_key_pem :: "'key \<Rightarrow> string"

definition san_entry :: "'key rcgen \<Rightarrow> string \<Rightarrow> san_type result" where
  "san_entry R san =
     (case parse_ip san of
        Some ip \<Rightarrow> Inr (IpAddress ip)
      | None \<Rightarrow> and_then (map_err (\<lambda>_. ''invalid DNS SAN '' @ debug_str san) (rc_dns_name R san)) (\<lambda>n. Inr (DnsName n)))"

text \<open>An error is the outermost context; a key is fresh, so its generation depends on the certificate
  it is for.\<close>

definition generate_self_signed :: "'key rcgen \<Rightarrow> string \<Rightarrow> string list \<Rightarrow> self_signed_cert result" where
  "generate_self_signed R common_name sans =
     and_then (map_err (\<lambda>_. ''initialize certificate parameters'') (rc_params R)) (\<lambda>_.
     and_then (map_result (san_entry R) sans) (\<lambda>entries.
     and_then (map_err (\<lambda>_. ''generate key pair'') (rc_generate R common_name)) (\<lambda>key.
     and_then (map_err (\<lambda>_. ''self-sign certificate'') (rc_self_signed R common_name entries key)) (\<lambda>pem.
       Inr \<lparr>cert_pem = pem, key_pem = rc_key_pem R key\<rparr>))))"

record 'n desired_mesh =
  dm_hosts :: "string list"
  dm_nodes :: "string list"
  dm_interface :: string
  dm_mgmt_pool :: 'n
  dm_container_pool :: 'n
  dm_container_prefix :: nat
  dm_listen_port :: u16
  dm_listen_port_overrides :: "(string, u16) btree"
  dm_endpoint_overrides :: "(string, string) btree"
  dm_install_podman :: bool
  dm_namespaces :: "string list"
  dm_default_deny_containers :: bool
  dm_install_coold :: bool
  dm_coold_version :: string
  dm_corrosion_version :: string
  dm_corrosion_gossip_port :: u16
  dm_corrosion_api_port :: u16
  dm_coold_sha256 :: "string option"
  dm_corrosion_sha256 :: "string option"
  dm_corrosion_gossip_tls :: "self_signed_cert option"
  dm_flux_tls :: "self_signed_cert option"
  dm_flux_tls_url :: "string option"
  dm_intent :: intent
  dm_new_nodes :: "string list"
  dm_allow_replace :: bool
  dm_allow_nightly :: bool

definition FLUX_PIN_PATH :: string where
  "FLUX_PIN_PATH = ''/etc/coolify/flux.pin''"

definition HOST_JWT_PATH :: string where
  "HOST_JWT_PATH = ''/etc/coolify/host-jwt''"

definition is_node :: "'n desired_mesh \<Rightarrow> string \<Rightarrow> bool" where
  "is_node d host = list_ex (\<lambda>h. h = host) (dm_nodes d)"

definition desired_flux_config :: "'n desired_mesh \<Rightarrow> coold_flux_config option" where
  "desired_flux_config d =
     map_option (\<lambda>url. \<lparr>cf_url = url, cf_jwt_path = HOST_JWT_PATH, cf_tls_pin_path = Some FLUX_PIN_PATH\<rparr>)
       (dm_flux_tls_url d)"

definition sorted_namespaces :: "'n desired_mesh \<Rightarrow> string list" where
  "sorted_namespaces d = sort (dm_namespaces d)"

definition listen_port_for :: "'n desired_mesh \<Rightarrow> string \<Rightarrow> u16" where
  "listen_port_for d host =
     (case bt_get (dm_listen_port_overrides d) host of Some p \<Rightarrow> p | None \<Rightarrow> dm_listen_port d)"

definition endpoint_for :: "'n desired_mesh \<Rightarrow> string \<Rightarrow> string" where
  "endpoint_for d host =
     (case bt_get (dm_endpoint_overrides d) host of
        Some e \<Rightarrow> e
      | None \<Rightarrow> (case split_once (CHR '':'') host of Some (h, _) \<Rightarrow> h | None \<Rightarrow> host))"

section \<open>Lemmas\<close>

lemma is_node_iff [simp]: "is_node d host \<longleftrightarrow> host \<in> set (dm_nodes d)"
  by (auto simp: is_node_def list_ex_iff)

lemma set_sorted_namespaces [simp]: "set (sorted_namespaces d) = set (dm_namespaces d)"
  by (simp add: sorted_namespaces_def)

lemma bt_wf_collect_ips:
  "bt_wf m \<Longrightarrow>
   bt_wf (foldl (\<lambda>m (h, s). case ss_wireguard_mgmt_ip s of Some ip \<Rightarrow> bt_insert h ip m | None \<Rightarrow> m) m xs)"
  by (induction xs arbitrary: m) (auto simp: bt_wf_insert split: option.splits)

lemma bt_wf_assigned_mgmt_ips: "bt_wf (assigned_mgmt_ips cur)"
  by (simp add: assigned_mgmt_ips_def bt_wf_collect_ips)

end
