(* ===== verification/CliPlan.thy ===== *)
theory CliPlan
  imports CliState "HOL-Library.Multiset"
begin

text \<open>
  \<open>wireguard/plan.rs\<close> and \<open>wireguard/intent.rs\<close> of \<open>coolify-cli\<close>: the difference between the
  desired mesh and the probed one as a list of actions, and the filter that keeps the actions an
  intent allows. The parameter \<open>sha\<close> is the hexadecimal SHA-256 digest (crates \<open>sha2\<close>, \<open>hex\<close>).
\<close>

section \<open>Actions\<close>

datatype action_type =
    InstallWg | GenKeyPair | AllocateMgmtIp | AllocateContainerSubnet | WriteConfig
  | EnableService | ReloadService | AddPeer | RemovePeer | InstallPodman | EnablePodmanSocket
  | EnableIpForward | CreatePodmanNetwork | RecreatePodmanNetwork | InstallFirewall
  | InstallCorrosion | InstallCoold | WriteCorrosionConfig | WriteCorrosionSchema
  | InstallCorrosionService | InstallCooldService

record planned_action =
  pa_host :: string
  pa_namespace :: string
  pa_action_type :: action_type
  pa_detail :: string

record skipped_action =
  sk_action :: planned_action
  sk_reason :: string

record 'n plan =
  pl_actions :: "planned_action list"
  pl_mgmt_assignments :: "(string, ipv4) btree"
  pl_subnet_assignments :: "(string, (string, 'n) btree) btree"
  pl_warnings :: "warning list"
  pl_skipped :: "skipped_action list"

definition plan_is_empty :: "'n plan \<Rightarrow> bool" where
  "plan_is_empty p = (pl_actions p = [])"

section \<open>Intents\<close>

datatype category =
  SafeAlways | PeerRefresh | DestructiveReplace | VersionBump | WipeDb | SchemaFirstWrite

definition categorize :: "planned_action \<Rightarrow> category" where
  "categorize a =
     (case pa_action_type a of
        InstallWg \<Rightarrow> SafeAlways | GenKeyPair \<Rightarrow> SafeAlways | AllocateMgmtIp \<Rightarrow> SafeAlways
      | AllocateContainerSubnet \<Rightarrow> SafeAlways | EnableService \<Rightarrow> SafeAlways
      | InstallPodman \<Rightarrow> SafeAlways | EnablePodmanSocket \<Rightarrow> SafeAlways
      | EnableIpForward \<Rightarrow> SafeAlways | CreatePodmanNetwork \<Rightarrow> SafeAlways
      | AddPeer \<Rightarrow> SafeAlways | RemovePeer \<Rightarrow> SafeAlways
      | WriteConfig \<Rightarrow> PeerRefresh | ReloadService \<Rightarrow> PeerRefresh
      | InstallFirewall \<Rightarrow> PeerRefresh | WriteCorrosionConfig \<Rightarrow> PeerRefresh
      | InstallCorrosionService \<Rightarrow> PeerRefresh | InstallCooldService \<Rightarrow> PeerRefresh
      | RecreatePodmanNetwork \<Rightarrow> DestructiveReplace
      | InstallCorrosion \<Rightarrow> VersionBump | InstallCoold \<Rightarrow> VersionBump
      | WriteCorrosionSchema \<Rightarrow>
          (if contains_str (pa_detail a) ''DB will be reset'' then WipeDb else SchemaFirstWrite))"

definition validate_intent :: "'n desired_mesh \<Rightarrow> unit result" where
  "validate_intent d =
     (case dm_intent d of
        Bootstrap \<Rightarrow> Inr ()
      | Extend \<Rightarrow>
          (if dm_new_nodes d = []
           then Inl ''extend mode requires at least one node in --new-nodes''
           else (case find (\<lambda>h. h \<notin> set (dm_nodes d)) (dm_new_nodes d) of
                   Some h \<Rightarrow> Inl (''extend mode: new node '' @ debug_str h @ '' not in --nodes list'')
                 | None \<Rightarrow> Inr ()))
      | Upgrade \<Rightarrow>
          (if \<not> dm_allow_nightly d then
             (let versions = (if dm_nodes d \<noteq> []
                              then [(''--coold-version'', dm_coold_version d),
                                    (''--corrosion-version'', dm_corrosion_version d)]
                              else []) in
              case find (\<lambda>(flag, v). v = ''nightly'') versions of
                Some (flag, _) \<Rightarrow>
                  Inl (''upgrade mode rejects '' @ flag @
                    ''=nightly (moving target forces re-install every run); pin a version '' @
                    ''or pass --allow-nightly'')
              | None \<Rightarrow> Inr ())
           else Inr ()))"

definition decide :: "planned_action \<Rightarrow> 'n desired_mesh \<Rightarrow> string list \<Rightarrow> string option" where
  "decide a d new_nodes =
     (let is_new = pa_host a \<in> set new_nodes in
      case dm_intent d of
        Bootstrap \<Rightarrow> None
      | Extend \<Rightarrow>
          (if is_new then None
           else (case categorize a of
                   SafeAlways \<Rightarrow> None | PeerRefresh \<Rightarrow> None | SchemaFirstWrite \<Rightarrow> None
                 | DestructiveReplace \<Rightarrow>
                     (if dm_allow_replace d then None
                      else Some (''extend: destructive-replace on existing host blocked; '' @
                                 ''pass --allow-replace to override''))
                 | VersionBump \<Rightarrow>
                     Some (''extend: version-bump on existing host skipped; '' @
                           ''use `coolify init upgrade` to bump versions'')
                 | WipeDb \<Rightarrow>
                     Some (''extend: corrosion DB wipe on existing host is never allowed; '' @
                           ''resolve schema drift with `coolify init upgrade` on a fresh schema'')))
      | Upgrade \<Rightarrow>
          (case categorize a of
             VersionBump \<Rightarrow> None
           | PeerRefresh \<Rightarrow>
               (if pa_action_type a \<in> {InstallCorrosionService, InstallCooldService} then None
                else Some (''upgrade: peer-refresh skipped; '' @
                           ''use `coolify init extend` for mesh topology changes''))
           | _ \<Rightarrow> Some ''upgrade: non-version-bump action skipped''))"

text \<open>The loop of \<open>filter_by_intent\<close>: \<open>kept\<close> and the plan's list of skipped actions grow at the end.\<close>

fun filter_loop ::
  "(planned_action \<Rightarrow> string option) \<Rightarrow> planned_action list \<Rightarrow> planned_action list \<Rightarrow> skipped_action list \<Rightarrow>
   planned_action list \<times> skipped_action list" where
  "filter_loop f [] kept skipped = (kept, skipped)"
| "filter_loop f (a # as) kept skipped =
     (case f a of
        Some reason \<Rightarrow> filter_loop f as kept (skipped @ [\<lparr>sk_action = a, sk_reason = reason\<rparr>])
      | None \<Rightarrow> filter_loop f as (kept @ [a]) skipped)"

definition filter_by_intent :: "'n desired_mesh \<Rightarrow> 'n plan \<Rightarrow> 'n plan" where
  "filter_by_intent d p =
     (if dm_intent d = Bootstrap then p
      else (case filter_loop (\<lambda>a. decide a d (dm_new_nodes d)) (pl_actions p) [] (pl_skipped p) of
              (kept, skipped) \<Rightarrow> p\<lparr>pl_actions := kept, pl_skipped := skipped\<rparr>))"

section \<open>Planning one host\<close>

definition binary_version_drift :: "string \<Rightarrow> bool \<Rightarrow> string \<Rightarrow> bool" where
  "binary_version_drift want installed have_v =
     (\<not> installed \<or> have_v = [] \<or> want = ''nightly'' \<or> want = ''latest'' \<or> have_v \<noteq> want)"

text \<open>\<open>&k[..8]\<close> panics when byte 8 is not at a character boundary.\<close>

definition is_continuation :: "char \<Rightarrow> bool" where
  "is_continuation c = ((of_char c :: nat) div 64 = 2)"

definition truncate_key :: "string \<Rightarrow> string result" where
  "truncate_key k =
     (if length k \<le> 8 then Inr k
      else if is_continuation (k ! 8) then Inl ''byte index 8 is not a char boundary''
      else Inr (take 8 k @ ''...''))"

definition mk_action :: "string \<Rightarrow> string \<Rightarrow> action_type \<Rightarrow> string \<Rightarrow> planned_action" where
  "mk_action host ns t detail =
     \<lparr>pa_host = host, pa_namespace = ns, pa_action_type = t, pa_detail = detail\<rparr>"

text \<open>\<open>push\<close> under a condition.\<close>

definition push_if :: "bool \<Rightarrow> planned_action \<Rightarrow> planned_action list" where
  "push_if b a = (if b then [a] else [])"

text \<open>A \<open>BTreeSet\<close> of keys is the sorted list without repetitions.\<close>

definition key_set :: "string list \<Rightarrow> string list" where
  "key_set ks = remdups_adj (sort ks)"

definition server_of :: "'n mesh_state \<Rightarrow> string \<Rightarrow> 'n server_state" where
  "server_of cur host = (case bt_get (servers cur) host of Some s \<Rightarrow> s | None \<Rightarrow> server_default)"

definition current_keys :: "'n server_state \<Rightarrow> string list" where
  "current_keys st = key_set (map pe_public_key (ss_peers st))"

definition desired_keys :: "'n desired_mesh \<Rightarrow> 'n mesh_state \<Rightarrow> string \<Rightarrow> string list" where
  "desired_keys d cur host =
     key_set (filter (\<lambda>k. k \<noteq> [])
       (List.map_filter (\<lambda>p. map_option ss_public_key (bt_get (servers cur) p))
          (filter (\<lambda>p. p \<noteq> host) (dm_hosts d))))"

definition peer_key_pending :: "'n desired_mesh \<Rightarrow> 'n mesh_state \<Rightarrow> string \<Rightarrow> bool" where
  "peer_key_pending d cur host =
     list_ex (\<lambda>p. p \<noteq> host \<and>
        (case bt_get (servers cur) p of Some s \<Rightarrow> ss_public_key s = [] | None \<Rightarrow> True)) (dm_hosts d)"

definition needs_config :: "'n desired_mesh \<Rightarrow> 'n mesh_state \<Rightarrow> string \<Rightarrow> 'n server_state \<Rightarrow> ipv4 \<Rightarrow> bool" where
  "needs_config d cur host st mgmt_ip =
     (ss_wireguard_mgmt_ip st \<noteq> Some mgmt_ip \<or>
      \<not> set (desired_keys d cur host) \<subseteq> set (current_keys st) \<or>
      peer_key_pending d cur host \<or>
      \<not> ss_keys_exist st \<or> \<not> ss_installed st \<or>
      (1 < length (dm_hosts d) \<and> ss_listen_port st \<noteq> listen_port_for d host))"

definition wg_actions ::
  "'n desired_mesh \<Rightarrow> 'n mesh_state \<Rightarrow> string \<Rightarrow> 'n server_state \<Rightarrow> ipv4 \<Rightarrow> planned_action list result" where
  "wg_actions d cur host st mgmt_ip =
     (let ck = current_keys st; dk = desired_keys d cur host;
          nc = needs_config d cur host st mgmt_ip in
      and_then (map_result truncate_key (filter (\<lambda>k. k \<notin> set ck) dk)) (\<lambda>added.
      and_then (map_result truncate_key (filter (\<lambda>k. k \<notin> set dk) ck)) (\<lambda>removed.
      Inr
       (push_if (\<not> ss_installed st) (mk_action host [] InstallWg ''wireguard not installed'') @
        push_if (\<not> ss_keys_exist st) (mk_action host [] GenKeyPair ''missing /etc/wireguard/privatekey'') @
        map (mk_action host [] AddPeer) added @
        map (mk_action host [] RemovePeer) removed @
        push_if nc (mk_action host [] WriteConfig
          (dm_interface d @ ''.conf ('' @ show_nat (length (dm_hosts d) - 1) @ '' peer(s))'')) @
        (if \<not> ss_active st
         then [mk_action host [] EnableService (''systemctl enable --now wg-quick@'' @ dm_interface d)]
         else push_if nc (mk_action host [] ReloadService
           (''systemctl reload wg-quick@'' @ dm_interface d @ '' (config changed)'')))))))"

text \<open>The network of one namespace.\<close>

definition network_actions ::
  "'n ipnet \<Rightarrow> string \<Rightarrow> 'n server_state \<Rightarrow> string \<Rightarrow> 'n \<Rightarrow> planned_action list" where
  "network_actions I host st ns want =
     (let net_name = podman_network_for ns in
      case bt_get (ss_namespaces st) ns of
        None \<Rightarrow>
          [mk_action host ns CreatePodmanNetwork
             (net_name @ '' subnet='' @ net_show I want @ '' gateway='' @ show_ipv4 (machine_ip I want))]
      | Some nss \<Rightarrow>
          (if \<not> ns_network_exists nss
           then [mk_action host ns CreatePodmanNetwork
                   (net_name @ '' subnet='' @ net_show I want @ '' gateway='' @ show_ipv4 (machine_ip I want))]
           else push_if (ns_dns_enabled nss \<or> ns_container_subnet nss \<noteq> Some want \<or> ns_label nss \<noteq> ns)
                  (mk_action host ns RecreatePodmanNetwork
                     (net_name @ '' '' @ [CHR 0xE2, CHR 0x80, CHR 0x94] @ '' drift''))))"

definition show_bool :: "bool \<Rightarrow> string" where
  "show_bool b = (if b then ''true'' else ''false'')"

text \<open>\<open>subnets[ns][host]\<close>.\<close>

definition subnet_at :: "(string, (string, 'n) btree) btree \<Rightarrow> string \<Rightarrow> string \<Rightarrow> 'n result" where
  "subnet_at subnets host ns = and_then (bt_index subnets ns) (\<lambda>m. bt_index m host)"

definition podman_actions ::
  "'n ipnet \<Rightarrow> (string \<Rightarrow> string) \<Rightarrow> 'n desired_mesh \<Rightarrow> (string, (string, 'n) btree) btree \<Rightarrow> string \<Rightarrow>
   'n server_state \<Rightarrow> planned_action list result" where
  "podman_actions I sha d subnets host st =
     (let ns_sorted = sorted_namespaces d in
      and_then (map_result (subnet_at subnets host) ns_sorted) (\<lambda>host_subnets.
        let expected = firewall_service_unit I (dm_interface d) ns_sorted host_subnets
                         (dm_default_deny_containers d) in
        Inr
         (push_if (\<not> ss_podman_installed st)
            (mk_action host [] InstallPodman ''podman not installed'') @
          push_if (\<not> ss_podman_socket_active st)
            (mk_action host [] EnablePodmanSocket ''systemctl enable --now podman.socket'') @
          push_if (\<not> ss_ip_forward_enabled st)
            (mk_action host [] EnableIpForward ''net.ipv4.ip_forward=1'') @
          concat (map (\<lambda>(ns, want). network_actions I host st ns want) (zip ns_sorted host_subnets)) @
          push_if (\<not> ss_firewall_active st \<or>
                   ss_default_deny_active st \<noteq> dm_default_deny_containers d \<or>
                   ss_firewall_unit_sha256 st \<noteq> sha expected)
            (mk_action host [] InstallFirewall
              (''coolify-mesh-fw.service ('' @ dm_interface d @ '', '' @
               show_nat (length host_subnets) @ '' namespace(s), default-deny='' @
               show_bool (dm_default_deny_containers d) @ '')'')))))"

text \<open>The namespaces as they appear in coold's unit; \<open>plan\<close> and \<open>apply\<close> build this list the same way.\<close>

definition ns_configs ::
  "'n ipnet \<Rightarrow> (string, (string, 'n) btree) btree \<Rightarrow> string \<Rightarrow> string list \<Rightarrow> coold_namespace list result" where
  "ns_configs I subnets host =
     map_result (\<lambda>ns. and_then (subnet_at subnets host ns) (\<lambda>net.
       Inr \<lparr>cn_name = ns, cn_network = podman_network_for ns, cn_bridge_gateway = machine_ip I net\<rparr>))"

definition schema_detail :: "bool \<Rightarrow> 'n server_state \<Rightarrow> string" where
  "schema_detail schema_drift st =
     (if schema_drift \<and> ss_corrosion_schema_sha256 st \<noteq> []
      then ''/etc/corrosion/schemas/coolify.sql [schema drift '' @ [CHR 0xE2, CHR 0x80, CHR 0x94] @
           '' DB will be reset]''
      else ''/etc/corrosion/schemas/coolify.sql'')"

definition coold_actions ::
  "'n ipnet \<Rightarrow> (string \<Rightarrow> string) \<Rightarrow> 'n desired_mesh \<Rightarrow> (string, ipv4) btree \<Rightarrow>
   (string, (string, 'n) btree) btree \<Rightarrow> string \<Rightarrow> 'n server_state \<Rightarrow> ipv4 \<Rightarrow> planned_action list result" where
  "coold_actions I sha d mgmt subnets host st mgmt_ip =
     (let corrosion_drift = binary_version_drift (dm_corrosion_version d) (ss_corrosion_installed st)
            (ss_corrosion_version st);
          coold_drift = binary_version_drift (dm_coold_version d) (ss_coold_installed st)
            (ss_coold_version st);
          peers = List.map_filter (bt_get mgmt) (filter (\<lambda>h. h \<noteq> host) (dm_nodes d));
          schema_drift = (ss_corrosion_schema_sha256 st \<noteq> sha COOLIFY_SCHEMA_SQL) in
      and_then (config_bytes mgmt_ip (dm_corrosion_gossip_port d) (dm_corrosion_api_port d) peers
                  (dm_corrosion_gossip_tls d \<noteq> None)) (\<lambda>cfg.
      and_then (ns_configs I subnets host (sorted_namespaces d)) (\<lambda>nsc.
        let cfg_drift = (ss_corrosion_config_hash st \<noteq> sha cfg);
            coold_unit_drift =
              (ss_coold_unit_sha256 st \<noteq> sha (coold_service_unit mgmt_ip nsc (desired_flux_config d))) in
        Inr
         (push_if corrosion_drift
            (mk_action host [] InstallCorrosion
               (''corrosion '' @ dm_corrosion_version d @ '' '' @ [CHR 0xE2, CHR 0x86, CHR 0x92] @
                '' /usr/local/bin/corrosion'')) @
          push_if coold_drift
            (mk_action host [] InstallCoold
               (''coold '' @ dm_coold_version d @ '' '' @ [CHR 0xE2, CHR 0x86, CHR 0x92] @
                '' /usr/local/bin/coold'')) @
          push_if cfg_drift
            (mk_action host [] WriteCorrosionConfig
               (''/etc/corrosion/config.toml (peers='' @ show_nat (length peers) @ '')'')) @
          push_if (\<not> ss_corrosion_schema_exists st \<or> schema_drift)
            (mk_action host [] WriteCorrosionSchema (schema_detail schema_drift st)) @
          push_if (\<not> ss_corrosion_active st \<or> cfg_drift \<or> corrosion_drift \<or> schema_drift)
            (mk_action host [] InstallCorrosionService ''systemctl enable --now corrosion'') @
          push_if (\<not> ss_coold_active st \<or> cfg_drift \<or> coold_drift \<or> coold_unit_drift)
            (mk_action host [] InstallCooldService
               (''systemctl enable --now coold (mgmt='' @ show_ipv4 mgmt_ip @ '', namespaces='' @
                show_nat (length nsc) @ '')''))))))"

definition plan_host ::
  "'n ipnet \<Rightarrow> (string \<Rightarrow> string) \<Rightarrow> 'n desired_mesh \<Rightarrow> 'n mesh_state \<Rightarrow> (string, ipv4) btree \<Rightarrow>
   (string, (string, 'n) btree) btree \<Rightarrow> string \<Rightarrow> planned_action list result" where
  "plan_host I sha d cur mgmt subnets host =
     (let st = server_of cur host in
      and_then (bt_index mgmt host) (\<lambda>mgmt_ip.
      and_then (wg_actions d cur host st mgmt_ip) (\<lambda>wg.
      and_then (if is_node d host \<and> dm_install_podman d
                then podman_actions I sha d subnets host st else Inr []) (\<lambda>podman.
      and_then (if is_node d host \<and> dm_install_coold d
                then coold_actions I sha d mgmt subnets host st mgmt_ip else Inr []) (\<lambda>coold.
      Inr (wg @ podman @ coold))))))"

section \<open>The plan\<close>

definition nft_missing :: "'n desired_mesh \<Rightarrow> 'n mesh_state \<Rightarrow> string \<Rightarrow> bool" where
  "nft_missing d cur host =
     (case bt_get (servers cur) host of
        Some s \<Rightarrow> dm_default_deny_containers d \<and> \<not> ss_nft_available s
      | None \<Rightarrow> False)"

definition build_plan ::
  "'n ipnet \<Rightarrow> (string \<Rightarrow> string) \<Rightarrow> 'n desired_mesh \<Rightarrow> 'n mesh_state \<Rightarrow> 'n plan result option" where
  "build_plan I sha d cur =
     (if dm_nodes d \<noteq> [] \<and> dm_default_deny_containers d \<and> \<not> dm_install_podman d
      then Some (Inl ''--default-deny requires --podman'')
      else if dm_nodes d \<noteq> [] \<and> dm_install_coold d \<and> \<not> dm_install_podman d
      then Some (Inl ''--install-coold requires --podman'')
      else if dm_nodes d \<noteq> [] \<and> dm_install_podman d \<and> dm_namespaces d = []
      then Some (Inl ''at least one namespace is required'')
      else
      bind_or (Some (validate_intent d)) (\<lambda>_.
      case find (nft_missing d cur) (dm_nodes d) of
        Some host \<Rightarrow>
          Some (Inl (''host '' @ host @
            '': nft binary not available; install nftables or pass --skip-default-deny''))
      | None \<Rightarrow>
      bind_or (allocate_mgmt_ips I (dm_mgmt_pool d) (assigned_mgmt_ips cur) (dm_hosts d)) (\<lambda>(mgmt, w1).
      bind_or (allocate_namespaced I (dm_container_pool d) (dm_container_prefix d)
                 (assigned_container_subnets cur) (dm_namespaces d) (dm_nodes d)) (\<lambda>(subnets, w2).
      Some (and_then (map_result (plan_host I sha d cur mgmt subnets) (dm_hosts d)) (\<lambda>per_host.
        Inr (filter_by_intent d
          \<lparr>pl_actions = concat per_host, pl_mgmt_assignments = mgmt,
           pl_subnet_assignments = subnets, pl_warnings = w1 @ w2, pl_skipped = []\<rparr>)))))))"

section \<open>The filter\<close>

lemma filter_loop_eq:
  "filter_loop f as kept skipped =
     (kept @ filter (\<lambda>a. f a = None) as,
      skipped @ map (\<lambda>a. \<lparr>sk_action = a, sk_reason = the (f a)\<rparr>) (filter (\<lambda>a. f a \<noteq> None) as))"
  by (induction as arbitrary: kept skipped) (auto split: option.splits)

lemma decide_Bootstrap: "dm_intent d = Bootstrap \<Longrightarrow> decide a d ns = None"
  by (simp add: decide_def)

lemma filter_by_intent_eq:
  "filter_by_intent d p =
     p\<lparr>pl_actions := filter (\<lambda>a. decide a d (dm_new_nodes d) = None) (pl_actions p),
       pl_skipped := pl_skipped p @ map (\<lambda>a. \<lparr>sk_action = a, sk_reason = the (decide a d (dm_new_nodes d))\<rparr>)
          (filter (\<lambda>a. decide a d (dm_new_nodes d) \<noteq> None) (pl_actions p))\<rparr>"
  by (simp add: filter_by_intent_def filter_loop_eq decide_Bootstrap)

lemma mset_filter_split: "mset (filter P xs) + mset (filter (\<lambda>x. \<not> P x) xs) = mset xs"
  by (induction xs) auto

text \<open>The intent filter loses and invents nothing. Every planned action is either kept, in the
  planned order, or listed as skipped with the reason \<open>decide\<close> gave, exactly once; the address and
  subnet assignments and the warnings are untouched.\<close>

theorem filter_by_intent_partition:
  "let p' = filter_by_intent d p; skipped = drop (length (pl_skipped p)) (pl_skipped p') in
     pl_actions p' = filter (\<lambda>a. decide a d (dm_new_nodes d) = None) (pl_actions p)
   \<and> take (length (pl_skipped p)) (pl_skipped p') = pl_skipped p
   \<and> mset (pl_actions p') + mset (map sk_action skipped) = mset (pl_actions p)
   \<and> list_all (\<lambda>s. decide (sk_action s) d (dm_new_nodes d) = Some (sk_reason s)) skipped
   \<and> pl_mgmt_assignments p' = pl_mgmt_assignments p
   \<and> pl_subnet_assignments p' = pl_subnet_assignments p \<and> pl_warnings p' = pl_warnings p"
proof -
  let ?keep = "\<lambda>a. decide a d (dm_new_nodes d) = None"
  let ?sk = "\<lambda>a. \<lparr>sk_action = a, sk_reason = the (decide a d (dm_new_nodes d))\<rparr>"
  have "map sk_action (map ?sk (filter (\<lambda>a. \<not> ?keep a) (pl_actions p))) = filter (\<lambda>a. \<not> ?keep a) (pl_actions p)"
    by (simp add: comp_def)
  moreover have "list_all (\<lambda>s. decide (sk_action s) d (dm_new_nodes d) = Some (sk_reason s))
      (map ?sk (filter (\<lambda>a. \<not> ?keep a) (pl_actions p)))"
    by (auto simp: list_all_iff)
  ultimately show ?thesis
    using mset_filter_split [of ?keep "pl_actions p"]
    by (simp add: filter_by_intent_eq Let_def del: mset_filter mset_map map_map)
qed

section \<open>What a plan contains\<close>

lemma build_plan_Inr:
  assumes "build_plan I sha d cur = Some (Inr p)"
  obtains mgmt w1 subnets w2 per_host where
    "allocate_mgmt_ips I (dm_mgmt_pool d) (assigned_mgmt_ips cur) (dm_hosts d) = Some (Inr (mgmt, w1))"
    "allocate_namespaced I (dm_container_pool d) (dm_container_prefix d)
       (assigned_container_subnets cur) (dm_namespaces d) (dm_nodes d) = Some (Inr (subnets, w2))"
    "list_all2 (\<lambda>h as. plan_host I sha d cur mgmt subnets h = Inr as) (dm_hosts d) per_host"
    "p = filter_by_intent d
       \<lparr>pl_actions = concat per_host, pl_mgmt_assignments = mgmt,
        pl_subnet_assignments = subnets, pl_warnings = w1 @ w2, pl_skipped = []\<rparr>"
  using assms
  by (auto simp: build_plan_def bind_or_eq_Inr and_then_eq_Inr map_result_eq_Inr
      split: if_splits option.splits)

lemma build_plan_action:
  assumes "build_plan I sha d cur = Some (Inr p)" and "a \<in> set (pl_actions p)"
  obtains mgmt subnets h as where "h \<in> set (dm_hosts d)"
    "plan_host I sha d cur mgmt subnets h = Inr as" "a \<in> set as"
    "decide a d (dm_new_nodes d) = None"
proof (rule build_plan_Inr [OF assms(1)])
  fix mgmt w1 subnets w2 per_host
  assume all: "list_all2 (\<lambda>h as. plan_host I sha d cur mgmt subnets h = Inr as) (dm_hosts d) per_host"
    and p: "p = filter_by_intent d
       \<lparr>pl_actions = concat per_host, pl_mgmt_assignments = mgmt,
        pl_subnet_assignments = subnets, pl_warnings = w1 @ w2, pl_skipped = []\<rparr>"
  from assms(2) p obtain as where as: "as \<in> set per_host" "a \<in> set as"
    and dec: "decide a d (dm_new_nodes d) = None"
    by (auto simp: filter_by_intent_eq)
  obtain h where "h \<in> set (dm_hosts d)" "plan_host I sha d cur mgmt subnets h = Inr as"
    using list_all2_set2 [OF all as(1)] by blast
  with as(2) dec show thesis using that by blast
qed

lemma push_ifD: "x \<in> set (push_if b a) \<Longrightarrow> x = a"
  by (simp add: push_if_def split: if_splits)

lemma push_if_empty [simp]: "push_if b a = [] \<longleftrightarrow> \<not> b"
  by (simp add: push_if_def)

lemma mk_action_sel [simp]:
  "pa_host (mk_action h ns t dt) = h" "pa_namespace (mk_action h ns t dt) = ns"
  "pa_action_type (mk_action h ns t dt) = t" "pa_detail (mk_action h ns t dt) = dt"
  by (simp_all add: mk_action_def)

lemma wg_actions_member:
  assumes "wg_actions d cur host st ip = Inr as" "a \<in> set as"
  shows "pa_host a = host \<and> pa_action_type a \<in>
    {InstallWg, GenKeyPair, AddPeer, RemovePeer, WriteConfig, EnableService, ReloadService}"
  using assms by (auto simp: wg_actions_def Let_def and_then_eq_Inr split: if_splits dest!: push_ifD)

lemma network_actions_member:
  "a \<in> set (network_actions I host st ns want) \<Longrightarrow>
   pa_host a = host \<and> pa_action_type a \<in> {CreatePodmanNetwork, RecreatePodmanNetwork}"
  by (auto simp: network_actions_def Let_def split: option.splits if_splits dest!: push_ifD)

lemma podman_actions_member:
  assumes "podman_actions I sha d subnets host st = Inr as" "a \<in> set as"
  shows "pa_host a = host \<and> pa_action_type a \<in>
    {InstallPodman, EnablePodmanSocket, EnableIpForward, CreatePodmanNetwork, RecreatePodmanNetwork,
     InstallFirewall}"
  using assms
  by (auto simp: podman_actions_def Let_def and_then_eq_Inr dest!: push_ifD dest: network_actions_member)

lemma coold_actions_member:
  assumes "coold_actions I sha d mgmt subnets host st ip = Inr as" "a \<in> set as"
  shows "pa_host a = host \<and> pa_action_type a \<in>
    {InstallCorrosion, InstallCoold, WriteCorrosionConfig, WriteCorrosionSchema,
     InstallCorrosionService, InstallCooldService} \<and>
    (pa_action_type a = WriteCorrosionSchema \<longrightarrow>
       pa_detail a = schema_detail (ss_corrosion_schema_sha256 st \<noteq> sha COOLIFY_SCHEMA_SQL) st)"
  using assms by (auto simp: coold_actions_def Let_def and_then_eq_Inr dest!: push_ifD)

lemma plan_host_cases:
  assumes "plan_host I sha d cur mgmt subnets host = Inr as" "a \<in> set as"
  obtains ip wg where "wg_actions d cur host (server_of cur host) ip = Inr wg" "a \<in> set wg"
  | pm where "podman_actions I sha d subnets host (server_of cur host) = Inr pm" "a \<in> set pm"
  | ip co where "coold_actions I sha d mgmt subnets host (server_of cur host) ip = Inr co" "a \<in> set co"
  using assms by (auto simp: plan_host_def Let_def and_then_eq_Inr split: if_splits)

lemma plan_host_member:
  assumes "plan_host I sha d cur mgmt subnets host = Inr as" "a \<in> set as"
  shows "pa_host a = host \<and>
    (pa_action_type a = WriteCorrosionSchema \<longrightarrow>
       pa_detail a = schema_detail
         (ss_corrosion_schema_sha256 (server_of cur host) \<noteq> sha COOLIFY_SCHEMA_SQL) (server_of cur host))"
  by (rule plan_host_cases [OF assms])
    (auto dest: wg_actions_member podman_actions_member coold_actions_member)

lemma schema_detail_wipes:
  "contains_str (schema_detail drift st) ''DB will be reset'' \<longleftrightarrow>
   drift \<and> ss_corrosion_schema_sha256 st \<noteq> []"
  by (simp add: schema_detail_def starts_with_def)

lemma extend_plan_spares:
  assumes "build_plan I sha d cur = Some (Inr p)" "dm_intent d = Extend"
    and "a \<in> set (pl_actions p)" "pa_host a \<notin> set (dm_new_nodes d)"
  shows "pa_action_type a \<notin> {InstallCorrosion, InstallCoold} \<and>
    (pa_action_type a = RecreatePodmanNetwork \<longrightarrow> dm_allow_replace d) \<and>
    (pa_action_type a = WriteCorrosionSchema \<longrightarrow>
       ss_corrosion_schema_sha256 (server_of cur (pa_host a)) \<in> {[], sha COOLIFY_SCHEMA_SQL})"
proof (rule build_plan_action [OF assms(1,3)])
  fix mgmt subnets h as
  assume h: "plan_host I sha d cur mgmt subnets h = Inr as" "a \<in> set as"
    and dec: "decide a d (dm_new_nodes d) = None"
  note mem = plan_host_member [OF h]
  show ?thesis
    using dec assms(2,4) mem
    by (cases "pa_action_type a")
      (auto simp: decide_def categorize_def schema_detail_wipes split: if_splits)
qed

text \<open>\<open>extend\<close> never damages a host that was already in the mesh. An action planned for a host
  outside \<open>--new-nodes\<close> is no version bump, replaces a Podman network only with \<open>--allow-replace\<close>, and
  writes the Corrosion schema only where none was recorded or the recorded one is the current one: the
  drifted schema, whose action plans a reset of the database, is never written.\<close>

theorem extend_spares_existing_hosts:
  assumes "build_plan I sha d cur = Some (Inr p)" "dm_intent d = Extend"
    and "a \<in> set (pl_actions p)" "pa_host a \<notin> set (dm_new_nodes d)"
  shows "pa_action_type a \<notin> {InstallCorrosion, InstallCoold} \<and>
    (pa_action_type a = RecreatePodmanNetwork \<longrightarrow> dm_allow_replace d) \<and>
    (pa_action_type a = WriteCorrosionSchema \<longrightarrow>
       ss_corrosion_schema_sha256 (server_of cur (pa_host a)) \<in> {[], sha COOLIFY_SCHEMA_SQL})"
  by (rule extend_plan_spares [OF assms])

text \<open>\<open>upgrade\<close> touches binaries only. Whatever else drifted, the plan holds nothing but the
  installation of the two agents and the (re)start of their services.\<close>

theorem upgrade_only_binaries:
  assumes "build_plan I sha d cur = Some (Inr p)" "dm_intent d = Upgrade" "a \<in> set (pl_actions p)"
  shows "pa_action_type a \<in> {InstallCorrosion, InstallCoold, InstallCorrosionService, InstallCooldService}"
proof (rule build_plan_action [OF assms(1,3)])
  assume dec: "decide a d (dm_new_nodes d) = None"
  then show ?thesis
    using assms(2) by (cases "pa_action_type a") (auto simp: decide_def categorize_def split: if_splits)
qed

section \<open>When planning succeeds\<close>

text \<open>The checks \<open>build_plan\<close> makes before it allocates anything.\<close>

definition preflight :: "'n desired_mesh \<Rightarrow> 'n mesh_state \<Rightarrow> bool" where
  "preflight d cur \<longleftrightarrow>
     (dm_nodes d \<noteq> [] \<longrightarrow>
        (dm_default_deny_containers d \<longrightarrow> dm_install_podman d) \<and>
        (dm_install_coold d \<longrightarrow> dm_install_podman d) \<and>
        (dm_install_podman d \<longrightarrow> dm_namespaces d \<noteq> [])) \<and>
     validate_intent d = Inr () \<and>
     (\<forall>h\<in>set (dm_nodes d). \<not> nft_missing d cur h)"

text \<open>Keys that can be cut after eight bytes, as base64 text always can.\<close>

definition plain_keys :: "'n mesh_state \<Rightarrow> bool" where
  "plain_keys cur \<longleftrightarrow>
     (\<forall>st\<in>set (map snd (servers cur)). \<forall>k\<in>insert (ss_public_key st) (set (map pe_public_key (ss_peers st))).
        \<forall>c\<in>set k. \<not> is_continuation c)"

lemma set_key_set [simp]: "set (key_set ks) = set ks"
  by (simp add: key_set_def)

lemma truncate_key_ok: "(\<forall>c\<in>set k. \<not> is_continuation c) \<Longrightarrow> is_ok (truncate_key k)"
  by (simp add: truncate_key_def)

lemma server_of_member:
  assumes "k \<in> set (current_keys (server_of cur host))"
  obtains st where "st \<in> set (map snd (servers cur))" "k \<in> set (map pe_public_key (ss_peers st))"
  using assms
  by (force simp: current_keys_def server_of_def server_default_def split: option.splits dest: map_of_SomeD)

lemma desired_keys_member:
  "k \<in> set (desired_keys d cur host) \<longleftrightarrow>
   (\<exists>p st. p \<in> set (dm_hosts d) \<and> p \<noteq> host \<and> bt_get (servers cur) p = Some st \<and>
      k = ss_public_key st \<and> k \<noteq> [])"
  by (force simp: desired_keys_def List.map_filter_def image_iff)

lemma wg_actions_ok:
  assumes "plain_keys cur"
  shows "is_ok (wg_actions d cur host (server_of cur host) ip)"
proof -
  have "is_ok (truncate_key k)" if "k \<in> set (current_keys (server_of cur host))" for k
    using that assms
    by (elim server_of_member) (auto simp: plain_keys_def intro!: truncate_key_ok)
  then have rem: "is_ok (map_result truncate_key (filter P (current_keys (server_of cur host))))" for P
    by (simp add: map_result_ok_iff)
  have "is_ok (truncate_key k)" if k: "k \<in> set (desired_keys d cur host)" for k
  proof -
    obtain p st where "bt_get (servers cur) p = Some st" "k = ss_public_key st"
      using k by (auto simp: desired_keys_member)
    then show ?thesis
      using assms by (intro truncate_key_ok) (auto simp: plain_keys_def dest!: map_of_SomeD)
  qed
  then have add: "is_ok (map_result truncate_key (filter P (desired_keys d cur host)))" for P
    by (simp add: map_result_ok_iff)
  show ?thesis
    using add [of "\<lambda>k. k \<notin> set (current_keys (server_of cur host))"]
      rem [of "\<lambda>k. k \<notin> set (desired_keys d cur host)"]
    by (auto simp: wg_actions_def Let_def is_ok_iff)
qed

lemma subnet_at_eq_Inr: "subnet_at subnets host ns = Inr net \<longleftrightarrow> ns_get subnets ns host = Some net"
  by (auto simp: subnet_at_def ns_get_def and_then_eq_Inr split: Option.bind_splits)

lemma podman_actions_ok:
  assumes "\<forall>ns\<in>set (dm_namespaces d). \<exists>net. ns_get subnets ns host = Some net"
  shows "is_ok (podman_actions I sha d subnets host st)"
proof -
  have "is_ok (map_result (subnet_at subnets host) (sorted_namespaces d))"
    unfolding map_result_ok_iff using assms by (auto simp: is_ok_iff subnet_at_eq_Inr)
  then show ?thesis by (auto simp: podman_actions_def Let_def is_ok_iff)
qed

lemma coold_actions_ok:
  assumes "\<forall>ns\<in>set (dm_namespaces d). \<exists>net. ns_get subnets ns host = Some net" "ip \<noteq> 0"
  shows "is_ok (coold_actions I sha d mgmt subnets host st ip)"
proof -
  have "is_ok (ns_configs I subnets host (sorted_namespaces d))"
    unfolding ns_configs_def map_result_ok_iff
    using assms(1) by (auto simp: is_ok_iff and_then_eq_Inr subnet_at_eq_Inr)
  then show ?thesis
    using assms(2)
    by (auto simp: coold_actions_def Let_def is_ok_iff config_bytes_def assert_mesh_bind_def)
qed

lemma plan_host_ok:
  assumes "plain_keys cur" "bt_get mgmt host = Some ip" "ip \<noteq> 0"
    and "host \<in> set (dm_nodes d) \<longrightarrow>
      (\<forall>ns\<in>set (dm_namespaces d). \<exists>net. ns_get subnets ns host = Some net)"
  shows "is_ok (plan_host I sha d cur mgmt subnets host)"
proof -
  let ?st = "server_of cur host"
  obtain wg where wg: "wg_actions d cur host ?st ip = Inr wg"
    using wg_actions_ok [OF assms(1), of d host ip] by (auto simp: is_ok_iff)
  have "is_ok (if is_node d host \<and> dm_install_podman d
      then podman_actions I sha d subnets host ?st else Inr [])"
    using podman_actions_ok [of d subnets host I sha ?st] assms(4) by simp
  then obtain pm where pm: "(if is_node d host \<and> dm_install_podman d
      then podman_actions I sha d subnets host ?st else Inr []) = Inr pm"
    unfolding is_ok_iff by blast
  have "is_ok (if is_node d host \<and> dm_install_coold d
      then coold_actions I sha d mgmt subnets host ?st ip else Inr [])"
    using coold_actions_ok [of d subnets host ip I sha mgmt ?st] assms(3,4) by simp
  then obtain co where co: "(if is_node d host \<and> dm_install_coold d
      then coold_actions I sha d mgmt subnets host ?st ip else Inr []) = Inr co"
    unfolding is_ok_iff by blast
  show ?thesis
    by (simp add: plan_host_def Let_def bt_index_def assms(2) wg pm co del: is_node_iff)
qed

lemma find_None_ball: "find P xs = None \<longleftrightarrow> (\<forall>x\<in>set xs. \<not> P x)"
  by (auto simp: find_None_iff)

text \<open>What follows the checks.\<close>

definition plan_after_checks ::
  "'n ipnet \<Rightarrow> (string \<Rightarrow> string) \<Rightarrow> 'n desired_mesh \<Rightarrow> 'n mesh_state \<Rightarrow> 'n plan result option" where
  "plan_after_checks I sha d cur =
     bind_or (allocate_mgmt_ips I (dm_mgmt_pool d) (assigned_mgmt_ips cur) (dm_hosts d)) (\<lambda>(mgmt, w1).
     bind_or (allocate_namespaced I (dm_container_pool d) (dm_container_prefix d)
                (assigned_container_subnets cur) (dm_namespaces d) (dm_nodes d)) (\<lambda>(subnets, w2).
     Some (and_then (map_result (plan_host I sha d cur mgmt subnets) (dm_hosts d)) (\<lambda>per_host.
       Inr (filter_by_intent d
         \<lparr>pl_actions = concat per_host, pl_mgmt_assignments = mgmt,
          pl_subnet_assignments = subnets, pl_warnings = w1 @ w2, pl_skipped = []\<rparr>)))))"

lemma build_plan_preflight:
  assumes "preflight d cur"
  shows "build_plan I sha d cur = plan_after_checks I sha d cur"
proof -
  have "find (nft_missing d cur) (dm_nodes d) = None" "validate_intent d = Inr ()"
    using assms by (auto simp: preflight_def find_None_ball)
  then show ?thesis
    using assms unfolding build_plan_def plan_after_checks_def preflight_def by auto
qed

lemma build_plan_not_preflight:
  assumes "\<not> preflight d cur"
  shows "\<exists>e. build_plan I sha d cur = Some (Inl e)"
proof (cases "validate_intent d")
  case (Inl e)
  then show ?thesis by (simp add: build_plan_def)
next
  case (Inr u)
  show ?thesis
  proof (cases "find (nft_missing d cur) (dm_nodes d)")
    case None
    then show ?thesis using assms Inr by (auto simp: build_plan_def preflight_def find_None_ball)
  next
    case (Some h)
    then show ?thesis using Inr by (simp add: build_plan_def)
  qed
qed

lemma build_plan_ok:
  assumes "ipnet_ok I" "unat (net_broadcast I (dm_container_pool d)) < 2 ^ 32 - 1" "plain_keys cur"
  shows "\<exists>r m s. build_plan I sha d cur = Some r
    \<and> allocate_mgmt_ips I (dm_mgmt_pool d) (assigned_mgmt_ips cur) (dm_hosts d) = Some m
    \<and> allocate_namespaced I (dm_container_pool d) (dm_container_prefix d)
        (assigned_container_subnets cur) (dm_namespaces d) (dm_nodes d) = Some s
    \<and> (is_ok r \<longleftrightarrow> preflight d cur \<and> is_ok m \<and> is_ok s)"
proof -
  note mg = allocate_mgmt_ips_spec [OF assms(1) bt_wf_assigned_mgmt_ips, of "dm_mgmt_pool d" cur "dm_hosts d"]
  note sg = allocate_namespaced_spec [OF assms(1,2), of "dm_container_prefix d"
      "assigned_container_subnets cur" "dm_namespaces d" "dm_nodes d"]
  obtain m where m: "allocate_mgmt_ips I (dm_mgmt_pool d) (assigned_mgmt_ips cur) (dm_hosts d) = Some m"
    using mg by blast
  obtain s where s: "allocate_namespaced I (dm_container_pool d) (dm_container_prefix d)
        (assigned_container_subnets cur) (dm_namespaces d) (dm_nodes d) = Some s"
    using sg by blast
  have hosts: "is_ok (map_result (plan_host I sha d cur mgmt subnets) (dm_hosts d))"
    if mi: "m = Inr (mgmt, w1)" and si: "s = Inr (subnets, w2)" for mgmt w1 subnets w2
  proof -
    have "is_ok (plan_host I sha d cur mgmt subnets host)" if h: "host \<in> set (dm_hosts d)" for host
    proof -
      obtain ip where ip: "bt_get mgmt host = Some ip" using mg m mi h by fastforce
      then have "usable_mgmt I (dm_mgmt_pool d) ip" using mg m mi by auto
      then have "ip \<noteq> 0" by (auto simp: usable_mgmt_def)
      moreover have "host \<in> set (dm_nodes d) \<longrightarrow>
          (\<forall>ns\<in>set (dm_namespaces d). \<exists>net. ns_get subnets ns host = Some net)"
        using sg s si by (simp, blast)
      ultimately show ?thesis using plan_host_ok [OF assms(3) ip] by blast
    qed
    then show ?thesis by (simp add: map_result_ok_iff)
  qed
  have "\<exists>r. build_plan I sha d cur = Some r \<and> (is_ok r \<longleftrightarrow> preflight d cur \<and> is_ok m \<and> is_ok s)"
  proof (cases "preflight d cur")
    case False
    then show ?thesis using build_plan_not_preflight [OF False, of I sha] by auto
  next
    case True
    have "\<exists>r. plan_after_checks I sha d cur = Some r \<and> (is_ok r \<longleftrightarrow> is_ok m \<and> is_ok s)"
      using hosts m s by (cases m; cases s) (fastforce simp: plan_after_checks_def is_ok_iff)+
    then show ?thesis using True by (simp add: build_plan_preflight)
  qed
  with m s show ?thesis by blast
qed

text \<open>C32: when the container pool does not end at 255.255.255.255 and no probed public key has a
  multi-byte character (a WireGuard key is ASCII), planning ends, and
  it fails only for the reasons it reports: a failed pre-flight check or an allocation error. Then no
  index into the assignments is missing and the Corrosion configuration is never bound to the
  unspecified address, so these panics of the planner are not reached. Without the two conditions
  planning can run forever (\<open>allocate_at_top_of_range\<close>) or panic while it shortens a key.\<close>

theorem build_plan_succeeds_iff:
  assumes "ipnet_ok I" "unat (net_broadcast I (dm_container_pool d)) < 2 ^ 32 - 1" "plain_keys cur"
  shows "\<exists>r m s. build_plan I sha d cur = Some r
    \<and> allocate_mgmt_ips I (dm_mgmt_pool d) (assigned_mgmt_ips cur) (dm_hosts d) = Some m
    \<and> allocate_namespaced I (dm_container_pool d) (dm_container_prefix d)
        (assigned_container_subnets cur) (dm_namespaces d) (dm_nodes d) = Some s
    \<and> (is_ok r \<longleftrightarrow> preflight d cur \<and> is_ok m \<and> is_ok s)"
  by (rule build_plan_ok [OF assms])

section \<open>Convergence\<close>

text \<open>
  The three parts of a host that needs nothing: its WireGuard interface runs on the assigned address
  with exactly the keys of the other hosts as peers; its Podman networks and its firewall unit are the
  wanted ones; both agents run in the wanted versions on the wanted files.
\<close>

definition wg_converged :: "'n desired_mesh \<Rightarrow> 'n mesh_state \<Rightarrow> ipv4 \<Rightarrow> string \<Rightarrow> bool" where
  "wg_converged d cur ip host \<longleftrightarrow>
     (let st = server_of cur host in
      ss_installed st \<and> ss_keys_exist st \<and> ss_active st \<and> ss_wireguard_mgmt_ip st = Some ip \<and>
      (\<forall>p\<in>set (dm_hosts d). p \<noteq> host \<longrightarrow> ss_public_key (server_of cur p) \<noteq> []) \<and>
      set (map pe_public_key (ss_peers st)) =
        (\<lambda>p. ss_public_key (server_of cur p)) ` {p \<in> set (dm_hosts d). p \<noteq> host} \<and>
      (1 < length (dm_hosts d) \<longrightarrow> ss_listen_port st = listen_port_for d host))"

definition podman_converged ::
  "'n ipnet \<Rightarrow> (string \<Rightarrow> string) \<Rightarrow> 'n desired_mesh \<Rightarrow> 'n mesh_state \<Rightarrow> 'n plan \<Rightarrow> string \<Rightarrow> bool" where
  "podman_converged I sha d cur p host \<longleftrightarrow>
     (let st = server_of cur host;
          net_of = (\<lambda>ns. the (ns_get (pl_subnet_assignments p) ns host)) in
      ss_podman_installed st \<and> ss_podman_socket_active st \<and> ss_ip_forward_enabled st \<and>
      (\<forall>ns\<in>set (dm_namespaces d). \<exists>nss. bt_get (ss_namespaces st) ns = Some nss \<and>
         ns_network_exists nss \<and> \<not> ns_dns_enabled nss \<and>
         ns_container_subnet nss = Some (net_of ns) \<and> ns_label nss = ns) \<and>
      ss_firewall_active st \<and> ss_default_deny_active st = dm_default_deny_containers d \<and>
      ss_firewall_unit_sha256 st =
        sha (firewall_service_unit I (dm_interface d) (sorted_namespaces d)
               (map net_of (sorted_namespaces d)) (dm_default_deny_containers d)))"

definition coold_converged ::
  "'n ipnet \<Rightarrow> (string \<Rightarrow> string) \<Rightarrow> 'n desired_mesh \<Rightarrow> 'n mesh_state \<Rightarrow> 'n plan \<Rightarrow> string \<Rightarrow> bool" where
  "coold_converged I sha d cur p host \<longleftrightarrow>
     (let st = server_of cur host;
          ip = the (bt_get (pl_mgmt_assignments p) host);
          net_of = (\<lambda>ns. the (ns_get (pl_subnet_assignments p) ns host));
          peers = List.map_filter (bt_get (pl_mgmt_assignments p)) (filter (\<lambda>h. h \<noteq> host) (dm_nodes d)) in
      \<not> binary_version_drift (dm_corrosion_version d) (ss_corrosion_installed st) (ss_corrosion_version st) \<and>
      \<not> binary_version_drift (dm_coold_version d) (ss_coold_installed st) (ss_coold_version st) \<and>
      ss_corrosion_active st \<and> ss_coold_active st \<and>
      Inr (ss_corrosion_config_hash st) =
        and_then (config_bytes ip (dm_corrosion_gossip_port d) (dm_corrosion_api_port d) peers
                    (dm_corrosion_gossip_tls d \<noteq> None)) (\<lambda>cfg. Inr (sha cfg)) \<and>
      ss_corrosion_schema_exists st \<and> ss_corrosion_schema_sha256 st = sha COOLIFY_SCHEMA_SQL \<and>
      ss_coold_unit_sha256 st =
        sha (coold_service_unit ip
          (map (\<lambda>ns. \<lparr>cn_name = ns, cn_network = podman_network_for ns,
                       cn_bridge_gateway = machine_ip I (net_of ns)\<rparr>) (sorted_namespaces d))
          (desired_flux_config d)))"

definition host_converged ::
  "'n ipnet \<Rightarrow> (string \<Rightarrow> string) \<Rightarrow> 'n desired_mesh \<Rightarrow> 'n mesh_state \<Rightarrow> 'n plan \<Rightarrow> string \<Rightarrow> bool" where
  "host_converged I sha d cur p host \<longleftrightarrow>
     wg_converged d cur (the (bt_get (pl_mgmt_assignments p) host)) host \<and>
     (host \<in> set (dm_nodes d) \<and> dm_install_podman d \<longrightarrow> podman_converged I sha d cur p host) \<and>
     (host \<in> set (dm_nodes d) \<and> dm_install_coold d \<longrightarrow> coold_converged I sha d cur p host)"

lemma map_result_Nil [simp]: "map_result f xs = Inr [] \<longleftrightarrow> xs = []"
  by (cases xs) (auto simp: and_then_eq_Inr)

lemma filter_notin_empty: "filter (\<lambda>k. k \<notin> A) xs = [] \<longleftrightarrow> set xs \<subseteq> A"
  by (auto simp: filter_empty_conv)

lemma server_of_pub: "ss_public_key (server_of cur p) =
    (case bt_get (servers cur) p of Some s \<Rightarrow> ss_public_key s | None \<Rightarrow> [])"
  by (simp add: server_of_def server_default_def split: option.splits)

lemma not_pending_iff:
  "\<not> peer_key_pending d cur host \<longleftrightarrow>
   (\<forall>p\<in>set (dm_hosts d). p \<noteq> host \<longrightarrow> ss_public_key (server_of cur p) \<noteq> [])"
  by (auto simp: peer_key_pending_def list_ex_iff server_of_pub split: option.splits)

lemma desired_keys_image:
  assumes "\<not> peer_key_pending d cur host"
  shows "set (desired_keys d cur host) =
    (\<lambda>p. ss_public_key (server_of cur p)) ` {p \<in> set (dm_hosts d). p \<noteq> host}"
proof -
  have "\<exists>st. bt_get (servers cur) p = Some st \<and> ss_public_key st \<noteq> []
      \<and> ss_public_key (server_of cur p) = ss_public_key st"
    if "p \<in> set (dm_hosts d)" "p \<noteq> host" for p
    using assms that by (auto simp: not_pending_iff server_of_pub split: option.splits)
  note known = this
  show ?thesis
  proof (intro set_eqI iffI)
    fix k
    assume "k \<in> set (desired_keys d cur host)"
    then obtain p st where "p \<in> set (dm_hosts d)" "p \<noteq> host" "bt_get (servers cur) p = Some st"
      "k = ss_public_key st" by (auto simp: desired_keys_member)
    then show "k \<in> (\<lambda>p. ss_public_key (server_of cur p)) ` {p \<in> set (dm_hosts d). p \<noteq> host}"
      by (auto simp: server_of_def intro!: image_eqI [of _ _ p])
  next
    fix k
    assume "k \<in> (\<lambda>p. ss_public_key (server_of cur p)) ` {p \<in> set (dm_hosts d). p \<noteq> host}"
    then obtain p where p: "p \<in> set (dm_hosts d)" "p \<noteq> host" "k = ss_public_key (server_of cur p)" by blast
    obtain st where "bt_get (servers cur) p = Some st" "ss_public_key st \<noteq> []" "k = ss_public_key st"
      using known [OF p(1,2)] p(3) by auto
    with p show "k \<in> set (desired_keys d cur host)" 
      unfolding desired_keys_member by (intro exI [of _ p] exI [of _ st]) simp
  qed
qed

lemma wg_actions_Nil:
  assumes "wg_actions d cur host (server_of cur host) ip = Inr wg"
  shows "wg = [] \<longleftrightarrow> wg_converged d cur ip host"
proof -
  let ?st = "server_of cur host"
  have "wg = [] \<longleftrightarrow> ss_installed ?st \<and> ss_keys_exist ?st \<and> ss_active ?st \<and>
      \<not> needs_config d cur host ?st ip \<and>
      set (desired_keys d cur host) = set (current_keys ?st)"
    using assms
    by (auto simp: wg_actions_def Let_def and_then_eq_Inr filter_notin_empty needs_config_def
        map_result_eq_Inr list_all2_Nil2 split: if_splits)
  also have "\<dots> \<longleftrightarrow> wg_converged d cur ip host"
  proof (cases "peer_key_pending d cur host")
    case True
    then show ?thesis
      using not_pending_iff [of d cur host] by (simp add: wg_converged_def Let_def needs_config_def)
  next
    case False
    define S where "S = (\<lambda>p. ss_public_key (server_of cur p)) ` {p \<in> set (dm_hosts d). p \<noteq> host}"
    define C where "C = pe_public_key ` set (ss_peers ?st)"
    have "set (desired_keys d cur host) = S" "set (current_keys ?st) = C"
      using desired_keys_image [OF False] by (simp_all add: S_def C_def current_keys_def)
    then show ?thesis
      using False unfolding wg_converged_def Let_def needs_config_def set_map
        not_pending_iff [symmetric] S_def [symmetric] C_def [symmetric]
      by auto
  qed
  finally show ?thesis .
qed

lemma network_actions_Nil:
  "network_actions I host st ns want = [] \<longleftrightarrow>
   (\<exists>nss. bt_get (ss_namespaces st) ns = Some nss \<and> ns_network_exists nss \<and> \<not> ns_dns_enabled nss \<and>
      ns_container_subnet nss = Some want \<and> ns_label nss = ns)"
  by (auto simp: network_actions_def Let_def split: option.splits)

lemma map_result_subnets:
  "map_result (subnet_at subnets host) nss = Inr nets \<Longrightarrow> nets = map (\<lambda>ns. the (ns_get subnets ns host)) nss"
  by (induction nss arbitrary: nets) (auto simp: and_then_eq_Inr subnet_at_eq_Inr)

lemma podman_actions_Nil:
  assumes "podman_actions I sha d (pl_subnet_assignments p) host (server_of cur host) = Inr pm"
  shows "pm = [] \<longleftrightarrow> podman_converged I sha d cur p host"
  using assms
  by (auto simp: podman_actions_def Let_def and_then_eq_Inr podman_converged_def network_actions_Nil
      zip_map2 zip_same_conv_map dest!: map_result_subnets)

lemma ns_configs_eq:
  "ns_configs I subnets host nss = Inr nsc \<Longrightarrow>
   nsc = map (\<lambda>ns. \<lparr>cn_name = ns, cn_network = podman_network_for ns,
      cn_bridge_gateway = machine_ip I (the (ns_get subnets ns host))\<rparr>) nss"
  unfolding ns_configs_def
  by (induction nss arbitrary: nsc) (auto simp: and_then_eq_Inr subnet_at_eq_Inr)

lemma coold_actions_Nil:
  assumes "coold_actions I sha d (pl_mgmt_assignments p) (pl_subnet_assignments p) host (server_of cur host) ip
      = Inr co"
    and "bt_get (pl_mgmt_assignments p) host = Some ip"
  shows "co = [] \<longleftrightarrow> coold_converged I sha d cur p host"
proof -
  let ?st = "server_of cur host" and ?peers = "List.map_filter (bt_get (pl_mgmt_assignments p))
      (filter (\<lambda>h. h \<noteq> host) (dm_nodes d))"
  obtain cfg where cfg: "config_bytes ip (dm_corrosion_gossip_port d) (dm_corrosion_api_port d) ?peers
      (dm_corrosion_gossip_tls d \<noteq> None) = Inr cfg"
    using assms(1) by (auto simp: coold_actions_def Let_def and_then_eq_Inr)
  obtain nsc where nsc: "ns_configs I (pl_subnet_assignments p) host (sorted_namespaces d) = Inr nsc"
    using assms(1) by (auto simp: coold_actions_def Let_def and_then_eq_Inr)
  show ?thesis
    using assms(1)
    unfolding coold_actions_def coold_converged_def Let_def assms(2) option.sel cfg nsc and_then_simps
      ns_configs_eq [OF nsc, symmetric]
    by auto
qed

lemma plan_host_Nil:
  assumes "plan_host I sha d cur (pl_mgmt_assignments p) (pl_subnet_assignments p) host = Inr as"
  shows "as = [] \<longleftrightarrow> host_converged I sha d cur p host"
proof -
  let ?st = "server_of cur host"
  obtain ip wg pm co where ip: "bt_get (pl_mgmt_assignments p) host = Some ip"
    and wg: "wg_actions d cur host ?st ip = Inr wg"
    and pm: "(if is_node d host \<and> dm_install_podman d
        then podman_actions I sha d (pl_subnet_assignments p) host ?st else Inr []) = Inr pm"
    and co: "(if is_node d host \<and> dm_install_coold d
        then coold_actions I sha d (pl_mgmt_assignments p) (pl_subnet_assignments p) host ?st ip
        else Inr []) = Inr co"
    and as: "as = wg @ pm @ co"
    using assms unfolding plan_host_def Let_def and_then_eq_Inr bt_index_eq_Inr by blast
  have "pm = [] \<longleftrightarrow> (host \<in> set (dm_nodes d) \<and> dm_install_podman d \<longrightarrow> podman_converged I sha d cur p host)"
    using pm podman_actions_Nil [of I sha d p host cur pm] by (auto split: if_splits)
  moreover have "co = [] \<longleftrightarrow> (host \<in> set (dm_nodes d) \<and> dm_install_coold d \<longrightarrow> coold_converged I sha d cur p host)"
    using co coold_actions_Nil [of I sha d p host cur ip co] ip by (auto split: if_splits)
  ultimately show ?thesis
    using wg_actions_Nil [OF wg] by (simp add: as host_converged_def ip)
qed

lemma list_all2_concat_Nil:
  "list_all2 P xs yss \<Longrightarrow> (\<And>x ys. P x ys \<Longrightarrow> ys = [] \<longleftrightarrow> Q x) \<Longrightarrow> concat yss = [] \<longleftrightarrow> (\<forall>x\<in>set xs. Q x)"
  by (induction rule: list_all2_induct) auto

text \<open>C8: a bootstrap plan is empty exactly when the mesh has converged, that is, every host runs
  WireGuard on its assigned address with the keys of all other hosts and no others, every node has the
  wanted networks and firewall unit, and both agents run in the wanted versions with the wanted files.\<close>

theorem empty_plan_iff_converged:
  assumes "build_plan I sha d cur = Some (Inr p)" "dm_intent d = Bootstrap"
  shows "plan_is_empty p \<longleftrightarrow> (\<forall>host\<in>set (dm_hosts d). host_converged I sha d cur p host)"
proof (rule build_plan_Inr [OF assms(1)])
  fix mgmt w1 subnets w2 per_host
  assume all: "list_all2 (\<lambda>h as. plan_host I sha d cur mgmt subnets h = Inr as) (dm_hosts d) per_host"
    and p: "p = filter_by_intent d
       \<lparr>pl_actions = concat per_host, pl_mgmt_assignments = mgmt,
        pl_subnet_assignments = subnets, pl_warnings = w1 @ w2, pl_skipped = []\<rparr>"
  have sel: "pl_actions p = concat per_host" "pl_mgmt_assignments p = mgmt" "pl_subnet_assignments p = subnets"
    using p assms(2) by (simp_all add: filter_by_intent_def)
  have "concat per_host = [] \<longleftrightarrow> (\<forall>host\<in>set (dm_hosts d). host_converged I sha d cur p host)"
    using all plan_host_Nil [where p = p, unfolded sel(2,3)] by (rule list_all2_concat_Nil)
  then show ?thesis by (simp add: plan_is_empty_def sel)
qed

section \<open>A stale peer\<close>

text \<open>a peer that is configured on a host although no mesh host has its key is planned for removal
  but the plan does not rewrite the host's configuration, the only way to remove it: with nothing else
  to change on the host's interface, its only WireGuard action is \<open>RemovePeer\<close>.\<close>

theorem stale_peer_without_write_config:
  assumes "needs_config d cur host (server_of cur host) ip = False"
    and "ss_active (server_of cur host)"
    and "filter (\<lambda>k. k \<notin> set (desired_keys d cur host)) (current_keys (server_of cur host)) = [k]"
    and "truncate_key k = Inr short"
  shows "wg_actions d cur host (server_of cur host) ip = Inr [mk_action host [] RemovePeer short]"
proof -
  have "filter (\<lambda>k. k \<notin> set (current_keys (server_of cur host))) (desired_keys d cur host) = []"
    "ss_installed (server_of cur host)" "ss_keys_exist (server_of cur host)"
    using assms(1) by (auto simp: needs_config_def filter_notin_empty)
  then show ?thesis using assms by (simp add: wg_actions_def Let_def push_if_def)
qed

section \<open>Samples\<close>

text \<open>Two nodes \<open>a\<close> and \<open>b\<close>, of which \<open>a\<close> was probed with an old schema; and a single converged node.\<close>

definition sample_mesh :: "intent \<Rightarrow> string list \<Rightarrow> (ipv4 \<times> nat) desired_mesh" where
  "sample_mesh i hosts =
     \<lparr>dm_hosts = hosts, dm_nodes = hosts, dm_interface = ''wg0'', dm_mgmt_pool = (0x64400000, 16),
      dm_container_pool = (0x0AD20000, 16), dm_container_prefix = 24, dm_listen_port = 51820,
      dm_listen_port_overrides = [], dm_endpoint_overrides = [], dm_install_podman = True,
      dm_namespaces = [''default''], dm_default_deny_containers = True, dm_install_coold = True,
      dm_coold_version = ''v1'', dm_corrosion_version = ''v1'', dm_corrosion_gossip_port = 8787,
      dm_corrosion_api_port = 8080, dm_coold_sha256 = None, dm_corrosion_sha256 = None,
      dm_corrosion_gossip_tls = None, dm_flux_tls = None, dm_flux_tls_url = None,
      dm_intent = i, dm_new_nodes = tl hosts, dm_allow_replace = False, dm_allow_nightly = False\<rparr>"

definition sample_old :: "(ipv4 \<times> nat) mesh_state" where
  "sample_old = \<lparr>servers = [(''a'', server_default\<lparr>ss_nft_available := True,
     ss_public_key := ''ka'', ss_corrosion_schema_sha256 := ''old''\<rparr>)]\<rparr>"

definition sample_done :: "peer list \<Rightarrow> (ipv4 \<times> nat) mesh_state" where
  "sample_done peers = \<lparr>servers = [(''a'',
     \<lparr>ss_host = ''a'', ss_installed = True, ss_keys_exist = True, ss_public_key = ''ka'',
      ss_wireguard_mgmt_ip = Some 0x64400001, ss_listen_port = 51820, ss_interface = ''wg0'',
      ss_active = True, ss_peers = peers, ss_podman_installed = True, ss_podman_socket_active = True,
      ss_namespaces = [(''default'', \<lparr>ns_namespace = ''default'', ns_network_exists = True,
        ns_container_subnet = Some (0x0AD20000, 24), ns_dns_enabled = False, ns_label = ''default''\<rparr>)],
      ss_ip_forward_enabled = True, ss_firewall_active = True, ss_default_deny_active = True,
      ss_firewall_unit_sha256 = ''h'', ss_bridge_table_exists = True, ss_nft_available = True,
      ss_corrosion_installed = True, ss_corrosion_active = True, ss_corrosion_config_hash = ''h'',
      ss_corrosion_schema_exists = True, ss_corrosion_schema_sha256 = ''h'', ss_coold_installed = True,
      ss_coold_active = True, ss_corrosion_version = ''v1'', ss_coold_version = ''v1'',
      ss_coold_unit_sha256 = ''h''\<rparr>)]\<rparr>"

definition sample_sha :: "string \<Rightarrow> string" where
  "sample_sha s = ''h''"

lemma sample_mgmt:
  "allocate_mgmt_ips pair_net (0x64400000, 16) [] [''a'', ''b''] =
     Some (Inr ([(''a'', 0x64400001), (''b'', 0x64400002)], []))"
  by (simp add: allocate_mgmt_ips_def alloc_eval)

lemma sample_subnets:
  "allocate_namespaced pair_net (0x0AD20000, 16) 24 [] [''default''] [''a'', ''b''] =
     Some (Inr ([(''default'', [(''a'', (0x0AD20000, 24)), (''b'', (0x0AD20100, 24))])], []))"
  by (simp add: allocate_namespaced_def all_existing_def ns_key_def alloc_eval)

lemma sample_pool_bounds: "unat (net_broadcast pair_net (0x0AD20000, 16)) < 2 ^ 32 - 1"
  by (simp add: pair_net_def)

lemma sample_old_facts:
  "plain_keys sample_old" "assigned_mgmt_ips sample_old = []" "assigned_container_subnets sample_old = []"
  "preflight (sample_mesh Extend [''a'', ''b'']) sample_old" "preflight (sample_mesh Upgrade [''a'', ''b'']) sample_old"
  by (simp_all add: plain_keys_def sample_old_def server_default_def is_continuation_def
      assigned_mgmt_ips_def assigned_container_subnets_def preflight_def sample_mesh_def
      validate_intent_def nft_missing_def)

lemma sample_old_plan:
  assumes "i = Extend \<or> i = Upgrade"
  shows "\<exists>p. build_plan pair_net sample_sha (sample_mesh i [''a'', ''b'']) sample_old = Some (Inr p)"
proof -
  have "unat (net_broadcast pair_net (dm_container_pool (sample_mesh i [''a'', ''b'']))) < 2 ^ 32 - 1"
    using sample_pool_bounds by (simp add: sample_mesh_def)
  note ok = build_plan_ok [OF pair_net_ok this sample_old_facts(1), of sample_sha]
  have "preflight (sample_mesh i [''a'', ''b'']) sample_old" using assms sample_old_facts by auto
  with ok show ?thesis
    by (auto simp: sample_mesh_def sample_old_facts sample_mgmt sample_subnets is_ok_iff)
qed

theorem extend_spares_existing_hosts_witness:
  "\<exists>p. build_plan pair_net sample_sha (sample_mesh Extend [''a'', ''b'']) sample_old = Some (Inr p) \<and>
     (\<forall>a\<in>set (pl_actions p). pa_host a = ''a'' \<longrightarrow> pa_action_type a \<noteq> WriteCorrosionSchema)"
proof -
  obtain p where p: "build_plan pair_net sample_sha (sample_mesh Extend [''a'', ''b'']) sample_old = Some (Inr p)"
    using sample_old_plan by blast
  have "pa_action_type a \<noteq> WriteCorrosionSchema" if "a \<in> set (pl_actions p)" "pa_host a = ''a''" for a
    using extend_spares_existing_hosts [OF p _ that(1)] that(2)
    by (auto simp: sample_mesh_def sample_old_def server_of_def sample_sha_def)
  with p show ?thesis by blast
qed

theorem upgrade_only_binaries_witness:
  "\<exists>p. build_plan pair_net sample_sha (sample_mesh Upgrade [''a'', ''b'']) sample_old = Some (Inr p) \<and>
     (\<forall>a\<in>set (pl_actions p). pa_action_type a \<in>
        {InstallCorrosion, InstallCoold, InstallCorrosionService, InstallCooldService})"
proof -
  obtain p where p: "build_plan pair_net sample_sha (sample_mesh Upgrade [''a'', ''b'']) sample_old = Some (Inr p)"
    using sample_old_plan by blast
  have "pa_action_type a \<in> {InstallCorrosion, InstallCoold, InstallCorrosionService, InstallCooldService}"
    if "a \<in> set (pl_actions p)" for a
    using upgrade_only_binaries [OF p _ that] by (simp add: sample_mesh_def)
  with p show ?thesis by blast
qed

theorem build_plan_succeeds_iff_witness:
  "\<exists>r. build_plan pair_net sample_sha (sample_mesh Extend [''a'', ''b'']) sample_old = Some r \<and> is_ok r"
proof -
  have "unat (net_broadcast pair_net (dm_container_pool (sample_mesh Extend [''a'', ''b'']))) < 2 ^ 32 - 1"
    using sample_pool_bounds by (simp add: sample_mesh_def)
  from build_plan_succeeds_iff [OF pair_net_ok this sample_old_facts(1), of sample_sha] sample_old_facts(4)
  show ?thesis by (auto simp: sample_mesh_def sample_old_facts sample_mgmt sample_subnets)
qed

theorem stale_peer_without_write_config_witness:
  "wg_actions (sample_mesh Bootstrap [''a'']) (sample_done [peer_default\<lparr>pe_public_key := ''stalekey=''\<rparr>]) ''a''
     (server_of (sample_done [peer_default\<lparr>pe_public_key := ''stalekey=''\<rparr>]) ''a'') 0x64400001
   = Inr [mk_action ''a'' [] RemovePeer ''stalekey...'']"
  by (rule stale_peer_without_write_config [where k = "''stalekey=''"])
    (simp_all add: needs_config_def sample_mesh_def sample_done_def server_of_def desired_keys_def
      current_keys_def key_set_def peer_key_pending_def truncate_key_def is_continuation_def
      peer_default_def List.map_filter_def)

lemma sample_done_plan:
  "build_plan pair_net sample_sha (sample_mesh Bootstrap [''a'']) (sample_done []) =
     Some (Inr \<lparr>pl_actions = [], pl_mgmt_assignments = [(''a'', 0x64400001)],
       pl_subnet_assignments = [(''default'', [(''a'', (0x0AD20000, 24))])],
       pl_warnings = [], pl_skipped = []\<rparr>)"
proof -
  let ?d = "sample_mesh Bootstrap [''a'']" and ?c = "sample_done []"
  have m: "allocate_mgmt_ips pair_net (0x64400000, 16) [(''a'', 0x64400001)] [''a''] =
      Some (Inr ([(''a'', 0x64400001)], []))"
    by (simp add: allocate_mgmt_ips_def alloc_eval keep_ip_def)
  have n: "allocate_namespaced pair_net (0x0AD20000, 16) 24 [(''default'', [(''a'', (0x0AD20000, 24))])]
      [''default''] [''a''] = Some (Inr ([(''default'', [(''a'', (0x0AD20000, 24))])], []))"
    by (simp add: allocate_namespaced_def all_existing_def ns_key_def alloc_eval keep_net_def)
  have h: "plan_host pair_net sample_sha ?d ?c [(''a'', 0x64400001)]
      [(''default'', [(''a'', (0x0AD20000, 24))])] ''a'' = Inr []"
    by (simp add: plan_host_def wg_actions_def needs_config_def podman_actions_def coold_actions_def
        sample_mesh_def sample_done_def server_of_def desired_keys_def current_keys_def key_set_def
        peer_key_pending_def List.map_filter_def bt_index_def subnet_at_def sorted_namespaces_def
        network_actions_def push_if_def ns_configs_def config_bytes_def assert_mesh_bind_def
        binary_version_drift_def sample_sha_def)
  have "preflight ?d ?c"
    by (simp add: preflight_def sample_mesh_def validate_intent_def nft_missing_def sample_done_def)
  then have "build_plan pair_net sample_sha ?d ?c = plan_after_checks pair_net sample_sha ?d ?c"
    by (rule build_plan_preflight)
  also have "\<dots> = Some (Inr \<lparr>pl_actions = [], pl_mgmt_assignments = [(''a'', 0x64400001)],
       pl_subnet_assignments = [(''default'', [(''a'', (0x0AD20000, 24))])],
       pl_warnings = [], pl_skipped = []\<rparr>)"
  proof -
    have sel: "dm_mgmt_pool ?d = (0x64400000, 16)" "dm_container_pool ?d = (0x0AD20000, 16)"
      "dm_container_prefix ?d = 24" "dm_hosts ?d = [''a'']" "dm_nodes ?d = [''a'']"
      "dm_namespaces ?d = [''default'']" "dm_intent ?d = Bootstrap"
      "assigned_mgmt_ips ?c = [(''a'', 0x64400001)]"
      "assigned_container_subnets ?c = [(''default'', [(''a'', (0x0AD20000, 24))])]"
      by (simp_all add: sample_mesh_def sample_done_def assigned_mgmt_ips_def assigned_container_subnets_def)
    show ?thesis by (simp add: plan_after_checks_def sel m n h filter_by_intent_def)
  qed
  finally show ?thesis .
qed

theorem empty_plan_iff_converged_witness:
  "host_converged pair_net sample_sha (sample_mesh Bootstrap [''a'']) (sample_done [])
     \<lparr>pl_actions = [], pl_mgmt_assignments = [(''a'', 0x64400001)],
      pl_subnet_assignments = [(''default'', [(''a'', (0x0AD20000, 24))])],
      pl_warnings = [], pl_skipped = []\<rparr> ''a''"
  using empty_plan_iff_converged [OF sample_done_plan] by (simp add: sample_mesh_def plan_is_empty_def)

end
