(* ===== verification/CliRemote.thy ===== *)
theory CliRemote
  imports CliState
begin

text \<open>
  \<open>ssh.rs\<close> and \<open>wireguard/reconstruct.rs\<close> of \<open>coolify-cli\<close>: running commands on the hosts, and
  reading the state of a host from the output of one probe script. The remote machines are a state
  \<open>'w\<close> that a \<open>runner\<close> (the trait \<open>Runner\<close>) threads through its commands; the process that runs
  \<open>ssh\<close> and the crates \<open>shell_escape\<close> and \<open>base64\<close> are parameters.
\<close>

section \<open>Access flags\<close>

record ssh_mesh_flags =
  sf_nodes :: "string list"
  sf_ssh_key :: "string option"
  sf_ssh_config :: "string option"
  sf_ssh_user :: string
  sf_ssh_port :: u16
  sf_concurrency :: nat
  sf_ssh_timeout :: string

definition validate_ssh_access :: "ssh_mesh_flags \<Rightarrow> unit result" where
  "validate_ssh_access f =
     (if sf_ssh_key f = None \<and> sf_ssh_config f = None
      then Inl ''--ssh-key or --ssh-config is required'' else Inr ())"

definition validate_ssh_flags :: "ssh_mesh_flags \<Rightarrow> unit result" where
  "validate_ssh_flags f = (if sf_nodes f = [] then Inl ''--nodes is required'' else validate_ssh_access f)"

text \<open>A duration is its number of milliseconds. The multiplication by 60 wraps in a release build.\<close>

definition parse_duration :: "string \<Rightarrow> nat option" where
  "parse_duration s =
     (case strip_suffix s ''ms'' of
        Some raw \<Rightarrow> parse_unsigned (2 ^ 64) raw
      | None \<Rightarrow> (case strip_suffix s ''s'' of
          Some raw \<Rightarrow> map_option (\<lambda>v. v * 1000) (parse_unsigned (2 ^ 64) raw)
        | None \<Rightarrow> (case strip_suffix s ''m'' of
            Some raw \<Rightarrow> map_option (\<lambda>v. (v * 60) mod 2 ^ 64 * 1000) (parse_unsigned (2 ^ 64) raw)
          | None \<Rightarrow> map_option (\<lambda>v. v * 1000) (parse_unsigned (2 ^ 64) s))))"

definition ssh_timeout :: "ssh_mesh_flags \<Rightarrow> nat" where
  "ssh_timeout f = (case parse_duration (sf_ssh_timeout f) of Some t \<Rightarrow> t | None \<Rightarrow> 30000)"

section \<open>One command\<close>

record run_output =
  ro_stdout :: string
  ro_stderr :: string
  ro_status :: int

type_synonym 'w runner = "string \<Rightarrow> string \<Rightarrow> 'w \<Rightarrow> run_output result \<times> 'w"

definition first_line :: "string \<Rightarrow> string option" where
  "first_line s = find (\<lambda>l. l \<noteq> []) (map trim (lines s))"

definition split_host_port :: "string \<Rightarrow> u16 \<Rightarrow> string \<times> u16" where
  "split_host_port host default_port =
     (case rsplit_once (CHR '':'') host of
        None \<Rightarrow> (host, default_port)
      | Some (name, raw_port) \<Rightarrow>
          (if name = [] \<or> CHR '':'' \<in> set name then (host, default_port)
           else (case parse_unsigned (2 ^ 16) raw_port of
                   Some port \<Rightarrow> (name, word_of_nat port)
                 | None \<Rightarrow> (host, default_port))))"

text \<open>\<open>expect\<close> panics when neither a configuration nor a key is given; \<open>None\<close> stands for that.\<close>

definition ssh_command_args ::
  "string option \<Rightarrow> string option \<Rightarrow> nat \<Rightarrow> u16 \<Rightarrow> string \<Rightarrow> string \<Rightarrow> string list option" where
  "ssh_command_args config key timeout port dest remote_cmd =
     map_option (\<lambda>start.
        start @
        [''-o'', ''StrictHostKeyChecking=no'', ''-o'', ''UserKnownHostsFile=/dev/null'',
         ''-o'', ''ConnectTimeout='' @ show_nat (max (timeout div 1000) 1)] @
        (if config = None
         then [''-o'', ''ControlMaster=auto'', ''-o'', ''ControlPath=/tmp/coolify-ssh-%C'',
               ''-o'', ''ControlPersist=60s'']
         else []) @
        [dest, remote_cmd])
      (case config of
         Some c \<Rightarrow> Some [''-F'', c]
       | None \<Rightarrow> map_option (\<lambda>k. [''-i'', k, ''-p'', show_port port]) key)"

text \<open>\<open>exec\<close> is the child process: its arguments and time limit to an error, or exit code (\<open>None\<close> when
  it was killed) and the decoded outputs. \<open>escape\<close> is \<open>shell_escape::escape\<close>.\<close>

definition run_ssh ::
  "(string list \<Rightarrow> nat \<Rightarrow> 'w \<Rightarrow> (int option \<times> string \<times> string) result \<times> 'w) \<Rightarrow> (string \<Rightarrow> string) \<Rightarrow>
   ssh_mesh_flags \<Rightarrow> 'w runner" where
  "run_ssh exec escape f host cmd w =
     (case split_host_port host (sf_ssh_port f) of
        (ssh_host, ssh_port) \<Rightarrow>
          let dest = sf_ssh_user f @ ''@'' @ ssh_host;
              remote_cmd = (if sf_ssh_user f = ''root'' then cmd else ''sudo -n bash -lc '' @ escape cmd) in
          case ssh_command_args (sf_ssh_config f) (sf_ssh_key f) (ssh_timeout f) ssh_port dest remote_cmd of
            None \<Rightarrow> (Inl ''ssh key is required when ssh config is not provided'', w)
          | Some args \<Rightarrow>
              (case exec args (ssh_timeout f + 5000) w of
                 (Inl e, w') \<Rightarrow> (Inl e, w')
               | (Inr (code, out, err), w') \<Rightarrow>
                   let status = (case code of Some c \<Rightarrow> c | None \<Rightarrow> 255) in
                   if code \<noteq> Some 0
                   then (Inl (''ssh '' @ host @ '': exit '' @ show_int status @ '': '' @
                           (case first_line err of Some l \<Rightarrow> l
                            | None \<Rightarrow> (case first_line out of Some l \<Rightarrow> l | None \<Rightarrow> []))), w')
                   else (Inr \<lparr>ro_stdout = out, ro_stderr = err, ro_status = status\<rparr>, w')))"

definition heredoc :: "string \<Rightarrow> string \<Rightarrow> string \<Rightarrow> string" where
  \<open>heredoc path body mode =
     ''cat > '' @ path @ ''.tmp <<'' @ [CHR 0x27] @ ''COOLIFY_CLI_EOF'' @ [CHR 0x27] @
     ''\<newline>'' @ body @ ''COOLIFY_CLI_EOF\<newline>'' @ ''chmod '' @ mode @ '' '' @ path @
     ''.tmp && mv '' @ path @ ''.tmp '' @ path\<close>

section \<open>All hosts\<close>

record 'a server_result =
  sr_host :: string
  sr_result :: "'a option"
  sr_error :: "string option"

text \<open>
  At most \<open>concurrency\<close> hosts are worked on at a time and the results come in the order of
  completion, which the parameter \<open>sched\<close> gives as a reordering of the hosts. The commands of
  different hosts go to different machines, so the model runs the hosts one after the other in that
  order.
\<close>

fun for_each_host :: "(string \<Rightarrow> 'w \<Rightarrow> 'a result \<times> 'w) \<Rightarrow> string list \<Rightarrow> 'w \<Rightarrow> 'a server_result list \<times> 'w" where
  "for_each_host f [] w = ([], w)"
| "for_each_host f (host # hosts) w =
     (case f host w of
        (r, w') \<Rightarrow>
          (case for_each_host f hosts w' of
             (rs, w'') \<Rightarrow>
               ((case r of
                   Inr a \<Rightarrow> \<lparr>sr_host = host, sr_result = Some a, sr_error = None\<rparr>
                 | Inl e \<Rightarrow> \<lparr>sr_host = host, sr_result = None, sr_error = Some e\<rparr>) # rs, w'')))"

definition for_each_server ::
  "(string list \<Rightarrow> string list) \<Rightarrow> string list \<Rightarrow> (string \<Rightarrow> 'w \<Rightarrow> 'a result \<times> 'w) \<Rightarrow> 'w \<Rightarrow>
   'a server_result list \<times> 'w" where
  "for_each_server sched hosts f w = for_each_host f (sched hosts) w"

section \<open>Reading the probe\<close>

definition parse_i64 :: "string \<Rightarrow> int option" where
  "parse_i64 s =
     (case s of
        CHR ''-'' # ds \<Rightarrow> (case (ds, digits_val 0 ds) of
           (_ # _, Some n) \<Rightarrow> if n \<le> 2 ^ 63 then Some (- int n) else None
         | _ \<Rightarrow> None)
      | _ \<Rightarrow> map_option int (parse_unsigned (2 ^ 63) s))"

definition parse_u16 :: "string \<Rightarrow> u16" where
  "parse_u16 s = (case parse_unsigned (2 ^ 16) s of Some n \<Rightarrow> word_of_nat n | None \<Rightarrow> 0)"

definition probe_script :: "string \<Rightarrow> string list \<Rightarrow> string" where
  \<open>probe_script iface namespaces =
     ''set +e\<newline>'' @ ''printf '' @ [CHR 0x27] @ ''WG_INSTALLED='' @ [CHR 0x27] @
     ''; command -v wg >/dev/null 2>&1 && echo 1 || echo 0\<newline>'' @ ''printf '' @ [CHR 0x27] @
     ''KEYS_EXIST='' @ [CHR 0x27] @
     ''; test -s /etc/wireguard/publickey && test -s /etc/wireguard/privatekey '' @
     ''&& echo 1 || echo 0\<newline>'' @ ''printf '' @ [CHR 0x27] @ ''PUBLIC_KEY='' @ [CHR 0x27] @
     ''; cat /etc/wireguard/publickey 2>/dev/null || true; echo\<newline>'' @ ''printf '' @
     [CHR 0x27] @ ''CONFIG_B64='' @ [CHR 0x27] @ ''; base64 -w0 /etc/wireguard/'' @ iface @
     ''.conf 2>/dev/null || true; echo\<newline>'' @ ''printf '' @ [CHR 0x27] @ ''WG_DUMP_B64='' @
     [CHR 0x27] @ ''; wg show '' @ iface @
     '' dump 2>/dev/null | base64 -w0 || true; echo\<newline>'' @ ''printf '' @ [CHR 0x27] @
     ''PODMAN_INSTALLED='' @ [CHR 0x27] @
     ''; command -v podman >/dev/null 2>&1 && echo 1 || echo 0\<newline>'' @ ''printf '' @
     [CHR 0x27] @ ''PODMAN_SOCKET_ACTIVE='' @ [CHR 0x27] @
     ''; systemctl is-active --quiet podman.socket && echo 1 || echo '' @ ''0\<newline>'' @
     ''printf '' @ [CHR 0x27] @ ''IP_FORWARD='' @ [CHR 0x27] @
     ''; cat /proc/sys/net/ipv4/ip_forward 2>/dev/null || echo 0\<newline>'' @ ''printf '' @
     [CHR 0x27] @ ''FW_ACTIVE='' @ [CHR 0x27] @
     ''; systemctl is-active --quiet coolify-mesh-fw.service && echo '' @
     ''1 || echo 0\<newline>'' @ ''printf '' @ [CHR 0x27] @ ''DEFAULT_DENY='' @ [CHR 0x27] @
     ''; iptables -S COOLIFY-INTRA 2>/dev/null | grep -q -- '' @ [CHR 0x27] @
     ''-A COOLIFY-INTRA -j DROP'' @ [CHR 0x27] @ '' && echo 1 || echo 0\<newline>'' @ ''printf '' @
     [CHR 0x27] @ ''FW_HASH='' @ [CHR 0x27] @
     ''; sha256sum /etc/systemd/system/coolify-mesh-fw.service 2>/dev/null '' @ ''| awk '' @
     [CHR 0x27] @ ''{print $1}'' @ [CHR 0x27] @ ''; echo\<newline>'' @ ''printf '' @ [CHR 0x27] @
     ''NFT_AVAILABLE='' @ [CHR 0x27] @
     ''; command -v nft >/dev/null 2>&1 && echo 1 || echo 0\<newline>'' @ ''printf '' @
     [CHR 0x27] @ ''BRIDGE_TABLE='' @ [CHR 0x27] @
     ''; nft list table bridge coolify_bridge >/dev/null 2>&1 && echo '' @
     ''1 || echo 0\<newline>'' @ ''printf '' @ [CHR 0x27] @ ''CORROSION_INSTALLED='' @ [CHR 0x27] @
     ''; test -x /usr/local/bin/corrosion && echo 1 || echo 0\<newline>'' @ ''printf '' @
     [CHR 0x27] @ ''CORROSION_ACTIVE='' @ [CHR 0x27] @
     ''; systemctl is-active --quiet corrosion && echo 1 || echo 0\<newline>'' @ ''printf '' @
     [CHR 0x27] @ ''CORROSION_CONFIG_HASH='' @ [CHR 0x27] @
     ''; sha256sum /etc/corrosion/config.toml 2>/dev/null | awk '' @ [CHR 0x27] @ ''{print $1}'' @
     [CHR 0x27] @ ''; echo\<newline>'' @ ''printf '' @ [CHR 0x27] @ ''CORROSION_SCHEMA_EXISTS='' @
     [CHR 0x27] @ ''; test -s /etc/corrosion/schemas/coolify.sql && echo 1 || echo '' @
     ''0\<newline>'' @ ''printf '' @ [CHR 0x27] @ ''CORROSION_SCHEMA_HASH='' @ [CHR 0x27] @
     ''; sha256sum /etc/corrosion/schemas/coolify.sql 2>/dev/null | awk '' @ [CHR 0x27] @
     ''{print $1}'' @ [CHR 0x27] @ ''; echo\<newline>'' @ ''printf '' @ [CHR 0x27] @
     ''COOLIFY_COOLD_INSTALLED='' @ [CHR 0x27] @
     ''; test -x /usr/local/bin/coold && echo 1 || echo 0\<newline>'' @ ''printf '' @ [CHR 0x27] @
     ''COOLIFY_COOLD_ACTIVE='' @ [CHR 0x27] @
     ''; systemctl is-active --quiet coold && echo 1 || echo 0\<newline>'' @ ''printf '' @
     [CHR 0x27] @ ''CORROSION_VERSION='' @ [CHR 0x27] @
     ''; cat /usr/local/bin/corrosion.version 2>/dev/null || true; echo\<newline>'' @ ''printf '' @
     [CHR 0x27] @ ''COOLIFY_COOLD_VERSION='' @ [CHR 0x27] @
     ''; cat /usr/local/bin/coold.version 2>/dev/null || true; echo\<newline>'' @ ''printf '' @
     [CHR 0x27] @ ''COOLIFY_COOLD_UNIT_HASH='' @ [CHR 0x27] @
     ''; sha256sum /etc/systemd/system/coold.service 2>/dev/null | awk '' @ [CHR 0x27] @
     ''{print $1}'' @ [CHR 0x27] @ ''; echo\<newline>'' @ ''for ns in '' @ join '' '' namespaces @
     ''; do net="coolify-${ns}-mesh"; printf '' @ [CHR 0x27] @ ''NS=%s|'' @ [CHR 0x27] @
     '' "$ns"; podman network inspect "$net" --format '' @ [CHR 0x27] @
     ''{{.Name}}|{{range .Subnets}}{{.Subnet}}{{end}}|{{.DNSEnabled}}|{{index '' @
     ''.Labels "io.coolify.namespace"}}'' @ [CHR 0x27] @ '' 2>/dev/null || echo '' @ [CHR 0x27] @
     ''missing|||'' @ [CHR 0x27] @ ''; done\<newline>''\<close>

text \<open>\<open>b64\<close> is the decoder of the crate \<open>base64\<close> (standard alphabet).\<close>

definition decode_b64 :: "(string \<Rightarrow> string option) \<Rightarrow> string \<Rightarrow> string" where
  "decode_b64 b64 s =
     (case b64 (trim s) of Some b \<Rightarrow> if valid_utf8 b then b else [] | None \<Rightarrow> [])"

text \<open>One line of a WireGuard configuration; the second component is the peer section being read.\<close>

definition config_line ::
  "'n server_state \<times> peer option \<Rightarrow> string \<Rightarrow> 'n server_state \<times> peer option" where
  "config_line acc line =
     (case acc of (s, cur) \<Rightarrow>
        if line = ''[Peer]''
        then (case cur of Some p \<Rightarrow> s\<lparr>ss_peers := ss_peers s @ [p]\<rparr> | None \<Rightarrow> s, Some peer_default)
        else (case split_once (CHR ''='') line of
           None \<Rightarrow> (s, cur)
         | Some (k0, v0) \<Rightarrow>
             let k = trim k0; v = trim v0 in
             case cur of
               None \<Rightarrow>
                 if k = ''Address'' then
                   (case parse_ipv4 (hd (split_on (CHR ''/'') v)) of
                      Some ip \<Rightarrow> (s\<lparr>ss_wireguard_mgmt_ip := Some ip\<rparr>, None)
                    | None \<Rightarrow> (s, None))
                 else if k = ''ListenPort'' then (s\<lparr>ss_listen_port := parse_u16 v\<rparr>, None)
                 else (s, None)
             | Some p \<Rightarrow>
                 if k = ''PublicKey'' then (s, Some (p\<lparr>pe_public_key := v\<rparr>))
                 else if k = ''Endpoint'' then (s, Some (p\<lparr>pe_endpoint := v\<rparr>))
                 else if k = ''AllowedIPs'' then
                   (s, Some (p\<lparr>pe_allowed_ips := map trim (split_on (CHR '','') v)\<rparr>))
                 else if k = ''PersistentKeepalive'' then
                   (s, Some (p\<lparr>pe_persistent_keepalive := parse_u16 v\<rparr>))
                 else (s, Some p)))"

definition parse_config :: "'n server_state \<Rightarrow> string \<Rightarrow> 'n server_state" where
  "parse_config s cfg =
     (case foldl config_line (s, None) (map trim (lines cfg)) of
        (s', Some p) \<Rightarrow> s'\<lparr>ss_peers := ss_peers s' @ [p]\<rparr>
      | (s', None) \<Rightarrow> s')"

definition dump_line :: "peer list \<Rightarrow> nat \<times> string \<Rightarrow> peer list" where
  "dump_line peers x =
     (case x of (i, line) \<Rightarrow>
        if i < length peers then
          (let fields = split_on (CHR 0x09) line in
           if 5 < length fields
           then peers[i := (peers ! i)\<lparr>pe_latest_handshake :=
                   (case parse_i64 (fields ! 5) of Some n \<Rightarrow> n | None \<Rightarrow> 0)\<rparr>]
           else peers)
        else peers)"

definition parse_dump :: "'n server_state \<Rightarrow> string \<Rightarrow> 'n server_state" where
  "parse_dump s dump =
     (let s' = (if trim dump \<noteq> [] then s\<lparr>ss_active := True\<rparr> else s);
          rest = tl (lines dump) in
      s'\<lparr>ss_peers := foldl dump_line (ss_peers s') (zip [0..<length rest] rest)\<rparr>)"

text \<open>One \<open>KEY=value\<close> line of the probe. The two encoded texts are collected for later.\<close>

definition probe_line ::
  "(string \<Rightarrow> string option) \<Rightarrow> 'n server_state \<times> string \<times> string \<Rightarrow> string \<Rightarrow>
   'n server_state \<times> string \<times> string" where
  "probe_line b64 acc line =
     (case acc of (s, config, wg_dump) \<Rightarrow>
      case split_once (CHR ''='') line of
        None \<Rightarrow> acc
      | Some (k, v) \<Rightarrow>
          let one = (trim v = ''1''); t = trim v in
          if k = ''WG_INSTALLED'' then (s\<lparr>ss_installed := one\<rparr>, config, wg_dump)
          else if k = ''KEYS_EXIST'' then (s\<lparr>ss_keys_exist := one\<rparr>, config, wg_dump)
          else if k = ''PUBLIC_KEY'' then (s\<lparr>ss_public_key := t\<rparr>, config, wg_dump)
          else if k = ''CONFIG_B64'' then (s, decode_b64 b64 v, wg_dump)
          else if k = ''WG_DUMP_B64'' then (s, config, decode_b64 b64 v)
          else if k = ''PODMAN_INSTALLED'' then (s\<lparr>ss_podman_installed := one\<rparr>, config, wg_dump)
          else if k = ''PODMAN_SOCKET_ACTIVE'' then (s\<lparr>ss_podman_socket_active := one\<rparr>, config, wg_dump)
          else if k = ''IP_FORWARD'' then (s\<lparr>ss_ip_forward_enabled := one\<rparr>, config, wg_dump)
          else if k = ''FW_ACTIVE'' then (s\<lparr>ss_firewall_active := one\<rparr>, config, wg_dump)
          else if k = ''DEFAULT_DENY'' then (s\<lparr>ss_default_deny_active := one\<rparr>, config, wg_dump)
          else if k = ''FW_HASH'' then (s\<lparr>ss_firewall_unit_sha256 := t\<rparr>, config, wg_dump)
          else if k = ''NFT_AVAILABLE'' then (s\<lparr>ss_nft_available := one\<rparr>, config, wg_dump)
          else if k = ''BRIDGE_TABLE'' then (s\<lparr>ss_bridge_table_exists := one\<rparr>, config, wg_dump)
          else if k = ''CORROSION_INSTALLED'' then (s\<lparr>ss_corrosion_installed := one\<rparr>, config, wg_dump)
          else if k = ''CORROSION_ACTIVE'' then (s\<lparr>ss_corrosion_active := one\<rparr>, config, wg_dump)
          else if k = ''CORROSION_CONFIG_HASH'' then (s\<lparr>ss_corrosion_config_hash := t\<rparr>, config, wg_dump)
          else if k = ''CORROSION_SCHEMA_EXISTS'' then (s\<lparr>ss_corrosion_schema_exists := one\<rparr>, config, wg_dump)
          else if k = ''CORROSION_SCHEMA_HASH'' then (s\<lparr>ss_corrosion_schema_sha256 := t\<rparr>, config, wg_dump)
          else if k = ''COOLIFY_COOLD_INSTALLED'' then (s\<lparr>ss_coold_installed := one\<rparr>, config, wg_dump)
          else if k = ''COOLIFY_COOLD_ACTIVE'' then (s\<lparr>ss_coold_active := one\<rparr>, config, wg_dump)
          else if k = ''CORROSION_VERSION'' then (s\<lparr>ss_corrosion_version := t\<rparr>, config, wg_dump)
          else if k = ''COOLIFY_COOLD_VERSION'' then (s\<lparr>ss_coold_version := t\<rparr>, config, wg_dump)
          else if k = ''COOLIFY_COOLD_UNIT_HASH'' then (s\<lparr>ss_coold_unit_sha256 := t\<rparr>, config, wg_dump)
          else acc)"

definition namespace_line ::
  "'n ipnet \<Rightarrow> (string, 'n namespace_server_state) btree \<Rightarrow> string \<Rightarrow>
   (string, 'n namespace_server_state) btree" where
  "namespace_line I m line =
     (case strip_prefix line ''NS='' of
        None \<Rightarrow> m
      | Some rest \<Rightarrow>
          let parts = split_on (CHR ''|'') rest in
          if 5 \<le> length parts
          then bt_insert (parts ! 0)
                 \<lparr>ns_namespace = parts ! 0, ns_network_exists = (parts ! 1 \<noteq> ''missing''),
                  ns_container_subnet = net_parse I (parts ! 2),
                  ns_dns_enabled = (trim (parts ! 3) = ''true''), ns_label = trim (parts ! 4)\<rparr> m
          else m)"

definition parse_probe ::
  "'n ipnet \<Rightarrow> (string \<Rightarrow> string option) \<Rightarrow> string \<Rightarrow> string \<Rightarrow> string list \<Rightarrow> string \<Rightarrow> 'n server_state" where
  "parse_probe I b64 host iface namespaces text =
     (case foldl (probe_line b64) (server_default\<lparr>ss_host := host, ss_interface := iface\<rparr>, [], [])
             (lines text) of
        (s, config, wg_dump) \<Rightarrow>
          let s' = parse_dump (parse_config s config) wg_dump;
              probed = foldl (namespace_line I) (ss_namespaces s') (lines text);
              filled = foldl (\<lambda>m ns. if bt_get m ns = None
                                      then bt_insert ns (namespace_default\<lparr>ns_namespace := ns\<rparr>) m else m)
                         probed namespaces in
          s'\<lparr>ss_namespaces := filled\<rparr>)"

definition probe ::
  "'n ipnet \<Rightarrow> (string \<Rightarrow> string option) \<Rightarrow> 'w runner \<Rightarrow> string \<Rightarrow> string list \<Rightarrow> string \<Rightarrow> 'w \<Rightarrow>
   'n server_state result \<times> 'w" where
  "probe I b64 run iface namespaces host w =
     (case run host (probe_script iface namespaces) w of
        (Inl e, w') \<Rightarrow> (Inl e, w')
      | (Inr out, w') \<Rightarrow> (Inr (parse_probe I b64 host iface namespaces (ro_stdout out)), w'))"

text \<open>The second component is the warning printed when a probe failed.\<close>

definition reconstruct ::
  "'n ipnet \<Rightarrow> (string \<Rightarrow> string option) \<Rightarrow> (string list \<Rightarrow> string list) \<Rightarrow> 'w runner \<Rightarrow> string list \<Rightarrow>
   string \<Rightarrow> string list \<Rightarrow> 'w \<Rightarrow> ('n mesh_state \<times> string option) \<times> 'w" where
  "reconstruct I b64 sched run hosts iface namespaces w =
     (case for_each_server sched hosts (probe I b64 run iface namespaces) w of
        (results, w') \<Rightarrow>
          let srv = foldl (\<lambda>m r. case sr_result r of Some s \<Rightarrow> bt_insert (sr_host r) s m | None \<Rightarrow> m) [] results;
              errs = List.map_filter (\<lambda>r. case sr_result r of
                 Some _ \<Rightarrow> None
               | None \<Rightarrow> map_option (\<lambda>e. sr_host r @ '': '' @ e) (sr_error r)) results in
          ((\<lparr>servers = srv\<rparr>,
            if errs = [] then None
            else Some (''Warning: probe failed on some hosts: '' @ join ''; '' errs)), w'))"

end
