(* ===== verification/CliRoundtrip.thy ===== *)
theory CliRoundtrip
  imports CliRemote
begin

text \<open>
  What the CLI writes into a WireGuard configuration is what its probe reads back: the lines of the
  generated file, the shell command that echoes them and the parser of \<open>reconstruct.rs\<close>.
\<close>

section \<open>Tokens\<close>

text \<open>A token has no white space at its ends; the values of a configuration line are such.\<close>

definition graphic :: "char \<Rightarrow> bool" where
  "graphic c = byte_in 33 126 c"

definition edged :: "string \<Rightarrow> bool" where
  "edged s \<longleftrightarrow> s \<noteq> [] \<and> graphic (hd s) \<and> graphic (last s)"

definition tok :: "string \<Rightarrow> bool" where
  "tok s \<longleftrightarrow> s \<noteq> [] \<and> list_all graphic s"

lemma tok_edged: "tok s \<Longrightarrow> edged s"
  by (auto simp: tok_def edged_def list_all_iff)

lemma tok_append: "tok a \<Longrightarrow> tok b \<Longrightarrow> tok (a @ b)"
  by (simp add: tok_def)

lemma ws_not_graphic: "w \<in> set ws_seqs \<Longrightarrow> \<not> graphic (hd w) \<and> \<not> graphic (last w)"
  by (auto simp: ws_seqs_def graphic_def byte_in_def)

lemma trim_start_edged: "s = [] \<or> graphic (hd s) \<Longrightarrow> trim_start s = s"
  unfolding trim_start_def
proof (rule strip_any_none)
  fix w
  assume s: "s = [] \<or> graphic (hd s)" and w: "w \<in> set ws_seqs" "w \<noteq> []"
  show "\<not> starts_with s w"
    using s w ws_not_graphic [OF w(1)] by (cases w) (auto simp: starts_with_iff)
qed

lemma trim_end_edged: "s = [] \<or> graphic (last s) \<Longrightarrow> trim_end s = s"
proof -
  assume s: "s = [] \<or> graphic (last s)"
  have "strip_any (map rev ws_seqs) (rev s) = rev s"
  proof (rule strip_any_none)
    fix w
    assume "w \<in> set (map rev ws_seqs)" "w \<noteq> []"
    then obtain v where v: "v \<in> set ws_seqs" "w = rev v" "v \<noteq> []" by auto
    have "hd w = last v" using v by (simp add: hd_rev)
    then have "\<not> graphic (hd w)" using ws_not_graphic [OF v(1)] by simp
    with s \<open>w \<noteq> []\<close> show "\<not> starts_with (rev s) w"
      by (cases w) (auto simp: starts_with_iff dest: arg_cong [of _ _ hd] simp: hd_rev)
  qed
  then show ?thesis by (simp add: trim_end_def)
qed

lemma trim_edged: "edged s \<Longrightarrow> trim s = s"
  by (simp add: trim_def trim_start_edged trim_end_edged edged_def)

lemma strip_space: "strip_any ws_seqs (CHR '' '' # s) = strip_any ws_seqs s"
  by (subst strip_any.simps) (simp add: ws_seqs_def starts_with_def)

lemma strip_space_rev: "strip_any (map rev ws_seqs) (CHR '' '' # s) = strip_any (map rev ws_seqs) s"
  by (subst strip_any.simps) (simp add: ws_seqs_def starts_with_def)

lemma trim_before: "edged s \<Longrightarrow> trim (CHR '' '' # s) = s"
  using trim_start_edged [of s]
  by (simp add: trim_def trim_start_def strip_space trim_end_edged edged_def)

lemma trim_after: "edged s \<Longrightarrow> trim (s @ '' '') = s"
proof -
  assume s: "edged s"
  have "trim_start (s @ '' '') = s @ '' ''" using s by (intro trim_start_edged) (auto simp: edged_def)
  moreover have "trim_end (s @ '' '') = trim_end s" by (simp add: trim_end_def strip_space_rev)
  ultimately show ?thesis using s by (simp add: trim_def trim_end_edged edged_def)
qed

section \<open>The lines of a configuration\<close>

lemma join_lines: "concat (map (\<lambda>l. l @ [c]) ls) = (if ls = [] then [] else join [c] ls @ [c])"
  by (induction "[c]" ls rule: join.induct) auto

lemma lines_concat:
  assumes "\<forall>l\<in>set ls. CHR 0x0A \<notin> set l \<and> (l = [] \<or> last l \<noteq> CHR 0x0D)"
  shows "lines (concat (map (\<lambda>l. l @ [CHR 0x0A]) ls)) = ls"
proof (cases "ls = []")
  case True
  then show ?thesis by (simp add: lines_def)
next
  case False
  then show ?thesis using lines_join [OF False assms] by (simp add: join_lines)
qed

definition peer_lines :: "'n ipnet \<Rightarrow> u16 \<Rightarrow> 'n peer_config \<Rightarrow> string list" where
  "peer_lines I port p =
     [[], ''[Peer]'', ''# '' @ pc_endpoint p, ''PublicKey = '' @ pc_public_key p,
      ''AllowedIPs = '' @ allowed_ips_line I p, ''Endpoint = '' @ endpoint_addr (pc_endpoint p) port,
      ''PersistentKeepalive = 25'']"

definition config_file_lines ::
  "'n ipnet \<Rightarrow> string \<Rightarrow> ipv4 \<Rightarrow> u16 \<Rightarrow> 'n peer_config list \<Rightarrow> string list" where
  "config_file_lines I key ip port peers =
     [''[Interface]'', ''Address = '' @ show_ipv4 ip @ ''/32'', ''ListenPort = '' @ show_port port,
      ''PrivateKey = '' @ key] @ concat (map (peer_lines I port) peers)"

lemma render_peer_lines: "render_peer I port p = concat (map (\<lambda>l. l @ [CHR 0x0A]) (peer_lines I port p))"
  by (simp add: render_peer_def peer_lines_def)

lemma echo_peer_lines:
  "echo_peer I port p = concat (map (\<lambda>l. ''echo '' @ [CHR 0x22] @ l @ [CHR 0x22] @ ''; '') (peer_lines I port p))"
  by (simp add: echo_peer_def peer_lines_def)

lemma concat_map_concat: "concat (map f (concat (map g xs))) = concat (map (\<lambda>x. concat (map f (g x))) xs)"
  by (induction xs) auto

lemma render_config_lines:
  "render_config I ip port peers =
     concat (map (\<lambda>l. l @ [CHR 0x0A]) (config_file_lines I ''__PRIVKEY__'' ip port peers))"
  by (simp add: render_config_def config_file_lines_def render_peer_lines [abs_def] concat_map_concat)


text \<open>The command that writes a host's WireGuard configuration echoes exactly the lines of the
  rendered configuration, in order, one \<open>echo\<close> per line, with the shell variable that holds the
  private key in the place of the placeholder.\<close>

theorem write_config_echoes_rendered_lines:
  "render_config I ip port peers =
     concat (map (\<lambda>l. l @ [CHR 0x0A]) (config_file_lines I ''__PRIVKEY__'' ip port peers))
   \<and> (\<exists>before after. write_config_command I iface ip port peers =
     before @ concat (map (\<lambda>l. ''echo '' @ [CHR 0x22] @ l @ [CHR 0x22] @ ''; '')
                 (config_file_lines I ''$PRIVKEY'' ip port peers)) @ after
      \<and> before = ''PRIVKEY=$(cat /etc/wireguard/privatekey) && mkdir -p /etc/wireguard && { ''
      \<and> after = ''} > /etc/wireguard/'' @ iface @ ''.conf.tmp && chmod 600 /etc/wireguard/'' @ iface @
          ''.conf.tmp && mv /etc/wireguard/'' @ iface @ ''.conf.tmp /etc/wireguard/'' @ iface @ ''.conf'')"
  by (simp add: render_config_lines write_config_command_def config_file_lines_def
      echo_peer_lines [abs_def] concat_map_concat)

section \<open>Reading a line back\<close>

lemma config_line_kv:
  assumes "CHR ''='' \<notin> set k" "edged k" "edged v" "hd k \<noteq> CHR ''[''"
  shows "config_line (s, cur) (k @ '' = '' @ v) =
     (case cur of
        None \<Rightarrow>
          if k = ''Address'' then
            (case parse_ipv4 (hd (split_on (CHR ''/'') v)) of
               Some ip \<Rightarrow> (s\<lparr>ss_wireguard_mgmt_ip := Some ip\<rparr>, None)
             | None \<Rightarrow> (s, None))
          else if k = ''ListenPort'' then (s\<lparr>ss_listen_port := parse_u16 v\<rparr>, None)
          else (s, None)
      | Some p \<Rightarrow>
          if k = ''PublicKey'' then (s, Some (p\<lparr>pe_public_key := v\<rparr>))
          else if k = ''Endpoint'' then (s, Some (p\<lparr>pe_endpoint := v\<rparr>))
          else if k = ''AllowedIPs'' then (s, Some (p\<lparr>pe_allowed_ips := map trim (split_on (CHR '','') v)\<rparr>))
          else if k = ''PersistentKeepalive'' then (s, Some (p\<lparr>pe_persistent_keepalive := parse_u16 v\<rparr>))
          else (s, Some p))"
proof -
  have sp: "split_once (CHR ''='') (k @ '' = '' @ v) = Some (k @ '' '', CHR '' '' # v)"
    using split_once_append [of "CHR ''=''" "k @ '' ''" "CHR '' '' # v"] assms(1) by simp
  have ne: "k @ '' = '' @ v \<noteq> ''[Peer]''"
    using assms(2,4) by (cases k) (auto simp: edged_def)
  show ?thesis
    unfolding config_line_def prod.case if_not_P [OF ne] sp option.case Let_def
      trim_after [OF assms(2)] trim_before [OF assms(3)] ..
qed

lemma edged_show_nat: "edged (show_nat n)"
proof -
  have "c \<in> set (show_nat n) \<Longrightarrow> graphic c" for c
    using show_nat_digits [of c n] by (simp add: graphic_def byte_in_def)
  then show ?thesis by (simp add: edged_def)
qed

lemma show_nat_graphic: "c \<in> set (show_nat n) \<Longrightarrow> graphic c \<and> c \<noteq> CHR '','' \<and> c \<noteq> CHR ''/''"
  using show_nat_digits [of c n] by (auto simp: graphic_def byte_in_def)

lemma show_ipv4_graphic: "c \<in> set (show_ipv4 a) \<Longrightarrow> graphic c \<and> c \<noteq> CHR '','' \<and> c \<noteq> CHR ''/''"
proof -
  assume "c \<in> set (show_ipv4 a)"
  then have "c = CHR ''.'' \<or> (\<exists>i. c \<in> set (show_nat (octet a i)))"
    by (auto simp: show_ipv4_def octets_def)
  moreover have "graphic (CHR ''.'')" by (simp add: graphic_def byte_in_def)
  ultimately show ?thesis using show_nat_graphic by auto
qed

lemma show_ipv4_nonempty [simp]: "show_ipv4 a \<noteq> []"
  by (simp add: show_ipv4_def octets_def)

lemma tok_show_ipv4: "tok (show_ipv4 a)"
  by (auto simp: tok_def list_all_iff dest: show_ipv4_graphic)


lemma split_on_hd: "c \<notin> set a \<Longrightarrow> hd (split_on c (a @ c # b)) = a"
  by (simp add: split_on_append)

lemma trim_split_join:
  assumes "ps \<noteq> []" "\<forall>p\<in>set ps. tok p \<and> CHR '','' \<notin> set p"
  shows "map trim (split_on (CHR '','') (join '', '' ps)) = ps"
  using assms
proof (induction "'', ''" ps rule: join.induct)
  case 1
  then show ?case by simp
next
  case (2 x)
  then show ?case by (simp add: split_on_none trim_edged tok_edged)
next
  case (3 x y zs)
  have x: "CHR '','' \<notin> set x" "trim x = x" using "3.prems" by (simp_all add: trim_edged tok_edged)
  have IH: "map trim (split_on (CHR '','') (join '', '' (y # zs))) = y # zs" using 3 by simp
  have y: "tok y" "CHR '','' \<notin> set y" using "3.prems" by simp_all
  obtain r rs where rs: "split_on (CHR '','') (join '', '' (y # zs)) = r # rs"
    by (cases "split_on (CHR '','') (join '', '' (y # zs))") auto
  have "r = y"
  proof (cases zs)
    case Nil
    then show ?thesis using rs y by (simp add: split_on_none)
  next
    case (Cons z zs')
    then show ?thesis using rs y by (simp add: split_on_append)
  qed
  have "split_on (CHR '','') (join '', '' (x # y # zs)) = x # (CHR '' '' # r) # rs"
    using x(1) rs by (simp add: split_on_append)
  then show ?case
    using x(2) IH y(1) rs \<open>r = y\<close> by (simp add: trim_before tok_edged)
qed

lemma join_edged: "ps \<noteq> [] \<Longrightarrow> \<forall>p\<in>set ps. tok p \<Longrightarrow> edged (join '', '' ps)"
proof (induction "'', ''" ps rule: join.induct)
  case (3 x y zs)
  then have "edged x" "edged (join '', '' (y # zs))" by (simp_all add: tok_edged)
  then show ?case by (auto simp: edged_def)
qed (auto simp: tok_edged)

text \<open>What the documentation of \<open>ipnet\<close> says of a printed network that matters here.\<close>

definition shows_tokens :: "'n ipnet \<Rightarrow> bool" where
  "shows_tokens I \<longleftrightarrow> (\<forall>n. tok (net_show I n) \<and> CHR '','' \<notin> set (net_show I n))"

definition read_back :: "'n ipnet \<Rightarrow> u16 \<Rightarrow> 'n peer_config \<Rightarrow> peer" where
  "read_back I port p =
     \<lparr>pe_public_key = pc_public_key p, pe_endpoint = endpoint_addr (pc_endpoint p) port,
      pe_allowed_ips = (show_ipv4 (pc_mgmt_ip p) @ ''/32'') # map (net_show I) (pc_container_subnets p),
      pe_latest_handshake = 0, pe_persistent_keepalive = 25\<rparr>"

definition allowed_parts :: "'n ipnet \<Rightarrow> 'n peer_config \<Rightarrow> string list" where
  "allowed_parts I p = (show_ipv4 (pc_mgmt_ip p) @ ''/32'') # map (net_show I) (pc_container_subnets p)"

lemma tok_32: "tok ''/32''"
  by (simp add: tok_def graphic_def byte_in_def)

lemma allowed_parts_tok:
  assumes "shows_tokens I"
  shows "\<forall>x\<in>set (allowed_parts I p). tok x \<and> CHR '','' \<notin> set x"
proof -
  have "CHR '','' \<notin> set (show_ipv4 (pc_mgmt_ip p))" using show_ipv4_graphic by blast
  then show ?thesis
    using assms tok_append [OF tok_show_ipv4 tok_32]
    by (auto simp: allowed_parts_def shows_tokens_def)
qed

lemma endpoint_addr_tok: "tok e \<Longrightarrow> tok (endpoint_addr e port)"
proof -
  assume e: "tok e"
  have "tok ('':'' @ show_port port)"
    using show_nat_graphic by (auto simp: tok_def show_port_def list_all_iff graphic_def byte_in_def)
  with e have "tok (e @ '':'' @ show_port port)" by (rule tok_append)
  with e show ?thesis by (simp add: endpoint_addr_def)
qed


section \<open>The round trip\<close>

definition finish_peer :: "'n server_state \<times> peer option \<Rightarrow> 'n server_state" where
  "finish_peer acc = (case acc of (s, Some p) \<Rightarrow> s\<lparr>ss_peers := ss_peers s @ [p]\<rparr> | (s, None) \<Rightarrow> s)"

lemma parse_config_finish: "parse_config s cfg = finish_peer (foldl config_line (s, None) (map trim (lines cfg)))"
  by (simp add: parse_config_def finish_peer_def split: prod.splits option.splits)

lemma config_line_blank: "config_line acc [] = acc"
  by (cases acc) (simp add: config_line_def split_once_def)

lemma config_line_peer: "config_line acc ''[Peer]'' = (finish_peer acc, Some peer_default)"
  by (auto simp: config_line_def finish_peer_def split: prod.splits option.splits)

lemma config_line_comment: "CHR ''='' \<notin> set e \<Longrightarrow> config_line acc (''# '' @ e) = acc"
  by (cases acc) (simp add: config_line_def split_once_def)

lemma edged_words:
  "edged ''PublicKey''" "edged ''AllowedIPs''" "edged ''Endpoint''" "edged ''PersistentKeepalive''"
  "edged ''25''" "edged ''[Peer]''" "edged ''Address''" "edged ''ListenPort''" "edged ''PrivateKey''"
  "edged ''__PRIVKEY__''" "edged ''[Interface]''"
  by (simp_all add: edged_def graphic_def byte_in_def)

lemma edged_pair: "edged k \<Longrightarrow> edged v \<Longrightarrow> edged (k @ '' = '' @ v)"
  by (auto simp: edged_def)

lemma parse_u16_show: "parse_u16 (show_port p) = p"
proof -
  have "unat p < 2 ^ 16" using unsigned_less [of p] by simp
  then show ?thesis by (simp add: parse_u16_def show_port_def parse_show_nat)
qed

lemma parse_u16_25: "parse_u16 ''25'' = 25"
  by (simp add: parse_u16_def parse_unsigned_def digit_val_def)

lemma peer_section:
  assumes "shows_tokens I" "tok (pc_public_key p)" "tok (pc_endpoint p)" "CHR ''='' \<notin> set (pc_endpoint p)"
  shows "foldl config_line acc (map trim (peer_lines I port p)) = (finish_peer acc, Some (read_back I port p))"
proof -
  have al: "allowed_ips_line I p = join '', '' (allowed_parts I p)"
    by (simp add: allowed_ips_line_def allowed_parts_def)
  have parts: "edged (allowed_ips_line I p)"
    "map trim (split_on (CHR '','') (allowed_ips_line I p)) = allowed_parts I p"
    unfolding al using allowed_parts_tok [OF assms(1), of p]
    by (auto simp: allowed_parts_def intro!: join_edged trim_split_join)
  have ed: "edged (pc_public_key p)" "edged (endpoint_addr (pc_endpoint p) port)"
    using assms(2,3) by (simp_all add: tok_edged endpoint_addr_tok)
  have cm: "trim (''# '' @ pc_endpoint p) = ''# '' @ pc_endpoint p"
    using tok_edged [OF assms(3)] by (intro trim_edged) (auto simp: edged_def graphic_def byte_in_def)
  have eqs: "''PublicKey = '' = ''PublicKey'' @ '' = ''" "''AllowedIPs = '' = ''AllowedIPs'' @ '' = ''"
    "''Endpoint = '' = ''Endpoint'' @ '' = ''" "''PersistentKeepalive = 25'' = ''PersistentKeepalive'' @ '' = '' @ ''25''"
    by simp_all
  have tr: "trim (k @ '' = '' @ v) = k @ '' = '' @ v" if "edged k" "edged v" for k v
    using that by (intro trim_edged edged_pair)
  have ln: "map trim (peer_lines I port p) = peer_lines I port p"
    unfolding peer_lines_def eqs append_assoc list.map trim_nil cm
      tr [OF edged_words(1) ed(1)] tr [OF edged_words(2) parts(1)] tr [OF edged_words(3) ed(2)]
      tr [OF edged_words(4) edged_words(5)] trim_edged [OF edged_words(6)] ..
  have k: "CHR ''='' \<notin> set ''PublicKey''" "CHR ''='' \<notin> set ''AllowedIPs''" "CHR ''='' \<notin> set ''Endpoint''"
    "CHR ''='' \<notin> set ''PersistentKeepalive''" "hd ''PublicKey'' \<noteq> CHR ''[''" "hd ''AllowedIPs'' \<noteq> CHR ''[''"
    "hd ''Endpoint'' \<noteq> CHR ''[''" "hd ''PersistentKeepalive'' \<noteq> CHR ''[''"
    by simp_all
  have step: "config_line (s, Some q) (''PublicKey'' @ '' = '' @ pc_public_key p) = (s, Some (q\<lparr>pe_public_key := pc_public_key p\<rparr>))"
    "config_line (s, Some q) (''AllowedIPs'' @ '' = '' @ allowed_ips_line I p) = (s, Some (q\<lparr>pe_allowed_ips := allowed_parts I p\<rparr>))"
    "config_line (s, Some q) (''Endpoint'' @ '' = '' @ endpoint_addr (pc_endpoint p) port) =
       (s, Some (q\<lparr>pe_endpoint := endpoint_addr (pc_endpoint p) port\<rparr>))"
    "config_line (s, Some q) (''PersistentKeepalive'' @ '' = '' @ ''25'') = (s, Some (q\<lparr>pe_persistent_keepalive := 25\<rparr>))" for s q
    using config_line_kv [OF k(1) edged_words(1) ed(1) k(5), of s "Some q"]
      config_line_kv [OF k(2) edged_words(2) parts(1) k(6), of s "Some q"]
      config_line_kv [OF k(3) edged_words(3) ed(2) k(7), of s "Some q"]
      config_line_kv [OF k(4) edged_words(4) edged_words(5) k(8), of s "Some q"]
      parts(2) parse_u16_25
    by simp_all
  show ?thesis
    unfolding ln unfolding peer_lines_def eqs append_assoc foldl_Cons foldl_Nil config_line_blank config_line_peer
      config_line_comment [OF assms(4)] step
    by (simp add: peer_default_def read_back_def allowed_parts_def)
qed


definition peer_ok :: "'n peer_config \<Rightarrow> bool" where
  "peer_ok p \<longleftrightarrow> tok (pc_public_key p) \<and> tok (pc_endpoint p) \<and> CHR ''='' \<notin> set (pc_endpoint p)"

lemma peers_fold:
  assumes "shows_tokens I" "\<forall>p\<in>set ps. peer_ok p"
  shows "finish_peer (foldl config_line acc (map trim (concat (map (peer_lines I port) ps)))) =
     (finish_peer acc)\<lparr>ss_peers := ss_peers (finish_peer acc) @ map (read_back I port) ps\<rparr>"
  using assms(2)
proof (induction ps arbitrary: acc)
  case Nil
  then show ?case by simp
next
  case (Cons p ps)
  have "foldl config_line acc (map trim (peer_lines I port p)) = (finish_peer acc, Some (read_back I port p))"
    using Cons.prems by (intro peer_section assms(1)) (simp_all add: peer_ok_def)
  with Cons show ?case by (simp add: finish_peer_def [of "(_, Some _)"])
qed

definition one_line :: "string \<Rightarrow> bool" where
  "one_line l \<longleftrightarrow> CHR 0x0A \<notin> set l \<and> (l = [] \<or> last l \<noteq> CHR 0x0D)"

lemma graphic_no_break: "graphic c \<Longrightarrow> c \<noteq> CHR 0x0A \<and> c \<noteq> CHR 0x0D"
  by (auto simp: graphic_def byte_in_def)

lemma tok_one_line: "tok s \<Longrightarrow> one_line s"
proof -
  assume "tok s"
  then have "s \<noteq> []" "\<forall>c\<in>set s. c \<noteq> CHR 0x0A \<and> c \<noteq> CHR 0x0D"
    using graphic_no_break by (auto simp: tok_def list_all_iff)
  then show ?thesis by (auto simp: one_line_def)
qed

lemma one_line_append: "one_line a \<Longrightarrow> one_line b \<Longrightarrow> b \<noteq> [] \<Longrightarrow> one_line (a @ b)"
  by (auto simp: one_line_def)

lemma one_line_join: "\<forall>p\<in>set ps. tok p \<Longrightarrow> one_line (join '', '' ps)"
proof (induction "'', ''" ps rule: join.induct)
  case 1
  then show ?case by (simp add: one_line_def)
next
  case (2 x)
  then show ?case by (simp add: tok_one_line)
next
  case (3 x y zs)
  have x: "one_line x" using 3 by (simp add: tok_one_line)
  have r: "one_line (join '', '' (y # zs))" using 3 by simp
  have "tok y" using 3 by simp
  then have ne: "join '', '' (y # zs) \<noteq> []" by (cases zs) (auto simp: tok_def)
  have "one_line ('', '' @ join '', '' (y # zs))" using r ne by (auto simp: one_line_def)
  then show ?case using one_line_append [OF x] by simp
qed

lemma config_lines_break_free:
  assumes "shows_tokens I" "\<forall>p\<in>set ps. peer_ok p" "tok key"
  shows "\<forall>l\<in>set (config_file_lines I key ip port ps). one_line l"
proof -
  have lit: "one_line ''[Interface]''" "one_line ''Address = ''" "one_line ''ListenPort = ''"
    "one_line ''PrivateKey = ''" "one_line ''[Peer]''" "one_line ''# ''" "one_line ''PublicKey = ''"
    "one_line ''AllowedIPs = ''" "one_line ''Endpoint = ''" "one_line ''PersistentKeepalive = 25''" "one_line []"
    by (simp_all add: one_line_def)
  have port: "tok (show_port port)" by (auto simp: tok_def show_port_def list_all_iff dest: show_nat_graphic)
  have tl: "one_line (l @ v)" if "one_line l" "tok v" for l v
    using one_line_append [OF that(1) tok_one_line [OF that(2)]] that(2) by (simp add: tok_def)
  have peer: "\<forall>l\<in>set (peer_lines I port p). one_line l" if p: "peer_ok p" for p
  proof -
    have "one_line (allowed_ips_line I p)" "allowed_ips_line I p \<noteq> []"
      using one_line_join [of "allowed_parts I p"] join_edged [of "allowed_parts I p"] allowed_parts_tok [OF assms(1), of p]
      by (auto simp: allowed_ips_line_def allowed_parts_def edged_def)
    then have al: "one_line (''AllowedIPs = '' @ allowed_ips_line I p)" by (rule one_line_append [OF lit(8)])
    have e: "tok (pc_endpoint p)" "tok (pc_public_key p)" "tok (endpoint_addr (pc_endpoint p) port)"
      using p by (simp_all add: peer_ok_def endpoint_addr_tok)
    show ?thesis
      using al tl [OF lit(6) e(1)] tl [OF lit(7) e(2)] tl [OF lit(9) e(3)] lit(5,10,11)
      by (simp only: peer_lines_def list.set ball_simps simp_thms)
  qed
  have hdr: "one_line (''Address = '' @ show_ipv4 ip @ ''/32'')" "one_line (''ListenPort = '' @ show_port port)"
    "one_line (''PrivateKey = '' @ key)"
    using tl [OF lit(2) tok_append [OF tok_show_ipv4 tok_32]] tl [OF lit(3) port] tl [OF lit(4) assms(3)]
    by blast+
  have "\<forall>l\<in>set (concat (map (peer_lines I port) ps)). one_line l" using peer assms(2) by auto
  then show ?thesis
    using hdr lit(1) by (simp only: config_file_lines_def set_append ball_Un list.set ball_simps simp_thms)
qed

text \<open>C24: What the CLI writes, its probe reads back. Parsing a rendered configuration yields the
  written management address and listen port, and one peer for every written peer, in order, with its
  key, its endpoint (completed by the port), its allowed addresses and the keepalive; this is the state
  the planner compares with the desired one.\<close>

theorem config_round_trip:
  fixes I :: "'n ipnet" and s :: "'n server_state"
  assumes "shows_tokens I" "\<forall>p\<in>set peers. peer_ok p"
  shows "parse_config s (render_config I ip port peers) =
     s\<lparr>ss_wireguard_mgmt_ip := Some ip, ss_listen_port := port,
       ss_peers := ss_peers s @ map (read_back I port) peers\<rparr>"
proof -
  have key: "tok ''__PRIVKEY__''" by (simp add: tok_def graphic_def byte_in_def)
  have ls: "lines (render_config I ip port peers) = config_file_lines I ''__PRIVKEY__'' ip port peers"
    unfolding render_config_lines using config_lines_break_free [OF assms key, of ip port]
    by (intro lines_concat) (simp add: one_line_def)
  have addr: "edged (show_ipv4 ip @ ''/32'')" using tok_append [OF tok_show_ipv4 tok_32] by (rule tok_edged)
  have port: "edged (show_port port)" by (simp add: show_port_def edged_show_nat)
  have eqs: "''Address = '' = ''Address'' @ '' = ''" "''ListenPort = '' = ''ListenPort'' @ '' = ''"
    "''PrivateKey = '' = ''PrivateKey'' @ '' = ''" by simp_all
  have tr: "trim (k @ '' = '' @ v) = k @ '' = '' @ v" if "edged k" "edged v" for k v
    using that by (intro trim_edged edged_pair)
  have k: "CHR ''='' \<notin> set ''Address''" "CHR ''='' \<notin> set ''ListenPort''" "CHR ''='' \<notin> set ''PrivateKey''"
    "hd ''Address'' \<noteq> CHR ''[''" "hd ''ListenPort'' \<noteq> CHR ''[''" "hd ''PrivateKey'' \<noteq> CHR ''[''" by simp_all
  have ip: "hd (split_on (CHR ''/'') (show_ipv4 ip @ ''/32'')) = show_ipv4 ip"
    using split_on_hd [of "CHR ''/''" "show_ipv4 ip" "''32''"] show_ipv4_graphic by fastforce
  have step: "config_line (s, None) ''[Interface]'' = (s, None)"
    "config_line (s, None) (''Address'' @ '' = '' @ show_ipv4 ip @ ''/32'') = (s\<lparr>ss_wireguard_mgmt_ip := Some ip\<rparr>, None)"
    "config_line (s, None) (''ListenPort'' @ '' = '' @ show_port port) = (s\<lparr>ss_listen_port := port\<rparr>, None)"
    "config_line (s, None) (''PrivateKey'' @ '' = '' @ ''__PRIVKEY__'') = (s, None)" for s :: "'n server_state"
    using config_line_kv [OF k(1) edged_words(7) addr k(4), of s None]
      config_line_kv [OF k(2) edged_words(8) port k(5), of s None]
      config_line_kv [OF k(3) edged_words(9,10) k(6), of s None] ip parse_show_ipv4 [of ip] parse_u16_show [of port]
    by (simp_all add: config_line_def split_once_def)
  let ?s = "s\<lparr>ss_wireguard_mgmt_ip := Some ip, ss_listen_port := port\<rparr>"
  have "foldl config_line (s, None) (map trim (config_file_lines I ''__PRIVKEY__'' ip port peers)) =
      foldl config_line (?s, None) (map trim (concat (map (peer_lines I port) peers)))"
    unfolding config_file_lines_def eqs append_assoc map_append foldl_append list.map foldl_Cons foldl_Nil
      trim_edged [OF edged_words(11)] tr [OF edged_words(7) addr] tr [OF edged_words(8) port]
      tr [OF edged_words(9,10)] step ..
  then show ?thesis
    using peers_fold [OF assms, of "(?s, None)" port]
    by (simp add: parse_config_finish ls finish_peer_def)
qed


section \<open>A sample\<close>

definition sample_peer :: "(ipv4 \<times> nat) peer_config" where
  "sample_peer = \<lparr>pc_endpoint = ''203.0.113.7'', pc_public_key = ''kb='', pc_mgmt_ip = 0x64400002,
     pc_container_subnets = [(0x0AD20100, 24)]\<rparr>"

lemma pair_net_shows: "shows_tokens pair_net"
proof -
  have "tok (show_ipv4 a @ ''/'' @ show_nat p)" for a p
    using tok_show_ipv4 [of a] show_nat_graphic [of _ p] by (auto simp: tok_def list_all_iff graphic_def byte_in_def)
  moreover have "CHR '','' \<notin> set (show_ipv4 a @ ''/'' @ show_nat p)" for a p
    using show_ipv4_graphic [of "CHR '',''" a] show_nat_graphic [of "CHR '',''" p] by auto
  ultimately show ?thesis by (auto simp: shows_tokens_def pair_net_def)
qed

lemma sample_peer_ok: "peer_ok sample_peer"
  by (simp add: peer_ok_def sample_peer_def tok_def graphic_def byte_in_def)

theorem config_round_trip_witness:
  "ss_peers (parse_config (server_default :: (ipv4 \<times> nat) server_state) (render_config pair_net 0x64400001 51820 [sample_peer])) =
     [read_back pair_net 51820 sample_peer]
   \<and> ss_wireguard_mgmt_ip (parse_config (server_default :: (ipv4 \<times> nat) server_state) (render_config pair_net 0x64400001 51820 [sample_peer])) =
     Some 0x64400001"
  using config_round_trip [OF pair_net_shows, of "[sample_peer]" server_default "0x64400001" "51820"] sample_peer_ok
  by (simp add: server_default_def)

end
