(* ===== verification/CliApply.thy ===== *)
theory CliApply
  imports CliPlan CliRemote CliRoundtrip Effects
begin

text \<open>
  \<open>wireguard/apply.rs\<close> of \<open>coolify-cli\<close>: the three phases that carry out a plan over the hosts.
  A computation on the remote machines is a function of their state \<open>'w\<close>; an error ends it but
  keeps what it did to the machines.
\<close>

section \<open>Steps\<close>

record action_result =
  ar_action :: planned_action
  ar_status :: string
  ar_detail :: string

record verify_result =
  vr_host :: string
  vr_wireguard_ip :: string
  vr_peer_count :: nat
  vr_status :: string

definition APT_WG :: string where
  \<open>APT_WG =
     ''DEBIAN_FRONTEND=noninteractive apt-get update -qq 2>/dev/null '' @
     ''&& DEBIAN_FRONTEND=noninteractive apt-get install -y -o Dpkg::Options::="--force-confo'' @
     ''ld" wireguard wireguard-tools 2>&1''\<close>

definition APT_PODMAN :: string where
  \<open>APT_PODMAN =
     ''DEBIAN_FRONTEND=noninteractive apt-get update -qq 2>/dev/null '' @
     ''&& DEBIAN_FRONTEND=noninteractive apt-get install -y -o Dpkg::Options::="--force-confo'' @
     ''ld" podman nftables 2>&1''\<close>

definition ENABLE_PODMAN :: string where
  \<open>ENABLE_PODMAN =
     ''systemctl enable --now podman.socket 2>&1''\<close>

definition ENABLE_IP_FORWARD :: string where
  \<open>ENABLE_IP_FORWARD =
     ''sysctl -w net.ipv4.ip_forward=1 && mkdir -p /etc/sysctl.d && echo '' @ [CHR 0x27] @
     ''net.ipv4.ip_forward=1'' @ [CHR 0x27] @ '' > /etc/sysctl.d/99-coolify-mesh.conf''\<close>

definition should_run :: "'n plan \<Rightarrow> string \<Rightarrow> action_type \<Rightarrow> string \<Rightarrow> bool" where
  "should_run plan host t ns =
     list_ex (\<lambda>a. pa_host a = host \<and> pa_action_type a = t \<and> (ns = [] \<or> pa_namespace a = ns)) (pl_actions plan)"

text \<open>A failed step is also pushed to the results, but the error that is returned with it makes the
  caller drop the list.\<close>

definition step ::
  "'w runner \<Rightarrow> string \<Rightarrow> action_type \<Rightarrow> string \<Rightarrow> string \<Rightarrow> action_result list \<Rightarrow> ('w, action_result list) io" where
  "step run host t ns cmd out w =
     (case run host cmd w of
        (Inr o', w') \<Rightarrow>
          (Inr (out @ [\<lparr>ar_action = mk_action host ns t [], ar_status = ''ok'',
             ar_detail = (case first_line (ro_stdout o') of Some l \<Rightarrow> l | None \<Rightarrow> [])\<rparr>]), w')
      | (Inl e, w') \<Rightarrow> (Inl e, w'))"

definition step_if ::
  "bool \<Rightarrow> 'w runner \<Rightarrow> string \<Rightarrow> action_type \<Rightarrow> string \<Rightarrow> string \<Rightarrow> action_result list \<Rightarrow>
   ('w, action_result list) io" where
  "step_if b run host t ns cmd out = (if b then step run host t ns cmd out else io_return out)"

definition err_result :: "string \<Rightarrow> action_type \<Rightarrow> string \<Rightarrow> action_result" where
  "err_result host t e = \<lparr>ar_action = mk_action host [] t [], ar_status = ''error'', ar_detail = e\<rparr>"

section \<open>Phases\<close>

definition phase1 ::
  "'w runner \<Rightarrow> 'n desired_mesh \<Rightarrow> 'n mesh_state \<Rightarrow> 'n plan \<Rightarrow> string \<Rightarrow> ('w, action_result list) io" where
  "phase1 run d cur planned host =
     (let st = server_of cur host; node = (is_node d host \<and> dm_install_podman d);
          wanted = (\<lambda>t. should_run planned host t []) in
      io_bind (step_if (\<not> ss_installed st \<and> wanted InstallWg) run host InstallWg [] APT_WG []) (\<lambda>out.
      io_bind (step_if (\<not> ss_keys_exist st \<and> wanted GenKeyPair) run host GenKeyPair [] genkey_command out) (\<lambda>out.
      io_bind (step_if (node \<and> \<not> ss_podman_installed st \<and> wanted InstallPodman)
                     run host InstallPodman [] APT_PODMAN out) (\<lambda>out.
      io_bind (step_if (node \<and> \<not> ss_podman_socket_active st \<and> wanted EnablePodmanSocket)
                     run host EnablePodmanSocket [] ENABLE_PODMAN out) (\<lambda>out.
      step_if (node \<and> \<not> ss_ip_forward_enabled st \<and> wanted EnableIpForward)
        run host EnableIpForward [] ENABLE_IP_FORWARD out)))))"

text \<open>The peers of a host's configuration: every other host whose key is known.\<close>

definition known_peers :: "'n desired_mesh \<Rightarrow> 'n mesh_state \<Rightarrow> string \<Rightarrow> string list" where
  "known_peers d fresh host =
     filter (\<lambda>p. p \<noteq> host \<and>
        (case bt_get (servers fresh) p of Some s \<Rightarrow> ss_public_key s \<noteq> [] | None \<Rightarrow> False)) (dm_hosts d)"

definition peer_config_of ::
  "'n desired_mesh \<Rightarrow> 'n mesh_state \<Rightarrow> (string, ipv4) btree \<Rightarrow> (string, (string, 'n) btree) btree \<Rightarrow> string \<Rightarrow>
   'n peer_config result" where
  "peer_config_of d fresh mgmt subnets p =
     and_then (bt_index mgmt p) (\<lambda>ip.
     and_then (if is_node d p then map_result (subnet_at subnets p) (sorted_namespaces d) else Inr []) (\<lambda>nets.
     Inr \<lparr>pc_endpoint = endpoint_for d p, pc_public_key = ss_public_key (server_of fresh p), pc_mgmt_ip = ip,
          pc_container_subnets = nets\<rparr>))"

definition peer_configs ::
  "'n desired_mesh \<Rightarrow> 'n mesh_state \<Rightarrow> (string, ipv4) btree \<Rightarrow> (string, (string, 'n) btree) btree \<Rightarrow> string \<Rightarrow>
   'n peer_config list result" where
  "peer_configs d fresh mgmt subnets host =
     map_result (peer_config_of d fresh mgmt subnets) (known_peers d fresh host)"

definition wg_service_command :: "bool \<Rightarrow> string \<Rightarrow> string" where
  \<open>wg_service_command active iface =
     (if active then
          ''systemctl restart wg-quick@'' @ iface @ '' 2>&1 || wg syncconf '' @ iface @
          '' <(wg-quick strip '' @ iface @ '') 2>&1''
      else
          ''systemctl enable --now wg-quick@'' @ iface @ '' 2>&1'')\<close>

definition network_command :: "'n ipnet \<Rightarrow> bool \<Rightarrow> string \<Rightarrow> 'n \<Rightarrow> string" where
  \<open>network_command I recreate ns sn =
     (let net = podman_network_for ns in
      if recreate then
          ''podman network rm -f '' @ net @
          '' 2>&1 && podman network create --driver bridge --disable-dns --label '' @
          ''io.coolify.managed=true --label io.coolify.namespace='' @ ns @ '' --subnet='' @
          net_show I sn @ '' --gateway='' @ show_ipv4 (machine_ip I sn) @ '' '' @ net
      else
          ''podman network exists '' @ net @ '' 2>/dev/null && echo '' @ [CHR 0x27] @
          ''network exists, skipping'' @ [CHR 0x27] @
          '' || podman network create --driver bridge --disable-dns --label '' @
          ''io.coolify.managed=true --label io.coolify.namespace='' @ ns @ '' --subnet='' @
          net_show I sn @ '' --gateway='' @ show_ipv4 (machine_ip I sn) @ '' '' @ net)\<close>

fun network_steps ::
  "'n ipnet \<Rightarrow> 'w runner \<Rightarrow> 'n plan \<Rightarrow> (string, (string, 'n) btree) btree \<Rightarrow> string \<Rightarrow> string list \<Rightarrow>
   action_result list \<Rightarrow> ('w, action_result list) io" where
  "network_steps I run planned subnets host [] out = io_return out"
| "network_steps I run planned subnets host (ns # nss) out =
     (let create = should_run planned host CreatePodmanNetwork ns;
          recreate = should_run planned host RecreatePodmanNetwork ns in
      if \<not> create \<and> \<not> recreate then network_steps I run planned subnets host nss out
      else
        io_bind (io_lift (subnet_at subnets host ns)) (\<lambda>sn.
        io_bind (step run host (if recreate then RecreatePodmanNetwork else CreatePodmanNetwork) ns
                       (network_command I recreate ns sn) out)
          (network_steps I run planned subnets host nss)))"

definition phase2 ::
  "'n ipnet \<Rightarrow> 'w runner \<Rightarrow> 'n desired_mesh \<Rightarrow> 'n mesh_state \<Rightarrow> (string, ipv4) btree \<Rightarrow>
   (string, (string, 'n) btree) btree \<Rightarrow> 'n plan \<Rightarrow> string \<Rightarrow> ('w, action_result list) io" where
  "phase2 I run d fresh mgmt subnets planned host =
     io_bind (io_lift (peer_configs d fresh mgmt subnets host)) (\<lambda>peers.
     io_bind (if should_run planned host WriteConfig [] then
                    io_bind (io_lift (bt_index mgmt host)) (\<lambda>ip.
                    step run host WriteConfig []
                      (write_config_command I (dm_interface d) ip (listen_port_for d host) peers) [])
                  else io_return []) (\<lambda>out.
     let active = (case bt_get (servers fresh) host of Some s \<Rightarrow> ss_active s | None \<Rightarrow> False);
         svc_action = (if active then ReloadService else EnableService) in
     io_bind (step_if (should_run planned host svc_action []) run host svc_action []
                    (wg_service_command active (dm_interface d)) out) (\<lambda>out.
     if is_node d host \<and> dm_install_podman d then
       io_bind (network_steps I run planned subnets host (sorted_namespaces d) out) (\<lambda>out.
       if should_run planned host InstallFirewall [] then
         io_bind (io_lift (map_result (subnet_at subnets host) (sorted_namespaces d))) (\<lambda>host_subnets.
         step run host InstallFirewall []
           (install_firewall_command I (dm_interface d) (sorted_namespaces d) host_subnets
              (dm_default_deny_containers d)) out)
       else io_return out)
     else io_return out)))"

definition tls_provision :: "'n desired_mesh \<Rightarrow> string" where
  "tls_provision d =
     (case dm_corrosion_gossip_tls d of
        None \<Rightarrow> []
      | Some tls \<Rightarrow> ''mkdir -p '' @ GOSSIP_TLS_DIR @ '' && '' @
          heredoc GOSSIP_TLS_CERT_PATH (cert_pem tls) ''0644'' @ '' && '' @
          heredoc GOSSIP_TLS_KEY_PATH (key_pem tls) ''0600'' @ '' && '')"

definition coold_service_command ::
  "'n desired_mesh \<Rightarrow> ipv4 \<Rightarrow> coold_namespace list \<Rightarrow> string" where
  \<open>coold_service_command d ip ns =
     (let flux_pin = (case dm_flux_tls d of
            None \<Rightarrow> []
          | Some tls \<Rightarrow> heredoc ''/etc/coolify/flux.pin'' (cert_pem tls) ''0644'' @ '' && '');
          anchor_file = heredoc ''/etc/systemd/system/coolify-mesh-dns-anchor.service''
            (mesh_dns_anchor_unit ns) ''0644'';
          resolver_file = heredoc ''/etc/systemd/system/coolify-mesh-dns-resolver.service''
            (mesh_dns_resolver_unit ns) ''0644'';
          coold_file = heredoc ''/etc/systemd/system/coold.service''
            (coold_service_unit ip ns (desired_flux_config d)) ''0644'' in
      ''mkdir -p /etc/coolify /data/coolify && '' @ flux_pin @
      ''rm -f /etc/systemd/resolved.conf.d/coolify-internal.conf && '' @ anchor_file @ '' && '' @
      resolver_file @ '' && '' @ coold_file @
      '' && systemctl daemon-reload && systemctl enable --now '' @ MESH_DNS_ANCHOR_SERVICE @ '' '' @
      MESH_DNS_RESOLVER_SERVICE @ '' coold'')\<close>

definition phase3 ::
  "'n ipnet \<Rightarrow> 'w runner \<Rightarrow> 'n desired_mesh \<Rightarrow> (string, ipv4) btree \<Rightarrow>
   (string, (string, 'n) btree) btree \<Rightarrow> 'n plan \<Rightarrow> string \<Rightarrow> ('w, action_result list) io" where
  "phase3 I run d mgmt subnets planned host =
     (let wanted = (\<lambda>t. should_run planned host t []) in
      io_bind (step_if (wanted InstallCorrosion) run host InstallCorrosion []
        (corrosion_install_command (dm_corrosion_version d) (dm_corrosion_sha256 d)) []) (\<lambda>out.
      io_bind (step_if (wanted InstallCoold) run host InstallCoold []
        (coold_install_command (dm_coold_version d) (dm_coold_sha256 d)) out) (\<lambda>out.
      io_bind (io_lift (map_result (bt_index mgmt) (filter (\<lambda>h. h \<noteq> host) (dm_nodes d)))) (\<lambda>peers.
      io_bind (if wanted WriteCorrosionConfig then
          io_bind (io_lift (and_then (bt_index mgmt host) (\<lambda>ip.
            config_bytes ip (dm_corrosion_gossip_port d) (dm_corrosion_api_port d) peers
              (dm_corrosion_gossip_tls d \<noteq> None)))) (\<lambda>cfg.
          step run host WriteCorrosionConfig []
            (''mkdir -p /etc/corrosion && '' @ tls_provision d @
             heredoc ''/etc/corrosion/config.toml'' cfg ''0644'') out)
        else io_return out) (\<lambda>out.
      io_bind (step_if (wanted WriteCorrosionSchema) run host WriteCorrosionSchema []
        (''mkdir -p /etc/corrosion/schemas && '' @
         heredoc ''/etc/corrosion/schemas/coolify.sql'' COOLIFY_SCHEMA_SQL ''0644'') out) (\<lambda>out.
      io_bind (step_if (wanted InstallCorrosionService) run host InstallCorrosionService []
        (heredoc ''/etc/systemd/system/corrosion.service'' (corrosion_service_unit (dm_interface d)) ''0644'' @
         '' && systemctl daemon-reload && systemctl enable --now corrosion'') out) (\<lambda>out.
      if wanted InstallCooldService then
        io_bind (io_lift (and_then (ns_configs I subnets host (sorted_namespaces d)) (\<lambda>ns.
          and_then (bt_index mgmt host) (\<lambda>ip. Inr (ns, ip))))) (\<lambda>(ns, ip).
        step run host InstallCooldService [] (coold_service_command d ip ns) out)
      else io_return out)))))))"

section \<open>The whole run\<close>

text \<open>The results of one phase: those of the hosts that succeeded, an error entry for each other host,
  and whether there was one.\<close>

definition gather ::
  "action_type \<Rightarrow> action_result list server_result list \<Rightarrow> action_result list \<times> bool" where
  "gather t rs =
     (concat (map (\<lambda>r. case sr_result r of
         Some v \<Rightarrow> v
       | None \<Rightarrow> [err_result (sr_host r) t (case sr_error r of Some e \<Rightarrow> e | None \<Rightarrow> [])]) rs),
      list_ex (\<lambda>r. sr_result r = None) rs)"

text \<open>\<open>None\<close> is a run that does not return, which only the allocation can cause.\<close>

definition apply_mesh ::
  "'n ipnet \<Rightarrow> (string \<Rightarrow> string) \<Rightarrow> (string \<Rightarrow> string option) \<Rightarrow> (string list \<Rightarrow> string list) \<Rightarrow> 'w runner \<Rightarrow>
   'n desired_mesh \<Rightarrow> 'n mesh_state \<Rightarrow> 'w \<Rightarrow> (action_result list result \<times> 'w) option" where
  "apply_mesh I sha b64 sched run d cur w =
     (case build_plan I sha d cur of
        None \<Rightarrow> None
      | Some (Inl e) \<Rightarrow> Some (Inl e, w)
      | Some (Inr planned) \<Rightarrow>
     (case for_each_server sched (dm_hosts d) (phase1 run d cur planned) w of (p1, w1) \<Rightarrow>
      case gather InstallWg p1 of (all1, failed) \<Rightarrow>
      if failed then
        Some (Inl ''phase 1 (install/keygen) failed on one or more mesh hosts; aborting'', w1)
      else
      case reconstruct I b64 sched run (dm_hosts d) (dm_interface d) (dm_namespaces d) w1 of ((fresh, _), w2) \<Rightarrow>
      (case allocate_mgmt_ips I (dm_mgmt_pool d) (assigned_mgmt_ips fresh) (dm_hosts d) of
         None \<Rightarrow> None
       | Some (Inl e) \<Rightarrow> Some (Inl e, w2)
       | Some (Inr (mgmt, _)) \<Rightarrow>
      (case allocate_namespaced I (dm_container_pool d) (dm_container_prefix d)
              (assigned_container_subnets fresh) (dm_namespaces d) (dm_nodes d) of
         None \<Rightarrow> None
       | Some (Inl e) \<Rightarrow> Some (Inl e, w2)
       | Some (Inr (subnets, _)) \<Rightarrow>
      (case for_each_server sched (dm_hosts d) (phase2 I run d fresh mgmt subnets planned) w2 of (p2, w3) \<Rightarrow>
       case gather WriteConfig p2 of (all2, err2) \<Rightarrow>
       if dm_install_coold d \<and> \<not> err2 then
         (case for_each_server sched (dm_nodes d) (phase3 I run d mgmt subnets planned) w3 of (p3, w4) \<Rightarrow>
          case gather InstallCoold p3 of (all3, err3) \<Rightarrow>
          if err3 then Some (Inl ''phase 3 failed'', w4)
          else Some (Inr (all1 @ all2 @ all3), w4))
       else if err2 then Some (Inl ''phase 2 failed'', w3)
       else Some (Inr (all1 @ all2), w3))))))"

definition verify_host ::
  "'w runner \<Rightarrow> string \<Rightarrow> string \<Rightarrow> ('w, verify_result) io" where
  \<open>verify_host run iface host =
     io_bind (run host (
      ''ip -o -4 addr show '' @ iface @ '' 2>/dev/null | awk '' @ [CHR 0x27] @ ''{print $4}'' @
      [CHR 0x27] @ '' | cut -d/ -f1 | head -n1'')) (\<lambda>addr.
     io_bind (run host (
      ''wg show '' @ iface @ '' dump 2>/dev/null || true'')) (\<lambda>dump.
     io_return \<lparr>vr_host = host,
       vr_wireguard_ip = (case lines (ro_stdout addr) of [] \<Rightarrow> trim [] | l # _ \<Rightarrow> trim l),
       vr_peer_count = length (lines (ro_stdout dump)) - 1, vr_status = ''ok''\<rparr>))\<close>

definition verify ::
  "(string list \<Rightarrow> string list) \<Rightarrow> 'w runner \<Rightarrow> string list \<Rightarrow> string \<Rightarrow> 'w \<Rightarrow> verify_result list \<times> 'w" where
  "verify sched run hosts iface w =
     (case for_each_server sched hosts (verify_host run iface) w of
        (rs, w') \<Rightarrow>
          (map (\<lambda>r. case sr_result r of
              Some v \<Rightarrow> v
            | None \<Rightarrow> \<lparr>vr_host = sr_host r, vr_wireguard_ip = [], vr_peer_count = 0, vr_status = ''error''\<rparr>) rs,
           w'))"

definition plan_only ::
  "'n ipnet \<Rightarrow> (string \<Rightarrow> string) \<Rightarrow> (string \<Rightarrow> string option) \<Rightarrow> (string list \<Rightarrow> string list) \<Rightarrow> 'w runner \<Rightarrow>
   'n desired_mesh \<Rightarrow> 'w \<Rightarrow> ('n plan result \<times> 'w) option" where
  "plan_only I sha b64 sched run d w =
     (case reconstruct I b64 sched run (dm_hosts d) (dm_interface d) (dm_namespaces d) w of
        ((cur, _), w') \<Rightarrow> map_option (\<lambda>r. (r, w')) (build_plan I sha d cur))"

section \<open>Only planned actions are carried out\<close>

text \<open>\<open>keeps P m\<close>: whatever list of results \<open>m\<close> returns, all of them satisfy \<open>P\<close>.\<close>

definition keeps :: "(action_result \<Rightarrow> bool) \<Rightarrow> ('w, action_result list) io \<Rightarrow> bool" where
  "keeps P m \<longleftrightarrow> (\<forall>w out w'. m w = (Inr out, w') \<longrightarrow> (\<forall>r\<in>set out. P r))"

named_theorems keeps_intros \<open>rules that push \<open>keeps\<close> through a phase\<close>

lemma keeps_return [keeps_intros]: "\<forall>r\<in>set out. P r \<Longrightarrow> keeps P (io_return out)"
  by (simp add: keeps_def io_return_def)

lemma keeps_step [keeps_intros]:
  assumes "\<forall>r\<in>set out. P r" "\<And>dt. P \<lparr>ar_action = mk_action host ns t [], ar_status = ''ok'', ar_detail = dt\<rparr>"
  shows "keeps P (step run host t ns cmd out)"
  using assms by (auto simp: keeps_def step_def split: prod.splits sum.splits)

lemma keeps_step_if [keeps_intros]:
  assumes "\<forall>r\<in>set out. P r"
    "\<And>dt. b \<Longrightarrow> P \<lparr>ar_action = mk_action host ns t [], ar_status = ''ok'', ar_detail = dt\<rparr>"
  shows "keeps P (step_if b run host t ns cmd out)"
proof (cases b)
  case True
  then show ?thesis unfolding step_if_def using keeps_step [OF assms(1) assms(2) [OF True]] by simp
next
  case False
  then show ?thesis unfolding step_if_def using keeps_return [OF assms(1)] by simp
qed

lemma keeps_bind [keeps_intros]:
  assumes "keeps P m" "\<And>out. \<forall>r\<in>set out. P r \<Longrightarrow> keeps P (f out)"
  shows "keeps P (io_bind m f)"
  unfolding keeps_def
proof (intro allI impI)
  fix w out w'
  assume b: "io_bind m f w = (Inr out, w')"
  obtain x w1 where m: "m w = (Inr x, w1)" "f x w1 = (Inr out, w')"
    using b by (auto simp: io_bind_def split: prod.splits sum.splits)
  have "\<forall>r\<in>set x. P r" using assms(1) m(1) unfolding keeps_def by blast
  from assms(2) [OF this] m(2) show "\<forall>r\<in>set out. P r" unfolding keeps_def by blast
qed

lemma keeps_bind_lift [keeps_intros]:
  "(\<And>a. keeps P (f a)) \<Longrightarrow> keeps P (io_bind (io_lift x) f)"
  by (auto simp: keeps_def io_bind_def io_lift_def split: sum.splits)

lemma keeps_if [keeps_intros]:
  "(b \<Longrightarrow> keeps P m) \<Longrightarrow> (\<not> b \<Longrightarrow> keeps P m') \<Longrightarrow> keeps P (if b then m else m')"
  by simp

definition applied :: "'n plan \<Rightarrow> string \<Rightarrow> action_result \<Rightarrow> bool" where
  "applied planned host r \<longleftrightarrow>
     ar_status r = ''ok'' \<and> pa_host (ar_action r) = host \<and>
     should_run planned host (pa_action_type (ar_action r)) (pa_namespace (ar_action r))"

lemma appliedI:
  "should_run planned host t ns \<Longrightarrow>
   applied planned host \<lparr>ar_action = mk_action host ns t [], ar_status = ''ok'', ar_detail = dt\<rparr>"
  by (simp add: applied_def)

lemma phase1_keeps: "keeps (applied planned host) (phase1 run d cur planned host)"
  unfolding phase1_def Let_def by (intro keeps_intros appliedI) auto

lemma network_steps_keeps:
  "\<forall>r\<in>set out. applied planned host r \<Longrightarrow>
   keeps (applied planned host) (network_steps I run planned subnets host nss out)"
proof (induction nss arbitrary: out)
  case Nil
  then show ?case by (simp add: keeps_return)
next
  case (Cons ns nss)
  let ?c = "should_run planned host CreatePodmanNetwork ns"
  let ?r = "should_run planned host RecreatePodmanNetwork ns"
  show ?case
  proof (cases "?c \<or> ?r")
    case False
    then show ?thesis using Cons by simp
  next
    case True
    have "keeps (applied planned host)
      (io_bind (io_lift (subnet_at subnets host ns)) (\<lambda>sn.
        io_bind (step run host (if ?r then RecreatePodmanNetwork else CreatePodmanNetwork) ns
                       (network_command I ?r ns sn) out)
          (network_steps I run planned subnets host nss)))"
      using True by (intro keeps_bind_lift keeps_bind keeps_step Cons appliedI) auto
    moreover have "\<not> (\<not> ?c \<and> \<not> ?r)" using True by blast
    ultimately show ?thesis unfolding network_steps.simps Let_def by (simp only: if_False)
  qed
qed

lemma phase2_keeps: "keeps (applied planned host) (phase2 I run d fresh mgmt subnets planned host)"
  unfolding phase2_def Let_def
  by (intro keeps_bind_lift keeps_bind keeps_if keeps_step keeps_step_if keeps_return network_steps_keeps appliedI) auto

lemma keeps_case_prod [keeps_intros]: "(\<And>a b. keeps P (f a b)) \<Longrightarrow> keeps P (case x of (a, b) \<Rightarrow> f a b)"
  by (cases x) simp

lemma phase3_keeps: "keeps (applied planned host) (phase3 I run d mgmt subnets planned host)"
  unfolding phase3_def Let_def
  by (intro keeps_bind_lift keeps_bind keeps_if keeps_case_prod keeps_step keeps_step_if keeps_return appliedI) auto

lemma for_each_host_results:
  assumes "for_each_host f hosts w = (rs, w')" "r \<in> set rs" "sr_result r = Some v"
  shows "\<exists>w0 w1. f (sr_host r) w0 = (Inr v, w1)"
  using assms
proof (induction hosts arbitrary: w rs w')
  case Nil
  then show ?case by simp
next
  case (Cons h hs)
  obtain x w1 rs1 where x: "f h w = (x, w1)" "for_each_host f hs w1 = (rs1, w')"
    "rs = (case x of Inr a \<Rightarrow> \<lparr>sr_host = h, sr_result = Some a, sr_error = None\<rparr>
             | Inl e \<Rightarrow> \<lparr>sr_host = h, sr_result = None, sr_error = Some e\<rparr>) # rs1"
    using Cons.prems(1) by (auto split: prod.splits)
  show ?case
  proof (cases "r \<in> set rs1")
    case True
    then show ?thesis using Cons.IH [OF x(2)] Cons.prems(3) by blast
  next
    case False
    then have "x = Inr v \<and> sr_host r = h"
      using Cons.prems(2,3) x(3) by (auto split: sum.splits)
    with x(1) show ?thesis by blast
  qed
qed

lemma gather_member:
  assumes "for_each_server sched hosts f w = (rs, w')" "gather t rs = (all, False)" "r \<in> set all"
    and "\<And>h. keeps (applied planned h) (f h)"
  shows "\<exists>h. applied planned h r"
proof -
  obtain x v where x: "x \<in> set rs" "sr_result x = Some v" "r \<in> set v"
    using assms(2,3) by (force simp: gather_def list_ex_iff split: option.splits)
  then obtain w0 w1 where "f (sr_host x) w0 = (Inr v, w1)"
    using for_each_host_results assms(1) unfolding for_each_server_def by metis
  then show ?thesis using assms(4) x(3) unfolding keeps_def by blast
qed

lemma apply_mesh_planned:
  assumes "apply_mesh I sha b64 sched run d cur w = Some (Inr all, w')" "r \<in> set all"
  shows "\<exists>planned. build_plan I sha d cur = Some (Inr planned) \<and> ar_status r = ''ok'' \<and>
    should_run planned (pa_host (ar_action r)) (pa_action_type (ar_action r)) (pa_namespace (ar_action r))"
proof -
  obtain planned where pl: "build_plan I sha d cur = Some (Inr planned)"
    using assms(1) by (auto simp: apply_mesh_def split: option.splits sum.splits)
  have "\<exists>h. applied planned h r"
    using assms
    by (auto simp: apply_mesh_def pl split: prod.splits if_splits option.splits sum.splits
        dest: gather_member [OF _ _ _ phase1_keeps] gather_member [OF _ _ _ phase2_keeps]
          gather_member [OF _ _ _ phase3_keeps])
  with pl show ?thesis by (auto simp: applied_def)
qed

text \<open>Applying a mesh carries out planned actions only. Every action a successful run reports was
  run without error for the host it names, and the plan computed at its start holds an action of that
  type for that host (and for that namespace, where the action has one).\<close>

theorem apply_runs_only_planned:
  assumes "apply_mesh I sha b64 sched run d cur w = Some (Inr all, w')" "r \<in> set all"
  shows "\<exists>planned. build_plan I sha d cur = Some (Inr planned) \<and> ar_status r = ''ok'' \<and>
    should_run planned (pa_host (ar_action r)) (pa_action_type (ar_action r)) (pa_namespace (ar_action r))"
  by (rule apply_mesh_planned [OF assms])

section \<open>Failures\<close>

lemma for_each_host_failure:
  assumes "h \<in> set hosts" "\<And>w. \<exists>e w'. f h w = (Inl e, w')"
  shows "\<exists>r\<in>set (fst (for_each_host f hosts w)). sr_host r = h \<and> sr_result r = None"
  using assms(1)
proof (induction hosts arbitrary: w)
  case Nil
  then show ?case by simp
next
  case (Cons x xs)
  obtain r w1 where f: "f x w = (r, w1)" by fastforce
  obtain rs w2 where fs: "for_each_host f xs w1 = (rs, w2)" by fastforce
  show ?case
  proof (cases "x = h")
    case True
    then obtain e where "r = Inl e" using assms(2) [of w] f by auto
    then show ?thesis using f fs True by simp
  next
    case False
    then have "\<exists>r\<in>set rs. sr_host r = h \<and> sr_result r = None" using Cons fs by (metis fst_conv set_ConsD)
    then show ?thesis using f fs by simp
  qed
qed

text \<open>When the preparation of one host fails, the run ends after phase 1 with its error: no host
  is probed again, configured or given a service, and the machines are left as phase 1 left them.\<close>

theorem phase1_failure_aborts:
  assumes "build_plan I sha d cur = Some (Inr planned)" "h \<in> set (sched (dm_hosts d))"
    and "\<And>w. \<exists>e w'. phase1 run d cur planned h w = (Inl e, w')"
  shows "apply_mesh I sha b64 sched run d cur w =
    Some (Inl ''phase 1 (install/keygen) failed on one or more mesh hosts; aborting'',
      snd (for_each_server sched (dm_hosts d) (phase1 run d cur planned) w))"
proof -
  obtain p1 w1 where p: "for_each_host (phase1 run d cur planned) (sched (dm_hosts d)) w = (p1, w1)" by fastforce
  have "\<exists>r\<in>set p1. sr_result r = None"
    using for_each_host_failure [where f = "phase1 run d cur planned" and w = w, OF assms(2,3)] p by auto
  then have "snd (gather InstallWg p1)" by (auto simp: gather_def list_ex_iff)
  then show ?thesis
    by (cases "gather InstallWg p1") (simp add: apply_mesh_def assms(1) for_each_server_def p)
qed

section \<open>Endpoints\<close>

lemma peer_configs_member:
  assumes "peer_configs d fresh mgmt subnets host = Inr peers" "c \<in> set peers"
  obtains p where "p \<in> set (dm_hosts d)" "p \<noteq> host" "pc_endpoint c = endpoint_for d p"
proof -
  have "list_all2 (\<lambda>x y. peer_config_of d fresh mgmt subnets x = Inr y) (known_peers d fresh host) peers"
    using assms(1) by (simp add: peer_configs_def map_result_eq_Inr)
  from list_all2_set2 [OF this assms(2)] obtain p
    where p: "p \<in> set (known_peers d fresh host)" "peer_config_of d fresh mgmt subnets p = Inr c" by blast
  then have "pc_endpoint c = endpoint_for d p" by (auto simp: peer_config_of_def and_then_eq_Inr)
  with p(1) that show thesis by (auto simp: known_peers_def)
qed

text \<open>A peer whose endpoint has no port is written with the listen port of the host that holds the
  configuration, not with the port the peer itself listens on: \<open>--wg-listen-port-overrides\<close> of the peer
  is ignored.\<close>

theorem endpoint_port_of_the_writer:
  assumes "peer_configs d fresh mgmt subnets host = Inr peers" "c \<in> set peers"
    and "\<And>p. p \<in> set (dm_hosts d) \<Longrightarrow> CHR '':'' \<notin> set (endpoint_for d p)"
  shows "\<exists>p\<in>set (dm_hosts d). p \<noteq> host \<and>
    pe_endpoint (read_back I (listen_port_for d host) c) =
      endpoint_for d p @ '':'' @ show_port (listen_port_for d host)"
proof (rule peer_configs_member [OF assms(1,2)])
  fix p
  assume p: "p \<in> set (dm_hosts d)" "p \<noteq> host" "pc_endpoint c = endpoint_for d p"
  have "rsplit_once (CHR '':'') (endpoint_for d p) = None"
    using assms(3) [OF p(1)] by (simp add: rsplit_once_def split_once_def)
  then show ?thesis using p by (auto simp: read_back_def endpoint_addr_def)
qed

section \<open>Samples\<close>

definition sample_run :: "(string \<times> string) list runner" where
  "sample_run host cmd w = (Inr \<lparr>ro_stdout = [], ro_stderr = [], ro_status = 0\<rparr>, w @ [(host, cmd)])"

definition sample_lone :: "(ipv4 \<times> nat) desired_mesh" where
  "sample_lone = (sample_mesh Bootstrap [''a''])\<lparr>dm_nodes := []\<rparr>"

lemma sample_lone_plan:
  "\<exists>p. build_plan pair_net sample_sha sample_lone \<lparr>servers = []\<rparr> = Some (Inr p) \<and>
     map pa_action_type (pl_actions p) = [InstallWg, GenKeyPair, WriteConfig, EnableService]"
proof -
  have m: "allocate_mgmt_ips pair_net (0x64400000, 16) [] [''a''] = Some (Inr ([(''a'', 0x64400001)], []))"
    by (simp add: allocate_mgmt_ips_def alloc_eval)
  have n: "allocate_namespaced pair_net (0x0AD20000, 16) 24 [] [''default''] [] = Some (Inr ([], []))"
    by (simp add: allocate_namespaced_def all_existing_def alloc_eval)
  show ?thesis
    by (simp add: build_plan_def sample_lone_def sample_mesh_def validate_intent_def assigned_mgmt_ips_def
        assigned_container_subnets_def m n plan_host_def wg_actions_def needs_config_def server_of_def
        server_default_def desired_keys_def current_keys_def key_set_def peer_key_pending_def
        List.map_filter_def bt_index_def push_if_def filter_by_intent_def)
qed

lemma build_plan_host:
  assumes "build_plan I sha d cur = Some (Inr p)" "a \<in> set (pl_actions p)"
  shows "pa_host a \<in> set (dm_hosts d)"
proof (rule build_plan_action [OF assms])
  fix mgmt subnets h as
  assume h: "h \<in> set (dm_hosts d)" "plan_host I sha d cur mgmt subnets h = Inr as" "a \<in> set as"
  show ?thesis using plan_host_member [OF h(2,3)] h(1) by simp
qed

lemma sample_lone_hosts: "dm_hosts sample_lone = [''a'']"
  by (simp add: sample_lone_def sample_mesh_def)

lemma sample_lone_sel:
  "dm_nodes sample_lone = []" "dm_interface sample_lone = ''wg0''" "dm_mgmt_pool sample_lone = (0x64400000, 16)"
  "dm_container_pool sample_lone = (0x0AD20000, 16)" "dm_container_prefix sample_lone = 24"
  "dm_namespaces sample_lone = [''default'']" "dm_install_coold sample_lone"
  by (simp_all add: sample_lone_def sample_mesh_def)

lemma sample_lone_apply:
  "\<exists>all w'. apply_mesh pair_net sample_sha (\<lambda>_. None) id sample_run sample_lone \<lparr>servers = []\<rparr> [] = Some (Inr all, w')
     \<and> all \<noteq> []"
proof -
  obtain p where p: "build_plan pair_net sample_sha sample_lone \<lparr>servers = []\<rparr> = Some (Inr p)"
    "map pa_action_type (pl_actions p) = [InstallWg, GenKeyPair, WriteConfig, EnableService]"
    using sample_lone_plan by (elim exE conjE)
  have h: "pa_host a = ''a''" if "a \<in> set (pl_actions p)" for a
    using build_plan_host [OF p(1) that] by (simp add: sample_lone_hosts)
  have "should_run p ''a'' t [] \<longleftrightarrow> t \<in> set (map pa_action_type (pl_actions p))" for t
    using h by (auto simp: should_run_def list_ex_iff)
  then have sr: "should_run p ''a'' t [] \<longleftrightarrow> t \<in> {InstallWg, GenKeyPair, WriteConfig, EnableService}" for t
    unfolding p(2) by simp
  have m: "allocate_mgmt_ips pair_net (0x64400000, 16) [] [''a''] = Some (Inr ([(''a'', 0x64400001)], []))"
    by (simp add: allocate_mgmt_ips_def alloc_eval)
  have n: "allocate_namespaced pair_net (0x0AD20000, 16) 24 [] [''default''] [] = Some (Inr ([], []))"
    by (simp add: allocate_namespaced_def all_existing_def alloc_eval)
  have fresh: "parse_probe pair_net (\<lambda>_. None) ''a'' ''wg0'' [''default''] [] =
      server_default\<lparr>ss_host := ''a'', ss_interface := ''wg0'',
        ss_namespaces := [(''default'', namespace_default\<lparr>ns_namespace := ''default''\<rparr>)]\<rparr>"
    by (simp add: parse_probe_def lines_def parse_config_def parse_dump_def server_default_def)
  show ?thesis
    by (simp add: apply_mesh_def p(1) for_each_server_def sample_lone_hosts sample_lone_sel phase1_def sr
        step_if_def step_def io_bind_def io_return_def io_lift_def sample_run_def gather_def
        reconstruct_def probe_def fresh assigned_mgmt_ips_def assigned_container_subnets_def
        server_default_def namespace_default_def m n phase2_def peer_configs_def known_peers_def server_of_def
        bt_index_def)
qed

theorem apply_runs_only_planned_witness:
  "\<exists>all w' p. apply_mesh pair_net sample_sha (\<lambda>_. None) id sample_run sample_lone \<lparr>servers = []\<rparr> [] = Some (Inr all, w')
     \<and> all \<noteq> [] \<and> build_plan pair_net sample_sha sample_lone \<lparr>servers = []\<rparr> = Some (Inr p)
     \<and> (\<forall>r\<in>set all. should_run p (pa_host (ar_action r)) (pa_action_type (ar_action r)) (pa_namespace (ar_action r)))"
proof -
  obtain all w' where run: "apply_mesh pair_net sample_sha (\<lambda>_. None) id sample_run sample_lone \<lparr>servers = []\<rparr> [] = Some (Inr all, w')"
    "all \<noteq> []" using sample_lone_apply by blast
  obtain p where p: "build_plan pair_net sample_sha sample_lone \<lparr>servers = []\<rparr> = Some (Inr p)"
    using sample_lone_plan by blast
  have "should_run p (pa_host (ar_action r)) (pa_action_type (ar_action r)) (pa_namespace (ar_action r))"
    if "r \<in> set all" for r
    using apply_runs_only_planned [OF run(1) that] p by auto
  with run p show ?thesis by blast
qed

theorem phase1_failure_aborts_witness:
  "fst (the (apply_mesh pair_net sample_sha (\<lambda>_. None) id (\<lambda>h c w. (Inl ''down'', w)) sample_lone \<lparr>servers = []\<rparr> ())) =
     Inl ''phase 1 (install/keygen) failed on one or more mesh hosts; aborting''"
proof -
  obtain p where p: "build_plan pair_net sample_sha sample_lone \<lparr>servers = []\<rparr> = Some (Inr p)"
    "map pa_action_type (pl_actions p) = [InstallWg, GenKeyPair, WriteConfig, EnableService]"
    using sample_lone_plan by (elim exE conjE)
  have "InstallWg \<in> set (map pa_action_type (pl_actions p))" unfolding p(2) by simp
  then obtain a where a: "a \<in> set (pl_actions p)" "pa_action_type a = InstallWg" by auto
  have "pa_host a = ''a''" using build_plan_host [OF p(1) a(1)] by (simp add: sample_lone_hosts)
  then have "should_run p ''a'' InstallWg []" using a by (auto simp: should_run_def list_ex_iff)
  then have "\<exists>e w'. phase1 (\<lambda>h c w. (Inl ''down'', w)) sample_lone \<lparr>servers = []\<rparr> p ''a'' w = (Inl e, w')" for w :: unit
    by (simp add: phase1_def server_of_def server_default_def step_if_def step_def io_bind_def)
  from phase1_failure_aborts [OF p(1) _ this, of id] show ?thesis
    by (simp add: sample_lone_def sample_mesh_def)
qed

theorem endpoint_port_of_the_writer_witness:
  "let d = (sample_mesh Bootstrap [''a'', ''b''])\<lparr>dm_nodes := [], dm_listen_port_overrides := [(''b'', 51821)]\<rparr>;
       c = \<lparr>pc_endpoint = ''b'', pc_public_key = ''kb='', pc_mgmt_ip = 0x64400002, pc_container_subnets = []\<rparr> in
     listen_port_for d ''b'' = 51821 \<and> pe_endpoint (read_back pair_net (listen_port_for d ''a'') c) = ''b:51820''"
proof -
  define d where "d = (sample_mesh Bootstrap [''a'', ''b''])\<lparr>dm_nodes := [], dm_listen_port_overrides := [(''b'', 51821)]\<rparr>"
  define c :: "(ipv4 \<times> nat) peer_config" where
    "c = \<lparr>pc_endpoint = ''b'', pc_public_key = ''kb='', pc_mgmt_ip = 0x64400002, pc_container_subnets = []\<rparr>"
  let ?f = "\<lparr>servers = [(''b'', server_default\<lparr>ss_public_key := ''kb=''\<rparr>)]\<rparr>"
  have pc: "peer_configs d ?f [(''b'', 0x64400002)] [] ''a'' = Inr [c]"
    by (simp add: peer_configs_def known_peers_def peer_config_of_def d_def c_def sample_mesh_def bt_index_def
        endpoint_for_def split_once_def server_of_def)
  have "CHR '':'' \<notin> set (endpoint_for d p)" if "p \<in> set (dm_hosts d)" for p
    using that by (auto simp: d_def sample_mesh_def endpoint_for_def split_once_def)
  from endpoint_port_of_the_writer [OF pc _ this, of c pair_net]
  have "pe_endpoint (read_back pair_net (listen_port_for d ''a'') c) = endpoint_for d ''b'' @ '':'' @ show_port (listen_port_for d ''a'')"
    by (auto simp: d_def sample_mesh_def)
  moreover have "endpoint_for d ''b'' = ''b''" "listen_port_for d ''a'' = 51820" "listen_port_for d ''b'' = 51821"
    by (simp_all add: d_def sample_mesh_def endpoint_for_def split_once_def listen_port_for_def)
  moreover have "show_port 51820 = ''51820''" by (simp add: show_port_def show_nat.simps digit_char_eval)
  ultimately show ?thesis by (simp add: d_def c_def Let_def)
qed

end
