(* ===== verification/CliOutput.thy ===== *)
theory CliOutput
  imports CliApply HostFiles
begin

text \<open>
  What \<open>coolify-cli\<close> writes on the machine it runs on: the tables and JSON documents of \<open>output.rs\<close>,
  the two reports of \<open>commands/init/mod.rs\<close>, and the certificate files of
  \<open>write_flux_tls_output\<close>. The output is the text printed to standard output; progress messages on
  standard error are left out. The JSON encoders serde derives are parameters.
\<close>

section \<open>Tables\<close>

datatype output_format = Table | Json | Pretty

text \<open>The width of a column is counted in bytes, the padding of a cell in characters: the bytes of a
  UTF-8 text that do not continue a character.\<close>

definition char_count :: "string \<Rightarrow> nat" where
  "char_count s = length (filter (\<lambda>c. \<not> byte_in 128 191 c) s)"

definition pad_to :: "char \<Rightarrow> nat \<Rightarrow> string \<Rightarrow> string" where
  "pad_to fill w s = s @ replicate (w - char_count s) fill"

fun widen :: "nat list \<Rightarrow> string list \<Rightarrow> nat list" where
  "widen ws [] = ws"
| "widen [] (c # cs) = max 0 (length c) # widen [] cs"
| "widen (w # ws) (c # cs) = max w (length c) # widen ws cs"

definition table_widths :: "string list \<Rightarrow> string list list \<Rightarrow> nat list" where
  "table_widths headers rows = foldl widen (map length headers) rows"

text \<open>One pass over the cells of a line: each is padded to its column; the cell with the number \<open>n\<close>
  ends the line. The index is in range, so that no access panics (\<open>widths_cover\<close>).\<close>

definition table_cells :: "char \<Rightarrow> nat \<Rightarrow> nat list \<Rightarrow> string list \<Rightarrow> string" where
  "table_cells fill n ws cells =
     concat (map (\<lambda>(i, cell). pad_to fill (ws ! i) cell @ (if i + 1 = n then [CHR 0x0A] else ''  ''))
       (enumerate 0 cells))"

definition table :: "string list \<Rightarrow> string list list \<Rightarrow> string" where
  "table headers rows =
     (let ws = table_widths headers rows in
      table_cells (CHR '' '') (length headers) ws headers
      @ table_cells (CHR ''-'') (length ws) ws (map (\<lambda>_. []) ws)
      @ concat (map (table_cells (CHR '' '') (length headers) ws) rows))"

definition print_value :: "('a \<Rightarrow> string result) \<Rightarrow> ('a \<Rightarrow> string result) \<Rightarrow> output_format \<Rightarrow> 'a \<Rightarrow> string result" where
  "print_value to_string to_string_pretty fmt v =
     and_then (case fmt of Json \<Rightarrow> to_string v | Pretty \<Rightarrow> to_string_pretty v | Table \<Rightarrow> to_string_pretty v)
       (\<lambda>s. Inr (s @ [CHR 0x0A]))"

section \<open>Reports\<close>

text \<open>The name of an action, in the kebab case serde derives.\<close>

fun action_text :: "action_type \<Rightarrow> string" where
  "action_text InstallWg = ''install-wg''"
| "action_text GenKeyPair = ''gen-key-pair''"
| "action_text AllocateMgmtIp = ''allocate-mgmt-ip''"
| "action_text AllocateContainerSubnet = ''allocate-container-subnet''"
| "action_text WriteConfig = ''write-config''"
| "action_text EnableService = ''enable-service''"
| "action_text ReloadService = ''reload-service''"
| "action_text AddPeer = ''add-peer''"
| "action_text RemovePeer = ''remove-peer''"
| "action_text InstallPodman = ''install-podman''"
| "action_text EnablePodmanSocket = ''enable-podman-socket''"
| "action_text EnableIpForward = ''enable-ip-forward''"
| "action_text CreatePodmanNetwork = ''create-podman-network''"
| "action_text RecreatePodmanNetwork = ''recreate-podman-network''"
| "action_text InstallFirewall = ''install-firewall''"
| "action_text InstallCorrosion = ''install-corrosion''"
| "action_text InstallCoold = ''install-coold''"
| "action_text WriteCorrosionConfig = ''write-corrosion-config''"
| "action_text WriteCorrosionSchema = ''write-corrosion-schema''"
| "action_text InstallCorrosionService = ''install-corrosion-service''"
| "action_text InstallCooldService = ''install-coold-service''"

record plan_output =
  po_nodes :: "string list"
  po_mesh_hosts :: "string list"
  po_actions :: "planned_action list"
  po_skipped :: "skipped_action list"
  po_warnings :: "warning list"

record apply_output =
  ao_results :: "action_result list"
  ao_verified :: "verify_result list"

text \<open>The encoders, compact and pretty, of the two documents.\<close>

record output_json =
  oj_plan :: "plan_output \<Rightarrow> string result"
  oj_plan_pretty :: "plan_output \<Rightarrow> string result"
  oj_apply :: "apply_output \<Rightarrow> string result"
  oj_apply_pretty :: "apply_output \<Rightarrow> string result"

definition render_plan :: "output_json \<Rightarrow> output_format \<Rightarrow> 'n desired_mesh \<Rightarrow> 'n plan \<Rightarrow> string result" where
  "render_plan J fmt d p =
     (if fmt \<noteq> Table then
        print_value (oj_plan J) (oj_plan_pretty J) fmt
          \<lparr>po_nodes = dm_nodes d, po_mesh_hosts = dm_hosts d, po_actions = pl_actions p,
           po_skipped = pl_skipped p, po_warnings = pl_warnings p\<rparr>
      else if pl_actions p = [] \<and> pl_skipped p = [] then
        Inr (''No changes needed. Mesh is already converged.'' @ [CHR 0x0A])
      else
        (let rows = map (\<lambda>a. [pa_host a, action_text (pa_action_type a), pa_detail a]) (pl_actions p) in
         Inr (if rows \<noteq> [] then table [''HOST'', ''ACTION'', ''DETAIL''] rows else [])))"

definition result_row :: "action_result \<Rightarrow> string list" where
  "result_row r = [pa_host (ar_action r), action_text (pa_action_type (ar_action r)), ar_status r, ar_detail r]"

definition verify_row :: "verify_result \<Rightarrow> string list" where
  "verify_row v = [vr_host v, vr_wireguard_ip v, show_nat (vr_peer_count v), vr_status v]"

definition render_apply :: "output_json \<Rightarrow> output_format \<Rightarrow> action_result list \<Rightarrow> verify_result list \<Rightarrow> string result" where
  "render_apply J fmt results verified =
     (if fmt \<noteq> Table then
        print_value (oj_apply J) (oj_apply_pretty J) fmt \<lparr>ao_results = results, ao_verified = verified\<rparr>
      else
        (let rows = map result_row results in
         Inr ((if rows \<noteq> [] then table [''HOST'', ''ACTION'', ''STATUS'', ''DETAIL''] rows else [])
              @ table [''HOST'', ''WIREGUARD IP'', ''PEERS'', ''STATUS''] (map verify_row verified))))"

section \<open>The certificate of flux\<close>

definition cert_path_in :: "string \<Rightarrow> string" where
  "cert_path_in dir = path_join dir ''cert.pem''"

definition key_path_in :: "string \<Rightarrow> string" where
  "key_path_in dir = path_join dir ''key.pem''"

definition write_flux_tls_output :: "'k host_ops \<Rightarrow> string \<Rightarrow> self_signed_cert \<Rightarrow> ('k, unit) hio" where
  "write_flux_tls_output H dir cert =
     io_bind (io_context (''create flux TLS output dir '' @ dir) (fs_create_dir_all H dir)) (\<lambda>_.
     io_bind (io_context ''write flux cert.pem'' (fs_write H (cert_path_in dir) (cert_pem cert))) (\<lambda>_.
     io_bind (io_context ''write flux key.pem'' (fs_write H (key_path_in dir) (key_pem cert))) (\<lambda>_.
     io_context ''chmod flux key.pem'' (fs_set_mode H (key_path_in dir) 384))))"

section \<open>Tables are aligned\<close>

lemma widen_length: "length (widen ws cs) = max (length ws) (length cs)"
  by (induction ws cs rule: widen.induct) auto

lemma widen_nth: "i < length ws \<Longrightarrow> ws ! i \<le> widen ws cs ! i"
  by (induction ws cs arbitrary: i rule: widen.induct) (auto simp: nth_Cons split: nat.splits)

lemma widen_cell: "i < length cs \<Longrightarrow> length (cs ! i) \<le> widen ws cs ! i"
  by (induction ws cs arbitrary: i rule: widen.induct) (auto simp: nth_Cons split: nat.splits)

lemma foldl_widen_mono: "i < length ws \<Longrightarrow> i < length (foldl widen ws rows) \<and> ws ! i \<le> foldl widen ws rows ! i"
proof (induction rows arbitrary: ws)
  case (Cons r rows)
  have "i < length (widen ws r)" using Cons.prems by (simp add: widen_length)
  from Cons.IH [OF this] widen_nth [OF Cons.prems, of r] show ?case by simp
qed simp

lemma foldl_widen_cell:
  "row \<in> set rows \<Longrightarrow> i < length row \<Longrightarrow>
     i < length (foldl widen ws rows) \<and> length (row ! i) \<le> foldl widen ws rows ! i"
proof (induction rows arbitrary: ws)
  case (Cons r rows)
  show ?case
  proof (cases "row = r")
    case True
    have "i < length (widen ws r)" using Cons.prems(2) True by (simp add: widen_length)
    from foldl_widen_mono [OF this, of rows] widen_cell [of i r ws] Cons.prems(2) True show ?thesis by simp
  qed (use Cons in simp)
qed simp

text \<open>Every index the printer uses is in range, and every cell fits into its column.\<close>

lemma widths_cover:
  "row \<in> set (headers # rows) \<Longrightarrow> i < length row \<Longrightarrow>
     i < length (table_widths headers rows) \<and> length (row ! i) \<le> table_widths headers rows ! i"
  using foldl_widen_mono [of i "map length headers" rows] foldl_widen_cell [of row rows i "map length headers"]
  by (auto simp: table_widths_def)

lemma widths_length:
  "\<forall>row\<in>set rows. length row = length headers \<Longrightarrow> length (table_widths headers rows) = length headers"
proof -
  have "\<forall>row\<in>set rows. length row = length ws \<Longrightarrow> length (foldl widen ws rows) = length ws" for ws
    by (induction rows arbitrary: ws) (auto simp: widen_length)
  from this [of "map length headers"] show "\<forall>row\<in>set rows. length row = length headers \<Longrightarrow> ?thesis"
    by (simp add: table_widths_def)
qed

definition ascii :: "string \<Rightarrow> bool" where
  "ascii s = list_all (byte_in 0 127) s"

lemma char_count_ascii: "ascii s \<Longrightarrow> char_count s = length s"
  unfolding char_count_def ascii_def list_all_iff byte_in_def by (subst filter_True) auto

lemma pad_to_length: "ascii s \<Longrightarrow> length s \<le> w \<Longrightarrow> length (pad_to fill w s) = w"
  by (simp add: pad_to_def char_count_ascii)

text \<open>The line of a row without its end: the padded cells, two blanks between them.\<close>

definition line_of :: "char \<Rightarrow> nat list \<Rightarrow> string list \<Rightarrow> string" where
  "line_of fill ws cells = join ''  '' (map2 (pad_to fill) ws cells)"

lemma table_cells_from:
  assumes "cells \<noteq> []"
  shows "concat (map (\<lambda>(i, cell). pad_to fill (f i) cell @ (if i + 1 = k + length cells then [CHR 0x0A] else ''  ''))
      (enumerate k cells)) = join ''  '' (map2 (pad_to fill) (map f [k..<k + length cells]) cells) @ [CHR 0x0A]"
  using assms
proof (induction cells arbitrary: k)
  case (Cons c cells)
  show ?case
  proof (cases "cells = []")
    case False
    have "concat (map (\<lambda>(i, cell). pad_to fill (f i) cell @ (if i + 1 = Suc k + length cells then [CHR 0x0A] else ''  ''))
      (enumerate (Suc k) cells)) = join ''  '' (map2 (pad_to fill) (map f [Suc k..<Suc k + length cells]) cells) @ [CHR 0x0A]"
      by (rule Cons.IH [OF False])
    moreover obtain d ds where "map2 (pad_to fill) (map f [Suc k..<Suc k + length cells]) cells = d # ds"
      using False by (cases cells) (auto simp: upt_conv_Cons simp del: upt_Suc)
    ultimately show ?thesis using False by (simp add: upt_conv_Cons del: upt_Suc)
  qed (simp add: enumerate_simps)
qed simp

lemma table_cells_line:
  assumes "length cells = length ws" and "cells \<noteq> []"
  shows "table_cells fill (length ws) ws cells = line_of fill ws cells @ [CHR 0x0A]"
proof -
  have "map ((!) ws) [0..<length ws] = ws" by (rule map_nth)
  then show ?thesis
    using table_cells_from [OF assms(2), of fill "\<lambda>i. ws ! i" 0] assms(1) unfolding table_cells_def line_of_def by simp
qed

lemma join_length: "xs \<noteq> [] \<Longrightarrow> length (join ''  '' xs) = sum_list (map length xs) + 2 * (length xs - 1)"
  by (induction "''  ''" xs rule: join.induct) auto

lemma line_length:
  assumes "list_all2 (\<lambda>w c. ascii c \<and> length c \<le> w) ws cells" and "cells \<noteq> []"
  shows "length (line_of fill ws cells) = sum_list ws + 2 * (length ws - 1)"
proof -
  have "map length (map2 (pad_to fill) ws cells) = ws"
    using assms(1) by (induction rule: list_all2_induct) (auto simp: pad_to_length)
  moreover have "map2 (pad_to fill) ws cells \<noteq> []" using assms by (cases cells) (auto simp: list_all2_Cons2)
  moreover have "length (map2 (pad_to fill) ws cells) = length ws" using assms(1) by (simp add: list_all2_lengthD)
  ultimately show ?thesis unfolding line_of_def using join_length [of "map2 (pad_to fill) ws cells"] by presburger
qed

text \<open>A table of ASCII cells, with as many in every row as headers, is printed as one line for the
  headers, one of dashes and one for each row, all of one length, with every cell in the column of
  its header.\<close>

theorem table_aligned:
  assumes "headers \<noteq> []" and "list_all (\<lambda>row. length row = length headers) rows"
    and "list_all (list_all ascii) (headers # rows)"
    and "ws = table_widths headers rows"
  shows "table headers rows = concat (map (\<lambda>l. l @ [CHR 0x0A])
       (line_of (CHR '' '') ws headers # line_of (CHR ''-'') ws (map (\<lambda>_. []) ws) # map (line_of (CHR '' '') ws) rows))"
    and "list_all (\<lambda>row. length (line_of (CHR '' '') ws row) = sum_list ws + 2 * (length headers - 1)) (headers # rows)"
proof -
  have n: "length ws = length headers" using widths_length [of rows headers] assms(2,4) by (simp add: list_all_iff)
  have r: "length row = length ws" "row \<noteq> []" if "row \<in> set (headers # rows)" for row
    using that assms(1,2) n by (auto simp: list_all_iff)
  have "table_cells (CHR '' '') (length headers) ws row = line_of (CHR '' '') ws row @ [CHR 0x0A]"
    if "row \<in> set (headers # rows)" for row
    using table_cells_line [of row ws] r [OF that] n by simp
  moreover have "table_cells (CHR ''-'') (length ws) ws (map (\<lambda>_. []) ws) = line_of (CHR ''-'') ws (map (\<lambda>_. []) ws) @ [CHR 0x0A]"
    using n assms(1) by (intro table_cells_line) auto
  ultimately show "table headers rows = concat (map (\<lambda>l. l @ [CHR 0x0A])
       (line_of (CHR '' '') ws headers # line_of (CHR ''-'') ws (map (\<lambda>_. []) ws) # map (line_of (CHR '' '') ws) rows))"
    unfolding table_def assms(4) [symmetric] Let_def by (simp add: comp_def cong: map_cong)
  have "length (line_of (CHR '' '') ws row) = sum_list ws + 2 * (length headers - 1)" if row: "row \<in> set (headers # rows)" for row
  proof -
    have "list_all2 (\<lambda>w c. ascii c \<and> length c \<le> w) ws row"
      using widths_cover [OF row] assms(3,4) r [OF row] row
      by (auto simp: list_all2_conv_all_nth list_all_iff)
    from line_length [OF this r(2) [OF row]] n show ?thesis by simp
  qed
  then show "list_all (\<lambda>row. length (line_of (CHR '' '') ws row) = sum_list ws + 2 * (length headers - 1)) (headers # rows)"
    by (simp add: list_all_iff)
qed

theorem table_aligned_witness:
  "table [''A'', ''BB''] [[''xyz'', ''1'']] =
     concat (map (\<lambda>l. l @ [CHR 0x0A]) [''A    BB'', ''---  --'', ''xyz  1 ''])"
proof -
  have w: "table_widths [''A'', ''BB''] [[''xyz'', ''1'']] = [3, 2]" by code_simp
  have "list_all (list_all ascii) [[''A'', ''BB''], [''xyz'', ''1'']]" by code_simp
  from table_aligned(1) [OF _ _ this refl] w show ?thesis
    by (simp add: line_of_def pad_to_def char_count_def byte_in_def numeral_eq_Suc)
qed

section \<open>The private key\<close>

lemma key_differs: "key_path_in dir \<noteq> cert_path_in dir"
  by (simp add: key_path_in_def cert_path_in_def path_join_def starts_with_def)

lemma fs_set_mode_Inr:
  "fs_set_mode H p m w = (Inr (), w') \<Longrightarrow> \<exists>f. file_at w p = Some f \<and> w' = put_file p (f\<lparr>fi_mode := m\<rparr>) w"
  by (auto simp: fs_set_mode_def split: option.splits)

text \<open>After the files were written the directory holds the certificate and its key, the key with mode
  0600, and no other file changed.\<close>

theorem flux_key_is_private:
  assumes "write_flux_tls_output H dir cert w = (Inr (), w')"
  shows "file_at w' (key_path_in dir) = Some \<lparr>fi_content = key_pem cert, fi_mode = 384\<rparr> \<and>
     map_option fi_content (file_at w' (cert_path_in dir)) = Some (cert_pem cert) \<and>
     (if p \<noteq> key_path_in dir \<and> p \<noteq> cert_path_in dir then file_at w' p = file_at w p else True)"
proof -
  obtain w1 w2 w3 where a: "fs_create_dir_all H dir w = (Inr (), w1)" "fs_write H (cert_path_in dir) (cert_pem cert) w1 = (Inr (), w2)"
    "fs_write H (key_path_in dir) (key_pem cert) w2 = (Inr (), w3)" "fs_set_mode H (key_path_in dir) 384 w3 = (Inr (), w')"
    using assms unfolding write_flux_tls_output_def io_bind_eq_Inr io_context_eq_Inr by auto
  have "w1 = w" using a(1) by (auto simp: fs_create_dir_all_def fs_guard_def split: option.splits)
  moreover obtain m where "w2 = put_file (cert_path_in dir) \<lparr>fi_content = cert_pem cert, fi_mode = m\<rparr> w1"
    using fs_write_Inr [OF a(2)] by blast
  moreover obtain m' where "w3 = put_file (key_path_in dir) \<lparr>fi_content = key_pem cert, fi_mode = m'\<rparr> w2"
    using fs_write_Inr [OF a(3)] by blast
  moreover obtain f where "file_at w3 (key_path_in dir) = Some f" "w' = put_file (key_path_in dir) (f\<lparr>fi_mode := 384\<rparr>) w3"
    using fs_set_mode_Inr [OF a(4)] by blast
  ultimately show ?thesis using key_differs [of dir] by auto
qed

lemma fs_write_frame: "fs_write H q c w = (r, w') \<Longrightarrow> p \<noteq> q \<Longrightarrow> file_at w' p = file_at w p"
  by (auto simp: fs_write_def fs_write_with_def split: option.splits write_fault.splits)

lemma fs_set_mode_frame: "fs_set_mode H q m w = (r, w') \<Longrightarrow> p \<noteq> q \<Longrightarrow> file_at w' p = file_at w p"
  by (auto simp: fs_set_mode_def split: option.splits)

lemma fs_create_dir_all_frame: "fs_create_dir_all H q w = (r, w') \<Longrightarrow> w' = w"
  by (auto simp: fs_create_dir_all_def fs_guard_def split: option.splits)

lemma io_bind_frame:
  assumes "io_bind m f w = (r, w')" and "\<And>r1 w1. m w = (r1, w1) \<Longrightarrow> file_at w1 p = file_at w p"
    and "\<And>a w1 r2 w2. f a w1 = (r2, w2) \<Longrightarrow> file_at w2 p = file_at w1 p"
  shows "file_at w' p = file_at w p"
  using assms by (fastforce simp: io_bind_def split: prod.splits sum.splits)

lemma io_context_frame:
  assumes "io_context c m w = (r, w')" and "\<And>r1 w1. m w = (r1, w1) \<Longrightarrow> file_at w1 p = file_at w p"
  shows "file_at w' p = file_at w p"
  using assms by (auto simp: io_context_def split: prod.splits)

lemma write_flux_tls_frame:
  assumes "write_flux_tls_output H dir cert w = (r, w')" and "p \<noteq> cert_path_in dir" and "p \<noteq> key_path_in dir"
  shows "file_at w' p = file_at w p"
  using assms(1) unfolding write_flux_tls_output_def
  by (elim io_bind_frame io_context_frame)
     (use assms(2,3) in \<open>auto dest: fs_create_dir_all_frame fs_write_frame fs_set_mode_frame\<close>)

text \<open>Until the mode is set the key has the mode new files get, and when setting it fails the key stays
  so: the command fails, and the key is left on disk, readable to whom that mode lets read.\<close>

theorem flux_key_left_open:
  assumes "file_at w (key_path_in dir) = None"
    and "write_flux_tls_output H dir cert w = (Inl e, w')" and "starts_with e ''chmod''"
  shows "file_at w' (key_path_in dir) = Some \<lparr>fi_content = key_pem cert, fi_mode = op_create_mode H\<rparr>"
proof -
  obtain w1 w2 w3 where a: "fs_create_dir_all H dir w = (Inr (), w1)" "fs_write H (cert_path_in dir) (cert_pem cert) w1 = (Inr (), w2)"
    "fs_write H (key_path_in dir) (key_pem cert) w2 = (Inr (), w3)" "io_context ''chmod flux key.pem'' (fs_set_mode H (key_path_in dir) 384) w3 = (Inl e, w')"
    using assms(2,3) unfolding write_flux_tls_output_def
    by (auto simp: io_bind_eq_Inl io_context_eq_Inl starts_with_def)
  have "w1 = w" "file_at w2 (key_path_in dir) = file_at w1 (key_path_in dir)"
    using fs_create_dir_all_frame [OF a(1)] fs_write_frame [OF a(2) key_differs] by simp_all
  then have "w3 = put_file (key_path_in dir) \<lparr>fi_content = key_pem cert, fi_mode = op_create_mode H\<rparr> w2"
    using a(3) assms(1) by (auto simp: fs_write_def fs_write_with_def file_mode_def split: option.splits write_fault.splits)
  moreover have "w' = w3" using a(4) by (auto simp: io_context_eq_Inl fs_set_mode_def split: option.splits)
  ultimately show ?thesis by simp
qed

definition no_chmod_ops :: "string list list host_ops" where
  "no_chmod_ops = calm_ops\<lparr>op_fault := (\<lambda>what _ _. if what = ''chmod'' then Some ''EPERM'' else None)\<rparr>"

theorem flux_key_left_open_witness:
  "\<exists>e w'. write_flux_tls_output no_chmod_ops ''out'' \<lparr>cert_pem = ''C'', key_pem = ''K''\<rparr> empty_host = (Inl e, w') \<and>
     file_at w' ''out/key.pem'' = Some \<lparr>fi_content = ''K'', fi_mode = 420\<rparr>"
proof -
  have f: "op_fault no_chmod_ops what p w = (if what = ''chmod'' then Some ''EPERM'' else None)" "op_write_fault no_chmod_ops p w = None"
    "op_create_mode no_chmod_ops = 420" for what p w
    by (simp_all add: no_chmod_ops_def)
  have k: "key_path_in ''out'' = ''out/key.pem''" "cert_path_in ''out'' = ''out/cert.pem''"
    by (simp_all add: key_path_in_def cert_path_in_def path_join_def starts_with_def ends_with_def)
  obtain w' where r: "write_flux_tls_output no_chmod_ops ''out'' \<lparr>cert_pem = ''C'', key_pem = ''K''\<rparr> empty_host =
      (Inl ''chmod flux key.pem: EPERM'', w')"
    by (simp add: write_flux_tls_output_def fs_create_dir_all_def fs_guard_def fs_write_def fs_write_with_def f k
        fs_set_mode_def io_bind_def io_simps)
  have "file_at empty_host (key_path_in ''out'') = None" by (simp add: empty_host_def file_at_def)
  from flux_key_left_open [OF this r] r k f show ?thesis by (simp add: starts_with_def)
qed

end
