(* ===== verification/CliInit.thy ===== *)
theory CliInit
  imports CliOutput
begin

text \<open>
  \<open>commands/init/mod.rs\<close> of \<open>coolify-cli\<close>: from the flags of \<open>coolify init\<close> to the desired mesh,
  and the four commands that plan or apply it. The crate \<open>rcgen\<close>, which generates certificates, is
  the parameter \<open>R\<close>; the text of a network parse error is the parameter \<open>net_err\<close>.
\<close>

section \<open>Flags\<close>

record base_init_flags =
  bf_ssh :: ssh_mesh_flags
  bf_namespaces :: "string list"
  bf_container_pool :: string
  bf_container_prefix :: nat
  bf_wg_mgmt_pool :: string
  bf_wg_interface :: string
  bf_wg_listen_port :: u16
  bf_wg_listen_port_overrides :: "string list"
  bf_wg_endpoint_overrides :: "string list"
  bf_skip_default_deny :: bool
  bf_coold_version :: string
  bf_corrosion_version :: string
  bf_corrosion_gossip_port :: u16
  bf_corrosion_api_port :: u16
  bf_coold_sha256 :: "string option"
  bf_corrosion_sha256 :: "string option"
  bf_enable_corrosion_gossip_tls :: bool
  bf_enable_flux_tls :: bool
  bf_flux_tls_san :: "string list"
  bf_flux_port :: u16
  bf_flux_tls_out_dir :: string
  bf_yes :: bool

datatype init_command =
    CmdPlan base_init_flags intent "string list" bool bool
  | CmdBootstrap base_init_flags
  | CmdExtend base_init_flags "string list" bool
  | CmdUpgrade base_init_flags bool

section \<open>Reading the flags\<close>

definition is_localhost_san :: "string \<Rightarrow> bool" where
  "is_localhost_san san =
     (to_ascii_lowercase (trim san) \<in> {''localhost'', ''127.0.0.1'', ''::1'', ''0.0.0.0'', []})"

definition clean_hosts :: "string list \<Rightarrow> string list" where
  "clean_hosts hosts = filter (\<lambda>h. h \<noteq> []) (map trim hosts)"

fun mesh_hosts_loop :: "string list \<Rightarrow> string list \<Rightarrow> string list \<Rightarrow> string list result" where
  "mesh_hosts_loop seen out [] = Inr out"
| "mesh_hosts_loop seen out (node # nodes) =
     (if node = [] then mesh_hosts_loop seen out nodes
      else if node \<in> set seen then Inl (''duplicate node in --nodes: '' @ node)
      else mesh_hosts_loop (node # seen) (out @ [node]) nodes)"

definition mesh_hosts :: "string list \<Rightarrow> string list result" where
  "mesh_hosts nodes = mesh_hosts_loop [] [] nodes"

text \<open>\<open>u16::from_str\<close> with the messages of \<open>ParseIntError\<close>: the digits are read from the left, a
  character is checked before the overflow it may cause.\<close>

fun u16_digits :: "nat \<Rightarrow> string \<Rightarrow> nat result" where
  "u16_digits acc [] = Inr acc"
| "u16_digits acc (c # cs) =
     (case digit_val c of
        None \<Rightarrow> Inl ''invalid digit found in string''
      | Some n \<Rightarrow>
          if 2 ^ 16 \<le> acc * 10 + n then Inl ''number too large to fit in target type''
          else u16_digits (acc * 10 + n) cs)"

definition u16_from_str :: "string \<Rightarrow> u16 result" where
  "u16_from_str s =
     (if s = [] then Inl ''cannot parse integer from empty string''
      else if s = ''+'' \<or> s = ''-'' then Inl ''invalid digit found in string''
      else and_then (u16_digits 0 (if hd s = CHR ''+'' then tl s else s)) (\<lambda>n. Inr (word_of_nat n)))"

fun parse_port_overrides :: "(string, u16) btree \<Rightarrow> string list \<Rightarrow> (string, u16) btree result" where
  "parse_port_overrides out [] = Inr out"
| "parse_port_overrides out (value # values) =
     (case split_once (CHR ''='') value of
        None \<Rightarrow> Inl (''invalid --wg-listen-port-overrides entry '' @ debug_str value @ ''; expected node=port'')
      | Some (host, raw_port) \<Rightarrow>
          and_then (u16_from_str raw_port) (\<lambda>port.
          parse_port_overrides (bt_insert (trim host) port out) values))"

fun parse_endpoint_overrides :: "(string, string) btree \<Rightarrow> string list \<Rightarrow> (string, string) btree result" where
  "parse_endpoint_overrides out [] = Inr out"
| "parse_endpoint_overrides out (value # values) =
     (case split_once (CHR ''='') value of
        None \<Rightarrow> Inl (''invalid --wg-endpoint-overrides entry '' @ debug_str value @ ''; expected node=host:port'')
      | Some (host, endpoint) \<Rightarrow>
          parse_endpoint_overrides (bt_insert (trim host) (trim endpoint) out) values)"

definition debug_list :: "string list \<Rightarrow> string" where
  "debug_list xs = ''['' @ join '', '' (map debug_str xs) @ '']''"

definition corrosion_tls ::
  "'key rcgen \<Rightarrow> base_init_flags \<Rightarrow> self_signed_cert option result" where
  "corrosion_tls R b =
     (if bf_enable_corrosion_gossip_tls b
      then (case generate_self_signed R ''coolify-corrosion-gossip'' [] of
              Inr c \<Rightarrow> Inr (Some c)
            | Inl _ \<Rightarrow> Inl ''generate corrosion gossip TLS cert'')
      else Inr None)"

definition flux_tls ::
  "'key rcgen \<Rightarrow> base_init_flags \<Rightarrow>
   (self_signed_cert option \<times> string option) result" where
  "flux_tls R b =
     (if bf_enable_flux_tls b then
        (let sans = clean_hosts (bf_flux_tls_san b) in
         case find (\<lambda>s. \<not> is_localhost_san s) sans of
           None \<Rightarrow>
             Inl (''--enable-flux-tls requires --flux-tls-san to include the flux host'' @ [CHR 0x27] @
               ''s mesh IP or hostname (got '' @ debug_list (bf_flux_tls_san b) @
               ''); a localhost-only SAN cannot be reached by remote coold nodes over TLS'')
         | Some flux_host \<Rightarrow>
             (case generate_self_signed R ''coolify-flux'' sans of
                Inl _ \<Rightarrow> Inl ''generate flux TLS cert''
              | Inr cert \<Rightarrow> Inr (Some cert, Some (''https://'' @ flux_host @ '':'' @ show_port (bf_flux_port b)))))
      else Inr (None, None))"

definition parse_net :: "'n ipnet \<Rightarrow> (string \<Rightarrow> string) \<Rightarrow> string \<Rightarrow> 'n result" where
  "parse_net I net_err s = (case net_parse I s of Some n \<Rightarrow> Inr n | None \<Rightarrow> Inl (net_err s))"

definition build_desired ::
  "'n ipnet \<Rightarrow> (string \<Rightarrow> string) \<Rightarrow> (string \<Rightarrow> string \<Rightarrow> bool) \<Rightarrow>
   'key rcgen \<Rightarrow> base_init_flags \<Rightarrow> intent \<Rightarrow> string list \<Rightarrow> bool \<Rightarrow> bool \<Rightarrow>
   'n desired_mesh result" where
  "build_desired I net_err is_match R b intent new_nodes0 allow_replace allow_nightly =
     and_then (validate_ssh_access (bf_ssh b)) (\<lambda>_.
     and_then (validate_namespaces is_match (bf_namespaces b)) (\<lambda>_.
     and_then (validate_interface is_match (bf_wg_interface b)) (\<lambda>_.
     and_then (validate_version is_match ''--coold-version'' (bf_coold_version b)) (\<lambda>_.
     and_then (validate_version is_match ''--corrosion-version'' (bf_corrosion_version b)) (\<lambda>_.
     and_then (corrosion_tls R b) (\<lambda>gossip_tls.
     and_then (flux_tls R b) (\<lambda>(tls, tls_url).
     let nodes = clean_hosts (sf_nodes (bf_ssh b)); new_nodes = clean_hosts new_nodes0 in
     if nodes = [] then Inl ''--nodes is required''
     else
     and_then (mesh_hosts nodes) (\<lambda>hosts.
     and_then (parse_port_overrides [] (bf_wg_listen_port_overrides b)) (\<lambda>ports.
     and_then (parse_endpoint_overrides [] (bf_wg_endpoint_overrides b)) (\<lambda>endpoints.
     and_then (parse_net I net_err (bf_wg_mgmt_pool b)) (\<lambda>mgmt_pool.
     and_then (parse_net I net_err (bf_container_pool b)) (\<lambda>container_pool.
     Inr \<lparr>dm_hosts = hosts, dm_nodes = nodes, dm_interface = bf_wg_interface b,
       dm_mgmt_pool = mgmt_pool, dm_container_pool = container_pool,
       dm_container_prefix = bf_container_prefix b, dm_listen_port = bf_wg_listen_port b,
       dm_listen_port_overrides = ports, dm_endpoint_overrides = endpoints, dm_install_podman = True,
       dm_namespaces = bf_namespaces b, dm_default_deny_containers = (\<not> bf_skip_default_deny b),
       dm_install_coold = True, dm_coold_version = bf_coold_version b,
       dm_corrosion_version = bf_corrosion_version b,
       dm_corrosion_gossip_port = bf_corrosion_gossip_port b,
       dm_corrosion_api_port = bf_corrosion_api_port b, dm_coold_sha256 = bf_coold_sha256 b,
       dm_corrosion_sha256 = bf_corrosion_sha256 b, dm_corrosion_gossip_tls = gossip_tls,
       dm_flux_tls = tls, dm_flux_tls_url = tls_url, dm_intent = intent, dm_new_nodes = new_nodes,
       dm_allow_replace = allow_replace, dm_allow_nightly = allow_nightly\<rparr>))))))))))))"

section \<open>The commands\<close>

text \<open>The state is that of the machine the CLI runs on, which the certificate files are written to,
  and that of the remote machines. The result is the plan with the mesh it is for, or the reported
  actions and the verification of every host; \<open>render_output\<close> prints it.\<close>

datatype 'n init_output =
    PlanShown "'n desired_mesh" "'n plan"
  | Applied "action_result list" "verify_result list"

definition run_plan ::
  "'n ipnet \<Rightarrow> (string \<Rightarrow> string) \<Rightarrow> (string \<Rightarrow> string) \<Rightarrow> (string \<Rightarrow> string option) \<Rightarrow>
   (string \<Rightarrow> string \<Rightarrow> bool) \<Rightarrow> 'key rcgen \<Rightarrow>
   (string list \<Rightarrow> string list) \<Rightarrow> (ssh_mesh_flags \<Rightarrow> 'w runner) \<Rightarrow>
   base_init_flags \<Rightarrow> intent \<Rightarrow> string list \<Rightarrow> bool \<Rightarrow> bool \<Rightarrow> 'w \<Rightarrow> ('n init_output result \<times> 'w) option" where
  "run_plan I net_err sha b64 is_match R sched client b intent new_nodes allow_replace allow_nightly w =
     (case build_desired I net_err is_match R b intent new_nodes allow_replace allow_nightly of
        Inl e \<Rightarrow> Some (Inl e, w)
      | Inr d \<Rightarrow>
          (case reconstruct I b64 sched (client (bf_ssh b)) (dm_hosts d) (dm_interface d) (dm_namespaces d) w of
             ((cur, _), w') \<Rightarrow>
               map_option (\<lambda>r. (and_then r (\<lambda>p. Inr (PlanShown d p)), w')) (build_plan I sha d cur)))"

definition write_tls_of :: "'k host_ops \<Rightarrow> base_init_flags \<Rightarrow> 'n desired_mesh \<Rightarrow> ('k, unit) hio" where
  "write_tls_of H b d =
     (case dm_flux_tls d of
        None \<Rightarrow> io_return ()
      | Some cert \<Rightarrow> write_flux_tls_output H (bf_flux_tls_out_dir b) cert)"

definition run_apply ::
  "'k host_ops \<Rightarrow> 'n ipnet \<Rightarrow> (string \<Rightarrow> string) \<Rightarrow> (string \<Rightarrow> string) \<Rightarrow> (string \<Rightarrow> string option) \<Rightarrow>
   (string \<Rightarrow> string \<Rightarrow> bool) \<Rightarrow> 'key rcgen \<Rightarrow>
   (string list \<Rightarrow> string list) \<Rightarrow> (ssh_mesh_flags \<Rightarrow> 'w runner) \<Rightarrow>
   base_init_flags \<Rightarrow> intent \<Rightarrow> string list \<Rightarrow> bool \<Rightarrow> bool \<Rightarrow> 'k host \<Rightarrow> 'w \<Rightarrow>
   ('n init_output result \<times> 'k host \<times> 'w) option" where
  "run_apply H I net_err sha b64 is_match R sched client b intent new_nodes allow_replace allow_nightly l w =
     (case build_desired I net_err is_match R b intent new_nodes allow_replace allow_nightly of
        Inl e \<Rightarrow> Some (Inl e, l, w)
      | Inr d \<Rightarrow>
     (case write_tls_of H b d l of
        (Inl e, l1) \<Rightarrow> Some (Inl e, l1, w)
      | (Inr _, l1) \<Rightarrow>
          (case reconstruct I b64 sched (client (bf_ssh b)) (dm_hosts d) (dm_interface d) (dm_namespaces d) w of
             ((cur, _), w1) \<Rightarrow>
               (case build_plan I sha d cur of
                  None \<Rightarrow> None
                | Some (Inl e) \<Rightarrow> Some (Inl e, l1, w1)
                | Some (Inr plan) \<Rightarrow>
                    (case (if plan_is_empty plan then Some (Inr [], w1)
                           else apply_mesh I sha b64 sched (client (bf_ssh b)) d cur w1) of
                       None \<Rightarrow> None
                     | Some (Inl e, w2) \<Rightarrow> Some (Inl e, l1, w2)
                     | Some (Inr results, w2) \<Rightarrow>
                         (case verify sched (client (bf_ssh b)) (dm_hosts d) (dm_interface d) w2 of
                            (verified, w3) \<Rightarrow> Some (Inr (Applied results verified), l1, w3)))))))"

definition run_init ::
  "'k host_ops \<Rightarrow> 'n ipnet \<Rightarrow> (string \<Rightarrow> string) \<Rightarrow> (string \<Rightarrow> string) \<Rightarrow> (string \<Rightarrow> string option) \<Rightarrow>
   (string \<Rightarrow> string \<Rightarrow> bool) \<Rightarrow> 'key rcgen \<Rightarrow>
   (string list \<Rightarrow> string list) \<Rightarrow> (ssh_mesh_flags \<Rightarrow> 'w runner) \<Rightarrow>
   init_command \<Rightarrow> 'k host \<Rightarrow> 'w \<Rightarrow> ('n init_output result \<times> 'k host \<times> 'w) option" where
  "run_init H I net_err sha b64 is_match R sched client cmd l w =
     (case cmd of
        CmdPlan b intent new_nodes allow_replace allow_nightly \<Rightarrow>
          map_option (\<lambda>(r, w'). (r, l, w'))
            (run_plan I net_err sha b64 is_match R sched client b intent new_nodes allow_replace allow_nightly w)
      | CmdBootstrap b \<Rightarrow>
          run_apply H I net_err sha b64 is_match R sched client b Bootstrap [] False False l w
      | CmdExtend b new_nodes allow_replace \<Rightarrow>
          (if new_nodes = []
           then Some (Inl ''--new-nodes is required: list the subset of --nodes that is brand-new'', l, w)
           else run_apply H I net_err sha b64 is_match R sched client b Extend new_nodes allow_replace False l w)
      | CmdUpgrade b allow_nightly \<Rightarrow>
          run_apply H I net_err sha b64 is_match R sched client b Upgrade [] False allow_nightly l w)"

text \<open>What a command that succeeded prints, as the last thing it does.\<close>

definition render_output :: "output_json \<Rightarrow> output_format \<Rightarrow> 'n init_output \<Rightarrow> string result" where
  "render_output J fmt out =
     (case out of
        PlanShown d p \<Rightarrow> render_plan J fmt d p
      | Applied results verified \<Rightarrow> render_apply J fmt results verified)"

section \<open>What the flags guarantee\<close>

text \<open>A word that means itself in a shell command, a unit name and a URL.\<close>

definition shell_word :: "string \<Rightarrow> bool" where
  "shell_word s \<longleftrightarrow> s \<noteq> [] \<and> ascii_alnum (hd s) \<and>
     (\<forall>c\<in>set s. ascii_alnum c \<or> c = CHR ''.'' \<or> c = CHR ''_'' \<or> c = CHR ''-'')"

lemma tag_word_shell: "tag_word n s \<Longrightarrow> shell_word s"
  by (auto simp: tag_word_def shell_word_def list_all_iff)

lemma dns_label_shell: "dns_label s \<Longrightarrow> shell_word s"
  by (auto simp: dns_label_def shell_word_def list_all_iff ascii_alnum_def)

lemma check_namespaces_ok:
  assumes "regex_ok is_match"
  shows "check_namespaces is_match seen nss = Inr u \<longleftrightarrow>
    list_all dns_label nss \<and> distinct nss \<and> set nss \<inter> set seen = {}"
  using assms by (induction nss arbitrary: seen) (auto simp: regex_ok_def)

lemma mesh_hosts_loop_ok:
  assumes "mesh_hosts_loop seen out nodes = Inr hosts" "\<forall>n\<in>set nodes. n \<noteq> []"
  shows "hosts = out @ nodes \<and> distinct nodes \<and> set nodes \<inter> set seen = {}"
  using assms by (induction seen out nodes rule: mesh_hosts_loop.induct) (auto split: if_splits)

lemma clean_hosts_nonempty: "h \<in> set (clean_hosts hs) \<Longrightarrow> h \<noteq> []"
  by (simp add: clean_hosts_def)

lemma validate_version_ok:
  "regex_ok is_match \<Longrightarrow> validate_version is_match l v = Inr u \<Longrightarrow> shell_word v"
  by (auto simp: validate_version_def regex_ok_def intro: tag_word_shell split: if_splits)

lemma validate_interface_ok:
  "regex_ok is_match \<Longrightarrow> validate_interface is_match v = Inr u \<Longrightarrow> shell_word v \<and> length v \<le> 15"
  by (auto simp: validate_interface_def regex_ok_def tag_word_def intro: tag_word_shell split: if_splits)

lemma validate_namespaces_ok:
  "regex_ok is_match \<Longrightarrow> validate_namespaces is_match nss = Inr u \<Longrightarrow>
   nss \<noteq> [] \<and> distinct nss \<and> (\<forall>n\<in>set nss. shell_word n \<and> length n \<le> 63)"
proof -
  assume r: "regex_ok is_match" and v: "validate_namespaces is_match nss = Inr u"
  have "nss \<noteq> []" "check_namespaces is_match [] nss = Inr u"
    using v by (simp_all add: validate_namespaces_def split: if_splits)
  then have "nss \<noteq> []" "distinct nss" "\<forall>n\<in>set nss. dns_label n"
    using check_namespaces_ok [OF r] by (auto simp: list_all_iff)
  moreover have "dns_label n \<Longrightarrow> length n \<le> 63" for n by (simp add: dns_label_def)
  ultimately show ?thesis using dns_label_shell by blast
qed

lemma build_desired_Inr:
  assumes "build_desired I net_err is_match R b intent new_nodes ar an = Inr d"
  shows "(\<exists>u. validate_namespaces is_match (dm_namespaces d) = Inr u)
    \<and> (\<exists>u. validate_interface is_match (dm_interface d) = Inr u)
    \<and> (\<exists>u. validate_version is_match ''--coold-version'' (dm_coold_version d) = Inr u)
    \<and> (\<exists>u. validate_version is_match ''--corrosion-version'' (dm_corrosion_version d) = Inr u)
    \<and> dm_nodes d = clean_hosts (sf_nodes (bf_ssh b)) \<and> dm_nodes d \<noteq> []
    \<and> mesh_hosts (dm_nodes d) = Inr (dm_hosts d)
    \<and> dm_install_podman d \<and> dm_install_coold d \<and> dm_intent d = intent
    \<and> dm_new_nodes d = clean_hosts new_nodes \<and> dm_allow_replace d = ar"
  using assms unfolding build_desired_def and_then_eq_Inr Let_def guard_eq_Inr
  by (clarsimp simp: and_then_eq_Inr guard_eq_Inr split: prod.splits)

text \<open>C34: The desired mesh is well formed in the fields that are validated. The interface, both
  versions and every namespace are words of letters, digits, dots, dashes and underscores that start
  with a letter or digit, so these four can break out of no command or unit they are put into;
  namespaces are distinct labels of at most 63 characters; the mesh hosts are exactly the nodes, at
  least one, none empty, none twice; and Podman and coold are always installed together. Nothing is
  claimed of the spelling of host names, endpoint overrides and checksums, which the code does not
  validate.\<close>

theorem desired_mesh_well_formed:
  assumes "regex_ok is_match" "build_desired I net_err is_match R b intent new_nodes ar an = Inr d"
  shows "shell_word (dm_interface d) \<and> length (dm_interface d) \<le> 15
    \<and> shell_word (dm_coold_version d) \<and> shell_word (dm_corrosion_version d)
    \<and> dm_namespaces d \<noteq> [] \<and> distinct (dm_namespaces d)
    \<and> (\<forall>n\<in>set (dm_namespaces d). shell_word n \<and> length n \<le> 63)
    \<and> dm_hosts d = dm_nodes d \<and> dm_nodes d \<noteq> [] \<and> distinct (dm_nodes d) \<and> [] \<notin> set (dm_nodes d)
    \<and> dm_install_podman d \<and> dm_install_coold d"
proof -
  note d = build_desired_Inr [OF assms(2)]
  have "\<forall>n\<in>set (dm_nodes d). n \<noteq> []" using d clean_hosts_nonempty by metis
  then have "dm_hosts d = dm_nodes d \<and> distinct (dm_nodes d) \<and> [] \<notin> set (dm_nodes d)"
    using d mesh_hosts_loop_ok [of "[]" "[]" "dm_nodes d" "dm_hosts d"] by (auto simp: mesh_hosts_def)
  then show ?thesis
    using d validate_interface_ok [OF assms(1)] validate_version_ok [OF assms(1)]
      validate_namespaces_ok [OF assms(1)]
    by blast
qed

section \<open>A sample\<close>

definition sample_match :: "string \<Rightarrow> string \<Rightarrow> bool" where
  "sample_match p s =
     (if p = NAMESPACE_RE then dns_label s else if p = INTERFACE_RE then tag_word 15 s else tag_word 64 s)"

definition sample_rcgen :: "unit rcgen" where
  "sample_rcgen =
     \<lparr>rc_params = Inr (), rc_dns_name = Inr, rc_generate = (\<lambda>_. Inr ()), rc_self_signed = (\<lambda>cn _ _. Inr cn),
      rc_key_pem = (\<lambda>_. ''KEY'')\<rparr>"

definition sample_flags :: base_init_flags where
  "sample_flags =
     \<lparr>bf_ssh = \<lparr>sf_nodes = [''node-a''], sf_ssh_key = None, sf_ssh_config = Some ''/dev/null'',
        sf_ssh_user = ''root'', sf_ssh_port = 22, sf_concurrency = 10, sf_ssh_timeout = ''30s''\<rparr>,
      bf_namespaces = [''default''], bf_container_pool = ''10.210.0.0/16'', bf_container_prefix = 24,
      bf_wg_mgmt_pool = ''100.64.0.0/16'', bf_wg_interface = ''wg0'', bf_wg_listen_port = 51820,
      bf_wg_listen_port_overrides = [], bf_wg_endpoint_overrides = [], bf_skip_default_deny = False,
      bf_coold_version = ''nightly'', bf_corrosion_version = ''v1.0.0'', bf_corrosion_gossip_port = 8787,
      bf_corrosion_api_port = 8080, bf_coold_sha256 = None, bf_corrosion_sha256 = None,
      bf_enable_corrosion_gossip_tls = False, bf_enable_flux_tls = False, bf_flux_tls_san = [],
      bf_flux_port = 6443, bf_flux_tls_out_dir = ''./coolify-flux-tls'', bf_yes = True\<rparr>"

lemma sample_match_ok: "regex_ok sample_match"
proof -
  have "INTERFACE_RE \<noteq> NAMESPACE_RE" "VERSION_RE \<noteq> NAMESPACE_RE" "VERSION_RE \<noteq> INTERFACE_RE"
    by (simp_all add: INTERFACE_RE_def NAMESPACE_RE_def VERSION_RE_def)
  then show ?thesis by (simp add: regex_ok_def sample_match_def)
qed

lemma sample_words:
  "dns_label ''default''" "tag_word 15 ''wg0''" "tag_word 64 ''nightly''" "tag_word 64 ''v1.0.0''"
  by (simp_all add: dns_label_def tag_word_def lower_alnum_def ascii_alnum_def in_range_def)

lemma sample_build:
  assumes "net_parse J ''100.64.0.0/16'' = Some m" "net_parse J ''10.210.0.0/16'' = Some c"
  shows "\<exists>d. build_desired J net_err sample_match R sample_flags intent new ar an = Inr d
     \<and> dm_nodes d = [''node-a''] \<and> dm_hosts d = [''node-a''] \<and> dm_intent d = intent \<and> dm_new_nodes d = clean_hosts new
     \<and> dm_interface d = ''wg0'' \<and> dm_namespaces d = [''default''] \<and> dm_flux_tls d = None \<and> dm_install_podman d"
proof -
  have v: "validate_namespaces sample_match [''default''] = Inr ()" "validate_interface sample_match ''wg0'' = Inr ()"
    "validate_version sample_match l ''nightly'' = Inr ()" "validate_version sample_match l ''v1.0.0'' = Inr ()" for l
    using sample_words sample_match_ok
    by (simp_all add: validate_namespaces_def validate_interface_def validate_version_def regex_ok_def)
  have c: "clean_hosts [''node-a''] = [''node-a'']"
    by (simp add: clean_hosts_def trim_edged edged_def graphic_def byte_in_def)
  show ?thesis
    by (simp add: build_desired_def sample_flags_def validate_ssh_access_def v corrosion_tls_def flux_tls_def
        c mesh_hosts_def parse_net_def assms Let_def)
qed

lemma sample_nets:
  "\<exists>m. net_parse pair_net ''100.64.0.0/16'' = Some m" "\<exists>m. net_parse pair_net ''10.210.0.0/16'' = Some m"
proof -
  have p: "parse_ipv4 ''100.64.0.0'' = Some 0x64400000" "parse_ipv4 ''10.210.0.0'' = Some 0x0AD20000"
    using parse_show_ipv4 [of "0x64400000"] parse_show_ipv4 [of "0x0AD20000"]
    by (simp_all add: show_ipv4_def octets_def octet_def show_nat.simps digit_char_eval)
  have q: "parse_unsigned 33 ''16'' = Some 16" by (simp add: parse_unsigned_def digit_val_def)
  show "\<exists>m. net_parse pair_net ''100.64.0.0/16'' = Some m" "\<exists>m. net_parse pair_net ''10.210.0.0/16'' = Some m"
    by (simp_all add: pair_net_def split_once_def p q)
qed

theorem desired_mesh_well_formed_witness:
  "\<exists>d. build_desired pair_net id sample_match sample_rcgen sample_flags Bootstrap [] False False = Inr d
     \<and> shell_word (dm_interface d) \<and> distinct (dm_nodes d)"
proof -
  obtain m c where n: "net_parse pair_net ''100.64.0.0/16'' = Some m" "net_parse pair_net ''10.210.0.0/16'' = Some c"
    using sample_nets by blast
  obtain d where d: "build_desired pair_net id sample_match sample_rcgen sample_flags Bootstrap [] False False = Inr d"
    using sample_build [OF n] by blast
  from desired_mesh_well_formed [OF sample_match_ok d] d show ?thesis by blast
qed

section \<open>What a command changes on its own machine\<close>

fun flags_of :: "init_command \<Rightarrow> base_init_flags" where
  "flags_of (CmdPlan b _ _ _ _) = b"
| "flags_of (CmdBootstrap b) = b"
| "flags_of (CmdExtend b _ _) = b"
| "flags_of (CmdUpgrade b _) = b"

text \<open>The files a command may write: the certificate and the key, when flux is to use TLS.\<close>

definition tls_files :: "base_init_flags \<Rightarrow> string set" where
  "tls_files b =
     (if bf_enable_flux_tls b then {cert_path_in (bf_flux_tls_out_dir b), key_path_in (bf_flux_tls_out_dir b)} else {})"

lemma build_desired_tls:
  assumes "build_desired I net_err is_match R b intent new_nodes ar an = Inr d"
  shows "dm_flux_tls d \<noteq> None \<longleftrightarrow> bf_enable_flux_tls b"
proof -
  obtain tls url where "flux_tls R b = Inr (tls, url)" "dm_flux_tls d = tls"
    using assms unfolding build_desired_def and_then_eq_Inr Let_def guard_eq_Inr
    by (clarsimp simp: and_then_eq_Inr guard_eq_Inr split: prod.splits if_splits)
  moreover from this(1) have "tls \<noteq> None \<longleftrightarrow> bf_enable_flux_tls b"
    by (auto simp: flux_tls_def Let_def split: if_splits option.splits sum.splits)
  ultimately show ?thesis by simp
qed

lemma write_tls_of_frame:
  assumes "build_desired I net_err is_match R b intent new_nodes ar an = Inr d" and "write_tls_of H b d l = (r, l')"
    and "p \<notin> tls_files b"
  shows "file_at l' p = file_at l p"
proof (cases "dm_flux_tls d")
  case (Some cert)
  then have "write_flux_tls_output H (bf_flux_tls_out_dir b) cert l = (r, l')" using assms(2) by (simp add: write_tls_of_def)
  moreover have "p \<noteq> cert_path_in (bf_flux_tls_out_dir b)" "p \<noteq> key_path_in (bf_flux_tls_out_dir b)"
    using assms(3) build_desired_tls [OF assms(1)] Some by (auto simp: tls_files_def)
  ultimately show ?thesis by (rule write_flux_tls_frame)
qed (use assms(2) in \<open>simp add: write_tls_of_def\<close>)

lemma run_apply_frame:
  assumes "run_apply H I net_err sha b64 is_match R sched client b intent new_nodes ar an l w = Some (r, l', w')"
    and "p \<notin> tls_files b"
  shows "file_at l' p = file_at l p"
  using assms write_tls_of_frame [OF _ _ assms(2), of I net_err is_match R intent new_nodes ar an]
  by (fastforce simp: run_apply_def split: option.splits sum.splits prod.splits if_splits)

text \<open>Whatever happens, also when it fails half way, an \<open>init\<close> command changes no file of the machine
  it runs on but the certificate and key in the output directory, and none at all unless flux is to
  use TLS.\<close>

theorem init_changes_only_tls_files:
  assumes "run_init H I net_err sha b64 is_match R sched client cmd l w = Some (r, l', w')"
    and "p \<notin> tls_files (flags_of cmd)"
  shows "file_at l' p = file_at l p"
  using assms
  by (cases cmd) (auto simp: run_init_def split: if_splits dest: run_apply_frame)

theorem init_changes_only_tls_files_witness:
  "\<exists>w'. run_init calm_ops pair_net id id Some sample_match sample_rcgen id (\<lambda>_ _ _ w. (Inl [], w)) (CmdExtend sample_flags [] False)
     (put_file ''/a'' \<lparr>fi_content = [], fi_mode = 1\<rparr> empty_host) () = Some w' \<and>
   file_at (fst (snd w')) ''/a'' = Some \<lparr>fi_content = [], fi_mode = 1\<rparr>"
proof -
  let ?l = "put_file ''/a'' \<lparr>fi_content = [], fi_mode = 1\<rparr> empty_host"
  have r: "run_init calm_ops pair_net id id Some sample_match sample_rcgen id (\<lambda>_ _ _ w. (Inl [], w)) (CmdExtend sample_flags [] False) ?l () =
      Some (Inl ''--new-nodes is required: list the subset of --nodes that is brand-new'', ?l, ())"
    by (simp add: run_init_def)
  have "''/a'' \<notin> tls_files (flags_of (CmdExtend sample_flags [] False))" by (simp add: tls_files_def sample_flags_def)
  from init_changes_only_tls_files [OF r this] r show ?thesis by simp
qed

end
