(* ===== verification/CliIssued.thy ===== *)
theory CliIssued
  imports CliInit
begin

text \<open>
  The commands an \<open>init\<close> run sends to the machines, whether it succeeds, fails or aborts half way:
  the runner of \<open>CliRemote\<close> with a log of every host and command it was given, and the proof that the
  phases of \<open>CliApply\<close> send a command that installs an agent or removes a network only where the plan
  has the action for it.
\<close>

section \<open>A runner that keeps a log\<close>

definition logged :: "'w runner \<Rightarrow> ('w \<times> (string \<times> string) list) runner" where
  "logged run host cmd wl = (case run host cmd (fst wl) of (r, w) \<Rightarrow> (r, w, snd wl @ [(host, cmd)]))"

text \<open>\<open>sends ok m\<close>: whatever \<open>m\<close> returns, it adds only commands to the log that satisfy \<open>ok\<close>.\<close>

definition sends :: "(string \<times> string \<Rightarrow> bool) \<Rightarrow> ('w \<times> (string \<times> string) list \<Rightarrow> 'a \<times> 'w \<times> (string \<times> string) list) \<Rightarrow> bool" where
  "sends ok m \<longleftrightarrow> (\<forall>wl. list_all ok (snd wl) \<longrightarrow> list_all ok (snd (snd (m wl))))"

named_theorems sends_intros \<open>rules that push \<open>sends\<close> through a phase\<close>

lemma sendsD: "sends ok m \<Longrightarrow> list_all ok (snd wl) \<Longrightarrow> m wl = (r, w, log) \<Longrightarrow> list_all ok log"
  unfolding sends_def by fastforce

lemma sends_logged [sends_intros]: "ok (host, cmd) \<Longrightarrow> sends ok (logged run host cmd)"
  by (simp add: sends_def logged_def split: prod.splits)

lemma sends_return [sends_intros]: "sends ok (io_return a)" "sends ok (io_lift r)"
  by (simp_all add: sends_def io_return_def io_lift_def)

lemma sends_bind [sends_intros]: "sends ok m \<Longrightarrow> (\<And>a. sends ok (f a)) \<Longrightarrow> sends ok (io_bind m f)"
  unfolding sends_def io_bind_def by (fastforce split: prod.splits sum.splits)

lemma sends_if [sends_intros]: "(b \<Longrightarrow> sends ok m) \<Longrightarrow> (\<not> b \<Longrightarrow> sends ok m') \<Longrightarrow> sends ok (if b then m else m')"
  by simp

lemma sends_case_prod [sends_intros]: "(\<And>a b. sends ok (f a b)) \<Longrightarrow> sends ok (case x of (a, b) \<Rightarrow> f a b)"
  by (cases x) simp

lemma sends_step [sends_intros]: "ok (host, cmd) \<Longrightarrow> sends ok (step (logged run) host t ns cmd out)"
  by (auto simp: sends_def step_def logged_def split: prod.splits sum.splits)

lemma sends_step_if [sends_intros]:
  "(b \<Longrightarrow> ok (host, cmd)) \<Longrightarrow> sends ok (step_if b (logged run) host t ns cmd out)"
  by (simp add: step_if_def sends_step sends_return)

lemma sends_each [sends_intros]:
  assumes "\<And>h. sends ok (f h)"
  shows "sends ok (for_each_server sched hosts f)"
proof -
  have "list_all ok (snd (snd (for_each_host f hs wl)))" if "list_all ok (snd wl)" for hs wl
    using that
  proof (induction hs arbitrary: wl)
    case (Cons h hs)
    obtain r wl1 where f: "f h wl = (r, wl1)" by (cases "f h wl")
    then have "list_all ok (snd wl1)" using assms Cons.prems unfolding sends_def by (metis snd_conv)
    with Cons.IH [of wl1] show ?case by (simp add: f case_prod_beta)
  qed simp
  then show ?thesis by (simp add: sends_def for_each_server_def)
qed

section \<open>What is spared\<close>

text \<open>A command to a host that is not new: it is not the installation of an agent in any version, and
  not the replacement of a container network unless that is allowed.\<close>

definition spared :: "'n ipnet \<Rightarrow> string list \<Rightarrow> bool \<Rightarrow> string \<times> string \<Rightarrow> bool" where
  "spared I new_hosts allow_replace hc \<longleftrightarrow>
     fst hc \<in> set new_hosts \<or>
     (\<forall>version sha. snd hc \<noteq> corrosion_install_command version sha \<and> snd hc \<noteq> coold_install_command version sha) \<and>
     (\<not> allow_replace \<longrightarrow> (\<forall>ns sn. snd hc \<noteq> network_command I True ns sn))"

text \<open>The first words tell these commands from all others.\<close>

lemma install_first_word:
  "starts_with (corrosion_install_command v s) ''set -e''" "starts_with (coold_install_command v s) ''set -e''"
  "starts_with (network_command I True ns sn) ''podman network rm''"
  by (simp_all add: corrosion_install_command_def coold_install_command_def network_command_def starts_with_def Let_def)

lemma spared_plain:
  "\<not> starts_with cmd ''set -e'' \<Longrightarrow> \<not> starts_with cmd ''podman network rm'' \<Longrightarrow> spared I new ar (host, cmd)"
  unfolding spared_def fst_conv snd_conv using install_first_word by metis

lemma spared_removal:
  "ar \<or> host \<in> set new \<Longrightarrow> spared I new ar (host, network_command I True ns sn)"
proof -
  have "network_command I True ns sn \<noteq> corrosion_install_command v s" "network_command I True ns sn \<noteq> coold_install_command v s" for v s
    by (simp_all add: corrosion_install_command_def coold_install_command_def network_command_def Let_def)
  then show "ar \<or> host \<in> set new \<Longrightarrow> spared I new ar (host, network_command I True ns sn)" by (auto simp: spared_def)
qed

lemma spared_new: "host \<in> set new \<Longrightarrow> spared I new ar (host, cmd)"
  by (simp add: spared_def)

lemma spared_commands:
  "spared I new ar (h, APT_WG)" "spared I new ar (h, genkey_command)" "spared I new ar (h, APT_PODMAN)"
  "spared I new ar (h, ENABLE_PODMAN)" "spared I new ar (h, ENABLE_IP_FORWARD)"
  "spared I new ar (h, write_config_command J iface ip port peers)" "spared I new ar (h, wg_service_command act iface)"
  "spared I new ar (h, network_command I False ns sn)"
  "spared I new ar (h, install_firewall_command J iface nss sns deny)"
  "spared I new ar (h, heredoc path body mode @ rest)" "spared I new ar (h, heredoc path body mode)"
  "spared I new ar (h, ''mkdir '' @ rest)" "spared I new ar (h, coold_service_command d ip ns')"
  "spared I new ar (h, probe_script iface nss)"
  by (rule spared_plain; simp add: APT_WG_def genkey_command_def APT_PODMAN_def ENABLE_PODMAN_def ENABLE_IP_FORWARD_def
      write_config_command_def wg_service_command_def network_command_def install_firewall_command_def heredoc_def
      coold_service_command_def probe_script_def starts_with_def Let_def)+

section \<open>The phases\<close>

lemma sends_reconstruct: "sends (spared I new ar) (reconstruct J b64 sched (logged run) hosts iface nss)"
proof -
  have "sends (spared I new ar) (probe J b64 (logged run) iface nss h)" for h
    using sends_logged [where ok = "spared I new ar", OF spared_commands(14) [of I new ar h iface nss], of run]
    unfolding sends_def probe_def by (fastforce split: prod.splits sum.splits)
  then have "sends (spared I new ar) (for_each_server sched hosts (probe J b64 (logged run) iface nss))"
    by (rule sends_each)
  then show ?thesis by (simp add: sends_def reconstruct_def case_prod_beta Let_def)
qed

lemma sends_verify: "sends (spared I new ar) (verify sched (logged run) hosts iface)"
proof -
  have "sends (spared I new ar) (verify_host (logged run) iface h)" for h
    unfolding verify_host_def
    by (intro sends_bind sends_logged sends_return spared_plain) (simp_all add: starts_with_def)
  then have "sends (spared I new ar) (for_each_server sched hosts (verify_host (logged run) iface))"
    by (rule sends_each)
  then show ?thesis by (simp add: sends_def verify_def case_prod_beta)
qed

lemma sends_phase1: "sends (spared I new ar) (phase1 (logged run) d cur planned host)"
  unfolding phase1_def Let_def by (intro sends_bind sends_step_if spared_commands)

lemma sends_networks:
  assumes "\<And>ns. should_run planned host RecreatePodmanNetwork ns \<Longrightarrow> ar \<or> host \<in> set new"
  shows "sends (spared I new ar) (network_steps I (logged run) planned subnets host nss out)"
proof (induction nss arbitrary: out)
  case (Cons ns nss)
  have "spared I new ar (host, network_command I (should_run planned host RecreatePodmanNetwork ns) ns sn)" for sn
    using spared_removal [where ar = ar, OF assms] spared_commands(8)
    by (cases "should_run planned host RecreatePodmanNetwork ns") simp_all
  then show ?case unfolding network_steps.simps Let_def
    by (intro sends_if sends_bind sends_return sends_step Cons.IH)
qed (simp add: sends_return)

lemma sends_phase2:
  assumes "\<And>ns. should_run planned host RecreatePodmanNetwork ns \<Longrightarrow> ar \<or> host \<in> set new"
  shows "sends (spared I new ar) (phase2 I (logged run) d fresh mgmt subnets planned host)"
  unfolding phase2_def Let_def
  by (intro sends_bind sends_if sends_return sends_step sends_step_if spared_commands sends_networks assms)

lemma sends_phase3:
  assumes "should_run planned host InstallCorrosion [] \<Longrightarrow> host \<in> set new" "should_run planned host InstallCoold [] \<Longrightarrow> host \<in> set new"
  shows "sends (spared I new ar) (phase3 I (logged run) d mgmt subnets planned host)"
proof -
  have c: "should_run planned host InstallCorrosion [] \<Longrightarrow> spared I new ar (host, corrosion_install_command v s)"
    "should_run planned host InstallCoold [] \<Longrightarrow> spared I new ar (host, coold_install_command v s)" for v s
    using assms spared_new by metis+
  show ?thesis
    unfolding phase3_def Let_def
    by (intro sends_bind sends_if sends_case_prod sends_return sends_step sends_step_if spared_commands c; assumption?)
      (simp_all add: spared_plain starts_with_def)
qed

text \<open>An extending plan has no such action for a host that is not new.\<close>

lemma extend_should_run:
  assumes "build_plan I sha d cur = Some (Inr planned)" "dm_intent d = Extend"
  shows "should_run planned host InstallCorrosion ns \<Longrightarrow> host \<in> set (dm_new_nodes d)"
    and "should_run planned host InstallCoold ns \<Longrightarrow> host \<in> set (dm_new_nodes d)"
    and "should_run planned host RecreatePodmanNetwork ns \<Longrightarrow> dm_allow_replace d \<or> host \<in> set (dm_new_nodes d)"
  using extend_plan_spares [OF assms] by (fastforce simp: should_run_def list_ex_iff)+

lemma sends_apply:
  assumes "dm_intent d = Extend" and "list_all (spared I (dm_new_nodes d) (dm_allow_replace d)) (snd wl)"
    and "apply_mesh I sha b64 sched (logged run) d cur wl = Some (r, w, log)"
  shows "list_all (spared I (dm_new_nodes d) (dm_allow_replace d)) log"
proof (cases "build_plan I sha d cur")
  case None
  then show ?thesis using assms(3) by (simp add: apply_mesh_def)
next
  case (Some pl)
  show ?thesis
  proof (cases pl)
    case (Inl e)
    then show ?thesis using assms(2,3) Some by (auto simp: apply_mesh_def)
  next
    case (Inr planned)
    let ?ok = "spared I (dm_new_nodes d) (dm_allow_replace d)"
    note s = extend_should_run [OF Some [unfolded Inr] assms(1)]
    have p1: "sends ?ok (for_each_server sched (dm_hosts d) (phase1 (logged run) d cur planned))"
      by (intro sends_each sends_phase1)
    have p2: "sends ?ok (for_each_server sched (dm_hosts d) (phase2 I (logged run) d fresh mgmt subnets planned))"
      for fresh mgmt subnets by (intro sends_each sends_phase2 s(3))
    have p3: "sends ?ok (for_each_server sched (dm_nodes d) (phase3 I (logged run) d mgmt subnets planned))"
      for mgmt subnets by (intro sends_each sends_phase3 s(1,2))
    note rc = sends_reconstruct [of I "dm_new_nodes d" "dm_allow_replace d"]
    obtain q1 w1 l1 where e1: "for_each_server sched (dm_hosts d) (phase1 (logged run) d cur planned) wl = (q1, w1, l1)"
      by (metis prod_cases3)
    have k1: "list_all ?ok l1" by (rule sendsD [OF p1 assms(2) e1])
    obtain cr w2 l2 where e2: "reconstruct I b64 sched (logged run) (dm_hosts d) (dm_interface d) (dm_namespaces d) (w1, l1) = (cr, w2, l2)"
      by (metis prod_cases3)
    have k2: "list_all ?ok l2" by (rule sendsD [OF rc _ e2]) (simp add: k1)
    have k3: "list_all ?ok l3" if "for_each_server sched (dm_hosts d) (phase2 I (logged run) d fresh mgmt subnets planned) (w2, l2) = (q2, w3, l3)"
      for fresh mgmt subnets q2 w3 l3 by (rule sendsD [OF p2 _ that]) (simp add: k2)
    have k4: "list_all ?ok l4"
      if "list_all ?ok l3" "for_each_server sched (dm_nodes d) (phase3 I (logged run) d mgmt subnets planned) (w3, l3) = (q3, w4, l4)"
      for mgmt subnets w3 l3 q3 w4 l4 by (rule sendsD [OF p3 _ that(2)]) (simp add: that(1))
    show ?thesis
      using assms(3) k1 k2
      by (auto simp: apply_mesh_def Some Inr e1 e2 split: prod.splits if_splits option.splits sum.splits dest!: k3 intro: k4)
  qed
qed

section \<open>Extending a mesh\<close>

lemma sends_run_apply:
  assumes "run_apply H I net_err sha b64 is_match R sched (\<lambda>f. logged (client f)) b Extend new_nodes ar an l (w, []) =
      Some (out, l', w', log)"
  shows "list_all (spared I (clean_hosts new_nodes) ar) log"
proof (cases "build_desired I net_err is_match R b Extend new_nodes ar an")
  case (Inl e)
  then show ?thesis using assms by (simp add: run_apply_def)
next
  case (Inr d)
  have i: "dm_intent d = Extend" "dm_new_nodes d = clean_hosts new_nodes" "dm_allow_replace d = ar"
    using build_desired_Inr [OF Inr] by auto
  let ?ok = "spared I (clean_hosts new_nodes) ar" and ?run = "logged (client (bf_ssh b))"
  obtain cr w1 l1 where e1: "reconstruct I b64 sched ?run (dm_hosts d) (dm_interface d) (dm_namespaces d) (w, []) = (cr, w1, l1)"
    by (metis prod_cases3)
  have k1: "list_all ?ok l1" by (rule sendsD [OF sends_reconstruct _ e1]) simp
  have k2: "list_all ?ok l2" if "apply_mesh I sha b64 sched ?run d cur (w1, l1) = Some (r, w2, l2)" for cur r w2 l2
    using sends_apply [OF i(1) _ that] k1 i(2,3) by simp
  have k3: "list_all ?ok l3" if "list_all ?ok l2" "verify sched ?run (dm_hosts d) (dm_interface d) (w2, l2) = (v, w3, l3)"
    for w2 l2 v w3 l3 by (rule sendsD [OF sends_verify _ that(2)]) (simp add: that(1))
  show ?thesis
    using assms k1
    by (auto simp: run_apply_def Inr e1 split: prod.splits if_splits option.splits sum.splits dest!: k2 intro: k3)
qed

text \<open>C11: \<open>init extend\<close> spares the hosts that were in the mesh. Whatever the machines answer and however
  a run that returns ends, with success, an error or an abort after any phase, none of the commands it
  sent to a host outside \<open>--new-nodes\<close> installs an agent, in whatever version, and none replaces a
  container network unless the flag allows it.\<close>

theorem extend_run_spares_existing_hosts:
  assumes "run_init H I net_err sha b64 is_match R sched (\<lambda>f. logged (client f)) (CmdExtend b new_nodes allow_replace) l (w, []) =
      Some (out, l', w', log)"
  shows "list_all (spared I (clean_hosts new_nodes) allow_replace) log"
  using assms by (auto simp: run_init_def split: if_splits dest: sends_run_apply)

text \<open>A run that probes the host of the mesh and then stops, because the new node is not among the nodes.\<close>

theorem extend_run_spares_existing_hosts_witness:
  "\<exists>out l' log. run_init calm_ops pair_net id id Some sample_match sample_rcgen id
       (\<lambda>f. logged (\<lambda>_ _ w. (Inl ''unreachable'', w))) (CmdExtend sample_flags [''node-b''] False) empty_host ((), []) =
       Some (Inl out, l', (), log) \<and>
     log = [(''node-a'', probe_script ''wg0'' [''default''])] \<and> list_all (spared pair_net [''node-b''] False) log"
proof -
  let ?run = "\<lambda>f :: ssh_mesh_flags. logged (\<lambda>_ _ w. (Inl ''unreachable'', w :: unit))"
  have c: "clean_hosts [''node-b''] = [''node-b'']"
    by (simp add: clean_hosts_def trim_edged edged_def graphic_def byte_in_def)
  obtain m n where "net_parse pair_net ''100.64.0.0/16'' = Some m" "net_parse pair_net ''10.210.0.0/16'' = Some n"
    using sample_nets by blast
  from sample_build [OF this, of id sample_rcgen Extend "[''node-b'']" False False] obtain d
    where d: "build_desired pair_net id sample_match sample_rcgen sample_flags Extend [''node-b''] False False = Inr d"
      "dm_nodes d = [''node-a'']" "dm_hosts d = [''node-a'']" "dm_intent d = Extend" "dm_new_nodes d = [''node-b'']"
      "dm_interface d = ''wg0''" "dm_namespaces d = [''default'']" "dm_flux_tls d = None" "dm_install_podman d"
    unfolding c by blast
  have e: "\<exists>e. build_plan pair_net id d cur = Some (Inl e)" for cur
    by (simp add: build_plan_def validate_intent_def bind_or_def d)
  have r: "\<exists>cr. reconstruct pair_net Some id (?run (bf_ssh sample_flags)) (dm_hosts d) (dm_interface d) (dm_namespaces d) ((), []) =
      (cr, (), [(''node-a'', probe_script ''wg0'' [''default''])])"
    by (simp add: reconstruct_def for_each_server_def probe_def logged_def d Let_def)
  obtain cur warn where r': "reconstruct pair_net Some id (?run (bf_ssh sample_flags)) (dm_hosts d) (dm_interface d) (dm_namespaces d) ((), []) =
      ((cur, warn), (), [(''node-a'', probe_script ''wg0'' [''default''])])" using r by force
  obtain msg where e': "build_plan pair_net id d cur = Some (Inl msg)" using e by blast
  have o: "run_init calm_ops pair_net id id Some sample_match sample_rcgen id ?run (CmdExtend sample_flags [''node-b''] False)
       empty_host ((), []) = Some (Inl msg, empty_host, (), [(''node-a'', probe_script ''wg0'' [''default''])])"
    using r' e' d(1,8) by (simp add: run_init_def run_apply_def write_tls_of_def io_return_def)
  with extend_run_spares_existing_hosts [OF o] show ?thesis unfolding c by blast
qed

end
