(* ===== verification/CooldConfig.thy ===== *)
theory CooldConfig
  imports NetAddr
begin

text \<open>
  \<open>coold/src/config.rs\<close>: the configuration of the agent and the parsers of its structured values.
  A path is its string. The crate \<open>humantime\<close>, which reads the durations, and clap, which fills the
  record from flags and environment, are outside; a duration is a number of milliseconds.
\<close>

record namespace_config =
  nc_name :: string
  nc_network :: string
  nc_gateway_ip :: ip_addr

record coold_config =
  cc_host_mgmt_ip :: string
  cc_podman_socket :: string
  cc_corrosion_url :: string
  cc_namespaces :: "namespace_config list"
  cc_reconcile_interval :: u64
  cc_host_infra_reconcile_interval :: u64
  cc_log_level :: string
  cc_dns_zone :: string
  cc_dns_upstream :: "ip_addr \<times> u16"
  cc_flux_url :: "string option"
  cc_assignment_url :: "string option"
  cc_host_jwt_path :: string
  cc_grpc_disabled :: bool
  cc_allowed_mount_sources :: "string list"
  cc_flux_tls_pin_path :: string
  cc_strict_endpoint_owner :: bool

definition config_namespace :: "coold_config \<Rightarrow> string \<Rightarrow> namespace_config option" where
  "config_namespace c name = find (\<lambda>ns. nc_name ns = name) (cc_namespaces c)"

text \<open>\<open>IpAddr::is_unspecified\<close>.\<close>

definition is_unspecified :: "ip_addr \<Rightarrow> bool" where
  "is_unspecified a = (case a of V4 v \<Rightarrow> v = 0 | V6 gs \<Rightarrow> list_all (\<lambda>g. g = 0) gs)"

section \<open>Mount sources\<close>

definition split_on_any :: "char list \<Rightarrow> string \<Rightarrow> string list" where
  "split_on_any cs s = split_on (hd cs) (map (\<lambda>c. if c \<in> set cs then hd cs else c) s)"

definition parse_mount_sources :: "string \<Rightarrow> string list" where
  "parse_mount_sources raw =
     filter (\<lambda>e. e \<noteq> []) (map trim (split_on_any [CHR '','', CHR '':''] raw))"

section \<open>Namespaces\<close>

text \<open>\<open>splitn(3, ':')\<close>: at most two cuts.\<close>

fun splitn :: "nat \<Rightarrow> char \<Rightarrow> string \<Rightarrow> string list" where
  "splitn 0 c s = []"
| "splitn (Suc 0) c s = [s]"
| "splitn (Suc n) c s =
     (case split_once c s of None \<Rightarrow> [s] | Some (a, b) \<Rightarrow> a # splitn n c b)"

definition parse_namespace_chunk :: "string \<Rightarrow> namespace_config result" where
  "parse_namespace_chunk chunk =
     (case splitn 3 (CHR '':'') chunk of
        [a, b, c] \<Rightarrow>
          (let name = trim a; network = trim b in
           case parse_ip (trim c) of
             None \<Rightarrow> Inl (''invalid gateway ip in '' @ debug_str chunk @ '': invalid IP address syntax'')
           | Some ip \<Rightarrow>
               if name = [] \<or> network = [] then
                 Inl (''empty name or network in COOLIFY_COOLD_NAMESPACES entry '' @ debug_str chunk)
               else Inr \<lparr>nc_name = name, nc_network = network, nc_gateway_ip = ip\<rparr>)
      | _ \<Rightarrow>
          Inl (''COOLIFY_COOLD_NAMESPACES entry must be `<name>:<network>:<gateway-ip>`, got '' @ debug_str chunk))"

definition parse_namespaces :: "string \<Rightarrow> namespace_config list result" where
  "parse_namespaces raw =
     (let raw = trim raw in
      if raw = [] then
        Inr [\<lparr>nc_name = ''default'', nc_network = ''coolify-default-mesh'', nc_gateway_ip = V4 0\<rparr>]
      else
        and_then (map_result parse_namespace_chunk
                    (filter (\<lambda>c. c \<noteq> []) (map trim (split_on (CHR '','') raw)))) (\<lambda>out.
        if out = [] then Inl ''COOLIFY_COOLD_NAMESPACES parsed to zero entries'' else Inr out))"

section \<open>What the parsers promise\<close>

lemma parse_namespace_chunk_ok:
  "parse_namespace_chunk c = Inr n \<Longrightarrow> nc_name n \<noteq> [] \<and> nc_network n \<noteq> []"
  by (auto simp: parse_namespace_chunk_def Let_def split: list.splits option.splits if_splits)

lemma parse_namespaces_nonempty:
  assumes "parse_namespaces raw = Inr ns"
  shows "ns \<noteq> [] \<and> (\<forall>n\<in>set ns. nc_name n \<noteq> [] \<and> nc_network n \<noteq> [])"
proof (cases "trim raw = []")
  case True
  then show ?thesis using assms by (auto simp: parse_namespaces_def)
next
  case False
  then obtain out where out: "map_result parse_namespace_chunk
        (filter (\<lambda>c. c \<noteq> []) (map trim (split_on (CHR '','') (trim raw)))) = Inr out" "out \<noteq> []" "ns = out"
    using assms by (auto simp: parse_namespaces_def Let_def and_then_eq_Inr split: if_splits)
  have "\<forall>n\<in>set ns. nc_name n \<noteq> [] \<and> nc_network n \<noteq> []"
  proof
    fix n assume "n \<in> set ns"
    then obtain c where "parse_namespace_chunk c = Inr n"
      using out(1,3) by (auto simp: map_result_eq_Inr dest: list_all2_set2)
    then show "nc_name n \<noteq> [] \<and> nc_network n \<noteq> []" by (rule parse_namespace_chunk_ok)
  qed
  with out(2,3) show ?thesis by simp
qed

lemma parse_mount_sources_empty: "parse_mount_sources [] = []"
  by (simp add: parse_mount_sources_def split_on_any_def)

end
