(* ===== verification/CooldPodman.thy ===== *)
theory CooldPodman
  imports Effects Proto NetAddr
begin

text \<open>
  \<open>coold/src/podman\<close>: the data of the Podman API, the client (\<open>client.rs\<close>) and the event stream
  (\<open>events.rs\<close>). The HTTP exchange over the unix socket, the derived JSON codecs, percent encoding
  and the file system's \<open>canonicalize\<close> are the fields of the record \<open>podman\<close>.
\<close>

section \<open>Data of the API\<close>

record network_entry =
  ne_ip_address :: string

text \<open>\<open>ListNetworkSettings\<close> is its map of networks.\<close>

type_synonym network_settings = "(string, network_entry) hmap"

record container =
  co_id :: string
  co_names :: "string list"
  co_image :: string
  co_state :: string
  co_network_settings :: "network_settings option"

record container_health =
  ch_status :: string

record container_state =
  st_status :: string
  st_health :: "container_health option"

record container_inspect =
  ci_id :: string
  ci_name :: string
  ci_network_settings :: "network_settings option"
  ci_state :: "container_state option"

record image =
  img_id :: string
  img_repo_tags :: "string list"
  img_repo_digests :: "string list"
  img_size :: int
  img_created :: string

record image_pull_report =
  ipr_id :: string
  ipr_images :: "string list"
  ipr_digest :: string
  ipr_stream :: string

record exec_inspect =
  ei_exit_code :: int
  ei_running :: bool

record port_mapping_spec =
  ps_host_ip :: string
  ps_host_port :: u32
  ps_container_port :: u32
  ps_protocol :: string

record container_create_spec =
  sp_name :: string
  sp_image :: string
  sp_command :: "string list"
  sp_env :: "(string, string) hmap"
  sp_networks :: "(string, json) hmap"
  sp_mounts :: "json list"
  sp_port_mappings :: "port_mapping_spec list"
  sp_dns_servers :: "string list"
  sp_dns_search :: "string list"
  sp_restart_policy :: "string option"

record create_port_mapping =
  cp_host_ip :: string
  cp_host_port :: u32
  cp_container_port :: u32
  cp_protocol :: string

record create_container_input =
  in_name :: string
  in_image :: string
  in_command :: "string list"
  in_env :: "string list"
  in_networks :: "string list"
  in_volumes :: "string list"
  in_ports :: "create_port_mapping list"
  in_dns :: "string list"
  in_dns_search :: "string list"
  in_network_aliases :: "string list"
  in_restart_policy :: string
  in_privileged :: bool
  in_network_mode :: string
  in_capabilities :: "string list"

section \<open>The client\<close>

record 'w podman =
  po_http :: "string \<Rightarrow> string \<Rightarrow> string \<Rightarrow> ('w, http_reply) io"
  po_sleep_ms :: "nat \<Rightarrow> 'w \<Rightarrow> 'w"
  po_percent_encode :: "(char \<Rightarrow> bool) \<Rightarrow> string \<Rightarrow> string"
  po_to_vec :: "json \<Rightarrow> string result"
  po_containers :: "string \<Rightarrow> container list result"
  po_inspect :: "string \<Rightarrow> container_inspect result"
  po_images :: "string \<Rightarrow> image list result"
  po_pull_report :: "string \<Rightarrow> image_pull_report result"
  po_created_id :: "string \<Rightarrow> string result"
  po_exec_id :: "string \<Rightarrow> string result"
  po_exec_inspect :: "string \<Rightarrow> exec_inspect result"
  po_canonicalize :: "string \<Rightarrow> 'w \<Rightarrow> string result"
  po_allowed_mount_sources :: "string list"

definition podman_send :: "'w podman \<Rightarrow> string \<Rightarrow> string \<Rightarrow> string \<Rightarrow> ('w, http_reply) io" where
  "podman_send P meth path body = io_context (''podman '' @ path) (po_http P meth path body)"

definition body_bytes :: "http_reply \<Rightarrow> string \<Rightarrow> string result" where
  "body_bytes res path = with_context (''podman '' @ path @ '' read body'') (hr_body res)"

definition read_json :: "(string \<Rightarrow> 'a result) \<Rightarrow> http_reply \<Rightarrow> string \<Rightarrow> 'a result" where
  "read_json dec res path =
     and_then (body_bytes res path) (\<lambda>bytes.
     if \<not> hr_success res then
       Inl (''podman '' @ path @ '' returned HTTP '' @ hr_status res @ '': '' @ from_utf8_lossy bytes)
     else with_context (''podman '' @ path @ '' decode'') (dec bytes))"

definition read_text :: "http_reply \<Rightarrow> string \<Rightarrow> string result" where
  "read_text res path =
     and_then (body_bytes res path) (\<lambda>bytes.
     let text = trim (from_utf8_lossy bytes) in
     if \<not> hr_success res then
       Inl (''podman '' @ path @ '' returned HTTP '' @ hr_status res @ '': '' @ text)
     else Inr text)"

definition get_json :: "'w podman \<Rightarrow> (string \<Rightarrow> 'a result) \<Rightarrow> string \<Rightarrow> ('w, 'a) io" where
  "get_json P dec path =
     io_bind (podman_send P ''GET'' path []) (\<lambda>res. io_lift (read_json dec res path))"

definition post_empty :: "'w podman \<Rightarrow> string \<Rightarrow> ('w, string) io" where
  "post_empty P path =
     io_bind (podman_send P ''POST'' path []) (\<lambda>res. io_lift (read_text res path))"

definition post_json :: "'w podman \<Rightarrow> (string \<Rightarrow> 'a result) \<Rightarrow> string \<Rightarrow> json \<Rightarrow> ('w, 'a) io" where
  "post_json P dec path body =
     io_bind (io_lift (with_context ''encode podman JSON request'' (po_to_vec P body))) (\<lambda>bytes.
     io_bind (podman_send P ''POST'' path bytes) (\<lambda>res. io_lift (read_json dec res path)))"

definition delete_empty :: "'w podman \<Rightarrow> string \<Rightarrow> ('w, string) io" where
  "delete_empty P path =
     io_bind (podman_send P ''DELETE'' path []) (\<lambda>res. io_lift (read_text res path))"

subsection \<open>References\<close>

text \<open>\<open>PODMAN_ENCODE\<close>: the ASCII bytes that are encoded.\<close>

definition PODMAN_ENCODE :: "char \<Rightarrow> bool" where
  "PODMAN_ENCODE c =
     (byte_in 0 127 c \<and> \<not> is_alnum c \<and> c \<notin> {CHR ''-'', CHR ''.'', CHR ''_'', CHR ''~''})"

definition url_escape :: "'w podman \<Rightarrow> string \<Rightarrow> string" where
  "url_escape P value = po_percent_encode P PODMAN_ENCODE value"

text \<open>The encodings of the control characters U+0000 to U+001F and U+007F to U+009F.\<close>

definition control_seqs :: "string list" where
  "control_seqs = map (\<lambda>n. [char_of n]) ([0..<32] @ [127]) @ map (\<lambda>n. [CHR 0xC2, char_of n]) [128..<160]"

definition is_safe_podman_ref :: "string \<Rightarrow> bool" where
  "is_safe_podman_ref v =
     (v \<noteq> [] \<and> \<not> list_ex (\<lambda>w. contains_str v w) (control_seqs @ ws_seqs))"

definition show_bool :: "bool \<Rightarrow> string" where
  "show_bool b = (if b then ''true'' else ''false'')"

definition show_u32 :: "u32 \<Rightarrow> string" where
  "show_u32 n = show_nat (unat n)"

definition LIBPOD :: string where
  "LIBPOD = ''/v5.0.0/libpod''"

definition container_path :: "'w podman \<Rightarrow> string \<Rightarrow> string \<Rightarrow> string" where
  "container_path P cid rest = LIBPOD @ ''/containers/'' @ url_escape P cid @ rest"

subsection \<open>Images\<close>

definition list_images :: "'w podman \<Rightarrow> ('w, image list) io" where
  "list_images P = get_json P (po_images P) (LIBPOD @ ''/images/json'')"

text \<open>The first line that reads as a report and names a digest, an id or an image.\<close>

definition report_digest :: "image_pull_report \<Rightarrow> string option" where
  "report_digest r =
     (if ipr_digest r \<noteq> [] then Some (ipr_digest r)
      else if ipr_id r \<noteq> [] then Some (ipr_id r)
      else (case ipr_images r of [] \<Rightarrow> None | i # _ \<Rightarrow> Some i))"

fun find_digest :: "'w podman \<Rightarrow> string list \<Rightarrow> string" where
  "find_digest P [] = []"
| "find_digest P (l # ls) =
     (case po_pull_report P l of
        Inl _ \<Rightarrow> find_digest P ls
      | Inr r \<Rightarrow> (case report_digest r of Some d \<Rightarrow> d | None \<Rightarrow> find_digest P ls))"

definition pull_image :: "'w podman \<Rightarrow> string \<Rightarrow> ('w, string \<times> string) io" where
  "pull_image P reference =
     (if \<not> is_safe_podman_ref reference then io_fail ''images.pull denied invalid image reference''
      else io_bind (post_empty P (LIBPOD @ ''/images/pull?reference='' @ url_escape P reference)) (\<lambda>text.
        io_return (find_digest P (lines text), text)))"

definition delete_image :: "'w podman \<Rightarrow> string \<Rightarrow> bool \<Rightarrow> ('w, string) io" where
  "delete_image P reference force =
     (if \<not> is_safe_podman_ref reference then io_fail ''images.delete denied invalid image reference''
      else delete_empty P (LIBPOD @ ''/images/'' @ url_escape P reference @ ''?force='' @ show_bool force))"

subsection \<open>Containers\<close>

definition containers_list :: "'w podman \<Rightarrow> ('w, container list) io" where
  "containers_list P = get_json P (po_containers P) (LIBPOD @ ''/containers/json?all=true'')"

definition inspect_container :: "'w podman \<Rightarrow> string \<Rightarrow> ('w, container_inspect) io" where
  "inspect_container P cid = get_json P (po_inspect P) (container_path P cid ''/json'')"

definition inspect_container_json :: "'w podman \<Rightarrow> string \<Rightarrow> ('w, string) io" where
  "inspect_container_json P cid =
     io_bind (podman_send P ''GET'' (container_path P cid ''/json'') []) (\<lambda>res.
     io_lift (read_text res ''inspect container''))"

definition start_container :: "'w podman \<Rightarrow> string \<Rightarrow> ('w, string) io" where
  "start_container P cid = post_empty P (container_path P cid ''/start'')"

definition stop_container :: "'w podman \<Rightarrow> string \<Rightarrow> u32 \<Rightarrow> ('w, string) io" where
  "stop_container P cid t = post_empty P (container_path P cid (''/stop?t='' @ show_u32 t))"

definition restart_container :: "'w podman \<Rightarrow> string \<Rightarrow> u32 \<Rightarrow> ('w, string) io" where
  "restart_container P cid t = post_empty P (container_path P cid (''/restart?t='' @ show_u32 t))"

definition delete_container :: "'w podman \<Rightarrow> string \<Rightarrow> bool \<Rightarrow> ('w, string) io" where
  "delete_container P cid force = delete_empty P (container_path P cid (''?force='' @ show_bool force))"

definition container_logs :: "'w podman \<Rightarrow> string \<Rightarrow> u32 \<Rightarrow> bool \<Rightarrow> bool \<Rightarrow> ('w, string) io" where
  "container_logs P cid tail out err =
     io_bind (podman_send P ''GET''
       (container_path P cid (''/logs?stdout='' @ show_bool out @ ''&stderr='' @ show_bool err @ ''&tail='' @
          (if tail = 0 then ''all'' else show_u32 tail))) []) (\<lambda>res.
     io_lift (read_text res ''container logs''))"

definition run_healthcheck :: "'w podman \<Rightarrow> string \<Rightarrow> ('w, string) io" where
  "run_healthcheck P cid = post_empty P (container_path P cid ''/healthcheck'')"

subsection \<open>Exec\<close>

definition finished_exec_exit_code :: "exec_inspect \<Rightarrow> int option" where
  "finished_exec_exit_code i = (if \<not> ei_running i then Some (ei_exit_code i) else None)"

definition POLL_INTERVAL :: nat where
  "POLL_INTERVAL = 50"

definition MAX_ATTEMPTS :: nat where
  "MAX_ATTEMPTS = 1200"

definition exec_state :: "'w podman \<Rightarrow> string \<Rightarrow> ('w, exec_inspect) io" where
  "exec_state P eid =
     get_json P (po_exec_inspect P) (LIBPOD @ ''/exec/'' @ url_escape P eid @ ''/json'')"

text \<open>\<open>poll_exec n\<close> makes at most \<open>n\<close> attempts.\<close>

fun poll_exec :: "'w podman \<Rightarrow> string \<Rightarrow> nat \<Rightarrow> ('w, int) io" where
  "poll_exec P eid 0 = io_fail (''exec '' @ eid @ '' did not finish within timeout'')"
| "poll_exec P eid (Suc n) =
     io_bind (exec_state P eid) (\<lambda>i.
     case finished_exec_exit_code i of
       Some code \<Rightarrow> io_return code
     | None \<Rightarrow> (\<lambda>w. poll_exec P eid n (po_sleep_ms P POLL_INTERVAL w)))"

definition wait_exec_exit_code :: "'w podman \<Rightarrow> string \<Rightarrow> ('w, int) io" where
  "wait_exec_exit_code P eid = poll_exec P eid MAX_ATTEMPTS"

definition exec_container :: "'w podman \<Rightarrow> string \<Rightarrow> string list \<Rightarrow> ('w, int \<times> string) io" where
  "exec_container P cid command =
     (if command = [] then io_fail ''exec command cannot be empty''
      else
        io_bind (post_json P (po_exec_id P) (container_path P cid ''/exec'')
          (JObject [(''Cmd'', jstrings command), (''AttachStdout'', JBool True), (''AttachStderr'', JBool True)]))
          (\<lambda>eid.
        if eid = [] then io_fail ''podman returned empty exec id''
        else
          io_bind (post_empty P (LIBPOD @ ''/exec/'' @ url_escape P eid @ ''/start'')) (\<lambda>output.
          io_bind (wait_exec_exit_code P eid) (\<lambda>code.
          io_return (code, output)))))"

section \<open>Creating a container\<close>

definition is_denied_network_mode :: "string \<Rightarrow> bool" where
  "is_denied_network_mode mode =
     (let m = to_ascii_lowercase (trim mode) in
      m = ''host'' \<or> starts_with m ''container:'' \<or> starts_with m ''ns:'')"

definition is_host_path_source :: "string \<Rightarrow> bool" where
  "is_host_path_source source =
     (starts_with source ''/'' \<or> contains_str source ''/'' \<or> contains_str source ''..'')"

text \<open>\<open>Path::starts_with\<close>: whole components are compared.\<close>

definition path_starts_with :: "string \<Rightarrow> string \<Rightarrow> bool" where
  "path_starts_with p q =
     (take (length (path_components q)) (path_components p) = path_components q)"

definition mount_permitted :: "'w podman \<Rightarrow> 'w \<Rightarrow> string \<Rightarrow> bool" where
  "mount_permitted P w canonical =
     list_ex (\<lambda>prefix. path_starts_with canonical
        (case po_canonicalize P prefix w of Inr p \<Rightarrow> p | Inl _ \<Rightarrow> prefix)) (po_allowed_mount_sources P)"

definition validate_mount_source :: "'w podman \<Rightarrow> 'w \<Rightarrow> string \<Rightarrow> unit result" where
  "validate_mount_source P w source =
     (if \<not> is_host_path_source source then Inr ()
      else if po_allowed_mount_sources P = [] then
        Inl (''containers.create denied host bind mount '' @ debug_str source @
             '': host bind mounts are disabled (set COOLIFY_COOLD_ALLOWED_MOUNT_SOURCES to permit specific prefixes)'')
      else (case po_canonicalize P source w of
        Inl e \<Rightarrow> Inl (''containers.create denied host bind mount '' @ debug_str source @
                      '': cannot canonicalize ('' @ e @ '')'')
      | Inr canonical \<Rightarrow>
          if mount_permitted P w canonical then Inr ()
          else Inl (''containers.create denied host bind mount '' @ debug_str source @
                    '': not under an allowed prefix'')))"

fun validate_volumes :: "'w podman \<Rightarrow> 'w \<Rightarrow> string list \<Rightarrow> unit result" where
  "validate_volumes P w [] = Inr ()"
| "validate_volumes P w (v # vs) =
     (case split_once (CHR '':'') v of
        None \<Rightarrow> validate_volumes P w vs
      | Some (source, _) \<Rightarrow>
          and_then (validate_mount_source P w source) (\<lambda>_. validate_volumes P w vs))"

definition validate_create_container :: "'w podman \<Rightarrow> 'w \<Rightarrow> create_container_input \<Rightarrow> unit result" where
  "validate_create_container P w i =
     (if in_privileged i then Inl ''containers.create denied privileged mode''
      else if is_denied_network_mode (in_network_mode i) \<or> list_ex (\<lambda>n. n = ''host'') (in_networks i) then
        Inl ''containers.create denied host networking''
      else if in_capabilities i \<noteq> [] then Inl ''containers.create denied custom capabilities''
      else validate_volumes P w (in_volumes i))"

definition spec_env :: "string list \<Rightarrow> (string, string) hmap" where
  "spec_env env = hm_of_list (List.map_filter (split_once (CHR ''='')) env)"

definition spec_networks :: "string list \<Rightarrow> string list \<Rightarrow> (string, json) hmap" where
  "spec_networks networks aliases =
     hm_of_list (map (\<lambda>n. (n, if aliases = [] then JObject [] else JObject [(''aliases'', jstrings aliases)])) networks)"

definition bind_mount :: "string \<times> string \<Rightarrow> json" where
  "bind_mount sd = JObject [(''type'', JString ''bind''), (''source'', JString (fst sd)), (''destination'', JString (snd sd))]"

definition spec_mounts :: "string list \<Rightarrow> json list" where
  "spec_mounts volumes = List.map_filter (\<lambda>v. map_option bind_mount (split_once (CHR '':'') v)) volumes"

definition create_spec :: "create_container_input \<Rightarrow> container_create_spec" where
  "create_spec i =
     \<lparr>sp_name = in_name i, sp_image = in_image i, sp_command = in_command i, sp_env = spec_env (in_env i),
      sp_networks = spec_networks (in_networks i) (in_network_aliases i), sp_mounts = spec_mounts (in_volumes i),
      sp_port_mappings =
        map (\<lambda>p. \<lparr>ps_host_ip = cp_host_ip p, ps_host_port = cp_host_port p,
                 ps_container_port = cp_container_port p,
                 ps_protocol = (if cp_protocol p = [] then ''tcp'' else cp_protocol p)\<rparr>) (in_ports i),
      sp_dns_servers = in_dns i, sp_dns_search = in_dns_search i,
      sp_restart_policy = (if in_restart_policy i = [] then None else Some (in_restart_policy i))\<rparr>"

text \<open>The derived \<open>Serialize\<close>: a field marked \<open>skip_serializing_if\<close> is absent when it is empty.\<close>

definition unless_empty :: "string \<Rightarrow> bool \<Rightarrow> json \<Rightarrow> (string \<times> json) list" where
  "unless_empty k skip v = (if skip then [] else [(k, v)])"

definition port_json :: "port_mapping_spec \<Rightarrow> json" where
  "port_json p = JObject
     (unless_empty ''host_ip'' (ps_host_ip p = []) (JString (ps_host_ip p)) @
      [(''host_port'', jint (uint (ps_host_port p))), (''container_port'', jint (uint (ps_container_port p))),
       (''protocol'', JString (ps_protocol p))])"

definition spec_json :: "container_create_spec \<Rightarrow> json" where
  "spec_json s = JObject
     ([(''name'', JString (sp_name s)), (''image'', JString (sp_image s))] @
      unless_empty ''command'' (sp_command s = []) (jstrings (sp_command s)) @
      unless_empty ''env'' (sp_env s = []) (JObject (map (\<lambda>(k, v). (k, JString v)) (sp_env s))) @
      unless_empty ''networks'' (sp_networks s = []) (JObject (sp_networks s)) @
      unless_empty ''mounts'' (sp_mounts s = []) (JArray (sp_mounts s)) @
      unless_empty ''portmappings'' (sp_port_mappings s = []) (JArray (map port_json (sp_port_mappings s))) @
      unless_empty ''dns_server'' (sp_dns_servers s = []) (jstrings (sp_dns_servers s)) @
      unless_empty ''dns_search'' (sp_dns_search s = []) (jstrings (sp_dns_search s)) @
      (case sp_restart_policy s of None \<Rightarrow> [] | Some p \<Rightarrow> [(''restart_policy'', JString p)]))"

definition post_spec :: "'w podman \<Rightarrow> container_create_spec \<Rightarrow> ('w, string) io" where
  "post_spec P spec =
     io_bind (post_json P (po_created_id P)
        (LIBPOD @ ''/containers/create?name='' @ url_escape P (sp_name spec)) (spec_json spec)) (\<lambda>cid.
     if cid = [] then io_fail ''podman returned empty container id'' else io_return cid)"

definition create_container :: "'w podman \<Rightarrow> create_container_input \<Rightarrow> ('w, string) io" where
  "create_container P i =
     (if \<not> is_safe_podman_ref (in_image i) \<or> \<not> is_safe_podman_ref (in_name i) then
        io_fail ''containers.create denied invalid image or name''
      else (\<lambda>w. io_bind (io_lift (validate_create_container P w i)) (\<lambda>_. post_spec P (create_spec i)) w))"

section \<open>The event stream\<close>

datatype event_kind = EvStart | EvStop

definition classify :: "string \<Rightarrow> event_kind option" where
  "classify a =
     (if a \<in> {''start'', ''started'', ''init''} then Some EvStart
      else if a \<in> {''die'', ''died'', ''stop'', ''stopped'', ''remove'', ''removed'', ''kill'', ''killed''} then Some EvStop
      else None)"

record podman_event =
  pev_kind :: string
  pev_action :: string
  pev_actor_id :: string
  pev_status :: string
  pev_id :: string

definition event_container_id :: "podman_event \<Rightarrow> string" where
  "event_container_id e = (if pev_actor_id e \<noteq> [] then pev_actor_id e else pev_id e)"

definition event_action_name :: "podman_event \<Rightarrow> string" where
  "event_action_name e = (if pev_action e \<noteq> [] then pev_action e else pev_status e)"

record event_message =
  em_kind :: event_kind
  em_container_id :: string

text \<open>\<open>dispatch\<close>: the message a line gives, if any; the JSON decoder is a parameter.\<close>

definition dispatch_line :: "(string \<Rightarrow> podman_event option) \<Rightarrow> string \<Rightarrow> event_message option" where
  "dispatch_line dec line =
     (case dec line of
        None \<Rightarrow> None
      | Some e \<Rightarrow>
          if pev_kind e \<noteq> ''container'' \<and> pev_kind e \<noteq> [] then None
          else (case classify (event_action_name e) of
            None \<Rightarrow> None
          | Some k \<Rightarrow>
              (let cid = event_container_id e in
               if cid = [] then None else Some \<lparr>em_kind = k, em_container_id = cid\<rparr>)))"

text \<open>The inner loop: complete lines are cut off the buffer, empty ones are dropped.\<close>

function drain_lines :: "string \<Rightarrow> string list \<times> string" where
  "drain_lines buf =
     (case split_once (CHR 0x0A) buf of
        None \<Rightarrow> ([], buf)
      | Some (line, rest) \<Rightarrow>
          (case drain_lines rest of (ls, b) \<Rightarrow> (if line = [] then ls else line # ls, b)))"
  by pat_completeness auto
termination
proof (relation "measure length", goal_cases)
  case (2 buf x line rest)
  then have "length rest < length buf"
    using dropWhile_eq_Nil_conv [of "\<lambda>x. x \<noteq> CHR 0x0A" buf] length_dropWhile_le [of "\<lambda>x. x \<noteq> CHR 0x0A" buf]
    by (cases "dropWhile (\<lambda>x. x \<noteq> CHR 0x0A) buf") (auto simp: split_once_def split: if_splits)
  then show ?case by simp
qed simp

declare drain_lines.simps [simp del]

datatype body_frame = FrameData string | FrameTrailers | FrameError string

text \<open>
  \<open>stream_once\<close> after the connection is open: the lines that are handed to \<open>dispatch\<close>, and
  whether the body ended or broke. A broken body drops the unfinished line.
\<close>

fun read_frames :: "string \<Rightarrow> body_frame list \<Rightarrow> string list \<times> unit result" where
  "read_frames buf [] = ((if buf = [] then [] else [buf]), Inr ())"
| "read_frames buf (FrameError e # fs) = ([], Inl (''read event frame: '' @ e))"
| "read_frames buf (FrameTrailers # fs) = read_frames buf fs"
| "read_frames buf (FrameData d # fs) =
     (case drain_lines (buf @ d) of (ls, b) \<Rightarrow>
        (case read_frames b fs of (ls', r) \<Rightarrow> (ls @ ls', r)))"

definition stream_once ::
  "(string \<Rightarrow> podman_event option) \<Rightarrow> body_frame list \<Rightarrow> event_message list \<times> unit result" where
  "stream_once dec fs =
     (case read_frames [] fs of (ls, r) \<Rightarrow> (List.map_filter (dispatch_line dec) ls, r))"

text \<open>The reconnect delay in milliseconds: the delay that is slept (none after a clean end) and the
  next one.\<close>

definition EVENT_BACKOFF_START :: nat where
  "EVENT_BACKOFF_START = 500"

definition EVENT_BACKOFF_MAX :: nat where
  "EVENT_BACKOFF_MAX = 10000"

definition events_turn :: "unit result \<Rightarrow> nat \<Rightarrow> nat \<times> nat" where
  "events_turn r backoff =
     (case r of
        Inr _ \<Rightarrow> (0, EVENT_BACKOFF_START)
      | Inl _ \<Rightarrow> (backoff, min (backoff * 2) EVENT_BACKOFF_MAX))"

section \<open>Properties\<close>

subsection \<open>What a created container may be\<close>

text \<open>The containers the agent refuses, written as one condition.\<close>

text \<open>The policy, stated on its own: what a network mode, a source of a mount and a name must not be.\<close>

definition foreign_network :: "string \<Rightarrow> bool" where
  "foreign_network mode \<longleftrightarrow>
     (\<exists>rest. to_ascii_lowercase (trim mode) \<in> {''host'', ''container:'' @ rest, ''ns:'' @ rest})"

text \<open>\<open>under P w c\<close>: the path \<open>c\<close> is an allowed prefix, resolved where it exists, or lies below one.\<close>

definition under_allowed :: "'w podman \<Rightarrow> 'w \<Rightarrow> string \<Rightarrow> bool" where
  "under_allowed P w c \<longleftrightarrow>
     (\<exists>prefix\<in>set (po_allowed_mount_sources P). \<exists>resolved below.
        (po_canonicalize P prefix w = Inr resolved \<or> \<not> is_ok (po_canonicalize P prefix w) \<and> resolved = prefix) \<and>
        path_components c = path_components resolved @ below)"

definition source_allowed :: "'w podman \<Rightarrow> 'w \<Rightarrow> string \<Rightarrow> bool" where
  "source_allowed P w source \<longleftrightarrow>
     (CHR ''/'' \<notin> set source \<and> (\<forall>a b. source \<noteq> a @ ''..'' @ b)) \<or>
     (\<exists>c. po_canonicalize P source w = Inr c \<and> under_allowed P w c)"

definition blank_or_control :: "string \<Rightarrow> bool" where
  "blank_or_control c \<longleftrightarrow>
     (\<exists>n. (n < 32 \<or> n = 127) \<and> c = [char_of (n :: nat)]) \<or>
     (\<exists>n. 128 \<le> n \<and> n < 160 \<and> c = [CHR 0xC2, char_of (n :: nat)]) \<or>
     c \<in> set ws_seqs"

definition bad_ref :: "string \<Rightarrow> bool" where
  "bad_ref v \<longleftrightarrow> v = [] \<or> (\<exists>a c b. v = a @ c @ b \<and> blank_or_control c)"

definition create_denied :: "'w podman \<Rightarrow> 'w \<Rightarrow> create_container_input \<Rightarrow> bool" where
  "create_denied P w i \<longleftrightarrow>
     bad_ref (in_image i) \<or> bad_ref (in_name i) \<or> in_privileged i \<or> in_capabilities i \<noteq> [] \<or>
     foreign_network (in_network_mode i) \<or> ''host'' \<in> set (in_networks i) \<or>
     (\<exists>source target. source @ '':'' @ target \<in> set (in_volumes i) \<and> CHR '':'' \<notin> set source \<and> \<not> source_allowed P w source)"

lemma denied_network_mode: "is_denied_network_mode m \<longleftrightarrow> foreign_network m"
  by (auto simp: is_denied_network_mode_def foreign_network_def Let_def starts_with_iff)

lemma unsafe_ref: "\<not> is_safe_podman_ref v \<longleftrightarrow> bad_ref v"
proof -
  have "c \<in> set (control_seqs @ ws_seqs) \<longleftrightarrow> blank_or_control c" for c
    unfolding control_seqs_def blank_or_control_def set_append set_map set_upt list.set image_iff Un_iff
    by (auto simp del: char_of_def upt.simps upt_conv_Cons upt_rec_numeral)
  then have "list_ex (contains_str v) (control_seqs @ ws_seqs) \<longleftrightarrow> (\<exists>a c b. v = a @ c @ b \<and> blank_or_control c)"
    by (auto simp: list_ex_iff contains_str_iff simp del: set_append)
  then show ?thesis by (simp add: is_safe_podman_ref_def bad_ref_def)
qed

lemma path_starts_with_iff: "path_starts_with p q \<longleftrightarrow> (\<exists>below. path_components p = path_components q @ below)"
  by (auto simp: path_starts_with_def) (metis append_take_drop_id)

lemma permitted_under: "mount_permitted P w c \<longleftrightarrow> under_allowed P w c"
proof -
  have "(\<exists>resolved below. (x = Inr resolved \<or> \<not> is_ok x \<and> resolved = prefix) \<and> path_components c = path_components resolved @ below)
      \<longleftrightarrow> path_starts_with c (case x of Inr p \<Rightarrow> p | Inl _ \<Rightarrow> prefix)" for x :: "string result" and prefix
    by (cases x) (auto simp: path_starts_with_iff)
  then show ?thesis by (simp add: mount_permitted_def under_allowed_def list_ex_iff)
qed

lemma host_path_iff: "is_host_path_source s \<longleftrightarrow> CHR ''/'' \<in> set s \<or> (\<exists>a b. s = a @ ''..'' @ b)"
proof -
  have "contains_str s ''/'' \<longleftrightarrow> CHR ''/'' \<in> set s" by (auto simp: contains_str_iff in_set_conv_decomp)
  moreover have "starts_with s ''/'' \<Longrightarrow> CHR ''/'' \<in> set s" by (auto simp: starts_with_iff)
  ultimately show ?thesis by (auto simp: is_host_path_source_def contains_str_iff)
qed

lemma validate_mount_source_ok: "is_ok (validate_mount_source P w s) \<longleftrightarrow> source_allowed P w s"
proof (cases "po_allowed_mount_sources P = []")
  case True
  then show ?thesis
    by (auto simp: validate_mount_source_def source_allowed_def host_path_iff under_allowed_def)
next
  case False
  then show ?thesis
    by (auto simp: validate_mount_source_def source_allowed_def host_path_iff permitted_under split: sum.splits)
qed

lemma split_once_iff: "split_once c v = Some (a, b) \<longleftrightarrow> v = a @ c # b \<and> c \<notin> set a"
proof
  assume "split_once c v = Some (a, b)"
  then have c: "c \<in> set v" and a: "a = takeWhile (\<lambda>x. x \<noteq> c) v" and b: "b = tl (dropWhile (\<lambda>x. x \<noteq> c) v)"
    by (auto simp: split_once_def split: if_splits)
  have "dropWhile (\<lambda>x. x \<noteq> c) v \<noteq> []" using c by (auto simp: dropWhile_eq_Nil_conv)
  moreover from this have "hd (dropWhile (\<lambda>x. x \<noteq> c) v) = c" using hd_dropWhile by blast
  ultimately have "dropWhile (\<lambda>x. x \<noteq> c) v = c # b" using b by (metis list.exhaust_sel)
  then show "v = a @ c # b \<and> c \<notin> set a"
    using takeWhile_dropWhile_id [of "\<lambda>x. x \<noteq> c" v] a by (auto dest: set_takeWhileD)
qed auto

lemma validate_volumes_ok:
  "is_ok (validate_volumes P w vs) \<longleftrightarrow>
     (\<forall>source target. source @ '':'' @ target \<in> set vs \<longrightarrow> CHR '':'' \<notin> set source \<longrightarrow> source_allowed P w source)"
proof (induction vs)
  case (Cons v vs)
  show ?case
  proof (cases "split_once (CHR '':'') v")
    case None
    then have "CHR '':'' \<notin> set v" by (auto simp: split_once_def split: if_splits)
    then show ?thesis using Cons None by auto
  next
    case (Some sd)
    obtain s d where sd: "sd = (s, d)" by (cases sd)
    then have v: "v = s @ CHR '':'' # d" "CHR '':'' \<notin> set s" using Some by (auto simp: split_once_iff)
    have u: "s' = s" if "s' @ CHR '':'' # d' = s @ CHR '':'' # d" "CHR '':'' \<notin> set s'" for s' d'
      using arg_cong [OF that(1), of "split_once (CHR '':'')"] split_once_append [OF that(2), of d'] split_once_append [OF v(2), of d]
      by simp
    have "is_ok (validate_volumes P w (v # vs)) \<longleftrightarrow> source_allowed P w s \<and> is_ok (validate_volumes P w vs)"
      using validate_mount_source_ok [of P w s] by (cases "validate_mount_source P w s") (simp_all add: Some sd)
    moreover have "(\<forall>s' d'. s' @ '':'' @ d' = v \<longrightarrow> CHR '':'' \<notin> set s' \<longrightarrow> source_allowed P w s') \<longleftrightarrow> source_allowed P w s"
    proof
      assume a: "\<forall>s' d'. s' @ '':'' @ d' = v \<longrightarrow> CHR '':'' \<notin> set s' \<longrightarrow> source_allowed P w s'"
      then have "s @ '':'' @ d = v \<longrightarrow> CHR '':'' \<notin> set s \<longrightarrow> source_allowed P w s" by blast
      then show "source_allowed P w s" using v by simp
    next
      assume a: "source_allowed P w s"
      show "\<forall>s' d'. s' @ '':'' @ d' = v \<longrightarrow> CHR '':'' \<notin> set s' \<longrightarrow> source_allowed P w s'"
      proof (intro allI impI)
        fix s' d' assume "s' @ '':'' @ d' = v" "CHR '':'' \<notin> set s'"
        then have "s' = s" using u [of s' d'] v(1) by simp
        then show "source_allowed P w s'" using a by simp
      qed
    qed
    ultimately show ?thesis unfolding Cons.IH list.set insert_iff by blast
  qed
qed simp

lemma validate_create_ok:
  "is_ok (validate_create_container P w i) \<longleftrightarrow>
     \<not> (in_privileged i \<or> in_capabilities i \<noteq> [] \<or> foreign_network (in_network_mode i) \<or> ''host'' \<in> set (in_networks i) \<or>
        (\<exists>source target. source @ '':'' @ target \<in> set (in_volumes i) \<and> CHR '':'' \<notin> set source \<and> \<not> source_allowed P w source))"
  by (auto simp: validate_create_container_def validate_volumes_ok list_ex_iff denied_network_mode)

text \<open>What a specification can carry to Podman: bind mounts of allowed sources, networks other than the
  host's, and no member of the request that would give it more.\<close>

definition spec_confined :: "'w podman \<Rightarrow> 'w \<Rightarrow> container_create_spec \<Rightarrow> bool" where
  "spec_confined P w spec \<longleftrightarrow>
     (\<forall>m\<in>set (sp_mounts spec). \<exists>source target.
        m = JObject [(''type'', JString ''bind''), (''source'', JString source), (''destination'', JString target)] \<and>
        source_allowed P w source) \<and>
     ''host'' \<notin> fst ` set (sp_networks spec) \<and>
     (\<exists>members. spec_json spec = JObject members \<and>
        fst ` set members \<subseteq> {''name'', ''image'', ''command'', ''env'', ''networks'', ''mounts'', ''portmappings'', ''dns_server'',
          ''dns_search'', ''restart_policy''})"

lemma hm_of_list_keys: "fst ` set (hm_of_list xs) \<subseteq> fst ` set xs"
proof -
  have "fst ` set (foldl (\<lambda>m (k, v). hm_insert k v m) m xs) \<subseteq> fst ` set m \<union> fst ` set xs" for m
  proof (induction xs arbitrary: m)
    case (Cons x xs)
    have "fst ` set (hm_insert (fst x) (snd x) m) \<subseteq> fst ` set m \<union> {fst x}" by (auto simp: hm_insert_def hm_remove_def)
    then show ?case using Cons [of "hm_insert (fst x) (snd x) m"] by (auto simp: case_prod_beta)
  qed simp
  from this [of "[]"] show ?thesis by (simp add: hm_of_list_def)
qed

lemma created_spec_confined:
  assumes "\<not> create_denied P w i"
  shows "spec_confined P w (create_spec i)"
proof -
  have "\<exists>source target. m = JObject [(''type'', JString ''bind''), (''source'', JString source), (''destination'', JString target)] \<and>
        source_allowed P w source" if "m \<in> set (spec_mounts (in_volumes i))" for m
  proof -
    from that obtain v s d where "v \<in> set (in_volumes i)" "split_once (CHR '':'') v = Some (s, d)" "m = bind_mount (s, d)"
      by (auto simp: spec_mounts_def List.map_filter_def)
    then show ?thesis using assms by (auto simp: create_denied_def bind_mount_def split_once_iff)
  qed
  moreover have "''host'' \<notin> fst ` set (spec_networks (in_networks i) (in_network_aliases i))"
    using hm_of_list_keys [of "map (\<lambda>n. (n, if in_network_aliases i = [] then JObject []
        else JObject [(''aliases'', jstrings (in_network_aliases i))])) (in_networks i)"] assms
    unfolding spec_networks_def create_denied_def set_map image_image fst_conv image_ident by blast
  moreover have "\<exists>members. spec_json spec = JObject members \<and>
        fst ` set members \<subseteq> {''name'', ''image'', ''command'', ''env'', ''networks'', ''mounts'', ''portmappings'', ''dns_server'',
          ''dns_search'', ''restart_policy''}" for spec
    by (auto simp: spec_json_def unless_empty_def split: option.splits)
  ultimately show ?thesis by (simp add: spec_confined_def create_spec_def)
qed

text \<open>C19: A container is refused, with nothing sent to Podman, exactly when its image or name is empty or
  has a blank or control character, it is privileged, it asks for capabilities, its network mode is
  \<open>host\<close>, \<open>container:...\<close> or \<open>ns:...\<close> in any case and with any blanks around, one of its networks is
  \<open>host\<close>, or one of its volumes has a source with a slash or \<open>..\<close> in it that does not resolve to an
  allowed prefix or below one. For every other request exactly the specification \<open>create_spec\<close> makes of
  it is sent. That specification has no member for privileges, capabilities or the network mode, its
  mounts are bind mounts of allowed sources or of plain names, and none of its networks is \<open>host\<close>.
  (It is not the whole request: a network mode is dropped, and so are variables without \<open>=\<close> and
  volumes without \<open>:\<close>.)\<close>

theorem create_container_decision:
  "if create_denied P w i then \<exists>e. create_container P i w = (Inl e, w)
   else create_container P i w = post_spec P (create_spec i) w \<and> spec_confined P w (create_spec i)"
proof (cases "create_denied P w i")
  case True
  then have "\<not> is_safe_podman_ref (in_image i) \<or> \<not> is_safe_podman_ref (in_name i) \<or> \<not> is_ok (validate_create_container P w i)"
    by (auto simp: create_denied_def unsafe_ref validate_create_ok)
  then have "\<exists>e. create_container P i w = (Inl e, w)"
    by (cases "validate_create_container P w i") (auto simp: create_container_def)
  then show ?thesis using True by simp
next
  case False
  then have "is_safe_podman_ref (in_image i)" "is_safe_podman_ref (in_name i)" "is_ok (validate_create_container P w i)"
    using unsafe_ref by (auto simp: create_denied_def validate_create_ok)
  then have "create_container P i w = post_spec P (create_spec i) w"
    by (cases "validate_create_container P w i") (auto simp: create_container_def)
  then show ?thesis using False created_spec_confined by simp
qed

subsection \<open>Escaping\<close>

text \<open>
  The documented behaviour of \<open>utf8_percent_encode\<close>: the bytes of the set and all bytes above 127
  become a percent sign and two upper case hexadecimal digits, the others are copied.
\<close>

definition hex_upper :: "nat \<Rightarrow> char" where
  "hex_upper d = (if d < 10 then digit_char d else char_of (55 + d))"

definition pct :: "char \<Rightarrow> string" where
  "pct b = [CHR ''%'', hex_upper (of_char b div 16), hex_upper (of_char b mod 16)]"

definition pct_byte :: "(char \<Rightarrow> bool) \<Rightarrow> char \<Rightarrow> string" where
  "pct_byte S b = (if S b \<or> \<not> byte_in 0 127 b then pct b else [b])"

definition percent_encodes :: "((char \<Rightarrow> bool) \<Rightarrow> string \<Rightarrow> string) \<Rightarrow> bool" where
  "percent_encodes pe \<longleftrightarrow> (\<forall>S s. pe S s = concat (map (pct_byte S) s))"

fun percent_decode :: "string \<Rightarrow> string" where
  "percent_decode [] = []"
| "percent_decode (c # s) =
     (if c = CHR ''%'' then
        (case s of
           a # b # r \<Rightarrow>
             (case (hex_val a, hex_val b) of
                (Some x, Some y) \<Rightarrow> char_of (16 * x + y) # percent_decode r
              | _ \<Rightarrow> c # percent_decode s)
         | _ \<Rightarrow> c # percent_decode s)
      else c # percent_decode s)"

definition unreserved :: "char \<Rightarrow> bool" where
  "unreserved c = (is_alnum c \<or> c \<in> {CHR ''-'', CHR ''.'', CHR ''_'', CHR ''~''})"

lemma hex_upper_ok: "n < 16 \<Longrightarrow> hex_val (hex_upper n) = Some n \<and> is_alnum (hex_upper n)"
  by (auto simp: hex_upper_def hex_val_def is_alnum_def byte_in_def digit_char_def take_bit_nat_def Let_def)

lemma byte_less: "(of_char c :: nat) < 256"
  by (rule nat_of_char_less_256)

lemma percent_decode_pct: "percent_decode (pct b @ s) = b # percent_decode s"
proof -
  have "(of_char b :: nat) div 16 < 16" "(of_char b :: nat) mod 16 < 16" using byte_less [of b] by (simp_all add: less_mult_imp_div_less)
  then show ?thesis by (simp add: pct_def hex_upper_ok)
qed

lemma podman_kept_byte:
  "\<not> (PODMAN_ENCODE b \<or> \<not> byte_in 0 127 b) \<Longrightarrow> unreserved b \<and> b \<noteq> CHR ''%''"
  by (auto simp: PODMAN_ENCODE_def unreserved_def is_alnum_def byte_in_def)

lemma percent_decode_byte: "percent_decode (pct_byte PODMAN_ENCODE b @ s) = b # percent_decode s"
  using podman_kept_byte [of b] by (auto simp: pct_byte_def percent_decode_pct)

lemma pct_byte_chars: "c \<in> set (pct_byte PODMAN_ENCODE b) \<Longrightarrow> unreserved c \<or> c = CHR ''%''"
proof -
  have "(of_char b :: nat) div 16 < 16" "(of_char b :: nat) mod 16 < 16" using byte_less [of b] by (simp_all add: less_mult_imp_div_less)
  then have "set (pct b) \<subseteq> insert (CHR ''%'') (Collect is_alnum)" by (simp add: pct_def hex_upper_ok)
  then show "c \<in> set (pct_byte PODMAN_ENCODE b) \<Longrightarrow> unreserved c \<or> c = CHR ''%''"
    using podman_kept_byte [of b] by (auto simp: pct_byte_def unreserved_def split: if_splits)
qed

text \<open>A value placed in a Podman request is confined to its path segment or query value: its
  escaped form has only unreserved characters and percent signs, and decoding it gives back the value.\<close>

theorem url_escape_round_trip:
  assumes "percent_encodes (po_percent_encode P)"
  shows "percent_decode (url_escape P v) = v \<and>
     list_all (\<lambda>c. unreserved c \<or> c = CHR ''%'') (url_escape P v)"
proof -
  have e: "url_escape P v = concat (map (pct_byte PODMAN_ENCODE) v)"
    using assms by (simp add: url_escape_def percent_encodes_def)
  have "percent_decode (concat (map (pct_byte PODMAN_ENCODE) v)) = v"
    by (induction v) (simp_all add: percent_decode_byte)
  moreover have "list_all (\<lambda>c. unreserved c \<or> c = CHR ''%'') (concat (map (pct_byte PODMAN_ENCODE) v))"
    by (auto simp: list_all_iff dest: pct_byte_chars)
  ultimately show ?thesis by (simp add: e)
qed

text \<open>A Podman that answers every request with an empty success, for the witnesses.\<close>

definition sample_podman :: "string list podman" where
  "sample_podman =
     \<lparr>po_http = (\<lambda>m p b w. (Inr \<lparr>hr_success = True, hr_status = ''200 OK'', hr_body = Inr []\<rparr>, w @ [m @ '' '' @ p])),
      po_sleep_ms = (\<lambda>_ w. w), po_percent_encode = (\<lambda>S s. concat (map (pct_byte S) s)), po_to_vec = (\<lambda>_. Inr []),
      po_containers = (\<lambda>_. Inr []), po_inspect = (\<lambda>_. Inl ''EOF''), po_images = (\<lambda>_. Inr []),
      po_pull_report = (\<lambda>_. Inl ''EOF''), po_created_id = (\<lambda>_. Inr ''c1''), po_exec_id = (\<lambda>_. Inr ''e1''),
      po_exec_inspect = (\<lambda>_. Inr \<lparr>ei_exit_code = 7, ei_running = False\<rparr>),
      po_canonicalize = (\<lambda>p _. Inr p), po_allowed_mount_sources = []\<rparr>"

theorem url_escape_round_trip_witness:
  "percent_decode (url_escape sample_podman ''a/b'') = ''a/b'' \<and>
   list_all (\<lambda>c. unreserved c \<or> c = CHR ''%'') (url_escape sample_podman ''a/b'')"
  by (rule url_escape_round_trip) (simp add: sample_podman_def percent_encodes_def)

subsection \<open>Waiting for an exec\<close>

text \<open>The world after \<open>k\<close> polls that all found the process running.\<close>

fun still_running :: "'w podman \<Rightarrow> string \<Rightarrow> nat \<Rightarrow> 'w \<Rightarrow> 'w \<Rightarrow> bool" where
  "still_running P eid 0 w w' = (w' = w)"
| "still_running P eid (Suc k) w w' =
     (case exec_state P eid w of
        (Inr i, w1) \<Rightarrow> ei_running i \<and> still_running P eid k (po_sleep_ms P POLL_INTERVAL w1) w'
      | _ \<Rightarrow> False)"

lemma poll_exec_finishes:
  assumes "still_running P eid k w w1" and "k < n"
    and "exec_state P eid w1 = (Inr i, w2)"
    and "\<not> ei_running i"
  shows "poll_exec P eid n w = (Inr (ei_exit_code i), w2)"
  using assms
proof (induction k arbitrary: n w)
  case 0
  then obtain m where "n = Suc m" by (cases n) auto
  with 0 show ?case by (simp add: io_simps finished_exec_exit_code_def)
next
  case (Suc k)
  then obtain m where n: "n = Suc m" "k < m" by (cases n) auto
  obtain i1 v where g: "exec_state P eid w = (Inr i1, v)"
    "ei_running i1" "still_running P eid k (po_sleep_ms P POLL_INTERVAL v) w1"
    using Suc.prems(1) by (auto split: prod.splits sum.splits)
  show ?case
    using Suc.IH [OF g(3) n(2) Suc.prems(3,4)] g(1,2)
    by (simp add: n(1) io_simps finished_exec_exit_code_def)
qed

lemma poll_exec_error:
  assumes "still_running P eid k w w1" and "k < n"
    and "exec_state P eid w1 = (Inl e, w2)"
  shows "poll_exec P eid n w = (Inl e, w2)"
  using assms
proof (induction k arbitrary: n w)
  case 0
  then obtain m where "n = Suc m" by (cases n) auto
  with 0 show ?case by (simp add: io_simps)
next
  case (Suc k)
  then obtain m where n: "n = Suc m" "k < m" by (cases n) auto
  obtain i1 v where g: "exec_state P eid w = (Inr i1, v)"
    "ei_running i1" "still_running P eid k (po_sleep_ms P POLL_INTERVAL v) w1"
    using Suc.prems(1) by (auto split: prod.splits sum.splits)
  show ?case
    using Suc.IH [OF g(3) n(2) Suc.prems(3)] g(1,2)
    by (simp add: n(1) io_simps finished_exec_exit_code_def)
qed

lemma poll_exec_gives_up:
  "still_running P eid n w w' \<Longrightarrow>
     poll_exec P eid n w = (Inl (''exec '' @ eid @ '' did not finish within timeout''), w')"
proof (induction n arbitrary: w)
  case (Suc n)
  then obtain i v where "exec_state P eid w = (Inr i, v)"
    "ei_running i" "still_running P eid n (po_sleep_ms P POLL_INTERVAL v) w'"
    by (auto split: prod.splits sum.splits)
  then show ?case using Suc.IH by (simp add: io_simps finished_exec_exit_code_def)
qed simp

text \<open>The wait for an exec returns after at most 1200 polls: with the exit code of the first poll
  that finds the process ended, or with the timeout error when all of them find it running.\<close>

theorem exec_wait_outcomes:
  assumes "still_running P eid k w w1" and "k \<le> MAX_ATTEMPTS"
  shows "if k = MAX_ATTEMPTS then
       wait_exec_exit_code P eid w = (Inl (''exec '' @ eid @ '' did not finish within timeout''), w1)
     else (case exec_state P eid w1 of
             (Inr i, w2) \<Rightarrow> ei_running i \<or> wait_exec_exit_code P eid w = (Inr (ei_exit_code i), w2)
           | (Inl e, w2) \<Rightarrow> wait_exec_exit_code P eid w = (Inl e, w2))"
proof (cases "k = MAX_ATTEMPTS")
  case True
  then show ?thesis using poll_exec_gives_up [OF assms(1)] by (simp add: wait_exec_exit_code_def)
next
  case False
  then have k: "k < MAX_ATTEMPTS" using assms(2) by simp
  obtain r w2 where r: "exec_state P eid w1 = (r, w2)" by (cases "exec_state P eid w1")
  show ?thesis
  proof (cases r)
    case (Inl e)
    then show ?thesis
      using False r poll_exec_error [OF assms(1) k, of e w2] by (simp add: wait_exec_exit_code_def)
  next
    case (Inr i)
    then show ?thesis
      using False r poll_exec_finishes [OF assms(1) k, of i w2] by (auto simp: wait_exec_exit_code_def)
  qed
qed

lemma sample_exec_state:
  "exec_state sample_podman ''e1'' [] =
     (Inr \<lparr>ei_exit_code = 7, ei_running = False\<rparr>, [''GET /v5.0.0/libpod/exec/e1/json''])"
  by code_simp

theorem exec_wait_outcomes_witness:
  "wait_exec_exit_code sample_podman ''e1'' [] = (Inr 7, [''GET /v5.0.0/libpod/exec/e1/json''])"
  using exec_wait_outcomes [of sample_podman "''e1''" 0 "[]" "[]"]
  by (simp add: sample_exec_state MAX_ATTEMPTS_def)

subsection \<open>Framing of the event stream\<close>

lemma split_once_Some_iff:
  "split_once c s = Some (a, b) \<longleftrightarrow> s = a @ c # b \<and> c \<notin> set a"
proof
  assume "split_once c s = Some (a, b)"
  then have c: "c \<in> set s" and a: "a = takeWhile (\<lambda>x. x \<noteq> c) s" and b: "b = tl (dropWhile (\<lambda>x. x \<noteq> c) s)"
    by (auto simp: split_once_def split: if_splits)
  have d: "dropWhile (\<lambda>x. x \<noteq> c) s \<noteq> []" using c by (simp add: dropWhile_eq_Nil_conv)
  then have "hd (dropWhile (\<lambda>x. x \<noteq> c) s) = c" using hd_dropWhile by blast
  with d b have "dropWhile (\<lambda>x. x \<noteq> c) s = c # b" by (cases "dropWhile (\<lambda>x. x \<noteq> c) s") auto
  with a show "s = a @ c # b \<and> c \<notin> set a"
    by (metis set_takeWhileD takeWhile_dropWhile_id)
qed simp

lemma split_once_None_iff: "split_once c s = None \<longleftrightarrow> c \<notin> set s"
  by (simp add: split_once_def)

lemma drain_lines_none: "CHR 0x0A \<notin> set buf \<Longrightarrow> drain_lines buf = ([], buf)"
  using split_once_None_iff [of "CHR 0x0A" buf] by (subst drain_lines.simps) simp

lemma drain_lines_line:
  "CHR 0x0A \<notin> set line \<Longrightarrow> drain_lines (line @ CHR 0x0A # rest) =
     (case drain_lines rest of (ls, b) \<Rightarrow> (if line = [] then ls else line # ls, b))"
  by (subst drain_lines.simps) simp

text \<open>Induction on the lines of a string.\<close>

lemma lines_induct [case_names last line]:
  fixes c :: char
  assumes "\<And>s. c \<notin> set s \<Longrightarrow> Q s" and "\<And>l r. c \<notin> set l \<Longrightarrow> Q r \<Longrightarrow> Q (l @ c # r)"
  shows "Q s"
proof (induction s rule: length_induct)
  case (1 s)
  show ?case
  proof (cases "split_once c s")
    case None
    then show ?thesis by (simp add: split_once_None_iff assms(1))
  next
    case (Some p)
    obtain l r where "p = (l, r)" by (cases p)
    with Some have "s = l @ c # r" "c \<notin> set l" by (auto simp: split_once_Some_iff)
    with 1 assms(2) show ?thesis by simp
  qed
qed

lemma drain_lines_rest: "CHR 0x0A \<notin> set (snd (drain_lines s))"
  by (induction s rule: lines_induct [of "CHR 0x0A"])
    (auto simp: drain_lines_none drain_lines_line split: prod.splits)

lemma drain_lines_append:
  "drain_lines (s @ t) =
     (case drain_lines s of (ls, b) \<Rightarrow> case drain_lines (b @ t) of (ls', b') \<Rightarrow> (ls @ ls', b'))"
  by (induction s rule: lines_induct [of "CHR 0x0A"])
    (simp_all add: drain_lines_none drain_lines_line split: prod.splits)

definition frame_bytes :: "body_frame list \<Rightarrow> string" where
  "frame_bytes fs = concat (map (\<lambda>f. case f of FrameData d \<Rightarrow> d | _ \<Rightarrow> []) fs)"

definition is_data :: "body_frame \<Rightarrow> bool" where
  "is_data f = (case f of FrameError _ \<Rightarrow> False | _ \<Rightarrow> True)"

lemma read_frames_concat:
  assumes "list_all is_data fs" and "CHR 0x0A \<notin> set buf"
  shows "read_frames buf fs =
     (case drain_lines (buf @ frame_bytes fs) of (ls, b) \<Rightarrow> (ls @ (if b = [] then [] else [b]), Inr ()))"
  using assms
proof (induction buf fs rule: read_frames.induct)
  case (1 buf)
  then show ?case by (simp add: drain_lines_none frame_bytes_def)
next
  case (4 buf d fs)
  obtain ls b where lb: "drain_lines (buf @ d) = (ls, b)" by (cases "drain_lines (buf @ d)")
  have "read_frames b fs =
     (case drain_lines (b @ frame_bytes fs) of (ls, b) \<Rightarrow> (ls @ (if b = [] then [] else [b]), Inr ()))"
    using 4 lb drain_lines_rest [of "buf @ d"] by simp
  then show ?case
    using lb drain_lines_append [of "buf @ d" "frame_bytes fs"]
    by (simp add: frame_bytes_def split: prod.splits)
qed (auto simp: is_data_def frame_bytes_def)

lemma drain_lines_split_on:
  "case drain_lines s of (ls, b) \<Rightarrow> ls @ (if b = [] then [] else [b]) = filter (\<lambda>l. l \<noteq> []) (split_on (CHR 0x0A) s)"
  by (induction s rule: lines_induct [of "CHR 0x0A"])
    (auto simp: drain_lines_none drain_lines_line split_on_none split_on_append split: prod.splits)

text \<open>C35: However the transport cuts the body of the event stream into frames, the events that are
  dispatched are those of the non-empty lines of the whole body, in order.\<close>

theorem events_independent_of_framing:
  assumes "list_all is_data fs"
  shows "stream_once dec fs =
     (List.map_filter (dispatch_line dec) (filter (\<lambda>l. l \<noteq> []) (split_on (CHR 0x0A) (frame_bytes fs))), Inr ())"
  using read_frames_concat [OF assms, of "[]"] drain_lines_split_on [of "frame_bytes fs"]
  by (auto simp: stream_once_def split: prod.splits)

theorem events_independent_of_framing_witness:
  "stream_once (\<lambda>l. None) [FrameData ''a'', FrameTrailers, FrameData [CHR 0x0A]] = ([], Inr ())"
  using events_independent_of_framing
    [of "[FrameData ''a'', FrameTrailers, FrameData [CHR 0x0A]]" "\<lambda>l. None"]
  by (simp add: is_data_def frame_bytes_def dispatch_line_def map_filter_simps)

lemma events_backoff_bounded:
  "b \<le> EVENT_BACKOFF_MAX \<Longrightarrow> fst (events_turn r b) \<le> EVENT_BACKOFF_MAX \<and> snd (events_turn r b) \<le> EVENT_BACKOFF_MAX"
  by (auto simp: events_turn_def EVENT_BACKOFF_MAX_def EVENT_BACKOFF_START_def split: sum.splits)

end
