(* ===== verification/CooldCorrosion.thy ===== *)
theory CooldCorrosion
  imports Effects Proto
begin

text \<open>
  \<open>coold/src/corrosion/client.rs\<close>: the client of the local Corrosion agent, which holds the table
  \<open>service_endpoints\<close> that is replicated over the mesh. The HTTP exchange, the decoder of one frame
  of a query answer and the JSON printer are the fields of the record \<open>corrosion\<close>.
\<close>

section \<open>Data\<close>

record endpoint =
  ep_container_id :: string
  ep_container_name :: string
  ep_namespace :: string
  ep_host_mgmt_ip :: string
  ep_container_ip :: string
  ep_state :: string
  ep_health :: string

record service_endpoint =
  se_container_ip :: string
  se_host_mgmt_ip :: string

record statement =
  sq_sql :: string
  sq_params :: "json list"

definition statement_json :: "statement \<Rightarrow> json" where
  "statement_json s = JArray [JString (sq_sql s), JArray (sq_params s)]"

text \<open>\<open>cor_frame\<close> reads one line: \<open>None\<close> if it is no frame, otherwise the member \<open>row\<close>.\<close>

record 'w corrosion =
  cor_base_url :: string
  cor_http :: "string \<Rightarrow> json \<Rightarrow> ('w, http_reply) io"
  cor_frame :: "string \<Rightarrow> json list option option"
  cor_pretty :: "json \<Rightarrow> string result"

definition corrosion_base :: "string \<Rightarrow> string" where
  "corrosion_base url = trim_end_matches (CHR ''/'') url"

section \<open>Exchanges\<close>

definition transaction :: "'w corrosion \<Rightarrow> statement list \<Rightarrow> ('w, unit) io" where
  "transaction C stmts =
     (if stmts = [] then io_return ()
      else
        (let url = cor_base_url C @ ''/v1/transactions'' in
         io_bind (io_context (''POST '' @ url) (cor_http C url (JArray (map statement_json stmts)))) (\<lambda>res.
         io_bind (io_lift (with_context ''read transaction response'' (hr_body res))) (\<lambda>bytes.
         if \<not> hr_success res then
           io_fail (''corrosion transaction failed: HTTP '' @ hr_status res @ '': '' @ from_utf8_lossy bytes)
         else io_return ()))))"

definition run_query :: "'w corrosion \<Rightarrow> string \<Rightarrow> json list \<Rightarrow> ('w, string) io" where
  "run_query C sql params =
     (let url = cor_base_url C @ ''/v1/queries'' in
      io_bind (io_context (''POST '' @ url) (cor_http C url (JArray [JString sql, JArray params]))) (\<lambda>res.
      io_bind (io_lift (with_context ''read queries response'' (hr_body res))) (\<lambda>bytes.
      if \<not> hr_success res then
        io_fail (''corrosion query failed: HTTP '' @ hr_status res @ '': '' @ from_utf8_lossy bytes)
      else io_return bytes)))"

section \<open>Reading rows\<close>

text \<open>The values of a frame: the second of exactly two elements of \<open>row\<close>, if it is an array.\<close>

definition frame_values :: "'w corrosion \<Rightarrow> string \<Rightarrow> json list option" where
  "frame_values C line =
     (if line = [] then None
      else (case cor_frame C line of
        Some (Some [_, v]) \<Rightarrow> as_array v
      | _ \<Rightarrow> None))"

definition parse_value_rows :: "'w corrosion \<Rightarrow> string \<Rightarrow> json list list" where
  "parse_value_rows C bytes = List.map_filter (frame_values C) (split_on (CHR 0x0A) bytes)"

definition nth_str :: "json list \<Rightarrow> nat \<Rightarrow> string option" where
  "nth_str vs i = (if i < length vs then as_str (vs ! i) else None)"

definition endpoint_row :: "json list \<Rightarrow> service_endpoint option" where
  "endpoint_row vs =
     (case (nth_str vs 0, nth_str vs 1) of
        (Some ip, Some owner) \<Rightarrow> Some \<lparr>se_container_ip = ip, se_host_mgmt_ip = owner\<rparr>
      | _ \<Rightarrow> None)"

definition parse_endpoint_rows :: "'w corrosion \<Rightarrow> string \<Rightarrow> service_endpoint list" where
  "parse_endpoint_rows C bytes = List.map_filter endpoint_row (parse_value_rows C bytes)"

definition string_at :: "json list \<Rightarrow> nat \<Rightarrow> string result" where
  "string_at vs i =
     (case nth_str vs i of
        Some s \<Rightarrow> Inr s
      | None \<Rightarrow> Inl (''column '' @ show_nat i @ '' missing or not a string''))"

definition row_endpoint :: "json list \<Rightarrow> endpoint result" where
  "row_endpoint vs =
     and_then (string_at vs 0) (\<lambda>cid. and_then (string_at vs 1) (\<lambda>name.
     and_then (string_at vs 2) (\<lambda>ns. and_then (string_at vs 3) (\<lambda>host.
     and_then (string_at vs 4) (\<lambda>ip. and_then (string_at vs 5) (\<lambda>st.
     and_then (string_at vs 6) (\<lambda>health.
     Inr \<lparr>ep_container_id = cid, ep_container_name = name, ep_namespace = ns, ep_host_mgmt_ip = host,
          ep_container_ip = ip, ep_state = st, ep_health = health\<rparr>)))))))"

text \<open>A row with fewer than seven values is skipped; a value that is no string fails the reading.\<close>

definition parse_rows :: "'w corrosion \<Rightarrow> string \<Rightarrow> (string, endpoint) hmap result" where
  "parse_rows C bytes =
     and_then (map_result row_endpoint (filter (\<lambda>vs. 7 \<le> length vs) (parse_value_rows C bytes))) (\<lambda>eps.
     Inr (hm_of_list (map (\<lambda>e. (ep_container_id e, e)) eps)))"

section \<open>Queries\<close>

definition SNAPSHOT_SQL :: string where
  "SNAPSHOT_SQL =
     ''SELECT container_id, container_name, namespace, host_mgmt_ip, container_ip, state, health '' @
     ''FROM service_endpoints WHERE host_mgmt_ip = ?''"

definition snapshot_for_host :: "'w corrosion \<Rightarrow> string \<Rightarrow> ('w, (string, endpoint) hmap) io" where
  "snapshot_for_host C host =
     io_bind (run_query C SNAPSHOT_SQL [JString host]) (\<lambda>bytes. io_lift (parse_rows C bytes))"

definition ENDPOINTS_SQL :: string where
  \<open>ENDPOINTS_SQL =
     ''SELECT container_ip, host_mgmt_ip FROM service_endpoints WHERE container_name = ? '' @
     ''AND namespace = ? AND state = '' @ [CHR 0x27] @ ''running'' @ [CHR 0x27] @
     '' AND health IN ('' @ [CHR 0x27] @ ''healthy'' @ [CHR 0x27] @ '', '' @ [CHR 0x27] @ ''unknown'' @ [CHR 0x27] @ '')''\<close>

definition query_endpoints_by_name :: "'w corrosion \<Rightarrow> string \<Rightarrow> string \<Rightarrow> ('w, service_endpoint list) io" where
  "query_endpoints_by_name C name ns =
     io_bind (run_query C ENDPOINTS_SQL [JString name, JString ns]) (\<lambda>bytes.
     io_return (parse_endpoint_rows C bytes))"

definition select_endpoint_ips :: "service_endpoint list \<Rightarrow> string option \<Rightarrow> string list" where
  "select_endpoint_ips rows expected_owner =
     (case expected_owner of
        Some owner \<Rightarrow> map se_container_ip (filter (\<lambda>r. se_host_mgmt_ip r = owner) rows)
      | None \<Rightarrow> map se_container_ip rows)"

definition query_ips_by_name_owned ::
  "'w corrosion \<Rightarrow> string \<Rightarrow> string \<Rightarrow> string option \<Rightarrow> ('w, string list) io" where
  "query_ips_by_name_owned C name ns owner =
     io_bind (query_endpoints_by_name C name ns) (\<lambda>rows. io_return (select_endpoint_ips rows owner))"

definition query_ips_by_name :: "'w corrosion \<Rightarrow> string \<Rightarrow> string \<Rightarrow> ('w, string list) io" where
  "query_ips_by_name C name ns = query_ips_by_name_owned C name ns None"

subsection \<open>The dump of all tables\<close>

definition clamp_u32 :: "u32 \<Rightarrow> u32 \<Rightarrow> u32 \<Rightarrow> u32" where
  "clamp_u32 lo hi n = (if n < lo then lo else if hi < n then hi else n)"

definition quote_identifier :: "string \<Rightarrow> string" where
  "quote_identifier v =
     [CHR 0x22] @ concat (map (\<lambda>c. if c = CHR 0x22 then [CHR 0x22, CHR 0x22] else [c]) v) @ [CHR 0x22]"

record corrosion_table =
  ct_name :: string
  ct_columns :: "string list"
  ct_rows :: "json list list"

definition TABLES_SQL :: string where
  \<open>TABLES_SQL =
     ''SELECT name FROM sqlite_schema WHERE type = '' @ [CHR 0x27] @ ''table'' @ [CHR 0x27] @
     '' AND name NOT LIKE '' @ [CHR 0x27] @ ''sqlite_%'' @ [CHR 0x27] @ '' ORDER BY name''\<close>

definition query_values :: "'w corrosion \<Rightarrow> string \<Rightarrow> json list \<Rightarrow> ('w, json list list) io" where
  "query_values C sql params =
     io_bind (run_query C sql params) (\<lambda>bytes. io_return (parse_value_rows C bytes))"

definition dump_table :: "'w corrosion \<Rightarrow> u32 \<Rightarrow> string \<Rightarrow> ('w, corrosion_table) io" where
  "dump_table C limit name =
     io_bind (query_values C (''PRAGMA table_info('' @ quote_identifier name @ '')'') []) (\<lambda>info.
     io_bind (query_values C (''SELECT * FROM '' @ quote_identifier name @ '' LIMIT '' @ show_nat (unat limit)) []) (\<lambda>rows.
     io_return \<lparr>ct_name = name, ct_columns = List.map_filter (\<lambda>r. nth_str r 1) info, ct_rows = rows\<rparr>))"

definition table_json :: "corrosion_table \<Rightarrow> json" where
  "table_json t = JObject
     [(''name'', JString (ct_name t)), (''columns'', jstrings (ct_columns t)),
      (''rows'', JArray (map JArray (ct_rows t)))]"

definition tables_json :: "'w corrosion \<Rightarrow> u32 \<Rightarrow> ('w, string) io" where
  "tables_json C limit =
     (let limit = clamp_u32 1 1000 limit in
      io_bind (query_values C TABLES_SQL []) (\<lambda>names.
      io_bind (io_map (dump_table C limit) (List.map_filter (\<lambda>r. nth_str r 0) names)) (\<lambda>tables.
      io_lift (with_context ''serialize Corrosion tables''
        (cor_pretty C (JObject [(''limit'', jint (uint limit)), (''tables'', JArray (map table_json tables))]))))))"

section \<open>Properties\<close>

lemma clamp_u32_bounds: "lo \<le> hi \<Longrightarrow> lo \<le> clamp_u32 lo hi n \<and> clamp_u32 lo hi n \<le> hi"
  by (auto simp: clamp_u32_def)

lemma hm_get_foldl_keyed:
  "\<forall>p\<in>set (m @ xs). fst p = key (snd p) \<Longrightarrow>
   \<forall>k v. hm_get (foldl (\<lambda>m (k, v). hm_insert k v m) m xs) k = Some v \<longrightarrow> k = key v"
proof (induction xs arbitrary: m)
  case Nil
  then show ?case by (fastforce dest: map_of_SomeD)
next
  case (Cons x xs)
  have "\<forall>p\<in>set (hm_insert (fst x) (snd x) m @ xs). fst p = key (snd p)"
    using Cons.prems by (auto simp: hm_insert_def hm_remove_def)
  from Cons.IH [OF this] show ?case by (simp add: case_prod_beta)
qed

text \<open>A row as the database answers it.\<close>

definition endpoint_values :: "endpoint \<Rightarrow> json list" where
  "endpoint_values e =
     [JString (ep_container_id e), JString (ep_container_name e), JString (ep_namespace e),
      JString (ep_host_mgmt_ip e), JString (ep_container_ip e), JString (ep_state e), JString (ep_health e)]"

lemma row_endpoint_values: "row_endpoint (endpoint_values e) = Inr e"
  by (simp add: row_endpoint_def endpoint_values_def string_at_def nth_str_def)

lemma parse_rows_endpoints:
  assumes "parse_value_rows C bytes = map endpoint_values es"
  shows "parse_rows C bytes = Inr (hm_of_list (map (\<lambda>e. (ep_container_id e, e)) es))"
proof -
  have "filter (\<lambda>vs. 7 \<le> length vs) (map endpoint_values es) = map endpoint_values es"
    by (simp add: filter_map comp_def endpoint_values_def)
  moreover have "map_result row_endpoint (map endpoint_values es) = Inr es"
    by (induction es) (simp_all add: row_endpoint_values)
  ultimately show ?thesis by (simp add: parse_rows_def assms)
qed

lemma parse_rows_keyed:
  assumes "parse_rows C bytes = Inr m"
  shows "hm_wf m \<and> (\<forall>k e. hm_get m k = Some e \<longrightarrow> k = ep_container_id e)"
proof -
  obtain eps where "and_then (Inr eps) (\<lambda>eps. Inr (hm_of_list (map (\<lambda>e. (ep_container_id e, e)) eps))) = (Inr m :: _ result)"
    using assms unfolding parse_rows_def
    by (cases "map_result row_endpoint (filter (\<lambda>vs. 7 \<le> length vs) (parse_value_rows C bytes))") simp_all
  then have m: "m = hm_of_list (map (\<lambda>e. (ep_container_id e, e)) eps)" by simp
  have "\<forall>k e. hm_get m k = Some e \<longrightarrow> k = ep_container_id e"
    unfolding m hm_of_list_def by (rule hm_get_foldl_keyed) auto
  moreover have "hm_wf m" by (simp add: m)
  ultimately show ?thesis by (intro conjI)
qed

text \<open>With an expected owner, exactly the rows of that host are used, so a row another host
  announced for the name cannot add an address.\<close>

theorem owned_lookup_ignores_other_hosts:
  "select_endpoint_ips rows (Some owner) = select_endpoint_ips (filter (\<lambda>r. se_host_mgmt_ip r = owner) rows) None
   \<and> select_endpoint_ips (rows @ filter (\<lambda>r. se_host_mgmt_ip r \<noteq> owner) forged) (Some owner) =
     select_endpoint_ips rows (Some owner)"
  by (simp add: select_endpoint_ips_def)

end
