(* ===== verification/CooldSync.thy ===== *)
theory CooldSync
  imports CooldConfig CooldPodman CooldCorrosion
begin

text \<open>
  \<open>coold/src/model.rs\<close> and \<open>coold/src/sync.rs\<close>: the reconciliation of what Podman runs with the rows
  of the replicated table and with what flux was told. Podman, Corrosion, the channel to the flux
  client and the clock are parameters; \<open>lower\<close> is \<open>str::to_lowercase\<close>, whose Unicode tables are
  not written out.
\<close>

section \<open>Differences\<close>

record container_status =
  ks_container_id :: string
  ks_container_name :: string
  ks_image :: string
  ks_state :: string

text \<open>\<open>Delta\<close> and \<open>ContainerStatusDelta\<close> have the same constructors over different values.\<close>

datatype 'v delta = Upsert 'v | Delete string

definition map_diff :: "(string, 'v) hmap \<Rightarrow> (string, 'v) hmap \<Rightarrow> 'v delta list" where
  "map_diff desired current =
     map (\<lambda>(k, v). Upsert v) (filter (\<lambda>(k, v). hm_get current k \<noteq> Some v) desired) @
     map Delete (filter (\<lambda>k. hm_get desired k = None) (map fst current))"

definition diff :: "(string, endpoint) hmap \<Rightarrow> (string, endpoint) hmap \<Rightarrow> endpoint delta list" where
  "diff = map_diff"

definition diff_container_statuses ::
  "(string, container_status) hmap \<Rightarrow> (string, container_status) hmap \<Rightarrow> container_status delta list" where
  "diff_container_statuses = map_diff"

section \<open>What Podman runs\<close>

definition nonempty :: "string \<Rightarrow> string option" where
  "nonempty s = (if s = [] then None else Some s)"

definition first_name :: "container \<Rightarrow> string option" where
  "first_name c = (case co_names c of [] \<Rightarrow> None | n # _ \<Rightarrow> Some (trim_start_matches (CHR ''/'') n))"

definition container_status_of ::
  "(string \<Rightarrow> string) \<Rightarrow> container \<Rightarrow> container_inspect option \<Rightarrow> container_status" where
  "container_status_of lower c insp =
     (let name = (case Option.bind insp (\<lambda>i. nonempty (trim_start_matches (CHR ''/'') (ci_name i))) of
                    Some n \<Rightarrow> n
                  | None \<Rightarrow> (case Option.bind (first_name c) nonempty of Some n \<Rightarrow> n | None \<Rightarrow> co_id c));
          st = (case Option.bind insp (\<lambda>i. Option.bind (ci_state i) (\<lambda>s. nonempty (lower (st_status s)))) of
                  Some s \<Rightarrow> s
                | None \<Rightarrow> lower (co_state c)) in
      \<lparr>ks_container_id = co_id c, ks_container_name = name, ks_image = co_image c,
       ks_state = (if st = [] then ''unknown'' else st)\<rparr>)"

fun status_loop ::
  "'w podman \<Rightarrow> (string \<Rightarrow> string) \<Rightarrow> container list \<Rightarrow> (string, container_status) hmap \<Rightarrow>
   ('w, (string, container_status) hmap) io" where
  "status_loop P lower [] out = io_return out"
| "status_loop P lower (c # cs) out =
     io_bind (io_try (inspect_container P (co_id c))) (\<lambda>r.
     status_loop P lower cs
       (hm_insert (co_id c)
          (container_status_of lower c (case r of Inr i \<Rightarrow> Some i | Inl _ \<Rightarrow> None)) out))"

definition desired_container_statuses ::
  "'w podman \<Rightarrow> (string \<Rightarrow> string) \<Rightarrow> ('w, (string, container_status) hmap) io" where
  "desired_container_statuses P lower =
     io_bind (containers_list P) (\<lambda>cs. status_loop P lower cs [])"

definition network_to_ns :: "coold_config \<Rightarrow> (string, string) hmap" where
  "network_to_ns cfg = hm_of_list (map (\<lambda>n. (nc_network n, nc_name n)) (cc_namespaces cfg))"

definition endpoint_of ::
  "(string \<Rightarrow> string) \<Rightarrow> coold_config \<Rightarrow> container \<Rightarrow> container_inspect \<Rightarrow> string \<Rightarrow> network_entry \<Rightarrow> endpoint" where
  "endpoint_of lower cfg c i ns entry =
     \<lparr>ep_container_id = co_id c,
      ep_container_name =
        (if ci_name i \<noteq> [] then trim_start_matches (CHR ''/'') (ci_name i)
         else (case first_name c of Some n \<Rightarrow> n | None \<Rightarrow> co_id c)),
      ep_namespace = ns, ep_host_mgmt_ip = cc_host_mgmt_ip cfg, ep_container_ip = ne_ip_address entry,
      ep_state = (case ci_state i of None \<Rightarrow> [] | Some s \<Rightarrow> lower (st_status s)),
      ep_health =
        (case Option.bind (Option.bind (ci_state i) st_health) (\<lambda>h. nonempty (lower (ch_status h))) of
           Some h \<Rightarrow> h | None \<Rightarrow> ''unknown'')\<rparr>"

text \<open>A container in several managed networks is recorded for the first of them only.\<close>

definition record_networks ::
  "(string \<Rightarrow> string) \<Rightarrow> coold_config \<Rightarrow> container \<Rightarrow> container_inspect \<Rightarrow> network_settings \<Rightarrow>
   (string, endpoint) hmap \<Rightarrow> (string, endpoint) hmap" where
  "record_networks lower cfg c i nets out =
     foldl (\<lambda>out (net, entry).
        case hm_get (network_to_ns cfg) net of
          None \<Rightarrow> out
        | Some ns \<Rightarrow>
            if hm_get out (co_id c) \<noteq> None then out
            else hm_insert (co_id c) (endpoint_of lower cfg c i ns entry) out) out nets"

fun endpoint_loop ::
  "'w podman \<Rightarrow> (string \<Rightarrow> string) \<Rightarrow> coold_config \<Rightarrow> container list \<Rightarrow> (string, endpoint) hmap \<Rightarrow>
   ('w, (string, endpoint) hmap) io" where
  "endpoint_loop P lower cfg [] out = io_return out"
| "endpoint_loop P lower cfg (c # cs) out =
     io_bind (io_try (inspect_container P (co_id c))) (\<lambda>r.
     endpoint_loop P lower cfg cs
       (case r of
          Inl _ \<Rightarrow> out
        | Inr i \<Rightarrow>
            (case ci_network_settings i of
               None \<Rightarrow> out
             | Some nets \<Rightarrow> record_networks lower cfg c i nets out)))"

definition desired_endpoints ::
  "'w podman \<Rightarrow> (string \<Rightarrow> string) \<Rightarrow> coold_config \<Rightarrow> ('w, (string, endpoint) hmap) io" where
  "desired_endpoints P lower cfg =
     io_bind (containers_list P) (\<lambda>cs. endpoint_loop P lower cfg cs [])"

section \<open>Status updates\<close>

definition status_update :: "string \<Rightarrow> container_status delta \<Rightarrow> resource_status_update" where
  "status_update host d =
     (case d of
        Upsert s \<Rightarrow>
          \<lparr>rs_resource_type = ''container'', rs_host_id = host, rs_container_id = ks_container_id s,
           rs_container_name = ks_container_name s, rs_status = ks_state s,
           rs_status_message = ''Container state received from coold.''\<rparr>
      | Delete cid \<Rightarrow>
          \<lparr>rs_resource_type = ''container'', rs_host_id = host, rs_container_id = cid,
           rs_container_name = [], rs_status = ''removed'',
           rs_status_message = ''Container removed from coold host.''\<rparr>)"

definition container_resource_status_updates_from_deltas ::
  "string \<Rightarrow> container_status delta list \<Rightarrow> resource_status_update list" where
  "container_resource_status_updates_from_deltas host ds = map (status_update host) ds"

text \<open>Every update is offered, also after one was refused; the answer is whether all were taken.\<close>

fun emit_all ::
  "(resource_status_update \<Rightarrow> 'e \<Rightarrow> bool \<times> 'e) \<Rightarrow> resource_status_update list \<Rightarrow> 'e \<Rightarrow> bool \<times> 'e" where
  "emit_all emit [] e = (True, e)"
| "emit_all emit (u # us) e =
     (case emit u e of (ok, e1) \<Rightarrow> (case emit_all emit us e1 of (oks, e2) \<Rightarrow> (ok \<and> oks, e2)))"

definition reconcile_container_status_snapshot ::
  "(resource_status_update \<Rightarrow> 'e \<Rightarrow> bool \<times> 'e) \<Rightarrow> (string, container_status) hmap \<Rightarrow>
   (string, container_status) hmap \<Rightarrow> bool \<Rightarrow> string \<Rightarrow> 'e \<Rightarrow>
   container_status delta list \<times> (string, container_status) hmap \<times> 'e" where
  "reconcile_container_status_snapshot emit snapshot all force host e =
     (let base = (if force then [] else snapshot); deltas = diff_container_statuses all base in
      if deltas = [] then (deltas, base, e)
      else (case emit_all emit (container_resource_status_updates_from_deltas host deltas) e of
              (ok, e') \<Rightarrow> (deltas, if ok then all else base, e')))"

section \<open>Statements\<close>

definition UPSERT_SQL :: string where
  "UPSERT_SQL =
     ''INSERT INTO service_endpoints (container_id, container_name, namespace, host_mgmt_ip, container_ip, '' @
     ''state, health, updated_at) VALUES (?, ?, ?, ?, ?, ?, ?, ?) ON CONFLICT(container_id) DO UPDATE SET '' @
     ''container_name = excluded.container_name, namespace      = excluded.namespace, '' @
     ''host_mgmt_ip   = excluded.host_mgmt_ip, container_ip   = excluded.container_ip, '' @
     ''state          = excluded.state, health         = excluded.health, updated_at     = excluded.updated_at''"

definition DELETE_SQL :: string where
  "DELETE_SQL = ''DELETE FROM service_endpoints WHERE container_id = ?''"

definition delta_statement :: "int \<Rightarrow> endpoint delta \<Rightarrow> statement" where
  "delta_statement now d =
     (case d of
        Upsert ep \<Rightarrow> \<lparr>sq_sql = UPSERT_SQL, sq_params = endpoint_values ep @ [jint now]\<rparr>
      | Delete cid \<Rightarrow> \<lparr>sq_sql = DELETE_SQL, sq_params = [JString cid]\<rparr>)"

definition build_statements :: "int \<Rightarrow> endpoint delta list \<Rightarrow> statement list" where
  "build_statements now ds = map (delta_statement now) ds"

section \<open>One reconciliation\<close>

text \<open>The state the tasks share: the snapshot of what flux was told, the flag that asks for a full
  resync, and the channel.\<close>

record 'e sync_state =
  sy_snapshot :: "(string, container_status) hmap"
  sy_resync :: bool
  sy_bus :: 'e

definition resync_request :: "'e sync_state \<Rightarrow> 'e sync_state" where
  "resync_request st = st\<lparr>sy_resync := True\<rparr>"

definition resync_take :: "'e sync_state \<Rightarrow> bool \<times> 'e sync_state" where
  "resync_take st = (sy_resync st, st\<lparr>sy_resync := False\<rparr>)"

definition reconcile_statuses ::
  "(resource_status_update \<Rightarrow> 'e \<Rightarrow> bool \<times> 'e) \<Rightarrow> string \<Rightarrow> (string, container_status) hmap \<Rightarrow>
   'e sync_state \<Rightarrow> nat \<times> 'e sync_state" where
  "reconcile_statuses emit host all st =
     (case resync_take st of (force, st1) \<Rightarrow>
        (case reconcile_container_status_snapshot emit (sy_snapshot st1) all force host (sy_bus st1) of
           (ds, snap, bus) \<Rightarrow> (length ds, st1\<lparr>sy_snapshot := snap, sy_bus := bus\<rparr>)))"

definition reconcile_endpoints ::
  "'w podman \<Rightarrow> 'w corrosion \<Rightarrow> (string \<Rightarrow> string) \<Rightarrow> ('w \<Rightarrow> int) \<Rightarrow> coold_config \<Rightarrow> ('w, nat) io" where
  "reconcile_endpoints P C lower now cfg =
     io_bind (io_context ''fetch podman state'' (desired_endpoints P lower cfg)) (\<lambda>desired.
     io_bind (io_context ''fetch corrosion snapshot'' (snapshot_for_host C (cc_host_mgmt_ip cfg))) (\<lambda>current.
     let deltas = diff desired current in
     io_bind (if deltas \<noteq> [] then
                (\<lambda>w. io_context ''apply corrosion transaction'' (transaction C (build_statements (now w) deltas)) w)
              else io_return ()) (\<lambda>_.
     io_return (length deltas))))"

definition reconcile_once ::
  "'w podman \<Rightarrow> 'w corrosion \<Rightarrow> (string \<Rightarrow> string) \<Rightarrow> ('w \<Rightarrow> int) \<Rightarrow> coold_config \<Rightarrow>
   (resource_status_update \<Rightarrow> 'e \<Rightarrow> bool \<times> 'e) \<Rightarrow> 'e sync_state \<Rightarrow> 'w \<Rightarrow> nat result \<times> 'e sync_state \<times> 'w" where
  "reconcile_once P C lower now cfg emit st w =
     (case io_context ''fetch all podman container statuses'' (desired_container_statuses P lower) w of
        (Inl e, w1) \<Rightarrow> (Inl e, st, w1)
      | (Inr all, w1) \<Rightarrow>
          (case reconcile_statuses emit (cc_host_mgmt_ip cfg) all st of (n, st1) \<Rightarrow>
             (case reconcile_endpoints P C lower now cfg w1 of
                (Inl e, w2) \<Rightarrow> (Inl e, st1, w2)
              | (Inr m, w2) \<Rightarrow> (Inr (m + n), st1, w2))))"

text \<open>A task's end as the daemon reports it: a normal return is an error too.\<close>

datatype task_end = Returned | Failed string | Panicked string

definition propagate :: "string \<Rightarrow> task_end \<Rightarrow> unit result" where
  "propagate task r =
     (case r of
        Returned \<Rightarrow> Inl (task @ '' task exited unexpectedly'')
      | Failed e \<Rightarrow> Inl (task @ '' task failed: '' @ e)
      | Panicked e \<Rightarrow> Inl (task @ '' task panicked: '' @ e))"

text \<open>The pause before the next turn of the reconcile loop, beside the ticker, in milliseconds.\<close>

definition reconcile_pause :: "nat result \<Rightarrow> nat" where
  "reconcile_pause r = (case r of Inl _ \<Rightarrow> 1000 | Inr _ \<Rightarrow> 0)"

section \<open>The tasks of the daemon\<close>

text \<open>The reconcile loop for a number of ticks, with the pauses it adds, and the task that reconciles
  at every Podman event; neither ends at a failed reconciliation.\<close>

fun run_reconcile_loop ::
  "'w podman \<Rightarrow> 'w corrosion \<Rightarrow> (string \<Rightarrow> string) \<Rightarrow> ('w \<Rightarrow> int) \<Rightarrow> coold_config \<Rightarrow>
   (resource_status_update \<Rightarrow> 'e \<Rightarrow> bool \<times> 'e) \<Rightarrow> nat \<Rightarrow> 'e sync_state \<times> 'w \<Rightarrow> nat list \<times> 'e sync_state \<times> 'w" where
  "run_reconcile_loop P C lower now cfg emit 0 (st, w) = ([], st, w)"
| "run_reconcile_loop P C lower now cfg emit (Suc n) (st, w) =
     (case reconcile_once P C lower now cfg emit st w of (r, st1, w1) \<Rightarrow>
        map_prod (\<lambda>ps. reconcile_pause r # ps) id (run_reconcile_loop P C lower now cfg emit n (st1, w1)))"

fun run_event_trigger ::
  "'w podman \<Rightarrow> 'w corrosion \<Rightarrow> (string \<Rightarrow> string) \<Rightarrow> ('w \<Rightarrow> int) \<Rightarrow> coold_config \<Rightarrow>
   (resource_status_update \<Rightarrow> 'e \<Rightarrow> bool \<times> 'e) \<Rightarrow> event_message list \<Rightarrow> 'e sync_state \<times> 'w \<Rightarrow> 'e sync_state \<times> 'w" where
  "run_event_trigger P C lower now cfg emit [] (st, w) = (st, w)"
| "run_event_trigger P C lower now cfg emit (msg # msgs) (st, w) =
     (case reconcile_once P C lower now cfg emit st w of (r, st1, w1) \<Rightarrow>
        run_event_trigger P C lower now cfg emit msgs (st1, w1))"

text \<open>The \<open>select!\<close> of \<open>run\<close>: the first task that ends, or the interrupt, ends the daemon. Only the
  interrupt is a normal end.\<close>

datatype daemon_end = TaskEnds string task_end | Interrupted

definition daemon_result :: "daemon_end \<Rightarrow> unit result" where
  "daemon_result d = (case d of TaskEnds task e \<Rightarrow> propagate task e | Interrupted \<Rightarrow> Inr ())"

definition daemon_tasks :: "string list" where
  "daemon_tasks = [''events'', ''trigger'', ''reconcile'', ''host-infra'', ''dns'', ''grpc'']"

lemma daemon_result_ok: "daemon_result d = Inr () \<longleftrightarrow> d = Interrupted"
  by (auto simp: daemon_result_def propagate_def split: daemon_end.splits task_end.splits)

end
