(* ===== verification/CooldConverge.thy ===== *)
theory CooldConverge
  imports CooldSync
begin

text \<open>
  What the reconciliation of \<open>CooldSync\<close> achieves: the differences turn the old map into the new one in
  whatever order they are carried out, a successful reconciliation leaves exactly this host's
  containers in the replicated table, and an update that reaches flux brings its view to the host's
  containers, however often the connection was down before; what a forced resync loses is stated too.
\<close>

section \<open>Differences\<close>

text \<open>The meaning of a difference on a map whose values know their key.\<close>

definition apply_delta :: "('v \<Rightarrow> string) \<Rightarrow> 'v delta \<Rightarrow> (string \<rightharpoonup> 'v) \<Rightarrow> string \<rightharpoonup> 'v" where
  "apply_delta key d m = (case d of Upsert v \<Rightarrow> m(key v \<mapsto> v) | Delete k \<Rightarrow> m(k := None))"

definition delta_key :: "('v \<Rightarrow> string) \<Rightarrow> 'v delta \<Rightarrow> string" where
  "delta_key key d = (case d of Upsert v \<Rightarrow> key v | Delete k \<Rightarrow> k)"

definition delta_value :: "'v delta \<Rightarrow> 'v option" where
  "delta_value d = (case d of Upsert v \<Rightarrow> Some v | Delete k \<Rightarrow> None)"

definition keyed :: "('v \<Rightarrow> string) \<Rightarrow> (string, 'v) hmap \<Rightarrow> bool" where
  "keyed key m \<longleftrightarrow> hm_wf m \<and> (\<forall>(k, v)\<in>set m. k = key v)"

lemma keyed_Nil [simp]: "keyed key []"
  by (simp add: keyed_def)

lemma keyed_insert: "keyed key m \<Longrightarrow> key v = k \<Longrightarrow> keyed key (hm_insert k v m)"
  by (auto simp: keyed_def hm_insert_def hm_remove_def hm_wf_def distinct_map_filter_fst)

lemma keyed_get: "keyed key m \<Longrightarrow> hm_get m k = Some v \<longleftrightarrow> (k, v) \<in> set m \<and> k = key v"
  by (auto simp: keyed_def hm_get_mem)

lemma apply_delta_point:
  "apply_delta key d m = m(delta_key key d := delta_value d)"
  by (simp add: apply_delta_def delta_key_def delta_value_def split: delta.splits)

text \<open>Changes that agree with the target, on all keys where the start differs from it, lead to the
  target in every order.\<close>

lemma apply_deltas_reach:
  assumes "\<And>d. d \<in> set ds \<Longrightarrow> target (delta_key key d) = delta_value d"
    and "\<And>k. m k \<noteq> target k \<Longrightarrow> \<exists>d\<in>set ds. delta_key key d = k"
  shows "fold (apply_delta key) ds m = target"
  using assms
proof (induction ds arbitrary: m)
  case Nil
  then show ?case by (auto simp: fun_eq_iff)
next
  case (Cons d ds)
  let ?m = "apply_delta key d m"
  have m: "?m = m(delta_key key d := target (delta_key key d))"
    using Cons.prems(1) [of d] by (simp add: apply_delta_point)
  have "\<exists>d\<in>set ds. delta_key key d = k" if "?m k \<noteq> target k" for k
    using that Cons.prems(2) [of k] by (auto simp: m split: if_splits)
  with Cons show ?case by simp
qed

lemma set_map_diff:
  "set (map_diff a b) =
     {Upsert v | k v. (k, v) \<in> set a \<and> hm_get b k \<noteq> Some v} \<union> {Delete k | k. k \<in> fst ` set b \<and> k \<notin> fst ` set a}"
  by (auto simp: map_diff_def map_of_eq_None_iff)

lemma map_diff_right:
  assumes "keyed key a" and "d \<in> set (map_diff a b)"
  shows "hm_get a (delta_key key d) = delta_value d"
proof (cases d)
  case (Upsert v)
  then obtain k where "(k, v) \<in> set a" using assms(2) by (auto simp: set_map_diff)
  moreover from this have "k = key v" using assms(1) by (auto simp: keyed_def)
  ultimately show ?thesis using keyed_get [OF assms(1)] Upsert by (simp add: delta_key_def delta_value_def)
next
  case (Delete k)
  then have "k \<notin> fst ` set a" using assms(2) by (auto simp: set_map_diff)
  then show ?thesis by (simp add: Delete delta_key_def delta_value_def map_of_eq_None_iff)
qed

lemma map_diff_covers:
  assumes "keyed key a" and "hm_get b k \<noteq> hm_get a k"
  shows "\<exists>d\<in>set (map_diff a b). delta_key key d = k"
proof (cases "hm_get a k")
  case None
  with assms(2) obtain v where "hm_get b k = Some v" by auto
  then have "k \<in> fst ` set b" by (force dest: map_of_SomeD)
  with None have "Delete k \<in> set (map_diff a b)" by (auto simp: set_map_diff map_of_eq_None_iff)
  then show ?thesis by (auto simp: delta_key_def intro!: bexI [of _ "Delete k"])
next
  case (Some v)
  then have v: "(k, v) \<in> set a" "k = key v" using keyed_get [OF assms(1)] by auto
  with Some assms(2) have "Upsert v \<in> set (map_diff a b)" by (auto simp: set_map_diff)
  with v show ?thesis by (auto simp: delta_key_def intro!: bexI [of _ "Upsert v"])
qed

lemma apply_map_diff:
  assumes "keyed key a" and "set ds = set (map_diff a b)"
  shows "fold (apply_delta key) ds (hm_get b) = hm_get a"
  by (rule apply_deltas_reach)
    (use assms map_diff_right [OF assms(1)] map_diff_covers [OF assms(1)] in \<open>simp_all add: eq_commute\<close>)

lemma map_diff_empty_iff:
  assumes "keyed key a"
  shows "map_diff a b = [] \<longleftrightarrow> hm_get a = hm_get b"
proof
  assume "map_diff a b = []"
  with apply_map_diff [OF assms, of "[]" b] show "hm_get a = hm_get b" by simp
next
  assume eq: "hm_get a = hm_get b"
  have "d \<notin> set (map_diff a b)" for d
  proof
    assume d: "d \<in> set (map_diff a b)"
    show False
    proof (cases d)
      case (Upsert v)
      then obtain k where "(k, v) \<in> set a" "hm_get b k \<noteq> Some v" using d by (auto simp: set_map_diff)
      moreover have "hm_wf a" using assms by (simp add: keyed_def)
      ultimately show False using eq hm_get_mem [of a k v] by simp
    next
      case (Delete k)
      then have "k \<in> fst ` set b" "hm_get a k = None" using d by (auto simp: set_map_diff map_of_eq_None_iff)
      then show False using eq map_of_eq_None_iff [of b k] by simp
    qed
  qed
  then show "map_diff a b = []" by (metis last_in_set)
qed

text \<open>Carrying out the differences that \<open>diff\<close> reports, in any order and with repetitions, turns the
  recorded endpoints into the desired ones, and there is no difference exactly when both agree.\<close>

theorem diff_reaches_desired:
  assumes "keyed ep_container_id desired" and "set ds = set (diff desired current)"
  shows "fold (apply_delta ep_container_id) ds (hm_get current) = hm_get desired \<and>
     (diff desired current = [] \<longleftrightarrow> hm_get desired = hm_get current)"
  using apply_map_diff [OF assms(1)] map_diff_empty_iff [OF assms(1)] assms(2) by (simp add: diff_def)

definition sample_endpoint :: endpoint where
  "sample_endpoint =
     \<lparr>ep_container_id = ''c1'', ep_container_name = ''web'', ep_namespace = ''default'', ep_host_mgmt_ip = ''100.64.0.5'',
      ep_container_ip = ''10.210.0.2'', ep_state = ''running'', ep_health = ''unknown''\<rparr>"

theorem diff_reaches_desired_witness:
  "fold (apply_delta ep_container_id) [Delete ''c9'', Upsert sample_endpoint]
     (hm_get [(''c9'', sample_endpoint)]) = hm_get [(''c1'', sample_endpoint)] \<and>
   (diff [(''c1'', sample_endpoint)] [(''c9'', sample_endpoint)] = [] \<longleftrightarrow>
      hm_get [(''c1'', sample_endpoint)] = hm_get [(''c9'', sample_endpoint)])"
  by (rule diff_reaches_desired)
    (auto simp: keyed_def hm_wf_def sample_endpoint_def diff_def map_diff_def)

section \<open>The view of flux\<close>

text \<open>What the receiver of the updates knows: name and state per container.\<close>

definition apply_update ::
  "resource_status_update \<Rightarrow> (string \<rightharpoonup> string \<times> string) \<Rightarrow> string \<rightharpoonup> string \<times> string" where
  "apply_update u v =
     (if rs_status u = ''removed'' then v(rs_container_id u := None)
      else v(rs_container_id u \<mapsto> (rs_container_name u, rs_status u)))"

definition told :: "container_status \<Rightarrow> string \<times> string" where
  "told s = (ks_container_name s, ks_state s)"

definition view_of :: "(string, container_status) hmap \<Rightarrow> string \<rightharpoonup> string \<times> string" where
  "view_of m k = map_option told (hm_get m k)"

text \<open>A well-formed listing: keyed by the container id, and no state is the word that means removal.\<close>

definition listing :: "(string, container_status) hmap \<Rightarrow> bool" where
  "listing m \<longleftrightarrow> keyed ks_container_id m \<and> (\<forall>(k, s)\<in>set m. ks_state s \<noteq> ''removed'')"

lemma listing_Nil [simp]: "listing []"
  by (simp add: listing_def)


text \<open>One round against a channel that either delivers or has no subscriber.\<close>

definition deliver_status :: "bool \<Rightarrow> resource_status_update \<Rightarrow> (string \<rightharpoonup> string \<times> string) \<Rightarrow>
   bool \<times> (string \<rightharpoonup> string \<times> string)" where
  "deliver_status up u v = (if up then (True, apply_update u v) else (False, v))"

record round =
  ro_containers :: "(string, container_status) hmap"
  ro_force :: bool
  ro_up :: bool

definition run_round ::
  "string \<Rightarrow> round \<Rightarrow> (string, container_status) hmap \<times> (string \<rightharpoonup> string \<times> string) \<Rightarrow>
   (string, container_status) hmap \<times> (string \<rightharpoonup> string \<times> string)" where
  "run_round host r sv =
     snd (reconcile_container_status_snapshot (deliver_status (ro_up r)) (fst sv) (ro_containers r) (ro_force r) host (snd sv))"

lemma emit_all_deliver:
  "emit_all (deliver_status up) us v = (up \<or> us = [], if up then fold apply_update us v else v)"
  by (induction us arbitrary: v) (auto simp: deliver_status_def)

lemma run_round_eq:
  "run_round host r (snap, v) =
     (let base = (if ro_force r then [] else snap); ds = map_diff (ro_containers r) base in
      if ds = [] then (base, v)
      else if ro_up r then (ro_containers r, fold apply_update (map (status_update host) ds) v)
      else (base, v))"
  by (simp add: run_round_def reconcile_container_status_snapshot_def diff_container_statuses_def
      container_resource_status_updates_from_deltas_def emit_all_deliver Let_def)


lemma view_of_Nil [simp]: "view_of [] = Map.empty"
  by (simp add: view_of_def fun_eq_iff)









definition sample_status :: container_status where
  "sample_status = \<lparr>ks_container_id = ''a'', ks_container_name = ''web'', ks_image = ''nginx'', ks_state = ''running''\<rparr>"

definition rnd :: "(string, container_status) hmap \<Rightarrow> bool \<Rightarrow> bool \<Rightarrow> round" where
  "rnd cs force up = \<lparr>ro_containers = cs, ro_force = force, ro_up = up\<rparr>"


text \<open>A resync clears the snapshot before the differences are taken, so a container that was
  removed while flux was away is never reported as removed: after the forced round the old
  entry stays in flux's view through every later round.\<close>

theorem resync_forgets_removed_container:
  "fold (run_round host) ([rnd [(''a'', sample_status)] False True, rnd [] False False, rnd [] True True]
      @ replicate n (rnd [] False True)) ([], Map.empty) =
   ([], [''a'' \<mapsto> (''web'', ''running'')])"
proof -
  have "fold (run_round host) (replicate n (rnd [] False True)) ([], v) = ([], v)" for v
    by (induction n) (simp_all add: run_round_eq rnd_def map_diff_def)
  moreover have "fold (run_round host) [rnd [(''a'', sample_status)] False True, rnd [] False False, rnd [] True True]
      ([], Map.empty) = ([], [''a'' \<mapsto> (''web'', ''running'')])"
    by (simp add: run_round_eq rnd_def map_diff_def sample_status_def status_update_def apply_update_def)
  ultimately show ?thesis by simp
qed

section \<open>The replicated table\<close>

text \<open>
  What is relied on of Corrosion, with \<open>rows\<close> the content of \<open>service_endpoints\<close> in a world: a query for
  a host that succeeds answers with its rows and leaves the table as it is, a transaction that succeeded
  has executed its statements in order, and the two statements coold sends have the meaning of SQL.
  Queries and transactions may fail.
\<close>

definition serves_rows :: "'w corrosion \<Rightarrow> ('w \<Rightarrow> string \<rightharpoonup> endpoint) \<Rightarrow> bool" where
  "serves_rows C rows \<longleftrightarrow>
     (\<forall>w k e. rows w k = Some e \<longrightarrow> ep_container_id e = k) \<and>
     (\<forall>w host res bytes w'.
        cor_http C (cor_base_url C @ ''/v1/queries'') (JArray [JString SNAPSHOT_SQL, JArray [JString host]]) w = (Inr res, w') \<longrightarrow>
        hr_success res \<longrightarrow> hr_body res = Inr bytes \<longrightarrow>
        rows w' = rows w \<and>
        (\<exists>es. parse_value_rows C bytes = map endpoint_values es \<and> distinct (map ep_container_id es) \<and>
           (\<forall>e. e \<in> set es \<longleftrightarrow> rows w (ep_container_id e) = Some e \<and> ep_host_mgmt_ip e = host)))"

text \<open>Asking Podman does not change the table: no change of another host arrives in the meantime.\<close>

definition keeps_rows :: "'w podman \<Rightarrow> ('w \<Rightarrow> string \<rightharpoonup> endpoint) \<Rightarrow> bool" where
  "keeps_rows P rows \<longleftrightarrow> (\<forall>m p b w. rows (snd (po_http P m p b w)) = rows w)"

definition commits ::
  "'w corrosion \<Rightarrow> ('w \<Rightarrow> string \<rightharpoonup> endpoint) \<Rightarrow> (statement \<Rightarrow> (string \<rightharpoonup> endpoint) \<Rightarrow> string \<rightharpoonup> endpoint) \<Rightarrow> bool" where
  "commits C rows exec \<longleftrightarrow>
     (\<forall>w stmts res w'. cor_http C (cor_base_url C @ ''/v1/transactions'') (JArray (map statement_json stmts)) w =
        (Inr res, w') \<longrightarrow> hr_success res \<longrightarrow> rows w' = fold exec stmts (rows w))"

definition sql_meaning :: "(statement \<Rightarrow> (string \<rightharpoonup> endpoint) \<Rightarrow> string \<rightharpoonup> endpoint) \<Rightarrow> bool" where
  "sql_meaning exec \<longleftrightarrow>
     (\<forall>e now r. exec \<lparr>sq_sql = UPSERT_SQL, sq_params = endpoint_values e @ [jint now]\<rparr> r = r(ep_container_id e \<mapsto> e)) \<and>
     (\<forall>k r. exec \<lparr>sq_sql = DELETE_SQL, sq_params = [JString k]\<rparr> r = r(k := None))"

definition host_rows :: "string \<Rightarrow> (string \<rightharpoonup> endpoint) \<Rightarrow> string \<rightharpoonup> endpoint" where
  "host_rows host r k =
     (case r k of None \<Rightarrow> None | Some e \<Rightarrow> if ep_host_mgmt_ip e = host then Some e else None)"

lemma statements_meaning:
  assumes "sql_meaning exec"
  shows "fold exec (build_statements now ds) r = fold (apply_delta ep_container_id) ds r"
proof -
  have "exec (delta_statement now d) = apply_delta ep_container_id d" for d
    using assms by (auto simp: sql_meaning_def delta_statement_def apply_delta_def fun_eq_iff split: delta.splits)
  then show ?thesis by (induction ds arbitrary: r) (simp_all add: build_statements_def)
qed

lemma snapshot_is_host_rows:
  assumes "serves_rows C rows" and "snapshot_for_host C host w = (Inr m, w')"
  shows "rows w' = rows w \<and> hm_wf m \<and> hm_get m = host_rows host (rows w)"
proof -
  obtain res bytes where h: "cor_http C (cor_base_url C @ ''/v1/queries'')
          (JArray [JString SNAPSHOT_SQL, JArray [JString host]]) w = (Inr res, w')"
    and ok: "hr_success res" "hr_body res = Inr bytes" and p: "parse_rows C bytes = Inr m"
    using assms(2)
    by (auto simp: snapshot_for_host_def run_query_def Let_def io_bind_eq_Inr io_fail_def
        eq_commute [of "Inr _" "with_context _ _"] split: if_splits)
  obtain es where same: "rows w' = rows w" and v: "parse_value_rows C bytes = map endpoint_values es"
    and d: "distinct (map ep_container_id es)"
    and es: "\<forall>e. e \<in> set es \<longleftrightarrow> rows w (ep_container_id e) = Some e \<and> ep_host_mgmt_ip e = host"
    using assms(1) h ok unfolding serves_rows_def by blast
  have key: "\<And>k e. rows w k = Some e \<Longrightarrow> ep_container_id e = k"
    using assms(1) unfolding serves_rows_def by blast
  have m: "m = hm_of_list (map (\<lambda>e. (ep_container_id e, e)) es)"
    using p parse_rows_endpoints [OF v] by simp
  have g: "hm_get m = map_of (map (\<lambda>e. (ep_container_id e, e)) es)"
    unfolding m by (rule hm_get_of_list) (simp add: d comp_def)
  have "map_of (map (\<lambda>e. (ep_container_id e, e)) es) k = host_rows host (rows w) k" for k
  proof (cases "host_rows host (rows w) k")
    case None
    then have "k \<notin> ep_container_id ` set es" using es by (auto simp: host_rows_def)
    then show ?thesis using None by (simp add: map_of_eq_None_iff image_image)
  next
    case (Some e)
    then have "rows w k = Some e" "ep_host_mgmt_ip e = host"
      by (auto simp: host_rows_def split: option.splits if_splits)
    then have "e \<in> set es" "ep_container_id e = k" using es key by auto
    then have "map_of (map (\<lambda>e. (ep_container_id e, e)) es) k = Some e"
      by (intro map_of_is_SomeI) (auto simp: d comp_def)
    with Some show ?thesis by simp
  qed
  with same g show ?thesis by (simp add: m fun_eq_iff)
qed

text \<open>What the desired endpoints are: keyed by container id, owned by this host, in a namespace of
  its configuration.\<close>

definition own_endpoints :: "coold_config \<Rightarrow> (string, endpoint) hmap \<Rightarrow> bool" where
  "own_endpoints cfg m \<longleftrightarrow>
     keyed ep_container_id m \<and>
     (\<forall>(k, e)\<in>set m. ep_host_mgmt_ip e = cc_host_mgmt_ip cfg \<and> ep_namespace e \<in> nc_name ` set (cc_namespaces cfg))"

lemma own_insert:
  "own_endpoints cfg m \<Longrightarrow> ep_container_id e = k \<Longrightarrow> ep_host_mgmt_ip e = cc_host_mgmt_ip cfg \<Longrightarrow>
     ep_namespace e \<in> nc_name ` set (cc_namespaces cfg) \<Longrightarrow> own_endpoints cfg (hm_insert k e m)"
  by (auto simp: own_endpoints_def intro: keyed_insert) (auto simp: hm_insert_def hm_remove_def)

lemma hm_of_list_values: "hm_get (hm_of_list xs) k = Some v \<Longrightarrow> (k, v) \<in> set xs"
proof -
  have "hm_get (foldl (\<lambda>m (k, v). hm_insert k v m) m xs) k = Some v \<Longrightarrow> (k, v) \<in> set xs \<or> hm_get m k = Some v" for m
  proof (induction xs arbitrary: m)
    case (Cons x xs)
    from Cons.prems have "(k, v) \<in> set xs \<or> hm_get (hm_insert (fst x) (snd x) m) k = Some v"
      by (intro Cons.IH) (simp add: case_prod_beta)
    then show ?case by (cases x) (auto split: if_splits)
  qed simp
  from this [of "[]"] show "hm_get (hm_of_list xs) k = Some v \<Longrightarrow> (k, v) \<in> set xs"
    by (simp add: hm_of_list_def)
qed

lemma network_to_ns_managed:
  "hm_get (network_to_ns cfg) net = Some ns \<Longrightarrow> ns \<in> nc_name ` set (cc_namespaces cfg)"
  unfolding network_to_ns_def by (drule hm_of_list_values) auto

lemma record_networks_own:
  "own_endpoints cfg out \<Longrightarrow> own_endpoints cfg (record_networks lower cfg c i nets out)"
  unfolding record_networks_def
proof (induction nets arbitrary: out)
  case (Cons n nets)
  obtain net entry where n: "n = (net, entry)" by (cases n)
  let ?out = "case hm_get (network_to_ns cfg) net of
          None \<Rightarrow> out
        | Some ns \<Rightarrow>
            if hm_get out (co_id c) \<noteq> None then out
            else hm_insert (co_id c) (endpoint_of lower cfg c i ns entry) out"
  have "own_endpoints cfg ?out"
    using Cons.prems network_to_ns_managed [of cfg net]
    by (auto split: option.splits intro!: own_insert simp: endpoint_of_def)
  then have "own_endpoints cfg (foldl (\<lambda>out (net, entry).
        case hm_get (network_to_ns cfg) net of
          None \<Rightarrow> out
        | Some ns \<Rightarrow>
            if hm_get out (co_id c) \<noteq> None then out
            else hm_insert (co_id c) (endpoint_of lower cfg c i ns entry) out) ?out nets)"
    by (rule Cons.IH)
  then show ?case by (simp only: foldl.simps n prod.case)
qed simp

lemma endpoint_loop_own:
  "endpoint_loop P lower cfg cs out w = (Inr m, w') \<Longrightarrow> own_endpoints cfg out \<Longrightarrow> own_endpoints cfg m"
proof (induction cs arbitrary: out w)
  case (Cons c cs)
  obtain r w1 where "inspect_container P (co_id c) w = (r, w1)" by (cases "inspect_container P (co_id c) w")
  then have "endpoint_loop P lower cfg cs
       (case r of
          Inl _ \<Rightarrow> out
        | Inr i \<Rightarrow> (case ci_network_settings i of None \<Rightarrow> out | Some nets \<Rightarrow> record_networks lower cfg c i nets out)) w1 =
      (Inr m, w')"
    using Cons.prems(1) by (simp add: io_bind_def io_try_def)
  then show ?case
    by (rule Cons.IH) (use Cons.prems(2) record_networks_own in \<open>auto split: sum.splits option.splits\<close>)
qed simp

lemma desired_endpoints_own:
  "desired_endpoints P lower cfg w = (Inr m, w') \<Longrightarrow> own_endpoints cfg m"
  unfolding desired_endpoints_def io_bind_eq_Inr
  by (elim exE conjE) (erule endpoint_loop_own, simp add: own_endpoints_def)

text \<open>The table a reconciliation aims at: this host's rows are the desired ones, a row of another
  host stays unless a container of this host has its id.\<close>

definition table_goal :: "string \<Rightarrow> (string, endpoint) hmap \<Rightarrow> (string \<rightharpoonup> endpoint) \<Rightarrow> string \<rightharpoonup> endpoint" where
  "table_goal host desired r k =
     (case hm_get desired k of
        Some e \<Rightarrow> Some e
      | None \<Rightarrow> if host_rows host r k = None then r k else None)"

lemma diff_reaches_goal:
  assumes "keyed ep_container_id desired" and "hm_wf current" and "hm_get current = host_rows host r"
  shows "fold (apply_delta ep_container_id) (diff desired current) r = table_goal host desired r"
proof (rule apply_deltas_reach)
  fix d assume d: "d \<in> set (diff desired current)"
  then have right: "hm_get desired (delta_key ep_container_id d) = delta_value d"
    using map_diff_right [OF assms(1)] by (simp add: diff_def)
  show "table_goal host desired r (delta_key ep_container_id d) = delta_value d"
  proof (cases d)
    case (Upsert e)
    then show ?thesis using right by (simp add: table_goal_def delta_value_def)
  next
    case (Delete k)
    then have "k \<in> fst ` set current" using d by (auto simp: diff_def set_map_diff)
    then have "host_rows host r k \<noteq> None" using assms(3) map_of_eq_None_iff [of current k] by simp
    then show ?thesis using right Delete by (auto simp: table_goal_def delta_value_def delta_key_def)
  qed
next
  fix k assume k: "r k \<noteq> table_goal host desired r k"
  have "hm_get current k \<noteq> hm_get desired k"
    using k assms(3) by (auto simp: table_goal_def host_rows_def split: option.splits if_splits)
  then show "\<exists>d\<in>set (diff desired current). delta_key ep_container_id d = k"
    using map_diff_covers [OF assms(1)] by (simp add: diff_def)
qed

lemma transaction_commits:
  assumes "commits C rows exec" and "transaction C stmts w = (Inr (), w')"
  shows "rows w' = fold exec stmts (rows w)"
proof (cases "stmts = []")
  case True
  then show ?thesis using assms(2) by (simp add: transaction_def)
next
  case False
  then obtain res bytes where "cor_http C (cor_base_url C @ ''/v1/transactions'') (JArray (map statement_json stmts)) w = (Inr res, w')"
    "hr_success res"
    using assms(2)
    by (auto simp: transaction_def Let_def io_bind_eq_Inr split: if_splits)
  then show ?thesis using assms(1) by (auto simp: commits_def)
qed

lemma get_json_keeps: "keeps_rows P rows \<Longrightarrow> get_json P dec path w = (r, w') \<Longrightarrow> rows w' = rows w"
  by (auto simp: get_json_def podman_send_def io_bind_def io_context_def io_lift_def keeps_rows_def
      split: prod.splits sum.splits) (metis snd_conv)+

lemma endpoint_loop_keeps:
  assumes "keeps_rows P rows"
  shows "endpoint_loop P lower cfg cs out w = (r, w') \<Longrightarrow> rows w' = rows w"
proof (induction cs arbitrary: out w)
  case (Cons c cs)
  obtain r1 w1 where i: "inspect_container P (co_id c) w = (r1, w1)" by (cases "inspect_container P (co_id c) w")
  then have "rows w1 = rows w" using get_json_keeps [OF assms] by (simp add: inspect_container_def)
  moreover have "rows w' = rows w1"
    by (rule Cons.IH) (use Cons.prems i in \<open>simp add: io_bind_def io_try_def\<close>)
  ultimately show ?case by simp
qed simp

lemma status_loop_keeps:
  assumes "keeps_rows P rows"
  shows "status_loop P lower cs out w = (r, w') \<Longrightarrow> rows w' = rows w"
proof (induction cs arbitrary: out w)
  case (Cons c cs)
  obtain r1 w1 where i: "inspect_container P (co_id c) w = (r1, w1)" by (cases "inspect_container P (co_id c) w")
  then have "rows w1 = rows w" using get_json_keeps [OF assms] by (simp add: inspect_container_def)
  moreover have "rows w' = rows w1"
    by (rule Cons.IH) (use Cons.prems i in \<open>simp add: io_bind_def io_try_def\<close>)
  ultimately show ?case by simp
qed simp

lemma desired_keeps:
  assumes "keeps_rows P rows"
  shows "desired_container_statuses P lower w = (Inr all, w') \<Longrightarrow> rows w' = rows w"
    and "desired_endpoints P lower cfg w = (Inr m, w') \<Longrightarrow> rows w' = rows w"
  unfolding desired_container_statuses_def desired_endpoints_def io_bind_eq_Inr containers_list_def
  by (metis get_json_keeps [OF assms] status_loop_keeps [OF assms])
    (metis get_json_keeps [OF assms] endpoint_loop_keeps [OF assms])

lemma reconcile_endpoints_goal:
  assumes "serves_rows C rows" and "commits C rows exec" and "sql_meaning exec"
    and "reconcile_endpoints P C lower now cfg w = (Inr n, w')"
  shows "\<exists>desired w1. desired_endpoints P lower cfg w = (Inr desired, w1) \<and>
     rows w' = table_goal (cc_host_mgmt_ip cfg) desired (rows w1)"
proof -
  obtain desired w1 current w2 where d: "desired_endpoints P lower cfg w = (Inr desired, w1)"
    and s: "snapshot_for_host C (cc_host_mgmt_ip cfg) w1 = (Inr current, w2)"
    and t: "io_bind (if diff desired current \<noteq> [] then
                (\<lambda>w. io_context ''apply corrosion transaction'' (transaction C (build_statements (now w) (diff desired current))) w)
              else io_return ()) (\<lambda>_. io_return (length (diff desired current))) w2 = (Inr n, w')"
    using assms(4) unfolding reconcile_endpoints_def Let_def io_bind_eq_Inr io_context_eq_Inr by blast
  have c: "rows w2 = rows w1" "hm_wf current" "hm_get current = host_rows (cc_host_mgmt_ip cfg) (rows w1)"
    using snapshot_is_host_rows [OF assms(1) s] by auto
  have k: "keyed ep_container_id desired" using desired_endpoints_own [OF d] by (simp add: own_endpoints_def)
  have "rows w' = fold (apply_delta ep_container_id) (diff desired current) (rows w1)"
  proof (cases "diff desired current = []")
    case True
    then show ?thesis using t c(1) by simp
  next
    case False
    then have "transaction C (build_statements (now w2) (diff desired current)) w2 = (Inr (), w')"
      using t by (auto simp: io_bind_eq_Inr)
    then show ?thesis using transaction_commits [OF assms(2)] statements_meaning [OF assms(3)] c(1) by simp
  qed
  then show ?thesis using d diff_reaches_goal [OF k c(2,3)] by auto
qed

lemma reconcile_once_Inr:
  assumes "reconcile_once P C lower now cfg emit st w = (Inr n, st', w')"
  obtains all w1 m where "desired_container_statuses P lower w = (Inr all, w1)"
    "reconcile_endpoints P C lower now cfg w1 = (Inr m, w')"
  using assms unfolding reconcile_once_def io_context_def
  by (auto simp: with_context_def split: prod.splits sum.splits)

text \<open>C10: A reconciliation that succeeds leaves, as this host's rows of the replicated table, exactly the
  endpoints it computed from what Podman reported in this reconciliation, each of them owned by this
  host and in one of its namespaces. Every other row is afterwards as it was before, unless a container
  here has its id: another host's row can be lost in no other way. Relied on: what Corrosion answers
  to a successful query and does in a successful transaction, and that no change of another host
  arrives while coold asks Podman. (In the code the event trigger and the interval loop can run two
  reconciliations at the same time; this is about one that runs alone.)\<close>

theorem reconcile_converges_table:
  assumes "serves_rows C rows" and "commits C rows exec" and "sql_meaning exec" and "keeps_rows P rows"
    and "reconcile_once P C lower now cfg emit st w = (Inr n, st', w')"
  shows "\<exists>all w1 desired w2. desired_container_statuses P lower w = (Inr all, w1) \<and>
     desired_endpoints P lower cfg w1 = (Inr desired, w2) \<and> own_endpoints cfg desired \<and>
     host_rows (cc_host_mgmt_ip cfg) (rows w') = hm_get desired \<and>
     (\<forall>k. host_rows (cc_host_mgmt_ip cfg) (rows w) k = None \<longrightarrow> hm_get desired k = None \<longrightarrow> rows w' k = rows w k)"
proof -
  obtain all w1 m where all: "desired_container_statuses P lower w = (Inr all, w1)"
    and "reconcile_endpoints P C lower now cfg w1 = (Inr m, w')"
    using reconcile_once_Inr [OF assms(5)] by blast
  from reconcile_endpoints_goal [OF assms(1-3) this(2)] obtain desired w2
    where d: "desired_endpoints P lower cfg w1 = (Inr desired, w2)"
      and r: "rows w' = table_goal (cc_host_mgmt_ip cfg) desired (rows w2)" by blast
  have w: "rows w2 = rows w" using desired_keeps(1) [OF assms(4) all] desired_keeps(2) [OF assms(4) d] by simp
  have own: "own_endpoints cfg desired" by (rule desired_endpoints_own [OF d])
  have "ep_host_mgmt_ip e = cc_host_mgmt_ip cfg" if "hm_get desired k = Some e" for k e
    using own map_of_SomeD [OF that] by (auto simp: own_endpoints_def)
  then have "host_rows (cc_host_mgmt_ip cfg) (rows w') k = hm_get desired k" for k
    unfolding r
    by (cases "hm_get desired k") (auto simp: host_rows_def table_goal_def split: option.splits)
  moreover have "rows w' k = rows w k"
    if "host_rows (cc_host_mgmt_ip cfg) (rows w) k = None" "hm_get desired k = None" for k
    using that unfolding r w by (simp add: table_goal_def)
  ultimately show ?thesis using all d own by blast
qed

subsection \<open>An instance\<close>

text \<open>A table that can hold three rows, one per component of the world: a stale row of this host, a row
  of another host, and the row of the container that runs here. Queries answer with a line per row,
  and the agent accepts one transaction.\<close>

definition old_row :: endpoint where
  "old_row = sample_endpoint\<lparr>ep_container_id := ''c9''\<rparr>"

definition other_row :: endpoint where
  "other_row = sample_endpoint\<lparr>ep_container_id := ''c2'', ep_host_mgmt_ip := ''100.64.0.6''\<rparr>"

type_synonym table3 = "bool \<times> bool \<times> bool"

definition rows3 :: "table3 \<Rightarrow> string \<rightharpoonup> endpoint" where
  "rows3 w =
     (case w of (a, b, c) \<Rightarrow>
        map_of (filter (\<lambda>(k, e). (k = ''c9'' \<and> a) \<or> (k = ''c2'' \<and> b) \<or> (k = ''c1'' \<and> c))
          [(''c9'', old_row), (''c2'', other_row), (''c1'', sample_endpoint)]))"

definition lines3 :: "string \<Rightarrow> table3 \<Rightarrow> string" where
  "lines3 host w =
     (case w of (a, b, c) \<Rightarrow>
        (if a \<and> host = ''100.64.0.5'' then ''9'' @ [CHR 0x0A] else []) @
        (if b \<and> host = ''100.64.0.6'' then ''2'' @ [CHR 0x0A] else []) @
        (if c \<and> host = ''100.64.0.5'' then ''1'' @ [CHR 0x0A] else []))"

definition statements3 :: "statement list" where
  "statements3 =
     [\<lparr>sq_sql = UPSERT_SQL, sq_params = endpoint_values sample_endpoint @ [jint 0]\<rparr>,
      \<lparr>sq_sql = DELETE_SQL, sq_params = [JString ''c9'']\<rparr>]"

definition reply3 :: "string \<Rightarrow> http_reply" where
  "reply3 body = \<lparr>hr_success = True, hr_status = ''200 OK'', hr_body = Inr body\<rparr>"

definition sample_corrosion :: "table3 corrosion" where
  "sample_corrosion =
     \<lparr>cor_base_url = [], cor_http = (\<lambda>url body w.
        if url = ''/v1/queries'' then
          (case body of JArray [_, JArray [JString host]] \<Rightarrow> (Inr (reply3 (lines3 host w)), w) | _ \<Rightarrow> (Inl ''bad query'', w))
        else if body = JArray (map statement_json statements3) then
          (Inr (reply3 ''{}''), False, fst (snd w), True)
        else (Inl ''refused'', w)),
      cor_frame = (\<lambda>l. if l = ''9'' then Some (Some [JNull, JArray (endpoint_values old_row)])
        else if l = ''2'' then Some (Some [JNull, JArray (endpoint_values other_row)])
        else if l = ''1'' then Some (Some [JNull, JArray (endpoint_values sample_endpoint)]) else None),
      cor_pretty = (\<lambda>_. Inr [])\<rparr>"

definition table_podman :: "table3 podman" where
  "table_podman =
     \<lparr>po_http = (\<lambda>m p b w. (Inr (reply3 []), w)),
      po_sleep_ms = (\<lambda>_ w. w), po_percent_encode = (\<lambda>S s. s), po_to_vec = (\<lambda>_. Inr []),
      po_containers = (\<lambda>_. Inr [\<lparr>co_id = ''c1'', co_names = [''web''], co_image = ''nginx'', co_state = ''running'',
         co_network_settings = None\<rparr>]),
      po_inspect = (\<lambda>_. Inr \<lparr>ci_id = ''c1'', ci_name = ''web'',
         ci_network_settings = Some [(''coolify-default-mesh'', \<lparr>ne_ip_address = ''10.210.0.2''\<rparr>)],
         ci_state = Some \<lparr>st_status = ''running'', st_health = None\<rparr>\<rparr>),
      po_images = (\<lambda>_. Inr []), po_pull_report = (\<lambda>_. Inl ''EOF''), po_created_id = (\<lambda>_. Inr ''c1''),
      po_exec_id = (\<lambda>_. Inr ''e1''), po_exec_inspect = (\<lambda>_. Inr \<lparr>ei_exit_code = 0, ei_running = False\<rparr>),
      po_canonicalize = (\<lambda>p _. Inr p), po_allowed_mount_sources = []\<rparr>"

definition sample_exec :: "statement \<Rightarrow> (string \<rightharpoonup> endpoint) \<Rightarrow> string \<rightharpoonup> endpoint" where
  "sample_exec s r =
     (if sq_sql s = DELETE_SQL then
        (case sq_params s of [JString k] \<Rightarrow> r(k := None) | _ \<Rightarrow> r)
      else (case row_endpoint (sq_params s) of Inr e \<Rightarrow> r(ep_container_id e \<mapsto> e) | Inl _ \<Rightarrow> r))"

definition sample_config :: coold_config where
  "sample_config =
     \<lparr>cc_host_mgmt_ip = ''100.64.0.5'', cc_podman_socket = [], cc_corrosion_url = [],
      cc_namespaces = [\<lparr>nc_name = ''default'', nc_network = ''coolify-default-mesh'', nc_gateway_ip = V4 0x0AD20001\<rparr>],
      cc_reconcile_interval = 2000, cc_host_infra_reconcile_interval = 60000, cc_log_level = ''info'',
      cc_dns_zone = ''coolify.internal'', cc_dns_upstream = (V4 0x01010101, 53), cc_flux_url = None,
      cc_assignment_url = None, cc_host_jwt_path = [], cc_grpc_disabled = False, cc_allowed_mount_sources = [],
      cc_flux_tls_pin_path = [], cc_strict_endpoint_owner = True\<rparr>"

lemma sql_texts_differ: "UPSERT_SQL \<noteq> DELETE_SQL"
  by (simp add: UPSERT_SQL_def DELETE_SQL_def)

lemma sample_sql: "sql_meaning sample_exec"
proof -
  have "row_endpoint (endpoint_values e @ [jint now]) = Inr e" for e now
    by (simp add: row_endpoint_def endpoint_values_def string_at_def nth_str_def)
  then show ?thesis by (simp add: sql_meaning_def sample_exec_def sql_texts_differ)
qed

lemma row_ids [simp]: "ep_container_id old_row = ''c9''" "ep_container_id other_row = ''c2''"
  "ep_container_id sample_endpoint = ''c1''" "ep_host_mgmt_ip old_row = ''100.64.0.5''"
  "ep_host_mgmt_ip other_row = ''100.64.0.6''" "ep_host_mgmt_ip sample_endpoint = ''100.64.0.5''"
  by (simp_all add: old_row_def other_row_def sample_endpoint_def)

lemma parse_lines3:
  "parse_value_rows sample_corrosion (lines3 host (a, b, c)) =
     map endpoint_values
       ((if a \<and> host = ''100.64.0.5'' then [old_row] else []) @ (if b \<and> host = ''100.64.0.6'' then [other_row] else []) @
        (if c \<and> host = ''100.64.0.5'' then [sample_endpoint] else []))"
  by (simp add: parse_value_rows_def lines3_def frame_values_def sample_corrosion_def map_filter_simps)

lemma sample_serves: "serves_rows sample_corrosion rows3"
proof -
  have k: "ep_container_id e = k" if "rows3 w k = Some e" for w k e
    using that by (auto simp: rows3_def split: prod.splits if_splits)
  have q: "\<exists>es. parse_value_rows sample_corrosion (lines3 host w) = map endpoint_values es \<and> distinct (map ep_container_id es) \<and>
      (\<forall>e. e \<in> set es \<longleftrightarrow> rows3 w (ep_container_id e) = Some e \<and> ep_host_mgmt_ip e = host)" for host w
  proof -
    obtain a b c where w: "w = (a, b, c)" by (cases w) auto
    show ?thesis unfolding w parse_lines3
      by (intro exI conjI, rule refl) (auto simp: rows3_def split: if_splits)
  qed
  have h: "cor_http sample_corrosion (cor_base_url sample_corrosion @ ''/v1/queries'')
        (JArray [JString SNAPSHOT_SQL, JArray [JString host]]) w = (Inr (reply3 (lines3 host w)), w)" for host w
    by (simp add: sample_corrosion_def)
  show ?thesis unfolding serves_rows_def h using k q by (auto simp: reply3_def)
qed

lemma statement_json_inj: "statement_json s = statement_json t \<longleftrightarrow> s = t"
  by (cases s; cases t) (auto simp: statement_json_def)

lemma sample_commits: "commits sample_corrosion rows3 sample_exec"
proof -
  have "rows3 (False, b, True) = fold sample_exec statements3 (rows3 (a, b, c))" for a b c
    using sample_sql
    by (auto simp: statements3_def sql_meaning_def rows3_def fun_eq_iff split: if_splits)
  moreover have "map statement_json stmts = map statement_json statements3 \<Longrightarrow> stmts = statements3" for stmts
    using inj_map_eq_map [of statement_json] statement_json_inj by (auto simp: inj_def)
  ultimately show ?thesis
    by (auto simp: commits_def sample_corrosion_def split: if_splits prod.splits)
qed

lemma table_podman_keeps: "keeps_rows table_podman rows3"
  by (simp add: keeps_rows_def table_podman_def)

lemma table_list: "containers_list table_podman w =
   (Inr [\<lparr>co_id = ''c1'', co_names = [''web''], co_image = ''nginx'', co_state = ''running'', co_network_settings = None\<rparr>], w)"
  by (simp add: containers_list_def get_json_def podman_send_def read_json_def body_bytes_def io_bind_def
      io_simps table_podman_def reply3_def)

lemma table_inspect: "inspect_container table_podman cid w =
   (Inr \<lparr>ci_id = ''c1'', ci_name = ''web'',
         ci_network_settings = Some [(''coolify-default-mesh'', \<lparr>ne_ip_address = ''10.210.0.2''\<rparr>)],
         ci_state = Some \<lparr>st_status = ''running'', st_health = None\<rparr>\<rparr>, w)"
  by (simp add: inspect_container_def get_json_def podman_send_def read_json_def body_bytes_def io_bind_def
      io_simps table_podman_def reply3_def)

lemma table_desired: "desired_endpoints table_podman (\<lambda>s. s) sample_config w = (Inr [(''c1'', sample_endpoint)], w)"
  by (simp add: desired_endpoints_def table_list table_inspect io_bind_def io_simps record_networks_def network_to_ns_def
      sample_config_def hm_of_list_def hm_insert_def hm_remove_def endpoint_of_def sample_endpoint_def trim_start_matches_def)

lemma table_snapshot:
  "snapshot_for_host sample_corrosion ''100.64.0.5'' (True, True, False) = (Inr [(''c9'', old_row)], True, True, False)"
proof -
  have "run_query sample_corrosion SNAPSHOT_SQL [JString ''100.64.0.5''] (True, True, False) =
      (Inr (lines3 ''100.64.0.5'' (True, True, False)), True, True, False)"
    by (simp add: run_query_def io_bind_def io_simps sample_corrosion_def reply3_def)
  then show ?thesis
    using parse_rows_endpoints [OF parse_lines3, of "''100.64.0.5''" True True False]
    by (simp add: snapshot_for_host_def io_bind_def io_simps hm_of_list_def hm_insert_def hm_remove_def)
qed

lemma table_transaction:
  "transaction sample_corrosion statements3 (True, True, False) = (Inr (), False, True, True)"
proof -
  have "statements3 \<noteq> []" by (simp add: statements3_def)
  then show ?thesis by (simp add: transaction_def io_bind_def io_simps sample_corrosion_def reply3_def)
qed

lemma table_reconcile:
  "\<exists>n st'. reconcile_once table_podman sample_corrosion (\<lambda>s. s) (\<lambda>_. 0) sample_config (\<lambda>_ e. (True, e))
     \<lparr>sy_snapshot = [], sy_resync = True, sy_bus = ()\<rparr> (True, True, False) = (Inr n, st', False, True, True)"
proof -
  let ?d = "[(''c1'', sample_endpoint)]" and ?c = "[(''c9'', old_row)]"
  have e: "reconcile_endpoints table_podman sample_corrosion (\<lambda>s. s) (\<lambda>_. 0) sample_config (True, True, False) =
      (Inr 2, False, True, True)"
  proof -
    have d: "diff ?d ?c = [Upsert sample_endpoint, Delete ''c9'']" by (simp add: diff_def map_diff_def)
    then have "build_statements 0 (diff ?d ?c) = statements3"
      by (simp add: build_statements_def delta_statement_def statements3_def)
    moreover have "cc_host_mgmt_ip sample_config = ''100.64.0.5''" by (simp add: sample_config_def)
    ultimately show ?thesis
      using table_desired table_snapshot table_transaction d
      by (simp add: reconcile_endpoints_def io_bind_def io_simps)
  qed
  obtain all where "desired_container_statuses table_podman (\<lambda>s. s) (True, True, False) = (Inr all, True, True, False)"
    by (simp add: desired_container_statuses_def table_list table_inspect io_bind_def io_simps)
  with e show ?thesis by (simp add: reconcile_once_def io_simps split: prod.splits)
qed

text \<open>The stale row goes, the row of the other host stays, the row of the container comes.\<close>

theorem reconcile_converges_table_witness:
  "\<exists>desired w2. desired_endpoints table_podman (\<lambda>s. s) sample_config w2 = (Inr desired, w2) \<and>
     host_rows ''100.64.0.5'' (rows3 (False, True, True)) = hm_get desired \<and>
     rows3 (False, True, True) ''c2'' = rows3 (True, True, False) ''c2'' \<and> rows3 (True, True, False) ''c2'' = Some other_row"
proof -
  obtain n st' where r: "reconcile_once table_podman sample_corrosion (\<lambda>s. s) (\<lambda>_. 0) sample_config (\<lambda>_ e. (True, e))
     \<lparr>sy_snapshot = [], sy_resync = True, sy_bus = ()\<rparr> (True, True, False) = (Inr n, st', False, True, True)"
    using table_reconcile by blast
  have o: "rows3 (True, True, False) ''c2'' = Some other_row" by (simp add: rows3_def)
  have "host_rows ''100.64.0.5'' (rows3 (True, True, False)) ''c2'' = None" by (simp add: host_rows_def o)
  moreover have "cc_host_mgmt_ip sample_config = ''100.64.0.5''" by (simp add: sample_config_def)
  ultimately show ?thesis
    using reconcile_converges_table [OF sample_serves sample_commits sample_sql table_podman_keeps r] o
    by (auto simp: table_desired)
qed

end
