(* ===== verification/CooldDns.thy ===== *)
theory CooldDns
  imports CooldConfig CooldCorrosion
begin

text \<open>
  \<open>coold/src/dns\<close>: the resolver of the mesh zone and the loop that binds it to the gateways. Names are
  those of the hickory crates, a parameter (\<open>dns_lib\<close>); so are the upstream resolver and the server
  that is bound. A message is what its header and answer section say.
\<close>

section \<open>Messages\<close>

record 'n dns_lib =
  dl_from_utf8 :: "string \<Rightarrow> 'n result"
  dl_set_fqdn :: "'n \<Rightarrow> 'n"
  dl_lower :: "'n \<Rightarrow> 'n"
  dl_zone_of :: "'n \<Rightarrow> 'n \<Rightarrow> bool"
  dl_num_labels :: "'n \<Rightarrow> nat"
  dl_labels :: "'n \<Rightarrow> string list"

datatype op_code = OpQuery | OpOther nat

datatype message_type = MsgQuery | MsgResponse

datatype record_type = TypeA | TypeOther nat

datatype response_code = NoError | ServFail | NXDomain | Refused

record 'n dns_request =
  dq_op_code :: op_code
  dq_message_type :: message_type
  dq_name :: 'n
  dq_type :: record_type

text \<open>An answer record: one of ours, or one the upstream gave.\<close>

datatype ('n, 'r) dns_record = ARecord 'n u32 ipv4 | Forwarded 'r

record ('n, 'r) dns_reply =
  dr_code :: response_code
  dr_authoritative :: bool
  dr_answers :: "('n, 'r) dns_record list"

definition POSITIVE_TTL :: u32 where
  "POSITIVE_TTL = 5"

text \<open>The answers start from hickory's response header for the request, which is not authoritative.\<close>

definition send_code :: "response_code \<Rightarrow> ('n, 'r) dns_reply" where
  "send_code c = \<lparr>dr_code = c, dr_authoritative = False, dr_answers = []\<rparr>"

definition send_empty :: "('n, 'r) dns_reply" where
  "send_empty = \<lparr>dr_code = NoError, dr_authoritative = True, dr_answers = []\<rparr>"

section \<open>Resolver\<close>

text \<open>\<open>EndpointLookup\<close> and the backend over Corrosion.\<close>

type_synonym 'w endpoint_lookup = "string \<Rightarrow> string \<Rightarrow> ('w, ip_addr list) io"

definition corrosion_lookup :: "'w corrosion \<Rightarrow> 'w endpoint_lookup" where
  "corrosion_lookup C container ns =
     io_bind (query_ips_by_name C container ns) (\<lambda>ips. io_return (List.map_filter parse_ip ips))"

definition resolver_zone :: "'n dns_lib \<Rightarrow> string \<Rightarrow> 'n result" where
  "resolver_zone L zone =
     and_then (dl_from_utf8 L zone) (\<lambda>fqdn. Inr (dl_lower L (dl_set_fqdn L fqdn)))"

definition container_and_namespace ::
  "'n dns_lib \<Rightarrow> (string \<Rightarrow> string) \<Rightarrow> 'n \<Rightarrow> 'n \<Rightarrow> (string \<times> string) option" where
  "container_and_namespace L lower zone q =
     (if \<not> dl_zone_of L zone q then None
      else if dl_num_labels L q - dl_num_labels L zone < 2 then None
      else (case dl_labels L q of
        a # b # _ \<Rightarrow>
          (let container = lower (from_utf8_lossy a); ns = lower (from_utf8_lossy b) in
           if container = [] \<or> ns = [] then None else Some (container, ns))
      | _ \<Rightarrow> None))"

definition a_record :: "'n \<Rightarrow> ip_addr \<Rightarrow> ('n, 'r) dns_record option" where
  "a_record name ip = (case ip of V4 v \<Rightarrow> Some (ARecord name POSITIVE_TTL v) | V6 _ \<Rightarrow> None)"

definition answer_internal ::
  "'w endpoint_lookup \<Rightarrow> 'n dns_request \<Rightarrow> string \<Rightarrow> string \<Rightarrow> 'w \<Rightarrow> ('n, 'r) dns_reply \<times> 'w" where
  "answer_internal lookup rq container ns w =
     (case lookup container ns w of
        (Inl e, w') \<Rightarrow> (send_code ServFail, w')
      | (Inr ips, w') \<Rightarrow>
          (if dq_type rq \<noteq> TypeA then send_empty
           else if ips = [] then send_code NXDomain
           else
             (let records = List.map_filter (a_record (dq_name rq)) ips in
              if records = [] then send_empty
              else \<lparr>dr_code = NoError, dr_authoritative = True, dr_answers = records\<rparr>), w'))"

definition answer_forwarded ::
  "('n \<Rightarrow> record_type \<Rightarrow> ('w, 'r list) io) \<Rightarrow> 'n dns_request \<Rightarrow> 'w \<Rightarrow> ('n, 'r) dns_reply \<times> 'w" where
  "answer_forwarded upstream rq w =
     (case upstream (dq_name rq) (dq_type rq) w of
        (Inl e, w') \<Rightarrow> (send_code ServFail, w')
      | (Inr rs, w') \<Rightarrow> (\<lparr>dr_code = NoError, dr_authoritative = False, dr_answers = map Forwarded rs\<rparr>, w'))"

definition handle_request ::
  "'n dns_lib \<Rightarrow> (string \<Rightarrow> string) \<Rightarrow> 'w endpoint_lookup \<Rightarrow> ('n \<Rightarrow> record_type \<Rightarrow> ('w, 'r list) io) \<Rightarrow>
   'n \<Rightarrow> 'n dns_request \<Rightarrow> 'w \<Rightarrow> ('n, 'r) dns_reply \<times> 'w" where
  "handle_request L lower lookup upstream zone rq w =
     (if dq_op_code rq \<noteq> OpQuery \<or> dq_message_type rq \<noteq> MsgQuery then (send_code Refused, w)
      else
        (let q = dl_lower L (dq_name rq) in
         if dl_zone_of L zone q then
           (case container_and_namespace L lower zone q of
              Some (container, ns) \<Rightarrow> answer_internal lookup rq container ns w
            | None \<Rightarrow> (send_code NXDomain, w))
         else answer_forwarded upstream rq w))"

section \<open>Binding\<close>

datatype io_kind = AddrNotAvailable | AddrInUse | NetworkUnreachable | OtherKind | UnlistedKind

text \<open>An error with the kinds of the I/O errors in its chain of causes.\<close>

record serve_error =
  sv_kinds :: "io_kind list"
  sv_message :: string

definition is_retryable_io :: "serve_error \<Rightarrow> bool" where
  "is_retryable_io e =
     list_ex (\<lambda>k. k \<in> {AddrNotAvailable, AddrInUse, NetworkUnreachable, OtherKind}) (sv_kinds e)"

definition DNS_BACKOFF_START :: nat where
  "DNS_BACKOFF_START = 1"

definition DNS_BACKOFF_MAX :: nat where
  "DNS_BACKOFF_MAX = 30"

text \<open>
  \<open>run_for_gateway\<close> against the outcomes of its attempts to bind and serve: the seconds it slept and,
  unless it is still retrying, its result.
\<close>

fun gateway_loop :: "string \<Rightarrow> nat \<Rightarrow> (serve_error + unit) list \<Rightarrow> nat list \<times> unit result option" where
  "gateway_loop what backoff [] = ([], None)"
| "gateway_loop what backoff (Inr _ # rs) = ([], Some (Inr ()))"
| "gateway_loop what backoff (Inl e # rs) =
     (if is_retryable_io e then
        (case gateway_loop what (min (backoff * 2) DNS_BACKOFF_MAX) rs of (sl, r) \<Rightarrow> (backoff # sl, r))
      else ([], Some (Inl (what @ '': '' @ sv_message e))))"

text \<open>The resolver is rebuilt before every attempt; the zone does not change, so a zone that does not
  parse ends the first turn.\<close>

definition run_for_gateway ::
  "'n dns_lib \<Rightarrow> string \<Rightarrow> string \<Rightarrow> string \<Rightarrow> (serve_error + unit) list \<Rightarrow> nat list \<times> unit result option" where
  "run_for_gateway L ns addr zone attempts =
     (case resolver_zone L zone of
        Inl e \<Rightarrow> ([], Some (Inl (''build CoolifyResolver: '' @ e)))
      | Inr _ \<Rightarrow> gateway_loop (''dns bind/serve on '' @ addr @ '' (namespace '' @ ns @ '')'') DNS_BACKOFF_START attempts)"

text \<open>The gateways that are bound; with none of them the task waits forever.\<close>

definition dns_gateways :: "coold_config \<Rightarrow> (string \<times> ip_addr) list" where
  "dns_gateways cfg =
     map (\<lambda>n. (nc_name n, nc_gateway_ip n))
       (filter (\<lambda>n. \<not> is_unspecified (nc_gateway_ip n)) (cc_namespaces cfg))"

text \<open>The handles are awaited in order: the first failure in that order is the task's.\<close>

datatype gateway_end = GwDone | GwFailed string | GwPanicked string

fun await_gateways :: "gateway_end list \<Rightarrow> unit result" where
  "await_gateways [] = Inr ()"
| "await_gateways (GwDone # hs) = await_gateways hs"
| "await_gateways (GwFailed e # hs) = Inl e"
| "await_gateways (GwPanicked e # hs) = Inl (''dns bind task panicked: '' @ e)"

section \<open>Properties\<close>

text \<open>What is looked up where: a query inside the zone is answered without the upstream resolver,
  so the names of the mesh are not leaked, and a query outside of it without the replicated table.\<close>

theorem zone_decides_source:
  "if dl_zone_of L zone (dl_lower L (dq_name rq))
   then handle_request L lower lookup upstream zone rq w = handle_request L lower lookup upstream' zone rq w
   else handle_request L lower lookup upstream zone rq w = handle_request L lower lookup' upstream zone rq w"
  by (auto simp: handle_request_def Let_def split: option.splits)

lemma a_records:
  "List.map_filter (a_record n) ips = map (ARecord n POSITIVE_TTL) (List.map_filter (\<lambda>ip. case ip of V4 v \<Rightarrow> Some v | V6 _ \<Rightarrow> None) ips)"
  by (induction ips) (auto simp: map_filter_simps a_record_def split: ip_addr.splits)

text \<open>An address query for a container of the zone gets exactly the IPv4 addresses the lookup
  gave, with the fixed time to live and as an authoritative answer; an unknown container gets
  NXDOMAIN, a failed lookup SERVFAIL, another record type an empty answer.\<close>

theorem in_zone_answer:
  assumes "dq_op_code rq = OpQuery" and "dq_message_type rq = MsgQuery"
    and "container_and_namespace L lower zone (dl_lower L (dq_name rq)) = Some (c, ns)"
    and "lookup c ns w = (r, w')"
  shows "handle_request L lower lookup upstream zone rq w =
     ((case r of
         Inl _ \<Rightarrow> send_code ServFail
       | Inr ips \<Rightarrow>
           if dq_type rq = TypeA \<and> ips = [] then send_code NXDomain
           else \<lparr>dr_code = NoError, dr_authoritative = True,
                 dr_answers = (if dq_type rq = TypeA
                   then map (ARecord (dq_name rq) POSITIVE_TTL)
                          (List.map_filter (\<lambda>ip. case ip of V4 v \<Rightarrow> Some v | V6 _ \<Rightarrow> None) ips)
                   else [])\<rparr>), w')"
proof -
  have z: "dl_zone_of L zone (dl_lower L (dq_name rq))"
    using assms(3) by (auto simp: container_and_namespace_def split: if_splits)
  show ?thesis
    using assms z
    by (simp add: handle_request_def answer_internal_def Let_def a_records send_empty_def split: sum.splits)
qed

text \<open>Names as lists of labels, for the witnesses.\<close>

definition sample_dns :: "string list dns_lib" where
  "sample_dns =
     \<lparr>dl_from_utf8 = (\<lambda>s. Inr (split_on (CHR ''.'') s)), dl_set_fqdn = (\<lambda>n. n), dl_lower = map to_ascii_lowercase,
      dl_zone_of = (\<lambda>z n. drop (length n - length z) n = z), dl_num_labels = length, dl_labels = (\<lambda>n. n)\<rparr>"

definition sample_rq :: "string list dns_request" where
  "sample_rq = \<lparr>dq_op_code = OpQuery, dq_message_type = MsgQuery, dq_name = [''web'', ''default'', ''int''], dq_type = TypeA\<rparr>"

lemma sample_container:
  "container_and_namespace sample_dns to_ascii_lowercase [''int''] (dl_lower sample_dns (dq_name sample_rq)) =
     Some (''web'', ''default'')"
  by code_simp

theorem in_zone_answer_witness:
  "handle_request sample_dns to_ascii_lowercase (\<lambda>_ _ w. (Inr [V4 7, V6 []], w)) (\<lambda>_ _ w. (Inr [0::nat], w)) [''int'']
     sample_rq () =
   (\<lparr>dr_code = NoError, dr_authoritative = True, dr_answers = [ARecord [''web'', ''default'', ''int''] POSITIVE_TTL 7]\<rparr>, ())"
  using in_zone_answer [OF _ _ sample_container, of "\<lambda>_ _ w. (Inr [V4 7, V6 []], w)" "()" "Inr [V4 7, V6 []]" "()"
      "\<lambda>_ _ w. (Inr [0::nat], w)"]
  by (simp add: sample_rq_def map_filter_simps)

text \<open>Only the two leftmost labels are read, so a name with further labels between them and the
  zone, which is not of the form container, namespace, zone, still resolves as that container.\<close>

theorem extra_labels_ignored:
  assumes "dl_zone_of L zone q" and "dl_num_labels L zone + 2 < dl_num_labels L q"
    and "dl_labels L q = a # b # c # rest" and "lower (from_utf8_lossy a) \<noteq> []" and "lower (from_utf8_lossy b) \<noteq> []"
  shows "container_and_namespace L lower zone q = Some (lower (from_utf8_lossy a), lower (from_utf8_lossy b))"
  using assms by (simp add: container_and_namespace_def Let_def)

lemma sample_lossy: "from_utf8_lossy ''web'' = ''web''" "from_utf8_lossy ''default'' = ''default''"
  by code_simp+

theorem extra_labels_ignored_witness:
  "container_and_namespace sample_dns (\<lambda>s. s) [''int''] [''web'', ''default'', ''other'', ''int''] =
     Some (''web'', ''default'')"
  using extra_labels_ignored [of sample_dns "[''int'']" "[''web'', ''default'', ''other'', ''int'']"
      "''web''" "''default''" "''other''" "[''int'']" "\<lambda>s. s"]
  by (simp add: sample_dns_def sample_lossy)

text \<open>The sleeps of the loop double up to the bound.\<close>

lemma gateway_sleeps:
  assumes "list_all (\<lambda>r. case r of Inl e \<Rightarrow> is_retryable_io e | Inr _ \<Rightarrow> False) rs" and "b \<le> DNS_BACKOFF_MAX"
  shows "gateway_loop what b (rs @ rs') =
     (case gateway_loop what (min (b * 2 ^ length rs) DNS_BACKOFF_MAX) rs' of (sl, r) \<Rightarrow>
        (map (\<lambda>i. min (b * 2 ^ i) DNS_BACKOFF_MAX) [0..<length rs] @ sl, r))"
  using assms
proof (induction rs arbitrary: b)
  case Nil
  then show ?case by (simp add: min_def split: prod.splits)
next
  case (Cons r rs)
  then obtain e where e: "r = Inl e" "is_retryable_io e" by (auto split: sum.splits)
  have m: "min (min (b * 2) DNS_BACKOFF_MAX * 2 ^ i) DNS_BACKOFF_MAX = min (b * 2 ^ Suc i) DNS_BACKOFF_MAX" for i
  proof (cases "b * 2 \<le> DNS_BACKOFF_MAX")
    case True
    then show ?thesis by (simp add: mult.assoc)
  next
    case False
    have "DNS_BACKOFF_MAX * 1 \<le> DNS_BACKOFF_MAX * 2 ^ i" by (intro mult_le_mono) simp_all
    moreover have "DNS_BACKOFF_MAX \<le> b * 2 * 2 ^ i"
      using False mult_le_mono [of DNS_BACKOFF_MAX "b * 2" 1 "2 ^ i"] by simp
    moreover have "min (b * 2) DNS_BACKOFF_MAX = DNS_BACKOFF_MAX" using False by simp
    ultimately show ?thesis by (simp only: min_absorb2 power_Suc mult.assoc mult_1_right)
  qed
  have up: "[0..<length (r # rs)] = 0 # map Suc [0..<length rs]" by (simp add: upt_conv_Cons map_Suc_upt del: upt_Suc)
  have "min b DNS_BACKOFF_MAX = b" using Cons.prems(2) by simp
  then show ?case
    using Cons.IH [of "min (b * 2) DNS_BACKOFF_MAX"] Cons.prems e up
    by (simp add: m comp_def split: prod.splits del: upt_Suc)
qed

text \<open>While binding fails for a transient reason the loop never gives up: it waits 1, 2, 4, 8, 16
  and then always 30 seconds, and the next attempt's outcome decides as if it were the first.\<close>

theorem bind_retries_bounded:
  assumes "list_all (\<lambda>r. case r of Inl e \<Rightarrow> is_retryable_io e | Inr _ \<Rightarrow> False) rs"
    and "resolver_zone L zone = Inr z"
  shows "run_for_gateway L ns addr zone rs = (map (\<lambda>i. min (2 ^ i) 30) [0..<length rs], None) \<and>
     run_for_gateway L ns addr zone (rs @ [Inr ()]) = (map (\<lambda>i. min (2 ^ i) 30) [0..<length rs], Some (Inr ()))"
  using gateway_sleeps [OF assms(1), of DNS_BACKOFF_START _ "[]"]
    gateway_sleeps [OF assms(1), of DNS_BACKOFF_START _ "[Inr ()]"] assms(2)
  by (simp add: run_for_gateway_def DNS_BACKOFF_START_def DNS_BACKOFF_MAX_def)

theorem bind_retries_bounded_witness:
  "run_for_gateway sample_dns ''default'' ''10.210.0.1:53'' ''int''
     (replicate 7 (Inl \<lparr>sv_kinds = [AddrNotAvailable], sv_message = []\<rparr>)) =
     (map (\<lambda>i. min (2 ^ i) 30) [0..<7], None) \<and>
   run_for_gateway sample_dns ''default'' ''10.210.0.1:53'' ''int''
     (replicate 7 (Inl \<lparr>sv_kinds = [AddrNotAvailable], sv_message = []\<rparr>) @ [Inr ()]) =
     (map (\<lambda>i. min (2 ^ i) 30) [0..<7], Some (Inr ()))"
  using bind_retries_bounded [of "replicate 7 (Inl \<lparr>sv_kinds = [AddrNotAvailable], sv_message = []\<rparr>)"
      sample_dns "''int''" "map to_ascii_lowercase (split_on (CHR ''.'') ''int'')" "''default''" "''10.210.0.1:53''"]
  by (simp add: is_retryable_io_def list_all_length resolver_zone_def sample_dns_def del: upt_Suc)

end
