(* ===== verification/CooldInfra.thy ===== *)
theory CooldInfra
  imports CooldConfig HostFiles
begin

text \<open>
  \<open>coold/src/mesh_dns_anchor.rs\<close>, \<open>coold/src/mesh_dns_resolver.rs\<close> and the tick of
  \<open>coold/src/host_infra.rs\<close>: for every namespace with a gateway, the container that keeps its bridge up
  and the route of the host's resolver. The programs \<open>podman\<close> and \<open>resolvectl\<close> are the outside of the
  host. A failure for one namespace is logged and the loop goes on.
\<close>

section \<open>Anchors\<close>

definition MESH_DNS_ANCHOR_IMAGE :: string where
  "MESH_DNS_ANCHOR_IMAGE = ''docker.io/library/alpine:3.20''"

definition reconcilable_namespaces :: "namespace_config list \<Rightarrow> namespace_config list" where
  "reconcilable_namespaces ns = filter (\<lambda>n. \<not> is_unspecified (nc_gateway_ip n)) ns"

definition anchor_container_name :: "string \<Rightarrow> string" where
  "anchor_container_name namespace = ''coolify-mesh-dns-anchor-'' @ namespace"

definition anchor_inspect_args :: "string \<Rightarrow> string list" where
  "anchor_inspect_args name = [''inspect'', ''-f'', ''{{.State.Running}}'', name]"

definition podman_run_args :: "namespace_config \<Rightarrow> string list" where
  "podman_run_args n =
     [''run'', ''-d'', ''--replace'', ''--name'', anchor_container_name (nc_name n), ''--network'', nc_network n,
      ''--label'', ''io.coolify.managed=true'', ''--label'', ''io.coolify.role=mesh-dns-anchor'',
      ''--label'', ''io.coolify.namespace='' @ nc_name n, MESH_DNS_ANCHOR_IMAGE, ''sleep'', ''infinity'']"

definition anchor_is_running :: "'k host_ops \<Rightarrow> namespace_config \<Rightarrow> ('k, bool) hio" where
  "anchor_is_running H n =
     (let name = anchor_container_name (nc_name n) in
      io_bind (io_context (''inspect mesh DNS anchor container '' @ name)
                 (op_command H ''podman'' (anchor_inspect_args name))) (\<lambda>output.
      if \<not> ou_success output then io_return False
      else io_return (trim (from_utf8_lossy (ou_stdout output)) = ''true'')))"

definition start_anchor :: "'k host_ops \<Rightarrow> namespace_config \<Rightarrow> ('k, unit) hio" where
  "start_anchor H n =
     (let name = anchor_container_name (nc_name n) in
      io_bind (io_context (''start mesh DNS anchor container '' @ name)
                 (op_command H ''podman'' (podman_run_args n))) (\<lambda>output.
      if \<not> ou_success output then
        io_fail (''podman run failed for '' @ name @ '': '' @ trim (from_utf8_lossy (ou_stderr output)))
      else io_return ()))"

definition anchor_reconcile_one :: "'k host_ops \<Rightarrow> namespace_config \<Rightarrow> 'k host \<Rightarrow> 'k host" where
  "anchor_reconcile_one H n w =
     (case anchor_is_running H n w of
        (Inr True, w1) \<Rightarrow> w1
      | (Inr False, w1) \<Rightarrow> snd (start_anchor H n w1)
      | (Inl e, w1) \<Rightarrow> w1)"

definition anchor_reconcile :: "'k host_ops \<Rightarrow> coold_config \<Rightarrow> 'k host \<Rightarrow> 'k host" where
  "anchor_reconcile H cfg w = fold (anchor_reconcile_one H) (reconcilable_namespaces (cc_namespaces cfg)) w"

section \<open>Resolver routes\<close>

definition podman_network_interface_args :: "namespace_config \<Rightarrow> string list" where
  "podman_network_interface_args n =
     [''network'', ''inspect'', nc_network n, ''--format'', ''{{.NetworkInterface}}'']"

definition podman_network_interface :: "'k host_ops \<Rightarrow> namespace_config \<Rightarrow> ('k, string) hio" where
  "podman_network_interface H n =
     io_bind (io_context (''inspect podman network '' @ nc_network n)
                (op_command H ''podman'' (podman_network_interface_args n))) (\<lambda>output.
     if \<not> ou_success output then
       io_fail (''podman network inspect failed for '' @ nc_network n @ '': '' @ trim (from_utf8_lossy (ou_stderr output)))
     else io_return (trim (from_utf8_lossy (ou_stdout output))))"

definition resolvectl_reconcile_args :: "string \<Rightarrow> string \<Rightarrow> string \<Rightarrow> string list list" where
  "resolvectl_reconcile_args iface gateway zone =
     [[''dns'', iface, gateway], [''domain'', iface, ''~'' @ zone], [''default-route'', iface, ''false'']]"

definition run_resolvectl :: "'k host_ops \<Rightarrow> string list \<Rightarrow> ('k, unit) hio" where
  "run_resolvectl H args =
     io_bind (io_context (''run resolvectl '' @ join '' '' args) (op_command H ''resolvectl'' args)) (\<lambda>output.
     if \<not> ou_success output then
       io_fail (''resolvectl '' @ join '' '' args @ '' failed: '' @ trim (from_utf8_lossy (ou_stderr output)))
     else io_return ())"

definition reconcile_namespace :: "'k host_ops \<Rightarrow> string \<Rightarrow> namespace_config \<Rightarrow> ('k, unit) hio" where
  "reconcile_namespace H zone n =
     io_bind (podman_network_interface H n) (\<lambda>iface.
     if iface = [] then io_fail (''podman network '' @ nc_network n @ '' has no network interface'')
     else io_each (run_resolvectl H) (resolvectl_reconcile_args iface (show_ip (nc_gateway_ip n)) zone))"

definition resolver_reconcile :: "'k host_ops \<Rightarrow> coold_config \<Rightarrow> 'k host \<Rightarrow> 'k host" where
  "resolver_reconcile H cfg w =
     fold (\<lambda>n w. snd (reconcile_namespace H (cc_dns_zone cfg) n w)) (reconcilable_namespaces (cc_namespaces cfg)) w"

definition infra_reconcile_once :: "'k host_ops \<Rightarrow> coold_config \<Rightarrow> 'k host \<Rightarrow> 'k host" where
  "infra_reconcile_once H cfg w = resolver_reconcile H cfg (anchor_reconcile H cfg w)"

section \<open>Properties\<close>

text \<open>The commands a tick may run for a configuration.\<close>

definition infra_command :: "coold_config \<Rightarrow> string \<Rightarrow> string list \<Rightarrow> bool" where
  "infra_command cfg prog args =
     (\<exists>n\<in>set (cc_namespaces cfg). \<not> is_unspecified (nc_gateway_ip n) \<and>
        (prog = ''podman'' \<and> args \<in> {anchor_inspect_args (anchor_container_name (nc_name n)), podman_run_args n,
                                      podman_network_interface_args n} \<or>
         prog = ''resolvectl'' \<and> (\<exists>iface. iface \<noteq> [] \<and>
           args \<in> set (resolvectl_reconcile_args iface (show_ip (nc_gateway_ip n)) (cc_dns_zone cfg)))))"

lemma fold_eq: "(\<And>x w. x \<in> set xs \<Longrightarrow> f x w = g x w) \<Longrightarrow> fold f xs w = fold g xs w"
  by (induction xs arbitrary: w) auto

lemma io_each_eq: "(\<And>x. x \<in> set xs \<Longrightarrow> f x = g x) \<Longrightarrow> io_each f xs = io_each g xs"
  by (induction xs) auto

lemma io_bind_cong: "m = m' \<Longrightarrow> (\<And>a. f a = f' a) \<Longrightarrow> io_bind m f = io_bind m' f'"
  by (simp add: fun_eq_iff io_bind_def split: prod.splits sum.splits)

lemma reconcile_namespace_eq:
  assumes "n \<in> set (cc_namespaces cfg)" and "\<not> is_unspecified (nc_gateway_ip n)"
    and "\<And>prog args. infra_command cfg prog args \<Longrightarrow> op_command H prog args = op_command H' prog args"
  shows "reconcile_namespace H (cc_dns_zone cfg) n = reconcile_namespace H' (cc_dns_zone cfg) n"
proof -
  have i: "podman_network_interface H n = podman_network_interface H' n"
    unfolding podman_network_interface_def using assms(1,2) by (subst assms(3)) (auto simp: infra_command_def)
  have r: "io_each (run_resolvectl H) (resolvectl_reconcile_args iface (show_ip (nc_gateway_ip n)) (cc_dns_zone cfg)) =
      io_each (run_resolvectl H') (resolvectl_reconcile_args iface (show_ip (nc_gateway_ip n)) (cc_dns_zone cfg))"
    if "iface \<noteq> []" for iface
  proof (rule io_each_eq)
    fix args assume "args \<in> set (resolvectl_reconcile_args iface (show_ip (nc_gateway_ip n)) (cc_dns_zone cfg))"
    then have "infra_command cfg ''resolvectl'' args" using that assms(1,2) by (auto simp: infra_command_def)
    then show "run_resolvectl H args = run_resolvectl H' args" by (simp add: run_resolvectl_def assms(3))
  qed
  show ?thesis unfolding reconcile_namespace_def i by (rule io_bind_cong) (simp_all add: r)
qed

lemma anchor_reconcile_one_eq:
  assumes "n \<in> set (cc_namespaces cfg)" and "\<not> is_unspecified (nc_gateway_ip n)"
    and "\<And>prog args. infra_command cfg prog args \<Longrightarrow> op_command H prog args = op_command H' prog args"
  shows "anchor_reconcile_one H n = anchor_reconcile_one H' n"
proof -
  have "op_command H ''podman'' (anchor_inspect_args (anchor_container_name (nc_name n))) =
        op_command H' ''podman'' (anchor_inspect_args (anchor_container_name (nc_name n)))"
    "op_command H ''podman'' (podman_run_args n) = op_command H' ''podman'' (podman_run_args n)"
    using assms(1,2) by (auto intro!: assms(3) simp: infra_command_def)
  then have "anchor_is_running H n = anchor_is_running H' n" "start_anchor H n = start_anchor H' n"
    by (simp_all only: anchor_is_running_def start_anchor_def Let_def)
  then show ?thesis by (intro ext) (simp only: anchor_reconcile_one_def)
qed

text \<open>A tick runs no program but those for the namespaces with a gateway: two hosts whose programs
  agree on these commands behave alike, whatever the other programs would do. Stub namespaces are
  left alone, and nothing is run when there is no other.\<close>

theorem infra_runs_only_own_commands:
  assumes "\<And>prog args. infra_command cfg prog args \<Longrightarrow> op_command H prog args = op_command H' prog args"
  shows "infra_reconcile_once H cfg w = infra_reconcile_once H' cfg w"
proof -
  have "anchor_reconcile H cfg w = anchor_reconcile H' cfg w" for w
    unfolding anchor_reconcile_def
    by (rule fold_eq) (auto simp: reconcilable_namespaces_def dest!: anchor_reconcile_one_eq [OF _ _ assms])
  moreover have "resolver_reconcile H cfg w = resolver_reconcile H' cfg w" for w
    unfolding resolver_reconcile_def
    by (rule fold_eq) (auto simp: reconcilable_namespaces_def dest!: reconcile_namespace_eq [OF _ _ assms])
  ultimately show ?thesis by (simp add: infra_reconcile_once_def)
qed

definition stub_config :: coold_config where
  "stub_config =
     \<lparr>cc_host_mgmt_ip = ''10.0.0.1'', cc_podman_socket = ''/p'', cc_corrosion_url = ''http://c'',
      cc_namespaces = [\<lparr>nc_name = ''default'', nc_network = ''coolify-default-mesh'', nc_gateway_ip = V4 0\<rparr>,
                       \<lparr>nc_name = ''alpha'', nc_network = ''coolify-alpha-mesh'', nc_gateway_ip = V4 0x0ADC0001\<rparr>],
      cc_reconcile_interval = 30000, cc_host_infra_reconcile_interval = 60000, cc_log_level = ''info'',
      cc_dns_zone = ''coolify.internal'', cc_dns_upstream = (V4 0, 53), cc_flux_url = None,
      cc_assignment_url = None, cc_host_jwt_path = ''/j'', cc_grpc_disabled = True, cc_allowed_mount_sources = [],
      cc_flux_tls_pin_path = ''/pin'', cc_strict_endpoint_owner = True\<rparr>"

text \<open>A host on which the anchor of the stub namespace cannot be started.\<close>

definition deny_ops :: "string list list host_ops" where
  "deny_ops = calm_ops\<lparr>op_command := (\<lambda>prog args.
     if prog = ''podman'' \<and> ''coolify-mesh-dns-anchor-default'' \<in> set args then io_fail ''denied'' else op_command calm_ops prog args)\<rparr>"

theorem infra_runs_only_own_commands_witness:
  "infra_reconcile_once deny_ops stub_config empty_host = infra_reconcile_once calm_ops stub_config empty_host"
proof (rule infra_runs_only_own_commands)
  fix prog args
  assume "infra_command stub_config prog args"
  then show "op_command deny_ops prog args = op_command calm_ops prog args"
    by (auto simp: infra_command_def stub_config_def is_unspecified_def anchor_inspect_args_def anchor_container_name_def
        podman_run_args_def podman_network_interface_args_def resolvectl_reconcile_args_def deny_ops_def MESH_DNS_ANCHOR_IMAGE_def)
qed

subsection \<open>Anchors come up\<close>

text \<open>What is used of Podman: an inspection reports the running containers and changes nothing, and a
  start with the arguments above succeeds and leaves the container running beside the others.\<close>

definition podman_anchors :: "'k host_ops \<Rightarrow> ('k host \<Rightarrow> string set) \<Rightarrow> bool" where
  "podman_anchors H running =
     ((\<forall>name w. \<exists>out. op_command H ''podman'' (anchor_inspect_args name) w = (Inr out, w) \<and>
         (ou_success out \<and> trim (from_utf8_lossy (ou_stdout out)) = ''true'' \<longleftrightarrow> name \<in> running w)) \<and>
      (\<forall>n w. \<exists>out w'. op_command H ''podman'' (podman_run_args n) w = (Inr out, w') \<and> ou_success out \<and>
         running w' = insert (anchor_container_name (nc_name n)) (running w)))"

lemma anchor_one:
  assumes "podman_anchors H running"
  shows "running (anchor_reconcile_one H n w) = insert (anchor_container_name (nc_name n)) (running w)"
proof -
  let ?a = "anchor_container_name (nc_name n)"
  obtain out where i: "op_command H ''podman'' (anchor_inspect_args ?a) w = (Inr out, w)"
    "ou_success out \<and> trim (from_utf8_lossy (ou_stdout out)) = ''true'' \<longleftrightarrow> ?a \<in> running w"
    using assms unfolding podman_anchors_def by blast
  have r: "anchor_is_running H n w = (Inr (?a \<in> running w), w)"
    using i by (auto simp: anchor_is_running_def Let_def io_bind_def io_simps)
  obtain out' w' where s: "op_command H ''podman'' (podman_run_args n) w = (Inr out', w')" "ou_success out'"
    "running w' = insert ?a (running w)" using assms unfolding podman_anchors_def by blast
  then have "snd (start_anchor H n w) = w'" by (simp add: start_anchor_def Let_def io_bind_def io_simps)
  with r s(3) show ?thesis by (cases "?a \<in> running w") (auto simp: anchor_reconcile_one_def)
qed

text \<open>After a tick the anchor of every namespace with a gateway runs, and no container that ran
  was lost.\<close>

theorem anchors_running_after_tick:
  assumes "podman_anchors H running"
  shows "running (anchor_reconcile H cfg w) =
     running w \<union> (\<lambda>n. anchor_container_name (nc_name n)) ` set (reconcilable_namespaces (cc_namespaces cfg))"
proof -
  have "running (fold (anchor_reconcile_one H) ns w) = running w \<union> (\<lambda>n. anchor_container_name (nc_name n)) ` set ns" for ns
    by (induction ns arbitrary: w) (auto simp: anchor_one [OF assms])
  then show ?thesis by (simp add: anchor_reconcile_def)
qed

text \<open>A Podman whose running containers are the rest of the host.\<close>

definition anchor_ops :: "string list host_ops" where
  "anchor_ops =
     \<lparr>op_command = (\<lambda>prog args w.
        if hd args = ''inspect'' then
          (Inr \<lparr>ou_success = last args \<in> set (ho_rest w), ou_status = [], ou_stdout = ''true'', ou_stderr = []\<rparr>, w)
        else (Inr \<lparr>ou_success = True, ou_status = [], ou_stdout = [], ou_stderr = []\<rparr>,
              w\<lparr>ho_rest := args ! 4 # ho_rest w\<rparr>)),
      op_fault = (\<lambda>_ _ _. None), op_write_fault = (\<lambda>_ _. None), op_create_mode = 420\<rparr>"

lemma anchor_ops_podman: "podman_anchors anchor_ops (\<lambda>w. set (ho_rest w))"
proof -
  have "trim ''true'' = ''true''" "from_utf8_lossy ''true'' = ''true''" by code_simp+
  then show ?thesis
    by (simp add: podman_anchors_def anchor_ops_def anchor_inspect_args_def podman_run_args_def)
qed

theorem anchors_running_after_tick_witness:
  "set (ho_rest (anchor_reconcile anchor_ops stub_config \<lparr>ho_files = [], ho_rest = [''web'']\<rparr>)) =
     {''web'', ''coolify-mesh-dns-anchor-alpha''}"
  using anchors_running_after_tick [OF anchor_ops_podman, of stub_config "\<lparr>ho_files = [], ho_rest = [''web'']\<rparr>"]
  by (auto simp: stub_config_def reconcilable_namespaces_def is_unspecified_def anchor_container_name_def)

end
