(* ===== verification/CooldFirewall.thy ===== *)
theory CooldFirewall
  imports HostFiles NetAddr CooldCorrosion
begin

text \<open>
  The firewall commands of \<open>coold/src/grpc/handlers.rs\<close>: rules are kept in a state file, rendered
  into snapshots for iptables and nft, and applied with these programs. The programs are the field
  \<open>op_command\<close> of the host's operations. Allow commands that run at the same time are tasks whose
  sections interleave.
\<close>

section \<open>Running programs\<close>

definition run_command :: "'k host_ops \<Rightarrow> string \<Rightarrow> string list \<Rightarrow> ('k, string) hio" where
  "run_command H prog args =
     io_bind (io_context ''run command'' (op_command H prog args)) (\<lambda>out.
     let combined = join [CHR 0x0A]
           (filter (\<lambda>p. p \<noteq> []) [trim (from_utf8_lossy (ou_stdout out)), trim (from_utf8_lossy (ou_stderr out))]) in
     if \<not> ou_success out then
       io_fail (if combined = [] then ''command exited with '' @ ou_status out else combined)
     else io_return combined)"

definition inspect_mesh_network_value :: "'k host_ops \<Rightarrow> string \<Rightarrow> string \<Rightarrow> string \<Rightarrow> ('k, string) hio" where
  "inspect_mesh_network_value H network format value_name =
     io_bind (io_context (''inspect Caddy '' @ value_name)
        (run_command H ''podman'' [''network'', ''inspect'', network, ''--format'', format])) (\<lambda>value.
     if trim value = [] then io_fail (value_name @ '' is empty'') else io_return (trim value))"

definition mesh_network_gateway :: "'k host_ops \<Rightarrow> string \<Rightarrow> ('k, string) hio" where
  "mesh_network_gateway H network =
     inspect_mesh_network_value H network ''{{(index .Subnets 0).Gateway}}'' ''mesh network gateway''"

definition mesh_network_subnet :: "'k host_ops \<Rightarrow> string \<Rightarrow> ('k, string) hio" where
  "mesh_network_subnet H network =
     inspect_mesh_network_value H network ''{{(index .Subnets 0).Subnet}}'' ''mesh network subnet''"

definition container_ip :: "'k host_ops \<Rightarrow> string \<Rightarrow> string \<Rightarrow> ('k, string) hio" where
  \<open>container_ip H container network =
     io_bind (io_context ''inspect Caddy ingress container IP''
        (run_command H ''podman'' [''inspect'', container, ''--format'',
           ''{{(index .NetworkSettings.Networks "'' @ network @ ''").IPAddress}}''])) (\<lambda>value.
     if trim value = [] then io_fail ''Caddy ingress container IP is empty'' else io_return (trim value))\<close>

section \<open>Rules\<close>

record firewall_rule =
  fr_id :: string
  fr_namespace :: string
  fr_src :: string
  fr_dst :: string
  fr_proto :: string
  fr_port :: u32

definition rule_from_proto :: "proto_firewall_rule \<Rightarrow> firewall_rule" where
  "rule_from_proto r =
     \<lparr>fr_id = pf_id r, fr_namespace = pf_namespace r, fr_src = pf_src r, fr_dst = pf_dst r,
      fr_proto = (if pf_proto r = [] then ''tcp'' else pf_proto r), fr_port = pf_port r\<rparr>"

definition rule_to_proto :: "firewall_rule \<Rightarrow> proto_firewall_rule" where
  "rule_to_proto r =
     \<lparr>pf_namespace = fr_namespace r, pf_src = fr_src r, pf_dst = fr_dst r, pf_proto = fr_proto r,
      pf_port = fr_port r, pf_id = fr_id r\<rparr>"

definition validate_firewall_rule :: "firewall_rule \<Rightarrow> unit result" where
  "validate_firewall_rule r =
     (if fr_id r = [] then Inl ''firewall rule id is required''
      else if fr_namespace r = [] \<or> fr_src r = [] \<or> fr_dst r = [] then
        Inl ''firewall rule namespace, src, and dst are required''
      else if fr_proto r \<noteq> ''tcp'' \<and> fr_proto r \<noteq> ''udp'' then Inl (''unsupported firewall protocol: '' @ fr_proto r)
      else if fr_port r = 0 \<or> 65535 < fr_port r then Inl ''firewall port must be between 1 and 65535''
      else Inr ())"

definition cidr :: "string \<Rightarrow> string" where
  "cidr v = (if contains_str v ''/'' then v else v @ ''/32'')"

definition show_port :: "u32 \<Rightarrow> string" where
  "show_port p = show_nat (unat p)"

section \<open>Rendering\<close>

definition TAB :: string where
  "TAB = [CHR 0x09]"

definition NL :: string where
  "NL = [CHR 0x0A]"

definition rule_fields :: "firewall_rule \<Rightarrow> string list" where
  "rule_fields r = [fr_id r, fr_namespace r, fr_src r, fr_dst r, fr_proto r, show_port (fr_port r)]"

definition render_firewall_state :: "firewall_rule list \<Rightarrow> string" where
  "render_firewall_state rs = join NL (map (\<lambda>r. join TAB (rule_fields r)) rs) @ NL"

definition iptables_line :: "firewall_rule \<Rightarrow> string" where
  "iptables_line r =
     ''-A COOLIFY-ALLOW -s '' @ cidr (fr_src r) @ '' -d '' @ cidr (fr_dst r) @ '' -p '' @ fr_proto r @
     '' --dport '' @ show_port (fr_port r) @ '' -m comment --comment coolify-fw:'' @ fr_id r @ '' -j ACCEPT''"

definition render_iptables_snapshot :: "firewall_rule list \<Rightarrow> string" where
  "render_iptables_snapshot rs = join NL ([''*filter''] @ map iptables_line rs @ [''COMMIT'']) @ NL"

definition nft_line :: "firewall_rule \<Rightarrow> string" where
  "nft_line r =
     ''add rule bridge coolify_bridge coolify_allow meta protocol ip ip saddr '' @ fr_src r @ '' ip daddr '' @
     fr_dst r @ '' '' @ fr_proto r @ '' dport '' @ show_port (fr_port r) @ '' accept''"

definition render_nft_snapshot :: "firewall_rule list \<Rightarrow> string" where
  "render_nft_snapshot rs = join NL (map nft_line rs) @ NL"

definition mk_rule :: "string \<Rightarrow> string \<Rightarrow> string \<Rightarrow> string \<Rightarrow> string \<Rightarrow> string \<Rightarrow> firewall_rule option" where
  "mk_rule i ns s d pr po =
     map_option (\<lambda>n. \<lparr>fr_id = i, fr_namespace = ns, fr_src = s, fr_dst = d, fr_proto = pr, fr_port = word_of_nat n\<rparr>)
       (parse_unsigned (2 ^ 32) po)"

text \<open>Six fields, or five in the old format without an id.\<close>

definition parse_firewall_rule_line :: "string \<Rightarrow> firewall_rule option" where
  "parse_firewall_rule_line l =
     (case split_on (CHR 0x09) l of
        [i, ns, s, d, pr, po] \<Rightarrow> mk_rule i ns s d pr po
      | [ns, s, d, pr, po] \<Rightarrow> mk_rule [] ns s d pr po
      | _ \<Rightarrow> None)"

definition firewall_iptables_insert_args :: "firewall_rule \<Rightarrow> string list" where
  "firewall_iptables_insert_args r =
     [''-I'', ''COOLIFY-ALLOW'', ''1'', ''-s'', cidr (fr_src r), ''-d'', cidr (fr_dst r), ''-p'', fr_proto r,
      ''--dport'', show_port (fr_port r), ''-m'', ''comment'', ''--comment'', ''coolify-fw:'' @ fr_id r, ''-j'', ''ACCEPT'']"

definition firewall_nft_add_args :: "firewall_rule \<Rightarrow> string list" where
  "firewall_nft_add_args r =
     [''add'', ''rule'', ''bridge'', ''coolify_bridge'', ''coolify_allow'', ''meta'', ''protocol'', ''ip'', ''ip'', ''saddr'',
      fr_src r, ''ip'', ''daddr'', fr_dst r, fr_proto r, ''dport'', show_port (fr_port r), ''accept'']"

section \<open>Resolution\<close>

record endpoint_owner_check =
  oc_host_mgmt_ip :: string
  oc_strict :: bool

definition dst_owner :: "endpoint_owner_check \<Rightarrow> string option" where
  "dst_owner c = (if oc_strict c then Some (oc_host_mgmt_ip c) else None)"

definition is_ip_or_cidr :: "string \<Rightarrow> bool" where
  "is_ip_or_cidr v = (parse_ipv4 (hd (split_on (CHR ''/'') v)) \<noteq> None)"

definition firewall_endpoint_ip :: "string \<Rightarrow> string \<Rightarrow> string list \<Rightarrow> string option result" where
  "firewall_endpoint_ip v ns ips =
     (case ips of
        [] \<Rightarrow> Inr None
      | [ip] \<Rightarrow> Inr (Some ip)
      | _ \<Rightarrow> Inl (''firewall endpoint '' @ v @ '' in namespace '' @ ns @ '' resolved to multiple IPs''))"

definition resolve_firewall_endpoint ::
  "'k host_ops \<Rightarrow> 'k host corrosion \<Rightarrow> string \<Rightarrow> string \<Rightarrow> string \<Rightarrow> string option \<Rightarrow> ('k, string) hio" where
  "resolve_firewall_endpoint H C v ns network owner =
     (if is_ip_or_cidr v then io_return (trim_end_matches_str ''/32'' v)
      else
        io_bind (io_context (''query Corrosion endpoint '' @ v @ '' in namespace '' @ ns)
          (query_ips_by_name_owned C v ns owner)) (\<lambda>ips.
        io_bind (io_lift (firewall_endpoint_ip v ns ips)) (\<lambda>found.
        case found of
          Some ip \<Rightarrow> io_return ip
        | None \<Rightarrow> io_context (''resolve firewall endpoint '' @ v @ '' on '' @ network) (container_ip H v network))))"

definition resolve_firewall_rule ::
  "'k host_ops \<Rightarrow> 'k host corrosion \<Rightarrow> endpoint_owner_check \<Rightarrow> firewall_rule \<Rightarrow> ('k, firewall_rule) hio" where
  "resolve_firewall_rule H C oc r =
     (let network = ''coolify-'' @ fr_namespace r @ ''-mesh'' in
      io_bind (resolve_firewall_endpoint H C (fr_src r) (fr_namespace r) network None) (\<lambda>s.
      io_bind (resolve_firewall_endpoint H C (fr_dst r) (fr_namespace r) network (dst_owner oc)) (\<lambda>d.
      io_return (r\<lparr>fr_src := s, fr_dst := d\<rparr>))))"

section \<open>Commands\<close>

definition FIREWALL_STATE_PATH :: string where
  "FIREWALL_STATE_PATH = ''/etc/coolify/firewall-rules.tsv''"

definition FIREWALL_ALLOW_RULES_PATH :: string where
  "FIREWALL_ALLOW_RULES_PATH = ''/etc/coolify/allow.rules''"

definition FIREWALL_BRIDGE_ALLOW_RULES_PATH :: string where
  "FIREWALL_BRIDGE_ALLOW_RULES_PATH = ''/etc/coolify/allow.nft''"

definition load_firewall_rules :: "'k host_ops \<Rightarrow> ('k, firewall_rule list) hio" where
  "load_firewall_rules H w =
     (if \<not> fs_exists FIREWALL_STATE_PATH w then (Inr [], w)
      else io_bind (io_context ''read Coolify firewall rules'' (fs_read_to_string H FIREWALL_STATE_PATH)) (\<lambda>content.
        io_return (List.map_filter parse_firewall_rule_line (lines content))) w)"

definition save_firewall_rules :: "'k host_ops \<Rightarrow> firewall_rule list \<Rightarrow> ('k, unit) hio" where
  "save_firewall_rules H rs =
     io_bind (io_context ''create Coolify config directory'' (fs_create_dir_all H ''/etc/coolify'')) (\<lambda>_.
     io_bind (io_context ''write Coolify firewall state''
        (fs_write H FIREWALL_STATE_PATH (render_firewall_state rs))) (\<lambda>_.
     io_bind (io_context ''write Coolify iptables allow snapshot''
        (fs_write H FIREWALL_ALLOW_RULES_PATH (render_iptables_snapshot rs))) (\<lambda>_.
     io_context ''write Coolify bridge allow snapshot''
        (fs_write H FIREWALL_BRIDGE_ALLOW_RULES_PATH (render_nft_snapshot rs)))))"

definition apply_firewall_rule :: "'k host_ops \<Rightarrow> firewall_rule \<Rightarrow> ('k, unit) hio" where
  "apply_firewall_rule H r =
     io_bind (io_context ''apply Coolify iptables allow rule''
        (run_command H ''iptables'' (firewall_iptables_insert_args r))) (\<lambda>_.
     io_bind (io_context ''apply Coolify bridge allow rule''
        (run_command H ''nft'' (firewall_nft_add_args r))) (\<lambda>_.
     io_return ()))"

definition with_rule :: "firewall_rule \<Rightarrow> firewall_rule list \<Rightarrow> firewall_rule list" where
  "with_rule r rs = filter (\<lambda>e. fr_id e \<noteq> fr_id r) rs @ [r]"

definition firewall_allow ::
  "'k host_ops \<Rightarrow> 'k host corrosion \<Rightarrow> endpoint_owner_check \<Rightarrow> firewall_rule \<Rightarrow> ('k, string \<times> string) hio" where
  "firewall_allow H C oc rule =
     io_bind (io_lift (validate_firewall_rule rule)) (\<lambda>_.
     io_bind (resolve_firewall_rule H C oc rule) (\<lambda>normalized.
     io_bind (load_firewall_rules H) (\<lambda>rules.
     io_bind (save_firewall_rules H (with_rule normalized rules)) (\<lambda>_.
     io_bind (apply_firewall_rule H normalized) (\<lambda>_.
     io_return (fr_id normalized, ''Firewall rule applied.''))))))"

definition firewall_reconcile :: "'k host_ops \<Rightarrow> ('k, string) hio" where
  "firewall_reconcile H =
     io_bind (load_firewall_rules H) (\<lambda>rules.
     io_bind (save_firewall_rules H rules) (\<lambda>_.
     io_bind (io_context ''flush Coolify allow iptables chain''
        (run_command H ''iptables'' [''-F'', ''COOLIFY-ALLOW''])) (\<lambda>_.
     io_bind (io_context ''restore Coolify allow iptables snapshot''
        (run_command H ''sh'' [''-c'', ''iptables-restore --noflush < '' @ FIREWALL_ALLOW_RULES_PATH])) (\<lambda>_.
     io_bind (io_context ''flush Coolify bridge allow chain''
        (run_command H ''nft'' [''flush'', ''chain'', ''bridge'', ''coolify_bridge'', ''coolify_allow''])) (\<lambda>_.
     io_bind (io_context ''restore Coolify bridge allow snapshot''
        (run_command H ''nft'' [''-f'', FIREWALL_BRIDGE_ALLOW_RULES_PATH])) (\<lambda>_.
     io_return ''Firewall rules reconciled.''))))))"

definition without_rule :: "string \<Rightarrow> firewall_rule list \<Rightarrow> firewall_rule list" where
  "without_rule i rs = filter (\<lambda>r. fr_id r \<noteq> i) rs"

definition firewall_revoke :: "'k host_ops \<Rightarrow> string \<Rightarrow> ('k, string) hio" where
  "firewall_revoke H i =
     io_bind (load_firewall_rules H) (\<lambda>rules.
     if length (without_rule i rules) = length rules then io_fail (''firewall rule not found: '' @ i)
     else
       io_bind (save_firewall_rules H (without_rule i rules)) (\<lambda>_.
       io_bind (firewall_reconcile H) (\<lambda>_.
       io_return ''Firewall rule removed.'')))"

definition firewall_list :: "'k host_ops \<Rightarrow> string \<Rightarrow> ('k, firewall_rule list) hio" where
  "firewall_list H ns =
     io_bind (load_firewall_rules H) (\<lambda>rules.
     io_return (if ns \<noteq> [] then filter (\<lambda>r. fr_namespace r = ns) rules else rules))"

section \<open>The stored rules\<close>

definition stored_rules :: "'k host \<Rightarrow> firewall_rule list" where
  "stored_rules w =
     (case file_at w FIREWALL_STATE_PATH of
        None \<Rightarrow> []
      | Some f \<Rightarrow> List.map_filter parse_firewall_rule_line (lines (fi_content f)))"

definition clean :: "string \<Rightarrow> bool" where
  "clean s = (CHR 0x09 \<notin> set s \<and> CHR 0x0A \<notin> set s)"

text \<open>A rule the state file can hold: no field has a tab or a line feed.\<close>

definition clean_rule :: "firewall_rule \<Rightarrow> bool" where
  "clean_rule r = list_all clean [fr_id r, fr_namespace r, fr_src r, fr_dst r, fr_proto r]"

lemma set_join: "set (join sep xs) \<subseteq> set sep \<union> \<Union> (set ` set xs)"
  by (induction sep xs rule: join.induct) auto

lemma clean_show_port: "clean (show_port p)"
  by (auto simp: clean_def show_port_def dest: show_nat_digits)

lemma clean_fields: "clean_rule r \<Longrightarrow> f \<in> set (rule_fields r) \<Longrightarrow> clean f"
  by (auto simp: clean_rule_def rule_fields_def clean_show_port)

lemma parse_state_line:
  assumes "clean_rule r"
  shows "parse_firewall_rule_line (join TAB (rule_fields r)) = Some r"
proof -
  have "split_on (CHR 0x09) (join [CHR 0x09] (rule_fields r)) = rule_fields r"
    by (rule split_on_join) (use clean_fields [OF assms] in \<open>auto simp: clean_def rule_fields_def\<close>)
  moreover have "unat (fr_port r) < 2 ^ 32" using unsigned_less [of "fr_port r"] by simp
  ultimately show ?thesis
    by (simp add: parse_firewall_rule_line_def TAB_def rule_fields_def mk_rule_def show_port_def parse_show_nat)
qed

lemma last_state_line: "last (join TAB (rule_fields r)) \<noteq> CHR 0x0D \<and> join TAB (rule_fields r) \<noteq> []"
proof -
  have j: "join TAB (rule_fields r) = join TAB (butlast (rule_fields r)) @ TAB @ show_port (fr_port r)"
    by (simp add: rule_fields_def)
  have "last (show_port (fr_port r)) \<in> set (show_port (fr_port r))" by (simp add: show_port_def)
  moreover have "CHR 0x0D \<notin> set (show_port (fr_port r))" by (simp add: show_port_def show_nat_not_in)
  ultimately have "last (show_port (fr_port r)) \<noteq> CHR 0x0D" by metis
  then show ?thesis unfolding j by (simp add: TAB_def show_port_def)
qed

lemma state_line_no_newline: "clean_rule r \<Longrightarrow> CHR 0x0A \<notin> set (join TAB (rule_fields r))"
  using set_join [of TAB "rule_fields r"] clean_fields [of r] by (fastforce simp: TAB_def clean_def)

lemma parse_state:
  assumes "list_all clean_rule rs"
  shows "List.map_filter parse_firewall_rule_line (lines (render_firewall_state rs)) = rs"
proof (cases "rs = []")
  case True
  then show ?thesis
    by (simp add: render_firewall_state_def lines_def NL_def parse_firewall_rule_line_def map_filter_simps strip_cr_def)
next
  case False
  have "lines (join [CHR 0x0A] (map (\<lambda>r. join TAB (rule_fields r)) rs) @ [CHR 0x0A]) = map (\<lambda>r. join TAB (rule_fields r)) rs"
    by (rule lines_join)
      (use False assms last_state_line state_line_no_newline in \<open>auto simp: list_all_iff\<close>)
  moreover have "List.map_filter parse_firewall_rule_line (map (\<lambda>r. join TAB (rule_fields r)) rs) = rs"
    using assms by (induction rs) (simp_all add: map_filter_simps parse_state_line)
  ultimately show ?thesis by (simp add: render_firewall_state_def NL_def)
qed

lemma split_on_clean:
  "p \<in> set (split_on c s) \<Longrightarrow> x \<notin> set s \<Longrightarrow> x \<notin> set p"
  by (induction s arbitrary: p) (auto split: list.splits if_splits)

lemma lines_no_newline: "l \<in> set (lines s) \<Longrightarrow> CHR 0x0A \<notin> set l"
proof -
  assume "l \<in> set (lines s)"
  then have "\<exists>m\<in>set (split_on (CHR 0x0A) s). l = strip_cr m \<or> l = m"
    using last_in_set [of "split_on (CHR 0x0A) s"]
    by (auto simp: lines_def Let_def split: if_splits dest: in_set_butlastD)
  then obtain m where m: "m \<in> set (split_on (CHR 0x0A) s)" and l: "l = strip_cr m \<or> l = m" by blast
  have "CHR 0x0A \<notin> set m" by (rule split_on_no_sep [OF m])
  then show ?thesis using l by (auto simp: strip_cr_def dest: in_set_butlastD split: if_splits)
qed

lemma parsed_fields:
  "parse_firewall_rule_line l = Some r \<Longrightarrow>
     {fr_id r, fr_namespace r, fr_src r, fr_dst r, fr_proto r} \<subseteq> insert [] (set (split_on (CHR 0x09) l))"
  by (auto simp: parse_firewall_rule_line_def mk_rule_def split: list.splits)

lemma parsed_clean:
  assumes "parse_firewall_rule_line l = Some r" and "CHR 0x0A \<notin> set l"
  shows "clean_rule r"
proof -
  have "clean p" if "p \<in> insert [] (set (split_on (CHR 0x09) l))" for p
    using that assms(2) split_on_no_sep split_on_clean by (auto simp: clean_def)
  then show ?thesis using parsed_fields [OF assms(1)] by (simp add: clean_rule_def)
qed

lemma stored_rules_clean: "list_all clean_rule (stored_rules w)"
proof (cases "file_at w FIREWALL_STATE_PATH")
  case None
  then show ?thesis by (simp add: stored_rules_def)
next
  case (Some f)
  have "clean_rule r" if "l \<in> set (lines (fi_content f))" "parse_firewall_rule_line l = Some r" for l r
    using parsed_clean [OF that(2)] lines_no_newline [OF that(1)] by blast
  then show ?thesis by (auto simp: stored_rules_def Some list_all_iff map_filter_def)
qed

subsection \<open>The store as its users see it\<close>

text \<open>A list that is saved whole and read back whole.\<close>

locale list_store =
  fixes stored :: "'w \<Rightarrow> 'r list"
    and save :: "'r list \<Rightarrow> 'w \<Rightarrow> unit result \<times> 'w"
    and storable :: "'r list \<Rightarrow> bool"
  assumes stored_save: "save rs w = (Inr (), w') \<Longrightarrow> storable rs \<Longrightarrow> stored w' = rs"
begin

lemma resave: "save rs w = (Inr (), w') \<Longrightarrow> save (stored w') w' = (Inr (), w'') \<Longrightarrow> storable rs \<Longrightarrow> stored w'' = rs"
  using stored_save by metis

text \<open>Two users that both read the list before either saves: the second save undoes the first.\<close>

lemma lost_update:
  assumes "save (f (stored w)) w = (Inr (), w1)" and "save (g (stored w)) w1 = (Inr (), w2)"
    and "storable (g (stored w))"
  shows "stored w2 = g (stored w)"
  using stored_save [OF assms(2,3)] .

end

lemma paths_differ [simp]:
  "FIREWALL_STATE_PATH \<noteq> FIREWALL_ALLOW_RULES_PATH" "FIREWALL_STATE_PATH \<noteq> FIREWALL_BRIDGE_ALLOW_RULES_PATH"
  by (simp_all add: FIREWALL_STATE_PATH_def FIREWALL_ALLOW_RULES_PATH_def FIREWALL_BRIDGE_ALLOW_RULES_PATH_def)

lemma save_firewall_rules_Inr:
  assumes "save_firewall_rules H rs w = (Inr (), w')"
  shows "\<exists>m. file_at w' FIREWALL_STATE_PATH = Some \<lparr>fi_content = render_firewall_state rs, fi_mode = m\<rparr>"
  using assms unfolding save_firewall_rules_def io_bind_eq_Inr io_context_eq_Inr
  by (auto dest!: fs_write_Inr)

lemma save_firewall_rules_stored:
  assumes "save_firewall_rules H rs w = (Inr (), w')" and "list_all clean_rule rs"
  shows "stored_rules w' = rs"
  using save_firewall_rules_Inr [OF assms(1)] parse_state [OF assms(2)] by (auto simp: stored_rules_def)

interpretation firewall_store: list_store stored_rules "save_firewall_rules H" "list_all clean_rule" for H
  by unfold_locales (rule save_firewall_rules_stored)

lemma load_firewall_rules_Inr:
  assumes "load_firewall_rules H w = (Inr rs, w')"
  shows "w' = w \<and> rs = stored_rules w"
  using assms
  by (auto simp: load_firewall_rules_def stored_rules_def fs_exists_def fs_read_to_string_def fs_read_def
      io_bind_eq_Inr split: if_splits option.splits)

section \<open>Properties\<close>

text \<open>External programs leave the state file alone.\<close>

definition keeps_state :: "'k host_ops \<Rightarrow> bool" where
  "keeps_state H \<longleftrightarrow>
     (\<forall>prog args w r w'. op_command H prog args w = (r, w') \<longrightarrow>
        file_at w' FIREWALL_STATE_PATH = file_at w FIREWALL_STATE_PATH)"

lemma run_command_state:
  assumes "keeps_state H" and "run_command H prog args w = (r, w')"
  shows "stored_rules w' = stored_rules w"
proof -
  obtain r1 w1 where c: "op_command H prog args w = (r1, w1)" by (cases "op_command H prog args w")
  have "w' = w1"
    using assms(2) c
    by (auto simp: run_command_def io_bind_def io_context_def with_context_def io_fail_def io_return_def Let_def
        split: sum.splits if_splits)
  moreover have "file_at w1 FIREWALL_STATE_PATH = file_at w FIREWALL_STATE_PATH"
    using assms(1) c by (auto simp: keeps_state_def)
  ultimately show ?thesis by (simp add: stored_rules_def)
qed

lemma resolve_firewall_rule_id:
  "resolve_firewall_rule H C oc r w = (Inr n, w') \<Longrightarrow> fr_id n = fr_id r"
  by (auto simp: resolve_firewall_rule_def Let_def io_bind_eq_Inr)

text \<open>An allowed rule is stored: afterwards the state file holds the rules it held, without those of
  the same id, and the resolved rule at the end.\<close>

theorem firewall_allow_stores:
  assumes "firewall_allow H C oc rule w = (Inr (i, msg), w')" and "resolve_firewall_rule H C oc rule w = (Inr n, w1)"
    and "clean_rule n" and "keeps_state H"
  shows "stored_rules w' = with_rule n (stored_rules w1) \<and> i = fr_id rule \<and>
     filter (\<lambda>r. fr_id r = i) (stored_rules w') = [n]"
proof -
  obtain rules w2 w3 where l: "load_firewall_rules H w1 = (Inr rules, w2)"
    and s: "save_firewall_rules H (with_rule n rules) w2 = (Inr (), w3)"
    and a: "apply_firewall_rule H n w3 = (Inr (), w')" and i: "i = fr_id n"
    using assms(1,2) unfolding firewall_allow_def io_bind_eq_Inr by auto
  have r: "w2 = w1" "rules = stored_rules w1" using load_firewall_rules_Inr [OF l] by auto
  have "list_all clean_rule (with_rule n rules)"
    using assms(3) stored_rules_clean [of w1] r by (auto simp: with_rule_def list_all_iff)
  then have "stored_rules w3 = with_rule n rules" using s by (simp add: firewall_store.stored_save)
  moreover have "stored_rules w' = stored_rules w3"
    using a run_command_state [OF assms(4)] unfolding apply_firewall_rule_def io_bind_eq_Inr io_context_eq_Inr
    by auto
  moreover have "fr_id n = fr_id rule" by (rule resolve_firewall_rule_id [OF assms(2)])
  ultimately show ?thesis using r i by (auto simp: with_rule_def filter_empty_iff)
qed

definition sample_rule :: firewall_rule where
  "sample_rule = \<lparr>fr_id = ''r1'', fr_namespace = ''default'', fr_src = ''10.0.0.1'', fr_dst = ''10.0.0.2'',
     fr_proto = ''tcp'', fr_port = 80\<rparr>"

definition no_corrosion :: "'k host corrosion" where
  "no_corrosion = \<lparr>cor_base_url = [], cor_http = (\<lambda>_ _ w. (Inl ''refused'', w)), cor_frame = (\<lambda>_. None),
     cor_pretty = (\<lambda>_. Inr [])\<rparr>"

definition strict_owner :: endpoint_owner_check where
  "strict_owner = \<lparr>oc_host_mgmt_ip = ''100.64.0.5'', oc_strict = True\<rparr>"

lemma sample_ips: "is_ip_or_cidr ''10.0.0.1''" "is_ip_or_cidr ''10.0.0.2''"
  by (simp_all add: is_ip_or_cidr_def parse_ipv4_def whole_def read_ipv4_def read_octet_def read_char_def digits_num_def
      digit_val_def numeral_3_eq_3)

lemma sample_trims:
  "trim_end_matches_str ''/32'' ''10.0.0.1'' = ''10.0.0.1''" "trim_end_matches_str ''/32'' ''10.0.0.2'' = ''10.0.0.2''"
  by (simp_all add: trim_end_matches_str_def strip_any.simps starts_with_def)

lemma sample_resolve: "resolve_firewall_rule H C oc sample_rule w = (Inr sample_rule, w)"
  by (simp add: resolve_firewall_rule_def resolve_firewall_endpoint_def sample_rule_def sample_ips sample_trims)

lemma calm_run: "run_command calm_ops prog args w = (Inr [], w\<lparr>ho_rest := ho_rest w @ [prog # args]\<rparr>)"
  by (simp add: run_command_def io_bind_def io_simps)

lemma calm_keeps_state: "keeps_state calm_ops"
  by (auto simp: keeps_state_def file_at_def)

lemma calm_save: "\<exists>w'. save_firewall_rules calm_ops rs w = (Inr (), w')"
  by (simp add: save_firewall_rules_def fs_create_dir_all_def fs_guard_def fs_write_def fs_write_with_def io_bind_def
      io_simps)

lemma sample_allow: "\<exists>w'. firewall_allow calm_ops no_corrosion strict_owner sample_rule empty_host =
   (Inr (''r1'', ''Firewall rule applied.''), w')"
proof -
  obtain w1 where s: "save_firewall_rules calm_ops (with_rule sample_rule []) empty_host = (Inr (), w1)"
    using calm_save by blast
  have l: "load_firewall_rules calm_ops empty_host = (Inr [], empty_host)"
    by (simp add: load_firewall_rules_def fs_exists_def file_at_def empty_host_def)
  have "validate_firewall_rule sample_rule = Inr ()" by (simp add: validate_firewall_rule_def sample_rule_def)
  then show ?thesis
    using s l
    by (simp add: firewall_allow_def sample_resolve io_simps io_bind_def apply_firewall_rule_def calm_run)
      (simp add: sample_rule_def)
qed

theorem firewall_allow_stores_witness:
  "\<exists>w'. firewall_allow calm_ops no_corrosion strict_owner sample_rule empty_host =
     (Inr (''r1'', ''Firewall rule applied.''), w') \<and> stored_rules w' = with_rule sample_rule (stored_rules empty_host)"
proof -
  obtain w' where w: "firewall_allow calm_ops no_corrosion strict_owner sample_rule empty_host =
     (Inr (''r1'', ''Firewall rule applied.''), w')" using sample_allow by blast
  have "clean_rule sample_rule" by (simp add: clean_rule_def clean_def sample_rule_def)
  from firewall_allow_stores [OF w sample_resolve this calm_keeps_state] w show ?thesis by blast
qed

text \<open>C23: What was saved is read back: a list of rules without tabs and line feeds in their fields
  survives the state file unchanged, also the empty list.\<close>

theorem firewall_state_round_trip:
  assumes "list_all clean_rule rs" and "save_firewall_rules H rs w = (Inr (), w')"
    and "load_firewall_rules H w' = (r, w'')" and "is_ok r"
  shows "r = Inr rs \<and> w'' = w'"
proof -
  obtain rs' where r: "r = Inr rs'" using assms(4) by (auto simp: is_ok_iff)
  have "stored_rules w' = rs" using assms(1,2) by (simp add: firewall_store.stored_save)
  then show ?thesis using load_firewall_rules_Inr [of H w' rs' w''] assms(3) r by simp
qed

definition saved_host :: "string list list host" where
  "saved_host = snd (save_firewall_rules calm_ops [sample_rule] empty_host)"

lemma saved_host_eq: "save_firewall_rules calm_ops [sample_rule] empty_host = (Inr (), saved_host)"
  using calm_save [of "[sample_rule]" empty_host] by (auto simp: saved_host_def)

lemma clean_sample: "clean_rule sample_rule"
  by (simp add: clean_rule_def clean_def sample_rule_def)

lemma saved_stored: "stored_rules saved_host = [sample_rule]"
  using firewall_store.stored_save [OF saved_host_eq] clean_sample by simp

lemma calm_load:
  assumes "file_at w FIREWALL_STATE_PATH = Some f" and "valid_utf8 (fi_content f)"
  shows "load_firewall_rules calm_ops w = (Inr (stored_rules w), w)"
  using assms
  by (simp add: load_firewall_rules_def fs_exists_def fs_read_to_string_def fs_read_def stored_rules_def io_bind_def io_simps)

lemma saved_load: "load_firewall_rules calm_ops saved_host = (Inr [sample_rule], saved_host)"
proof -
  obtain m where f: "file_at saved_host FIREWALL_STATE_PATH =
      Some \<lparr>fi_content = render_firewall_state [sample_rule], fi_mode = m\<rparr>"
    using save_firewall_rules_Inr [OF saved_host_eq] by blast
  have "valid_utf8 (render_firewall_state [sample_rule])"
    by (simp add: render_firewall_state_def sample_rule_def rule_fields_def TAB_def NL_def show_port_def show_nat.simps
        digit_char_eval byte_in_def)
  then show ?thesis using calm_load [OF f] saved_stored by simp
qed

theorem firewall_state_round_trip_witness:
  "fst (load_firewall_rules calm_ops saved_host) = Inr [sample_rule]"
  using firewall_state_round_trip [OF _ saved_host_eq saved_load] clean_sample by (simp add: saved_load)

subsection \<open>Revocation\<close>

lemma firewall_reconcile_Inr:
  assumes "firewall_reconcile H w = (Inr m, w')" and "keeps_state H"
  shows "stored_rules w' = stored_rules w"
proof -
  obtain rules w1 w2 where l: "load_firewall_rules H w = (Inr rules, w1)"
    and s: "save_firewall_rules H rules w1 = (Inr (), w2)"
    and c: "stored_rules w' = stored_rules w2"
    using assms(1) run_command_state [OF assms(2)]
    unfolding firewall_reconcile_def io_bind_eq_Inr io_context_eq_Inr by auto
  have "w1 = w" "rules = stored_rules w" using load_firewall_rules_Inr [OF l] by auto
  moreover from this have "stored_rules w2 = stored_rules w"
    using firewall_store.stored_save [OF s] stored_rules_clean [of w] by simp
  ultimately show ?thesis using c by simp
qed

lemma without_rule_shorter:
  "length (without_rule i rs) = length rs \<longleftrightarrow> i \<notin> fr_id ` set rs"
proof -
  have "length (filter P rs) = length rs \<longleftrightarrow> list_all P rs" for P
  proof (induction rs)
    case (Cons r rs)
    moreover have "length (filter P rs) \<noteq> Suc (length rs)" using length_filter_le [of P rs] by linarith
    ultimately show ?case by auto
  qed simp
  then show ?thesis by (auto simp: without_rule_def list_all_iff)
qed

text \<open>A revocation that succeeds removes exactly the rules with the id from the stored ones, and
  there was one; an id that is not stored changes nothing and is reported.\<close>

theorem firewall_revoke_removes:
  assumes "firewall_revoke H i w = (r, w')" and "keeps_state H" and "load_firewall_rules H w = (Inr rules, w)"
  shows "if i \<in> fr_id ` set rules then (case r of Inr m \<Rightarrow> stored_rules w' = without_rule i rules | Inl e \<Rightarrow> True)
     else r = Inl (''firewall rule not found: '' @ i) \<and> w' = w"
proof (cases "i \<in> fr_id ` set rules")
  case False
  then have "length (without_rule i rules) = length rules" by (simp add: without_rule_shorter)
  then show ?thesis using assms(1,3) False by (simp add: firewall_revoke_def io_bind_def io_fail_def)
next
  case True
  have st: "rules = stored_rules w" using load_firewall_rules_Inr [OF assms(3)] by simp
  have "stored_rules w' = without_rule i rules" if m: "r = Inr m" for m
  proof -
    obtain w1 w2 where s: "save_firewall_rules H (without_rule i rules) w = (Inr (), w1)"
      and c: "firewall_reconcile H w1 = (Inr w2, w')"
      using assms(1,3) True m unfolding firewall_revoke_def io_bind_eq_Inr
      by (auto simp: without_rule_shorter io_bind_eq_Inr split: if_splits)
    have "list_all clean_rule (without_rule i rules)"
      using stored_rules_clean [of w] st by (auto simp: without_rule_def list_all_iff)
    then have "stored_rules w1 = without_rule i rules" using s by (simp add: firewall_store.stored_save)
    then show ?thesis using firewall_reconcile_Inr [OF c assms(2)] by simp
  qed
  then show ?thesis using True by (cases r) auto
qed

theorem firewall_revoke_removes_witness:
  "firewall_revoke calm_ops ''zz'' saved_host = (Inl ''firewall rule not found: zz'', saved_host)"
  using firewall_revoke_removes [OF surjective_pairing calm_keeps_state saved_load, of "''zz''"]
  by (simp add: sample_rule_def prod_eq_iff)

text \<open>A revocation writes the state file before it changes the kernel. When the kernel step fails,
  the rule is still in force but no longer stored: the repeated revocation answers that there
  is no such rule.\<close>

theorem failed_revoke_cannot_be_retried:
  assumes "load_firewall_rules H w = (Inr rules, w)" and "i \<in> fr_id ` set rules"
    and "save_firewall_rules H (without_rule i rules) w = (Inr (), w1)"
    and "firewall_reconcile H w1 = (Inl e, w2)" and "load_firewall_rules H w2 = (Inr (without_rule i rules), w2)"
  shows "firewall_revoke H i w = (Inl e, w2) \<and>
     firewall_revoke H i w2 = (Inl (''firewall rule not found: '' @ i), w2)"
proof -
  have "length (without_rule i rules) \<noteq> length rules" using assms(2) by (simp add: without_rule_shorter)
  moreover have "length (without_rule i (without_rule i rules)) = length (without_rule i rules)"
    by (simp add: without_rule_def)
  ultimately show ?thesis
    using assms by (simp add: firewall_revoke_def io_bind_def io_fail_def)
qed

text \<open>A host whose programs cannot be started.\<close>

definition broken_ops :: "string list list host_ops" where
  "broken_ops = calm_ops\<lparr>op_command := (\<lambda>_ _ w. (Inl ''cannot run'', w))\<rparr>"

lemma broken_sel [simp]: "op_fault broken_ops = op_fault calm_ops" "op_write_fault broken_ops = op_write_fault calm_ops"
  "op_create_mode broken_ops = op_create_mode calm_ops" "op_command broken_ops p a w = (Inl ''cannot run'', w)"
  by (simp_all add: broken_ops_def)

lemma broken_load: "load_firewall_rules broken_ops = load_firewall_rules calm_ops"
proof
  fix w show "load_firewall_rules broken_ops w = load_firewall_rules calm_ops w"
    by (cases "file_at w FIREWALL_STATE_PATH")
      (simp_all add: load_firewall_rules_def fs_read_to_string_def fs_read_def io_bind_def io_context_def)
qed

lemma broken_save: "save_firewall_rules broken_ops = save_firewall_rules calm_ops"
  by (simp add: fun_eq_iff save_firewall_rules_def fs_create_dir_all_def fs_guard_def fs_write_def fs_write_with_def
      file_mode_def io_bind_def io_context_def)

definition emptied_host :: "string list list host" where
  "emptied_host = snd (save_firewall_rules calm_ops [] saved_host)"

lemma emptied_host_eq: "save_firewall_rules calm_ops [] saved_host = (Inr (), emptied_host)"
  using calm_save [of "[]" saved_host] by (auto simp: emptied_host_def)

definition emptied_again :: "string list list host" where
  "emptied_again = snd (save_firewall_rules calm_ops [] emptied_host)"

lemma emptied_again_eq: "save_firewall_rules calm_ops [] emptied_host = (Inr (), emptied_again)"
  using calm_save [of "[]" emptied_host] by (auto simp: emptied_again_def)

lemma empty_load:
  assumes "save_firewall_rules calm_ops [] w = (Inr (), w')"
  shows "load_firewall_rules calm_ops w' = (Inr [], w')"
proof -
  obtain m where f: "file_at w' FIREWALL_STATE_PATH = Some \<lparr>fi_content = render_firewall_state [], fi_mode = m\<rparr>"
    using save_firewall_rules_Inr [OF assms] by blast
  have "valid_utf8 (render_firewall_state [])" by (simp add: render_firewall_state_def NL_def byte_in_def)
  then show ?thesis using calm_load [OF f] firewall_store.stored_save [OF assms] by simp
qed

lemma broken_reconcile:
  "firewall_reconcile broken_ops emptied_host =
     (Inl ''flush Coolify allow iptables chain: run command: cannot run'', emptied_again)"
  by (simp add: firewall_reconcile_def broken_load broken_save empty_load [OF emptied_host_eq] emptied_again_eq
      io_bind_def io_context_def run_command_def)

theorem failed_revoke_cannot_be_retried_witness:
  "firewall_revoke broken_ops ''r1'' saved_host =
     (Inl ''flush Coolify allow iptables chain: run command: cannot run'', emptied_again) \<and>
   firewall_revoke broken_ops ''r1'' emptied_again = (Inl ''firewall rule not found: r1'', emptied_again)"
  using failed_revoke_cannot_be_retried [of broken_ops saved_host "[sample_rule]" "''r1''" emptied_host]
    broken_reconcile empty_load [OF emptied_again_eq]
  by (simp add: broken_load broken_save saved_load emptied_host_eq without_rule_def sample_rule_def)

subsection \<open>Concurrent commands and hostile fields\<close>

text \<open>Every command runs in a task of its own (\<open>grpc/client.rs\<close> spawns it), so two allow commands
  interleave. A task that runs \<open>firewall_allow\<close> is at one of these points; between two points it
  runs one section of the code. The awaits inside a section are not interleaved here: the runs below
  are some of those the runtime can choose.\<close>

datatype allow_task =
    AllowStart firewall_rule
  | AllowLoad firewall_rule
  | AllowSave firewall_rule "firewall_rule list"
  | AllowApply firewall_rule
  | AllowEnd "(string \<times> string) result"

definition section_end :: "('a \<Rightarrow> allow_task) \<Rightarrow> 'a result \<times> 'w \<Rightarrow> allow_task \<times> 'w" where
  "section_end k rw = (case rw of (Inl e, w) \<Rightarrow> (AllowEnd (Inl e), w) | (Inr a, w) \<Rightarrow> (k a, w))"

fun allow_section ::
  "'k host_ops \<Rightarrow> 'k host corrosion \<Rightarrow> endpoint_owner_check \<Rightarrow> allow_task \<Rightarrow> 'k host \<Rightarrow> allow_task \<times> 'k host" where
  "allow_section H C oc (AllowStart rule) w =
     section_end AllowLoad (io_bind (io_lift (validate_firewall_rule rule)) (\<lambda>_. resolve_firewall_rule H C oc rule) w)"
| "allow_section H C oc (AllowLoad n) w = section_end (\<lambda>rules. AllowSave n (with_rule n rules)) (load_firewall_rules H w)"
| "allow_section H C oc (AllowSave n rules) w = section_end (\<lambda>_. AllowApply n) (save_firewall_rules H rules w)"
| "allow_section H C oc (AllowApply n) w =
     section_end (\<lambda>_. AllowEnd (Inr (fr_id n, ''Firewall rule applied.''))) (apply_firewall_rule H n w)"
| "allow_section H C oc (AllowEnd r) w = (AllowEnd r, w)"

text \<open>Left alone, the four sections are \<open>firewall_allow\<close>.\<close>

lemma allow_sections_alone:
  "((\<lambda>(t, w). allow_section H C oc t w) ^^ 4) (AllowStart rule, w) =
     (case firewall_allow H C oc rule w of (r, w') \<Rightarrow> (AllowEnd r, w'))"
  by (simp add: numeral_eq_Suc firewall_allow_def io_bind_def io_return_def section_end_def
      split: prod.splits sum.splits)

text \<open>Any number of allow commands on one host: a step runs the next section of one of them.\<close>

inductive allows_step ::
  "'k host_ops \<Rightarrow> 'k host corrosion \<Rightarrow> endpoint_owner_check \<Rightarrow> allow_task list \<times> 'k host \<Rightarrow>
   allow_task list \<times> 'k host \<Rightarrow> bool" for H C oc where
  "i < length ts \<Longrightarrow> allow_section H C oc (ts ! i) w = (t, w') \<Longrightarrow> allows_step H C oc (ts, w) (ts[i := t], w')"

abbreviation allows_run where
  "allows_run H C oc \<equiv> (allows_step H C oc)\<^sup>*\<^sup>*"

lemma first_task_moves:
  "allow_section H C oc t w = (t', w') \<Longrightarrow> allows_run H C oc ([t', u], w') c \<Longrightarrow> allows_run H C oc ([t, u], w) c"
  using allows_step.intros [of 0 "[t, u]" H C oc w t' w'] by (auto intro: converse_rtranclp_into_rtranclp)

lemma second_task_moves:
  "allow_section H C oc u w = (u', w') \<Longrightarrow> allows_run H C oc ([t, u'], w') c \<Longrightarrow> allows_run H C oc ([t, u], w) c"
  using allows_step.intros [of 1 "[t, u]" H C oc w u' w'] by (auto intro: converse_rtranclp_into_rtranclp)

text \<open>A host on which nothing fails: no fault of the file system, and every program succeeds and leaves
  the files alone.\<close>

definition reliable :: "'k host_ops \<Rightarrow> bool" where
  "reliable H \<longleftrightarrow>
     (\<forall>what p w. op_fault H what p w = None) \<and> (\<forall>p w. op_write_fault H p w = None) \<and>
     (\<forall>prog args w. \<exists>out w'. op_command H prog args w = (Inr out, w') \<and> ou_success out \<and> ho_files w' = ho_files w)"

lemma reliable_keeps_state: "reliable H \<Longrightarrow> keeps_state H"
  unfolding reliable_def keeps_state_def file_at_def by (metis prod.inject)

lemma reliable_save:
  assumes "reliable H"
  shows "\<exists>w'. save_firewall_rules H rs w = (Inr (), w')"
  using assms
  by (simp add: reliable_def save_firewall_rules_def fs_create_dir_all_def fs_guard_def fs_write_def fs_write_with_def
      io_bind_def io_simps)

lemma reliable_run:
  assumes "reliable H"
  shows "\<exists>s w'. run_command H prog args w = (Inr s, w') \<and> ho_files w' = ho_files w"
proof -
  obtain out w' where "op_command H prog args w = (Inr out, w')" "ou_success out" "ho_files w' = ho_files w"
    using assms unfolding reliable_def by metis
  then show ?thesis by (simp add: run_command_def io_bind_def io_simps)
qed

lemma reliable_apply:
  assumes "reliable H"
  shows "\<exists>w'. apply_firewall_rule H n w = (Inr (), w') \<and> ho_files w' = ho_files w"
proof -
  obtain s w1 where r1: "run_command H ''iptables'' (firewall_iptables_insert_args n) w = (Inr s, w1)" "ho_files w1 = ho_files w"
    using reliable_run [OF assms] by blast
  obtain s' w2 where r2: "run_command H ''nft'' (firewall_nft_add_args n) w1 = (Inr s', w2)" "ho_files w2 = ho_files w1"
    using reliable_run [OF assms] by blast
  show ?thesis using r1 r2 by (simp add: apply_firewall_rule_def io_bind_def io_simps)
qed

lemma files_stored: "ho_files w' = ho_files w \<Longrightarrow> stored_rules w' = stored_rules w"
  by (simp add: stored_rules_def file_at_def)

text \<open>A rule between addresses is resolved without asking anybody.\<close>

definition literal_rule :: "firewall_rule \<Rightarrow> bool" where
  "literal_rule r \<longleftrightarrow> validate_firewall_rule r = Inr () \<and> is_ip_or_cidr (fr_src r) \<and> is_ip_or_cidr (fr_dst r)"

definition normalized_rule :: "firewall_rule \<Rightarrow> firewall_rule" where
  "normalized_rule r =
     r\<lparr>fr_src := trim_end_matches_str ''/32'' (fr_src r), fr_dst := trim_end_matches_str ''/32'' (fr_dst r)\<rparr>"

lemma normalized_id [simp]: "fr_id (normalized_rule r) = fr_id r"
  by (simp add: normalized_rule_def)

lemma literal_resolves: "literal_rule r \<Longrightarrow> resolve_firewall_rule H C oc r w = (Inr (normalized_rule r), w)"
  by (simp add: literal_rule_def resolve_firewall_rule_def resolve_firewall_endpoint_def normalized_rule_def)

lemma literal_starts: "literal_rule r \<Longrightarrow> allow_section H C oc (AllowStart r) w = (AllowLoad (normalized_rule r), w)"
  using literal_resolves [of r H C oc w] by (simp add: literal_rule_def section_end_def)

text \<open>The race, as a run of the two tasks: both read the rules before either of them saves.\<close>

lemma racing_allows:
  assumes "reliable H" and "literal_rule a" and "literal_rule b" and "load_firewall_rules H w = (Inr rs, w)"
    and "clean_rule (normalized_rule b)"
  shows "\<exists>w'. allows_run H C oc ([AllowStart a, AllowStart b], w)
       ([AllowEnd (Inr (fr_id a, ''Firewall rule applied.'')), AllowEnd (Inr (fr_id b, ''Firewall rule applied.''))], w') \<and>
     stored_rules w' = with_rule (normalized_rule b) rs"
proof -
  obtain w1 where s1: "save_firewall_rules H (with_rule (normalized_rule a) rs) w = (Inr (), w1)"
    using reliable_save [OF assms(1)] by blast
  obtain w2 where s2: "save_firewall_rules H (with_rule (normalized_rule b) rs) w1 = (Inr (), w2)"
    using reliable_save [OF assms(1)] by blast
  obtain w3 where a3: "apply_firewall_rule H (normalized_rule a) w2 = (Inr (), w3)" "ho_files w3 = ho_files w2"
    using reliable_apply [OF assms(1)] by blast
  obtain w4 where a4: "apply_firewall_rule H (normalized_rule b) w3 = (Inr (), w4)" "ho_files w4 = ho_files w3"
    using reliable_apply [OF assms(1)] by blast
  have rs: "rs = stored_rules w" using load_firewall_rules_Inr [OF assms(4)] by simp
  have "list_all clean_rule (with_rule (normalized_rule b) rs)"
    using assms(5) stored_rules_clean [of w] rs by (auto simp: with_rule_def list_all_iff)
  then have "stored_rules w2 = with_rule (normalized_rule b) rs"
    using firewall_store.lost_update [where f = "with_rule (normalized_rule a)" and g = "with_rule (normalized_rule b)"]
      s1 s2 rs by metis
  then have "stored_rules w4 = with_rule (normalized_rule b) rs" using files_stored a3(2) a4(2) by metis
  moreover have "allows_run H C oc ([AllowStart a, AllowStart b], w)
       ([AllowEnd (Inr (fr_id a, ''Firewall rule applied.'')), AllowEnd (Inr (fr_id b, ''Firewall rule applied.''))], w4)"
    by (rule first_task_moves [OF literal_starts [OF assms(2)]], rule second_task_moves [OF literal_starts [OF assms(3)]],
        rule first_task_moves, simp add: section_end_def assms(4), rule second_task_moves, simp add: section_end_def assms(4),
        rule first_task_moves, simp add: section_end_def s1, rule second_task_moves, simp add: section_end_def s2,
        rule first_task_moves, simp add: section_end_def a3(1), rule second_task_moves, simp add: section_end_def a4(1))
      simp
  ultimately show ?thesis by blast
qed

text \<open>One after the other the two commands keep both rules.\<close>

lemma serial_allows:
  assumes "keeps_state H" and "literal_rule a" and "literal_rule b" and "clean_rule (normalized_rule a)"
    and "clean_rule (normalized_rule b)" and "fr_id a \<noteq> fr_id b"
    and "firewall_allow H C oc a w = (Inr ra, w1)" and "firewall_allow H C oc b w1 = (Inr rb, w2)"
  shows "normalized_rule a \<in> set (stored_rules w2) \<and> normalized_rule b \<in> set (stored_rules w2)"
proof -
  have "stored_rules w1 = with_rule (normalized_rule a) (stored_rules w)"
    using firewall_allow_stores [OF _ literal_resolves [OF assms(2)] assms(4,1)] assms(7) by (cases ra) auto
  moreover have "stored_rules w2 = with_rule (normalized_rule b) (stored_rules w1)"
    using firewall_allow_stores [OF _ literal_resolves [OF assms(3)] assms(5,1)] assms(8) by (cases rb) auto
  ultimately show ?thesis using assms(6) by (auto simp: with_rule_def)
qed

text \<open>C39: Nothing orders the reading and writing of the state file by two allow commands. On a host
  where nothing fails, two allows of rules between addresses that run one after the other leave both
  rules in the state file; but the runtime can interleave their sections so that both answer that
  their rule is applied and the rule of the first is not in the state file, so that the next
  reconciliation drops it.\<close>

theorem concurrent_allows_lose_a_rule:
  assumes "reliable H" and "literal_rule a" and "literal_rule b" and "is_ok (fst (load_firewall_rules H w))"
    and "clean_rule (normalized_rule a)" and "clean_rule (normalized_rule b)"
    and "fr_id a \<noteq> fr_id b" and "fr_id a \<notin> fr_id ` set (stored_rules w)"
  shows "(\<exists>w'. allows_run H C oc ([AllowStart a, AllowStart b], w)
       ([AllowEnd (Inr (fr_id a, ''Firewall rule applied.'')), AllowEnd (Inr (fr_id b, ''Firewall rule applied.''))], w') \<and>
       fr_id a \<notin> fr_id ` set (stored_rules w')) \<and>
     (\<forall>ra rb w1 w2. firewall_allow H C oc a w = (Inr ra, w1) \<longrightarrow> firewall_allow H C oc b w1 = (Inr rb, w2) \<longrightarrow>
       normalized_rule a \<in> set (stored_rules w2) \<and> normalized_rule b \<in> set (stored_rules w2))"
proof -
  obtain rs w0 where "load_firewall_rules H w = (Inr rs, w0)"
    using assms(4) by (cases "load_firewall_rules H w") (auto simp: is_ok_iff)
  then have l: "load_firewall_rules H w = (Inr rs, w)" and rs: "rs = stored_rules w"
    using load_firewall_rules_Inr by auto
  have "fr_id a \<notin> fr_id ` set (with_rule (normalized_rule b) rs)"
    using assms(7,8) rs by (auto simp: with_rule_def)
  then show ?thesis
    using racing_allows [OF assms(1-3) l assms(6), of C oc]
      serial_allows [OF reliable_keeps_state [OF assms(1)] assms(2,3,5,6,7)] by metis
qed

lemma calm_reliable: "reliable calm_ops"
  by (simp add: reliable_def)

lemma sample_literal: "literal_rule (sample_rule\<lparr>fr_id := c # i\<rparr>)"
  using sample_ips by (simp add: literal_rule_def validate_firewall_rule_def sample_rule_def)

lemma sample_normalized: "normalized_rule (sample_rule\<lparr>fr_id := i\<rparr>) = sample_rule\<lparr>fr_id := i\<rparr>"
  by (simp add: normalized_rule_def sample_rule_def sample_trims)

theorem concurrent_allows_lose_a_rule_witness:
  "\<exists>w'. allows_run calm_ops no_corrosion strict_owner
       ([AllowStart (sample_rule\<lparr>fr_id := ''r2''\<rparr>), AllowStart (sample_rule\<lparr>fr_id := ''r3''\<rparr>)], empty_host)
       ([AllowEnd (Inr (''r2'', ''Firewall rule applied.'')), AllowEnd (Inr (''r3'', ''Firewall rule applied.''))], w') \<and>
     ''r2'' \<notin> fr_id ` set (stored_rules w')"
proof -
  have "clean_rule (sample_rule\<lparr>fr_id := ''r2''\<rparr>)" "clean_rule (sample_rule\<lparr>fr_id := ''r3''\<rparr>)"
    by (simp_all add: clean_rule_def clean_def sample_rule_def)
  moreover have "is_ok (fst (load_firewall_rules calm_ops empty_host))" "stored_rules empty_host = []"
    by (simp_all add: load_firewall_rules_def fs_exists_def stored_rules_def file_at_def empty_host_def is_ok_def)
  ultimately show ?thesis
    using concurrent_allows_lose_a_rule [OF calm_reliable sample_literal [of "CHR ''r''" "''2''"]
        sample_literal [of "CHR ''r''" "''3''"], of empty_host no_corrosion strict_owner]
    by (simp add: sample_normalized)
qed

definition hostile_rule :: firewall_rule where
  "hostile_rule =
     \<lparr>fr_id = ''a'' @ TAB @ ''default'' @ TAB @ ''0.0.0.0/0'' @ TAB @ ''10.0.0.2'' @ TAB @ ''tcp'' @ TAB @ ''22'' @ NL @ ''b'',
      fr_namespace = ''default'', fr_src = ''10.0.0.1'', fr_dst = ''10.0.0.2'', fr_proto = ''tcp'', fr_port = 80\<rparr>"

text \<open>The fields of a rule are checked for being present but not for tabs and line feeds: one
  accepted rule whose id holds a line of the state file is read back as two, the first of them
  opening another port to every source.\<close>

theorem state_file_injection:
  "validate_firewall_rule hostile_rule = Inr () \<and>
   List.map_filter parse_firewall_rule_line (lines (render_firewall_state [hostile_rule])) =
     [\<lparr>fr_id = ''a'', fr_namespace = ''default'', fr_src = ''0.0.0.0/0'', fr_dst = ''10.0.0.2'', fr_proto = ''tcp'', fr_port = 22\<rparr>,
      \<lparr>fr_id = ''b'', fr_namespace = ''default'', fr_src = ''10.0.0.1'', fr_dst = ''10.0.0.2'', fr_proto = ''tcp'', fr_port = 80\<rparr>]"
  by (simp add: validate_firewall_rule_def hostile_rule_def render_firewall_state_def rule_fields_def TAB_def NL_def
      show_port_def show_nat.simps digit_char_eval lines_def strip_cr_def parse_firewall_rule_line_def mk_rule_def
      parse_unsigned_def digit_val_def map_filter_simps)

text \<open>The owner check binds the destination: with strict ownership a name is resolved to the one
  address this host announced for it, whatever rows other hosts add.\<close>

theorem strict_owner_resolution:
  assumes "oc_strict oc" and "\<not> is_ip_or_cidr v"
    and "query_endpoints_by_name C v ns w = (Inr rows, w')"
    and "filter (\<lambda>r. se_host_mgmt_ip r = oc_host_mgmt_ip oc) rows = [own]"
  shows "resolve_firewall_endpoint H C v ns network (dst_owner oc) w = (Inr (se_container_ip own), w')"
  using assms
  by (simp add: resolve_firewall_endpoint_def dst_owner_def query_ips_by_name_owned_def select_endpoint_ips_def
      firewall_endpoint_ip_def io_bind_def io_simps)

definition one_row :: "string list list host corrosion" where
  "one_row = \<lparr>cor_base_url = [],
     cor_http = (\<lambda>_ _ w. (Inr \<lparr>hr_success = True, hr_status = ''200 OK'', hr_body = Inr ''x''\<rparr>, w)),
     cor_frame = (\<lambda>_. Some (Some [jint 1, JArray [JString ''10.0.0.9'', JString ''100.64.0.5'']])), cor_pretty = (\<lambda>_. Inr [])\<rparr>"

lemma one_row_query:
  "query_endpoints_by_name one_row v ns w = (Inr [\<lparr>se_container_ip = ''10.0.0.9'', se_host_mgmt_ip = ''100.64.0.5''\<rparr>], w)"
  by (simp add: query_endpoints_by_name_def run_query_def one_row_def io_bind_def io_simps parse_endpoint_rows_def
      parse_value_rows_def frame_values_def endpoint_row_def nth_str_def map_filter_simps)

theorem strict_owner_resolution_witness:
  "resolve_firewall_endpoint calm_ops one_row ''web'' ''default'' ''net'' (dst_owner strict_owner) empty_host =
     (Inr ''10.0.0.9'', empty_host)"
  using strict_owner_resolution [of strict_owner "''web''", OF _ _ one_row_query]
  by (simp add: strict_owner_def is_ip_or_cidr_def parse_ipv4_def whole_def read_ipv4_def read_octet_def digit_val_def)

end
