(* ===== verification/CooldHostJwt.thy ===== *)
theory CooldHostJwt
  imports HostFiles Proto
begin

text \<open>
  \<open>coold/src/grpc/host_jwt.rs\<close>: the rotation of the host's token over the stream, and
  \<open>load_host_jwt\<close> of \<open>client.rs\<close>, which reads it back. The JSON parser is a parameter.
\<close>

section \<open>Base64\<close>

text \<open>The value of a character of the URL-safe alphabet.\<close>

definition sextet_value :: "char \<Rightarrow> nat option" where
  "sextet_value c =
     (let n = of_char c :: nat in
      if 65 \<le> n \<and> n \<le> 90 then Some (n - 65)
      else if 97 \<le> n \<and> n \<le> 122 then Some (n - 97 + 26)
      else if 48 \<le> n \<and> n \<le> 57 then Some (n - 48 + 52)
      else if n = 45 then Some 62
      else if n = 95 then Some 63
      else None)"

definition sextet :: "char \<Rightarrow> u32 option" where
  "sextet c = map_option word_of_nat (sextet_value c)"

unbundle bit_operations_syntax

text \<open>The loop, with the 32-bit buffer (which drops its high bits) and the number of unread bits.\<close>

fun decode_loop :: "u32 \<Rightarrow> nat \<Rightarrow> string \<Rightarrow> string option" where
  "decode_loop buffer bits [] = Some []"
| "decode_loop buffer bits (c # cs) =
     (case sextet c of
        None \<Rightarrow> None
      | Some s \<Rightarrow>
          (let buffer = push_bit 6 buffer OR s; bits = bits + 6 in
           if 8 \<le> bits then
             map_option (\<lambda>out. char_of (unat (drop_bit (bits - 8) buffer) mod 256) # out)
               (decode_loop buffer (bits - 8) cs)
           else decode_loop buffer bits cs))"

definition base64url_decode :: "string \<Rightarrow> string option" where
  "base64url_decode s = decode_loop 0 0 s"

section \<open>Validation\<close>

fun decode_parts :: "string list \<Rightarrow> string list result" where
  "decode_parts [] = Inr []"
| "decode_parts (p # ps) =
     (case base64url_decode p of
        None \<Rightarrow> Inl ''host JWT segment is not valid base64url''
      | Some b \<Rightarrow> and_then (decode_parts ps) (\<lambda>bs. Inr (b # bs)))"

definition payload_sub :: "(string \<Rightarrow> json option) \<Rightarrow> string \<Rightarrow> string option" where
  "payload_sub parse bytes =
     Option.bind (parse bytes) (\<lambda>v. Option.bind (json_get v ''sub'') as_str)"

definition validate_and_extract_sub :: "(string \<Rightarrow> json option) \<Rightarrow> string \<Rightarrow> string option result" where
  "validate_and_extract_sub parse jwt =
     (if jwt = [] then Inl ''host JWT is empty''
      else
        (let parts = split_on (CHR ''.'') jwt in
         if length parts \<noteq> 3 \<or> list_ex (\<lambda>p. p = []) parts then
           Inl ''host JWT is not a structurally valid token (want three non-empty base64url segments)''
         else and_then (decode_parts parts) (\<lambda>decoded. Inr (payload_sub parse (decoded ! 1)))))"

section \<open>Installation\<close>

text \<open>\<open>.name.tmp.pid\<close> beside the path (\<open>parent\<close>, \<open>file_name\<close> and \<open>join\<close> of a path that names a file).\<close>

definition jwt_tmp_name :: "nat \<Rightarrow> string \<Rightarrow> string" where
  "jwt_tmp_name pid f = ''.'' @ f @ ''.tmp.'' @ show_nat pid"

definition jwt_tmp_path :: "nat \<Rightarrow> string \<Rightarrow> string" where
  "jwt_tmp_path pid path =
     (case rsplit_once (CHR ''/'') path of
        None \<Rightarrow> ''./'' @ jwt_tmp_name pid path
      | Some (d, f) \<Rightarrow> d @ ''/'' @ jwt_tmp_name pid f)"

definition current_host_sub :: "(string \<Rightarrow> json option) \<Rightarrow> 'k host_ops \<Rightarrow> string \<Rightarrow> 'k host \<Rightarrow> string option" where
  "current_host_sub parse H path w =
     (case fst (fs_read_to_string H path w) of
        Inl _ \<Rightarrow> None
      | Inr raw \<Rightarrow> (case validate_and_extract_sub parse (trim raw) of Inr s \<Rightarrow> s | Inl _ \<Rightarrow> None))"

text \<open>Open with mode 0600, write, flush, set the mode to 0600, rename. Opening and writing are the two
  halves of \<open>fs_write_with\<close>; the context names which one failed.\<close>

definition write_context :: "string \<Rightarrow> ('k, unit) hio \<Rightarrow> 'k host_ops \<Rightarrow> string \<Rightarrow> ('k, unit) hio" where
  "write_context opened m H p w =
     (case op_write_fault H p w of
        Some (OpenFails _) \<Rightarrow> io_context opened m w
      | _ \<Rightarrow> io_context ''write temp host JWT'' m w)"

definition install_tmp :: "'k host_ops \<Rightarrow> string \<Rightarrow> string \<Rightarrow> string \<Rightarrow> ('k, unit) hio" where
  "install_tmp H tmp path jwt =
     io_bind (write_context (''open temp host JWT '' @ tmp) (fs_write_with H 384 tmp jwt) H tmp) (\<lambda>_.
     io_bind (io_context ''flush temp host JWT'' (fs_guard H ''flush'' tmp)) (\<lambda>_.
     io_bind (io_context ''chmod temp host JWT'' (fs_set_mode H tmp 384)) (\<lambda>_.
     io_context (''install host JWT at '' @ path) (fs_rename H tmp path))))"

definition write_host_jwt_atomic :: "'k host_ops \<Rightarrow> nat \<Rightarrow> string \<Rightarrow> string \<Rightarrow> ('k, unit) hio" where
  "write_host_jwt_atomic H pid path jwt w =
     (let tmp = jwt_tmp_path pid path in
      case install_tmp H tmp path jwt w of
        (Inr u, w') \<Rightarrow> (Inr u, w')
      | (Inl e, w') \<Rightarrow> (Inl e, snd (fs_remove_file H tmp w')))"

definition apply_host_jwt ::
  "(string \<Rightarrow> json option) \<Rightarrow> 'k host_ops \<Rightarrow> nat \<Rightarrow> string \<Rightarrow> string \<Rightarrow> ('k, unit) hio" where
  "apply_host_jwt parse H pid new_jwt path w =
     (let jwt = trim new_jwt in
      case validate_and_extract_sub parse jwt of
        Inl e \<Rightarrow> (Inl e, w)
      | Inr new_sub \<Rightarrow>
          (case (new_sub, current_host_sub parse H path w) of
             (Some n, Some c) \<Rightarrow>
               if c \<noteq> n then
                 (Inl (''refusing host JWT: token sub '' @ debug_str n @ '' does not match current host '' @ debug_str c), w)
               else write_host_jwt_atomic H pid path jwt w
           | _ \<Rightarrow> write_host_jwt_atomic H pid path jwt w))"

section \<open>Reading the token\<close>

text \<open>\<open>mode & 0o077 != 0\<close>; \<open>{:#o}\<close> prints octal digits with a prefix.\<close>

fun show_octal :: "nat \<Rightarrow> string" where
  "show_octal n = (if n < 8 then [digit_char n] else show_octal (n div 8) @ [digit_char (n mod 8)])"

declare show_octal.simps [simp del]

definition load_host_jwt :: "'k host_ops \<Rightarrow> string \<Rightarrow> ('k, string) hio" where
  "load_host_jwt H path =
     io_bind (io_context (''stat host JWT '' @ path) (fs_stat_mode H path)) (\<lambda>m.
     (let mode = m mod 512 in
      if mode mod 64 \<noteq> 0 then
        io_fail (''host JWT '' @ path @ '' has insecure perms 0o'' @ show_octal mode @ ''; want 0600 (no group/other access)'')
      else
        io_bind (io_context (''read host JWT from '' @ path) (fs_read_to_string H path)) (\<lambda>raw.
        if trim raw = [] then io_fail (''host JWT file '' @ path @ '' is empty'')
        else io_return (trim raw))))"

section \<open>Decoding inverts the encoding\<close>

text \<open>The encoding of RFC 4648, URL-safe alphabet, no padding: three bytes give four characters.\<close>

definition b64_char :: "nat \<Rightarrow> char" where
  "b64_char n =
     (if n < 26 then char_of (65 + n) else if n < 52 then char_of (71 + n)
      else if n < 62 then char_of (n - 4) else if n = 62 then CHR ''-'' else CHR ''_'')"

fun b64_encode :: "nat list \<Rightarrow> string" where
  "b64_encode [] = []"
| "b64_encode [a] = [b64_char (a div 4), b64_char ((a mod 4) * 16)]"
| "b64_encode [a, b] = [b64_char (a div 4), b64_char ((a mod 4) * 16 + b div 16), b64_char ((b mod 16) * 4)]"
| "b64_encode (a # b # c # r) =
     [b64_char (a div 4), b64_char ((a mod 4) * 16 + b div 16), b64_char ((b mod 16) * 4 + c div 64),
      b64_char (c mod 64)] @ b64_encode r"

lemma sextet_b64_char: "n < 64 \<Longrightarrow> sextet_value (b64_char n) = Some n"
  by (cases "n = 63") (auto simp: sextet_value_def b64_char_def Let_def take_bit_nat_def)

text \<open>The decoder on natural numbers, keeping only the unread bits.\<close>

fun decode_nat :: "nat \<Rightarrow> nat \<Rightarrow> string \<Rightarrow> string option" where
  "decode_nat acc bits [] = Some []"
| "decode_nat acc bits (c # cs) =
     (case sextet_value c of
        None \<Rightarrow> None
      | Some n \<Rightarrow>
          (let v = acc * 64 + n in
           if 2 \<le> bits then
             map_option (\<lambda>out. char_of (v div 2 ^ (bits - 2)) # out) (decode_nat (v mod 2 ^ (bits - 2)) (bits - 2) cs)
           else decode_nat v (bits + 6) cs))"

lemma sextet_less: "sextet_value c = Some n \<Longrightarrow> n < 64"
  by (auto simp: sextet_value_def Let_def split: if_splits)

lemma push_or_unat:
  fixes buf s :: u32
  assumes "unat s < 64"
  shows "unat (push_bit 6 buf OR s) = (unat buf * 64 + unat s) mod 2 ^ 32"
proof -
  have t: "take_bit 6 s = s"
    using assms by (intro word_unat_eq_iff [THEN iffD2]) (simp add: unsigned_take_bit_eq take_bit_nat_def)
  have "push_bit 6 buf + s = push_bit 6 buf OR s"
  proof (rule disjunctive_add_eq_or)
    have "push_bit 6 buf AND take_bit 6 s = 0"
      by (rule bit_eqI) (auto simp: bit_simps)
    then show "push_bit 6 buf AND s = 0" by (simp add: t)
  qed
  then have "unat (push_bit 6 buf OR s) = unat (push_bit 6 buf + s)" by simp
  also have "\<dots> = (unat buf * 64 + unat s) mod 2 ^ 32"
    by (simp add: push_bit_eq_mult unat_word_ariths mod_simps)
  finally show ?thesis .
qed

lemma shift_mod: "(a * 64 + s) mod 2 ^ (k + 6) = (a mod 2 ^ k) * 64 + s" if "s < 64" for a s k :: nat
proof -
  have "(a * 64 + s) mod (64 * 2 ^ k) = 64 * ((a * 64 + s) div 64 mod 2 ^ k) + (a * 64 + s) mod 64"
    by (rule mod_mult2_eq)
  moreover have "(a * 64 + s) div 64 = a" "(a * 64 + s) mod 64 = s" using that by auto
  ultimately show ?thesis by (simp add: power_add mult.commute)
qed

lemma decode_loop_nat:
  "bits < 8 \<Longrightarrow> decode_loop buf bits cs = decode_nat (unat buf mod 2 ^ bits) bits cs"
proof (induction cs arbitrary: buf bits)
  case (Cons c cs)
  show ?case
  proof (cases "sextet_value c")
    case None
    then show ?thesis by (simp add: sextet_def)
  next
    case (Some n)
    define b' :: u32 where "b' = push_bit 6 buf OR word_of_nat n"
    define v where "v = (unat buf mod 2 ^ bits) * 64 + n"
    have n: "n < 64" by (rule sextet_less [OF Some])
    then have s: "unat (word_of_nat n :: u32) = n" by (simp add: unat_of_nat take_bit_nat_def)
    have u: "unat b' mod 2 ^ (bits + 6) = v"
    proof -
      have "(2::nat) ^ (bits + 6) dvd 2 ^ 32" using Cons.prems by (intro le_imp_power_dvd) simp
      then have "unat b' mod 2 ^ (bits + 6) = (unat buf * 64 + n) mod 2 ^ (bits + 6)"
        unfolding b'_def using push_or_unat [of "word_of_nat n" buf] s n by (simp add: mod_mod_cancel)
      then show ?thesis using shift_mod [OF n] by (simp add: v_def)
    qed
    show ?thesis
    proof (cases "2 \<le> bits")
      case True
      define k where "k = bits - 2"
      have k: "bits + 6 = k + 8" "bits + 6 - 8 = k" "8 \<le> bits + 6" "k < 8"
        using True Cons.prems by (auto simp: k_def)
      have "unat b' mod (2 ^ k * 2 ^ 8) = 2 ^ k * (unat b' div 2 ^ k mod 2 ^ 8) + unat b' mod 2 ^ k"
        by (rule mod_mult2_eq)
      then have "v = 2 ^ k * (unat b' div 2 ^ k mod 256) + unat b' mod 2 ^ k"
        using u by (simp add: k power_add mult.commute)
      then have v: "v div 2 ^ k = unat b' div 2 ^ k mod 256" "v mod 2 ^ k = unat b' mod 2 ^ k" by simp_all
      have d: "unat (drop_bit k b') = unat b' div 2 ^ k" unfolding unat_drop_bit_eq by (rule drop_bit_eq_div)
      have "decode_loop buf bits (c # cs) =
          map_option (\<lambda>out. char_of (unat (drop_bit k b') mod 256) # out) (decode_loop b' k cs)"
        using Some k by (simp add: sextet_def Let_def b'_def)
      also have "\<dots> = map_option (\<lambda>out. char_of (v div 2 ^ k) # out) (decode_nat (v mod 2 ^ k) k cs)"
        using Cons.IH [OF k(4)] by (simp only: d v)
      also have "\<dots> = decode_nat (unat buf mod 2 ^ bits) bits (c # cs)"
        using Some True by (simp add: Let_def v_def k_def)
      finally show ?thesis .
    next
      case False
      then have "bits + 6 < 8" "\<not> 8 \<le> bits + 6" by simp_all
      then show ?thesis
        using Cons.IH [of "bits + 6" b'] Some u False
        by (simp add: sextet_def b'_def [symmetric] v_def [symmetric] Let_def)
    qed
  qed
qed simp

text \<open>Cutting a byte at a bit position and joining the halves again.\<close>

lemma rejoin:
  fixes a x d e :: nat
  assumes "0 < d" "0 < e" "x < e"
  shows "(a div d * (d * e) + (a mod d * e + x)) div e = a" "(a div d * (d * e) + (a mod d * e + x)) mod e = x"
proof -
  have "a div d * (d * e) + (a mod d * e + x) = (a div d * d + a mod d) * e + x"
    by (simp only: distrib_right mult.assoc add.assoc)
  also have "\<dots> = a * e + x" by (simp only: div_mult_mod_eq)
  finally have eq: "a div d * (d * e) + (a mod d * e + x) = a * e + x" .
  show "(a div d * (d * e) + (a mod d * e + x)) div e = a" unfolding eq using assms by simp
  show "(a div d * (d * e) + (a mod d * e + x)) mod e = x" unfolding eq using assms by simp
qed

lemma half_less:
  fixes a b :: nat
  shows "b < e * f \<Longrightarrow> b div f < e" "0 < d \<Longrightarrow> x < e \<Longrightarrow> a mod d * e + x < d * e"
proof -
  show "b < e * f \<Longrightarrow> b div f < e" by (simp add: less_mult_imp_div_less)
  assume d: "0 < d" and x: "x < e"
  have "a mod d * e + x < a mod d * e + e" using x by simp
  also have "\<dots> = (a mod d + 1) * e" by simp
  also have "\<dots> \<le> d * e" using d by (intro mult_le_mono) (simp_all add: Suc_le_eq)
  finally show "a mod d * e + x < d * e" .
qed

lemma quad_cut:
  fixes a b c :: nat
  shows "b < 256 \<Longrightarrow> (a div 4 * 64 + (a mod 4 * 16 + b div 16)) div 16 = a"
    and "b < 256 \<Longrightarrow> (a div 4 * 64 + (a mod 4 * 16 + b div 16)) mod 16 = b div 16"
    and "c < 256 \<Longrightarrow> (b div 16 * 64 + (b mod 16 * 4 + c div 64)) div 4 = b"
    and "c < 256 \<Longrightarrow> (b div 16 * 64 + (b mod 16 * 4 + c div 64)) mod 4 = c div 64"
    and "(a div 4 * 64 + a mod 4 * 16) div 16 = a" and "(b div 16 * 64 + b mod 16 * 4) div 4 = b"
proof -
  show "b < 256 \<Longrightarrow> (a div 4 * 64 + (a mod 4 * 16 + b div 16)) div 16 = a"
    using rejoin(1) [of 4 16 "b div 16" a] half_less(1) [of b 16 16] by simp
  show "b < 256 \<Longrightarrow> (a div 4 * 64 + (a mod 4 * 16 + b div 16)) mod 16 = b div 16"
    using rejoin(2) [of 4 16 "b div 16" a] half_less(1) [of b 16 16] by simp
  show "c < 256 \<Longrightarrow> (b div 16 * 64 + (b mod 16 * 4 + c div 64)) div 4 = b"
    using rejoin(1) [of 16 4 "c div 64" b] half_less(1) [of c 4 64] by simp
  show "c < 256 \<Longrightarrow> (b div 16 * 64 + (b mod 16 * 4 + c div 64)) mod 4 = c div 64"
    using rejoin(2) [of 16 4 "c div 64" b] half_less(1) [of c 4 64] by simp
  show "(a div 4 * 64 + a mod 4 * 16) div 16 = a" using rejoin(1) [of 4 16 0 a] by simp
  show "(b div 16 * 64 + b mod 16 * 4) div 4 = b" using rejoin(1) [of 16 4 0 b] by simp
qed

lemma quad_range:
  fixes a b c :: nat
  shows "a < 256 \<Longrightarrow> a div 4 < 64" and "b < 256 \<Longrightarrow> a mod 4 * 16 + b div 16 < 64" and "a mod 4 * 16 < 64"
    and "c < 256 \<Longrightarrow> b mod 16 * 4 + c div 64 < 64" and "b mod 16 * 4 < 64" and "c mod 64 < 64"
proof -
  show "a < 256 \<Longrightarrow> a div 4 < 64" using half_less(1) [of a 64 4] by simp
  show "b < 256 \<Longrightarrow> a mod 4 * 16 + b div 16 < 64"
    using half_less(1) [of b 16 16] half_less(2) [of 4 "b div 16" 16 a] by simp
  show "a mod 4 * 16 < 64" using half_less(2) [of 4 0 16 a] by simp
  show "c < 256 \<Longrightarrow> b mod 16 * 4 + c div 64 < 64"
    using half_less(1) [of c 4 64] half_less(2) [of 16 "c div 64" 4 b] by simp
  show "b mod 16 * 4 < 64" using half_less(2) [of 16 0 4 b] by simp
  show "c mod 64 < 64" by simp
qed

lemma decode_encode_nat:
  "\<forall>b\<in>set bs. b < 256 \<Longrightarrow> decode_nat 0 0 (b64_encode bs) = Some (map char_of bs)"
proof (induction bs rule: b64_encode.induct)
  case (4 a b c r)
  then have l: "a < 256" "b < 256" "c < 256" by auto
  from 4 show ?case by (simp add: sextet_b64_char quad_cut quad_range Let_def l)
next
  case (2 a)
  then have l: "a < 256" "a < 256" "a < 256" by auto
  show ?case by (simp add: sextet_b64_char quad_cut quad_range Let_def l)
next
  case (3 a b)
  then have l: "a < 256" "b < 256" "b < 256" by auto
  show ?case by (simp add: sextet_b64_char quad_cut quad_range Let_def l)
qed simp

text \<open>Decoding the base64url encoding of any byte string gives back the string; the 32-bit buffer
  of the loop, which overflows after six characters, loses nothing that is still needed.\<close>

theorem base64url_round_trip:
  "base64url_decode (b64_encode (map of_char s)) = Some s"
proof -
  have "map char_of (map of_char s :: nat list) = s" by (induction s) simp_all
  moreover have "decode_nat 0 0 (b64_encode (map of_char s)) = Some (map char_of (map of_char s :: nat list))"
    by (rule decode_encode_nat) auto
  ultimately show ?thesis by (simp add: base64url_decode_def decode_loop_nat)
qed

section \<open>Rotation\<close>

lemma rsplit_once_Some: "rsplit_once c s = Some (d, f) \<Longrightarrow> s = d @ c # f"
proof -
  assume "rsplit_once c s = Some (d, f)"
  then obtain a b where "split_once c (rev s) = Some (a, b)" "d = rev b" "f = rev a"
    by (auto simp: rsplit_once_def split: option.splits)
  then have "rev s = a @ c # b"
    by (auto simp: split_once_def split: if_splits)
      (metis (mono_tags, lifting) dropWhile_eq_Nil_conv hd_dropWhile list.collapse set_rev takeWhile_dropWhile_id)
  then have "s = rev (a @ c # b)" by (metis rev_rev_ident)
  with \<open>d = rev b\<close> \<open>f = rev a\<close> show ?thesis by simp
qed

lemma jwt_tmp_differs: "jwt_tmp_path pid path \<noteq> path"
proof -
  have "length path < length (jwt_tmp_path pid path)"
    by (auto simp: jwt_tmp_path_def jwt_tmp_name_def split: option.splits dest!: rsplit_once_Some)
  then show ?thesis by auto
qed

lemma write_with_keeps:
  "fs_write_with H mode p content w = (r, w') \<Longrightarrow> q \<noteq> p \<Longrightarrow> file_at w' q = file_at w q"
  by (auto simp: fs_write_with_def split: option.splits write_fault.splits)

lemma write_context_eq:
  "write_context opened m H p w = (r, w') \<Longrightarrow> \<exists>r'. m w = (r', w') \<and> (r = Inr u \<longrightarrow> r' = Inr u)"
  by (auto simp: write_context_def io_context_def with_context_def
      split: option.splits write_fault.splits prod.splits sum.splits)

text \<open>An installation that failed has changed at most the temporary file; one that succeeded has
  moved it onto the path with mode 0600.\<close>

lemma install_tmp_Inl:
  assumes "install_tmp H tmp path jwt w = (Inl e, w')" and "q \<noteq> tmp"
  shows "file_at w' q = file_at w q"
proof -
  have w: "file_at w1 q = file_at w0 q"
    if "write_context c (fs_write_with H 384 tmp jwt) H tmp w0 = (r, w1)" for c w0 r w1
    using write_context_eq [OF that] write_with_keeps assms(2) by blast
  show ?thesis
    using assms unfolding install_tmp_def io_bind_eq_Inl io_context_eq_Inl
    by (auto dest!: w simp: fs_guard_def fs_set_mode_def fs_rename_def split: option.splits)
qed

lemma install_tmp_Inr:
  assumes "install_tmp H tmp path jwt w = (Inr (), w')" and "tmp \<noteq> path"
  shows "file_at w' = (file_at w)(tmp := None, path \<mapsto> \<lparr>fi_content = jwt, fi_mode = 384\<rparr>)"
proof -
  obtain w1 w2 w3 where 1: "write_context (''open temp host JWT '' @ tmp) (fs_write_with H 384 tmp jwt) H tmp w = (Inr (), w1)"
    and 2: "fs_guard H ''flush'' tmp w1 = (Inr (), w2)" and 3: "fs_set_mode H tmp 384 w2 = (Inr (), w3)"
    and 4: "fs_rename H tmp path w3 = (Inr (), w')"
    using assms(1) unfolding install_tmp_def io_bind_eq_Inr io_context_eq_Inr by auto
  have "fs_write_with H 384 tmp jwt w = (Inr (), w1)" using write_context_eq [OF 1, of "()"] by auto
  then have "w1 = put_file tmp \<lparr>fi_content = jwt, fi_mode = file_mode H tmp 384 w\<rparr> w"
    by (auto simp: fs_write_with_def split: option.splits write_fault.splits)
  moreover have "w2 = w1" using 2 by (auto simp: fs_guard_def split: option.splits)
  ultimately have "w3 = put_file tmp \<lparr>fi_content = jwt, fi_mode = 384\<rparr> w2"
    using 3 by (auto simp: fs_set_mode_def split: option.splits)
  with 4 \<open>w2 = w1\<close> \<open>w1 = _\<close> show ?thesis
    using assms(2) by (auto simp: fs_rename_def fun_eq_iff split: option.splits)
qed

lemma write_atomic_Inl:
  assumes "write_host_jwt_atomic H pid path jwt w = (Inl e, w')"
  shows "file_at w' path = file_at w path"
proof -
  let ?tmp = "jwt_tmp_path pid path"
  obtain w1 where i: "install_tmp H ?tmp path jwt w = (Inl e, w1)" "w' = snd (fs_remove_file H ?tmp w1)"
    using assms by (auto simp: write_host_jwt_atomic_def Let_def split: prod.splits sum.splits)
  have "file_at w1 path = file_at w path"
    using install_tmp_Inl [OF i(1), of path] jwt_tmp_differs [of pid path] by auto
  then show ?thesis
    using i(2) jwt_tmp_differs [of pid path]
    by (auto simp: fs_remove_file_def split: option.splits)
qed

lemma write_atomic_Inr:
  assumes "write_host_jwt_atomic H pid path jwt w = (Inr (), w')"
  shows "file_at w' path = Some \<lparr>fi_content = jwt, fi_mode = 384\<rparr> \<and> file_at w' (jwt_tmp_path pid path) = None"
proof -
  have "install_tmp H (jwt_tmp_path pid path) path jwt w = (Inr (), w')"
    using assms by (auto simp: write_host_jwt_atomic_def Let_def split: prod.splits sum.splits)
  from install_tmp_Inr [OF this jwt_tmp_differs] show ?thesis using jwt_tmp_differs [of pid path] by simp
qed

lemma apply_host_jwt_cases:
  assumes "apply_host_jwt parse H pid new path w = (r, w')"
  obtains (refused) e where "r = Inl e" "w' = w"
  | (written) new_sub where "validate_and_extract_sub parse (trim new) = Inr new_sub"
      "new_sub = None \<or> current_host_sub parse H path w = None \<or> new_sub = current_host_sub parse H path w"
      "write_host_jwt_atomic H pid path (trim new) w = (r, w')"
  using assms
  by (auto simp: apply_host_jwt_def Let_def split: sum.splits option.splits if_splits)

subsection \<open>Reading back\<close>

lemma valid_utf8_ascii: "\<forall>c\<in>set s. byte_in 0 127 c \<Longrightarrow> valid_utf8 s"
  by (induction s) simp_all

lemma sextet_ascii: "sextet c \<noteq> None \<Longrightarrow> byte_in 0 127 c"
  by (auto simp: sextet_def sextet_value_def byte_in_def Let_def split: if_splits)

lemma decode_loop_chars: "decode_loop b n s = Some out \<Longrightarrow> c \<in> set s \<Longrightarrow> sextet c \<noteq> None"
  by (induction b n s arbitrary: out rule: decode_loop.induct)
    (auto simp: Let_def split: option.splits if_splits)

lemma decode_parts_chars: "decode_parts ps = Inr bs \<Longrightarrow> p \<in> set ps \<Longrightarrow> c \<in> set p \<Longrightarrow> byte_in 0 127 c"
  by (induction ps arbitrary: bs)
    (auto simp: base64url_decode_def and_then_eq_Inr split: option.splits dest!: decode_loop_chars sextet_ascii)

lemma split_on_chars: "x \<in> set s \<Longrightarrow> x = c \<or> (\<exists>p\<in>set (split_on c s). x \<in> set p)"
  by (induction s) (auto split: list.splits)

lemma validated_ascii:
  assumes "validate_and_extract_sub parse jwt = Inr s"
  shows "\<forall>c\<in>set jwt. byte_in 0 127 c"
proof
  fix c assume c: "c \<in> set jwt"
  obtain bs where "decode_parts (split_on (CHR ''.'') jwt) = Inr bs"
    using assms by (auto simp: validate_and_extract_sub_def Let_def and_then_eq_Inr split: if_splits)
  then show "byte_in 0 127 c"
    using split_on_chars [OF c, of "CHR ''.''"] decode_parts_chars by (auto simp: byte_in_def)
qed

lemma validated_nonempty: "validate_and_extract_sub parse jwt = Inr s \<Longrightarrow> jwt \<noteq> []"
  by (auto simp: validate_and_extract_sub_def)

text \<open>C20: A rotation never damages the token in place. If it fails, for whatever reason, the token
  file is what it was; if it succeeds, the file holds the trimmed new token with mode 0600, the
  temporary file is gone, and the next connection attempt, when it can read the file, loads
  exactly that token.\<close>

theorem host_jwt_rotation_atomic:
  assumes "apply_host_jwt parse H pid new path w = (r, w')"
  shows "(case r of
      Inl e \<Rightarrow> file_at w' path = file_at w path
    | Inr _ \<Rightarrow> file_at w' path = Some \<lparr>fi_content = trim new, fi_mode = 384\<rparr> \<and>
               file_at w' (jwt_tmp_path pid path) = None \<and>
               (if op_fault H ''stat'' path w' = None \<and> op_fault H ''read'' path w' = None
                then load_host_jwt H path w' = (Inr (trim new), w') else True))"
  using assms
proof (cases rule: apply_host_jwt_cases)
  case (refused e)
  then show ?thesis by simp
next
  case (written new_sub)
  show ?thesis
  proof (cases r)
    case (Inl e)
    then show ?thesis using written(3) write_atomic_Inl by simp
  next
    case (Inr u)
    then have "write_host_jwt_atomic H pid path (trim new) w = (Inr (), w')" using written(3) by simp
    from write_atomic_Inr [OF this] have f: "file_at w' path = Some \<lparr>fi_content = trim new, fi_mode = 384\<rparr>"
      "file_at w' (jwt_tmp_path pid path) = None" by auto
    have "valid_utf8 (trim new)" by (rule valid_utf8_ascii) (rule validated_ascii [OF written(1)])
    moreover have "trim new \<noteq> []" by (rule validated_nonempty [OF written(1)])
    ultimately show ?thesis
      using Inr f
      by (simp add: load_host_jwt_def fs_stat_mode_def fs_read_to_string_def fs_read_def io_bind_def io_simps
          trim_idem Let_def)
  qed
qed

definition sample_jwt :: string where
  "sample_jwt = ''YQ.YQ.YQ''"

lemma sample_rotation:
  "apply_host_jwt (\<lambda>_. None) calm_ops 7 sample_jwt ''/j'' empty_host =
     (Inr (), \<lparr>ho_files = [(''/j'', \<lparr>fi_content = sample_jwt, fi_mode = 384\<rparr>)], ho_rest = []\<rparr>)"
  by code_simp

theorem host_jwt_rotation_atomic_witness:
  "load_host_jwt calm_ops ''/j'' \<lparr>ho_files = [(''/j'', \<lparr>fi_content = sample_jwt, fi_mode = 384\<rparr>)], ho_rest = []\<rparr> =
     (Inr (trim sample_jwt), \<lparr>ho_files = [(''/j'', \<lparr>fi_content = sample_jwt, fi_mode = 384\<rparr>)], ho_rest = []\<rparr>)"
  using host_jwt_rotation_atomic [OF sample_rotation] by simp

text \<open>When the installed token names a host, a token that names another one is not installed.\<close>

theorem host_jwt_subject_kept:
  assumes "apply_host_jwt parse H pid new path w = (r, w')" and "current_host_sub parse H path w = Some c"
    and "validate_and_extract_sub parse (trim new) = Inr (Some n)"
  shows "if n = c then r = fst (write_host_jwt_atomic H pid path (trim new) w) else (\<exists>e. r = Inl e) \<and> w' = w"
  using assms by (auto simp: apply_host_jwt_def)

definition sub_parser :: "string \<Rightarrow> json option" where
  "sub_parser s = Some (JObject [(''sub'', JString s)])"

definition installed :: "string list list host" where
  "installed = \<lparr>ho_files = [(''/j'', \<lparr>fi_content = sample_jwt, fi_mode = 384\<rparr>)], ho_rest = []\<rparr>"

lemma sample_subs:
  "current_host_sub sub_parser calm_ops ''/j'' installed = Some ''a''"
  "validate_and_extract_sub sub_parser (trim ''YQ.Yg.YQ'') = Inr (Some ''b'')"
  by code_simp+

theorem host_jwt_subject_kept_witness:
  "\<exists>e. apply_host_jwt sub_parser calm_ops 7 ''YQ.Yg.YQ'' ''/j'' installed = (Inl e, installed)"
  using host_jwt_subject_kept [OF _ sample_subs, of 7
      "fst (apply_host_jwt sub_parser calm_ops 7 ''YQ.Yg.YQ'' ''/j'' installed)"
      "snd (apply_host_jwt sub_parser calm_ops 7 ''YQ.Yg.YQ'' ''/j'' installed)"]
  by (cases "apply_host_jwt sub_parser calm_ops 7 ''YQ.Yg.YQ'' ''/j'' installed") auto

end
