(* ===== verification/CooldHandlers.thy ===== *)
theory CooldHandlers
  imports CooldFirewall CooldPodman CooldHostJwt
begin

text \<open>
  \<open>coold/src/grpc/handlers.rs\<close> apart from the firewall: the ingress, the log commands, the listing of
  containers, and the dispatch of a command to its handler. Each command that is not a ping is
  answered with one response.
\<close>

section \<open>Mesh networks\<close>

definition mesh_dns_search_domain :: "string \<Rightarrow> string result" where
  "mesh_dns_search_domain network =
     (case Option.bind (strip_prefix network ''coolify-'') (\<lambda>v. strip_suffix v ''-mesh'') of
        Some ns \<Rightarrow> if ns = [] then Inl ''invalid mesh network name'' else Inr (ns @ ''.coolify.internal'')
      | None \<Rightarrow> Inl ''invalid mesh network name'')"

definition is_mesh_network :: "string \<Rightarrow> bool" where
  "is_mesh_network n = (starts_with n ''coolify-'' \<and> ends_with n ''-mesh'')"

definition apply_mesh_dns_defaults :: "'k host_ops \<Rightarrow> create_container_input \<Rightarrow> ('k, create_container_input) hio" where
  "apply_mesh_dns_defaults H i =
     (case find is_mesh_network (in_networks i) of
        None \<Rightarrow> io_return i
      | Some network \<Rightarrow>
          io_bind (if in_dns i = [] then
                     io_bind (mesh_network_gateway H network) (\<lambda>g. io_return (i\<lparr>in_dns := [g]\<rparr>))
                   else io_return i) (\<lambda>i1.
          if in_dns_search i1 = [] then
            io_bind (io_lift (mesh_dns_search_domain network)) (\<lambda>d. io_return (i1\<lparr>in_dns_search := [d]\<rparr>))
          else io_return i1))"

section \<open>Ingress\<close>

definition is_valid_podman_network_name :: "string \<Rightarrow> bool" where
  "is_valid_podman_network_name v =
     (v \<noteq> [] \<and> length v \<le> 128 \<and> list_all (\<lambda>c. is_alnum c \<or> c \<in> {CHR ''.'', CHR ''_'', CHR ''-''}) v)"

definition caddy_app_file_name :: "string \<Rightarrow> string result" where
  "caddy_app_file_name v =
     (if v = [] \<or> 128 < length v \<or> \<not> list_all (\<lambda>c. is_alnum c \<or> c \<in> {CHR ''_'', CHR ''-''}) v then
        Inl ''invalid Caddy app file name''
      else Inr (v @ ''.caddy''))"

definition CADDY_BASE :: string where
  "CADDY_BASE = ''/data/coolify/v5/ingress/caddy''"

definition CADDY_IMAGE :: string where
  "CADDY_IMAGE = ''docker.io/library/caddy:2-alpine''"

definition start_caddy_args :: "string \<Rightarrow> string \<Rightarrow> string list" where
  "start_caddy_args network dns =
     [''run'', ''-d'', ''--replace'', ''--name'', ''coolify-v5-caddy'', ''--network'', network, ''--restart'', ''unless-stopped'',
      ''-p'', ''80:80'', ''--dns'', dns, ''-v'', CADDY_BASE @ ''/Caddyfile:/etc/caddy/Caddyfile:ro'',
      ''-v'', CADDY_BASE @ ''/apps:/etc/caddy/apps:ro'', ''-v'', CADDY_BASE @ ''/data:/data'',
      ''-v'', CADDY_BASE @ ''/config:/config'', CADDY_IMAGE]"

definition caddy_iptables_allow_args :: "string \<Rightarrow> string \<Rightarrow> string list" where
  "caddy_iptables_allow_args source subnet =
     [''-C'', ''COOLIFY-ALLOW'', ''-s'', source, ''-d'', subnet, ''-j'', ''ACCEPT'']"

definition caddy_iptables_insert_args :: "string \<Rightarrow> string \<Rightarrow> string list" where
  "caddy_iptables_insert_args source subnet =
     [''-I'', ''COOLIFY-ALLOW'', ''1'', ''-s'', source, ''-d'', subnet, ''-j'', ''ACCEPT'']"

definition caddy_nft_allow_rule :: "string \<Rightarrow> string \<Rightarrow> string" where
  "caddy_nft_allow_rule ip subnet = ''ip saddr '' @ ip @ '' ip daddr '' @ subnet @ '' accept''"

definition caddy_nft_add_args :: "string \<Rightarrow> string \<Rightarrow> string list" where
  "caddy_nft_add_args ip subnet =
     [''add'', ''rule'', ''bridge'', ''coolify_bridge'', ''coolify_allow'', ''meta'', ''protocol'', ''ip'', ''ip'', ''saddr'', ip,
      ''ip'', ''daddr'', subnet, ''accept'']"

definition ensure_caddy_mesh_firewall :: "'k host_ops \<Rightarrow> string \<Rightarrow> ('k, unit) hio" where
  "ensure_caddy_mesh_firewall H network =
     io_bind (container_ip H ''coolify-v5-caddy'' network) (\<lambda>ip.
     io_bind (mesh_network_subnet H network) (\<lambda>subnet.
     let source = ip @ ''/32'' in
     io_bind (io_try (run_command H ''iptables'' (caddy_iptables_allow_args source subnet))) (\<lambda>present.
     io_bind (if \<not> is_ok present then
                io_bind (io_context ''allow Caddy ingress through iptables''
                  (run_command H ''iptables'' (caddy_iptables_insert_args source subnet))) (\<lambda>_. io_return ())
              else io_return ()) (\<lambda>_.
     io_bind (io_try (run_command H ''nft'' [''list'', ''chain'', ''bridge'', ''coolify_bridge'', ''coolify_allow''])) (\<lambda>listed.
     let existing = (case listed of Inr t \<Rightarrow> t | Inl _ \<Rightarrow> []) in
     if \<not> contains_str existing (caddy_nft_allow_rule ip subnet) then
       io_bind (io_context ''allow Caddy ingress through bridge firewall''
         (run_command H ''nft'' (caddy_nft_add_args ip subnet))) (\<lambda>_. io_return ())
     else io_return ())))))"

definition start_or_reload_caddy :: "'k host_ops \<Rightarrow> string \<Rightarrow> ('k, string) hio" where
  "start_or_reload_caddy H network =
     io_bind (io_context ''get mesh network DNS'' (mesh_network_gateway H network)) (\<lambda>dns.
     io_bind (io_try (run_command H ''podman'' [''container'', ''exists'', ''coolify-v5-caddy''])) (\<lambda>running.
     io_bind (if is_ok running then
                io_bind (io_context ''recreate Caddy ingress''
                  (run_command H ''podman'' [''rm'', ''-f'', ''coolify-v5-caddy''])) (\<lambda>_. io_return ())
              else io_return ()) (\<lambda>_.
     io_bind (io_context ''start Caddy ingress'' (run_command H ''podman'' (start_caddy_args network dns))) (\<lambda>output.
     io_bind (io_context ''allow Caddy ingress to reach mesh containers'' (ensure_caddy_mesh_firewall H network)) (\<lambda>_.
     io_return (if trim output = [] then ''Caddy ingress applied.'' else output))))))"

text \<open>The configuration of every app is written under its name; then the files of other apps go.\<close>

fun write_app_configs :: "'k host_ops \<Rightarrow> string \<Rightarrow> proto_ingress_app list \<Rightarrow> ('k, string list) hio" where
  "write_app_configs H dir [] = io_return []"
| "write_app_configs H dir (a # as) =
     io_bind (io_lift (caddy_app_file_name (pia_name a))) (\<lambda>name.
     io_bind (io_context ''write Caddy app config'' (fs_write H (dir @ ''/'' @ name) (pia_config a))) (\<lambda>_.
     io_bind (write_app_configs H dir as) (\<lambda>names. io_return (name # names))))"

definition is_stale_config :: "string list \<Rightarrow> string \<Rightarrow> bool" where
  "is_stale_config expected n = (ends_with n ''.caddy'' \<and> n \<notin> set expected)"

definition remove_stale_configs :: "'k host_ops \<Rightarrow> string \<Rightarrow> string list \<Rightarrow> ('k, unit) hio" where
  "remove_stale_configs H dir expected =
     io_bind (io_context ''read Caddy app config directory'' (fs_read_dir H dir)) (\<lambda>entries.
     io_each (\<lambda>n. if is_stale_config expected n then
                   io_context ''remove stale Caddy app config'' (fs_remove_file H (dir @ ''/'' @ n))
                 else io_return ()) entries)"

definition sync_app_configs :: "'k host_ops \<Rightarrow> string \<Rightarrow> proto_ingress_app list \<Rightarrow> ('k, unit) hio" where
  "sync_app_configs H dir apps =
     io_bind (write_app_configs H dir apps) (\<lambda>expected. remove_stale_configs H dir expected)"

definition MAX_CADDYFILE :: nat where
  "MAX_CADDYFILE = 256 * 1024"

definition validate_ingress :: "string \<Rightarrow> proto_ingress_app list \<Rightarrow> string \<Rightarrow> unit result" where
  "validate_ingress caddyfile apps network =
     (if trim caddyfile = [] then Inl ''caddyfile is empty''
      else if MAX_CADDYFILE < length caddyfile \<or> list_ex (\<lambda>a. MAX_CADDYFILE < length (pia_config a)) apps then
        Inl ''caddyfile is too large''
      else if \<not> is_valid_podman_network_name network then Inl ''invalid mesh network name''
      else Inr ())"

definition apply_caddy_ingress :: "'k host_ops \<Rightarrow> string \<Rightarrow> proto_ingress_app list \<Rightarrow> string \<Rightarrow> ('k, string) hio" where
  "apply_caddy_ingress H caddyfile apps network =
     (let apps_path = CADDY_BASE @ ''/apps''; tmp = CADDY_BASE @ ''/Caddyfile.tmp'' in
      io_bind (io_lift (validate_ingress caddyfile apps network)) (\<lambda>_.
      io_bind (io_context ''create Caddy app config directory'' (fs_create_dir_all H apps_path)) (\<lambda>_.
      io_bind (io_context ''create Caddy data directory'' (fs_create_dir_all H (CADDY_BASE @ ''/data''))) (\<lambda>_.
      io_bind (io_context ''create Caddy config directory'' (fs_create_dir_all H (CADDY_BASE @ ''/config''))) (\<lambda>_.
      io_bind (sync_app_configs H apps_path apps) (\<lambda>_.
      io_bind (io_context ''write temporary Caddyfile'' (fs_write H tmp caddyfile)) (\<lambda>_.
      io_bind (io_context ''pull Caddy image'' (run_command H ''podman'' [''pull'', CADDY_IMAGE])) (\<lambda>_.
      io_bind (io_context ''validate Caddyfile''
        (run_command H ''podman'' [''run'', ''--rm'', ''-v'', CADDY_BASE @ '':/etc/caddy:ro'', CADDY_IMAGE, ''caddy'', ''validate'',
           ''--config'', ''/etc/caddy/Caddyfile.tmp''])) (\<lambda>_.
      io_bind (io_context ''install Caddyfile'' (fs_rename H tmp (CADDY_BASE @ ''/Caddyfile''))) (\<lambda>_.
      start_or_reload_caddy H network))))))))))"

definition apply_ingress ::
  "'k host_ops \<Rightarrow> string \<Rightarrow> string \<Rightarrow> proto_ingress_app list \<Rightarrow> string \<Rightarrow> ('k, string) hio" where
  "apply_ingress H k config apps network =
     (if k = ''caddy'' then apply_caddy_ingress H config apps network
      else io_fail (''unsupported ingress kind: '' @ k))"

definition stop_caddy_ingress :: "'k host_ops \<Rightarrow> ('k, string) hio" where
  "stop_caddy_ingress H =
     io_bind (io_context ''stop Caddy ingress'' (run_command H ''podman'' [''rm'', ''-f'', ''coolify-v5-caddy''])) (\<lambda>output.
     io_return (if trim output = [] then ''Caddy ingress stopped.'' else output))"

definition stop_ingress :: "'k host_ops \<Rightarrow> string \<Rightarrow> ('k, string) hio" where
  "stop_ingress H k =
     (if k = ''caddy'' then stop_caddy_ingress H else io_fail (''unsupported ingress kind: '' @ k))"

section \<open>Logs and listings\<close>

definition coold_logs :: "'k host_ops \<Rightarrow> u32 \<Rightarrow> ('k, string) hio" where
  "coold_logs H tail =
     io_bind (io_context ''read coold journal logs''
        (op_command H ''journalctl'' [''--unit'', ''coold'', ''--no-pager'', ''--output'', ''short-iso'', ''--lines'',
           show_nat (unat (clamp_u32 1 1000 tail))])) (\<lambda>out.
     let combined = join [CHR 0x0A] (filter (\<lambda>l. l \<noteq> [])
           (lines (from_utf8_lossy (ou_stdout out)) @ lines (from_utf8_lossy (ou_stderr out)))) in
     if \<not> ou_success out then
       io_fail (if combined = [] then ''journalctl exited with '' @ ou_status out else combined)
     else io_return combined)"

definition summary_of :: "container \<Rightarrow> container_inspect result \<Rightarrow> container_summary" where
  "summary_of c r =
     \<lparr>cs_id = co_id c,
      cs_name = trim_start_matches (CHR ''/'') (case co_names c of [] \<Rightarrow> [] | n # _ \<Rightarrow> n),
      cs_image = co_image c, cs_state = co_state c,
      cs_networks = (case r of
          Inr i \<Rightarrow> (case ci_network_settings i of Some nets \<Rightarrow> map fst nets | None \<Rightarrow> [])
        | Inl _ \<Rightarrow> [])\<rparr>"

text \<open>The inspections run concurrently; their results are matched with the containers by position.\<close>

definition container_summaries :: "'w podman \<Rightarrow> ('w, container_summary list) io" where
  "container_summaries P =
     io_bind (containers_list P) (\<lambda>cs.
     io_map (\<lambda>c. io_bind (io_try (inspect_container P (co_id c))) (\<lambda>r. io_return (summary_of c r))) cs)"

section \<open>Dispatch\<close>

record 'k agent =
  ag_podman :: "'k host podman"
  ag_corrosion :: "'k host corrosion"
  ag_ops :: "'k host_ops"
  ag_host_jwt_path :: string
  ag_owner_check :: endpoint_owner_check
  ag_json :: "string \<Rightarrow> json option"
  ag_pid :: nat

definition error_body :: "string \<Rightarrow> proto_body" where
  "error_body e = BError 500 e"

definition respond :: "('a \<Rightarrow> proto_body) \<Rightarrow> ('w, 'a) io \<Rightarrow> 'w \<Rightarrow> proto_body \<times> 'w" where
  "respond mk m w = (case m w of (Inr a, w') \<Rightarrow> (mk a, w') | (Inl e, w') \<Rightarrow> (error_body e, w'))"

definition image_summary_of :: "image \<Rightarrow> image_summary" where
  "image_summary_of i =
     \<lparr>im_id = img_id i, im_repo_tags = img_repo_tags i, im_repo_digests = img_repo_digests i,
      im_size = img_size i, im_created = img_created i\<rparr>"

definition create_input_of :: "containers_create_req \<Rightarrow> create_container_input" where
  "create_input_of r =
     \<lparr>in_name = cr_name r, in_image = cr_image r, in_command = cr_command r, in_env = cr_env r,
      in_networks = cr_networks r, in_volumes = cr_volumes r,
      in_ports = map (\<lambda>p. \<lparr>cp_host_ip = pp_host_ip p, cp_host_port = pp_host_port p,
                          cp_container_port = pp_container_port p, cp_protocol = pp_protocol p\<rparr>) (cr_ports r),
      in_dns = cr_dns r, in_dns_search = cr_dns_search r, in_network_aliases = cr_network_aliases r,
      in_restart_policy = cr_restart_policy r, in_privileged = cr_privileged r,
      in_network_mode = cr_network_mode r, in_capabilities = cr_capabilities r\<rparr>"

definition handle_containers_delete :: "'k agent \<Rightarrow> string \<Rightarrow> bool \<Rightarrow> 'k host \<Rightarrow> proto_body option \<times> 'k host" where [simp]:
  "handle_containers_delete A cid force w =
     map_prod Some id (respond BContainersDelete (delete_container (ag_podman A) cid force) w)"

definition handle_containers_inspect :: "'k agent \<Rightarrow> string \<Rightarrow> 'k host \<Rightarrow> proto_body option \<times> 'k host" where [simp]:
  "handle_containers_inspect A cid w =
     map_prod Some id (respond BContainersInspect (inspect_container_json (ag_podman A) cid) w)"

definition handle_containers_list :: "'k agent \<Rightarrow> 'k host \<Rightarrow> proto_body option \<times> 'k host" where [simp]:
  "handle_containers_list A w =
     map_prod Some id (respond BContainersList (container_summaries (ag_podman A)) w)"

definition handle_containers_logs :: "'k agent \<Rightarrow> string \<Rightarrow> u32 \<Rightarrow> bool \<Rightarrow> bool \<Rightarrow> 'k host \<Rightarrow> proto_body option \<times> 'k host" where [simp]:
  "handle_containers_logs A cid tail out err w =
     map_prod Some id (respond BContainersLogs (container_logs (ag_podman A) cid tail out err) w)"

definition handle_containers_exec :: "'k agent \<Rightarrow> string \<Rightarrow> string list \<Rightarrow> 'k host \<Rightarrow> proto_body option \<times> 'k host" where [simp]:
  "handle_containers_exec A cid command w =
     map_prod Some id (respond (\<lambda>(code, out). BContainersExec code out) (exec_container (ag_podman A) cid command) w)"

definition handle_containers_healthcheck_run :: "'k agent \<Rightarrow> string \<Rightarrow> 'k host \<Rightarrow> proto_body option \<times> 'k host" where [simp]:
  "handle_containers_healthcheck_run A cid w =
     map_prod Some id (respond BContainersHealthcheckRun (run_healthcheck (ag_podman A) cid) w)"

definition handle_ingress_apply :: "'k agent \<Rightarrow> string \<Rightarrow> string \<Rightarrow> string \<Rightarrow> proto_ingress_app list \<Rightarrow> 'k host \<Rightarrow> proto_body option \<times> 'k host" where [simp]:
  "handle_ingress_apply A k config network apps w =
     map_prod Some id (respond BIngressApply (apply_ingress (ag_ops A) k config apps network) w)"

definition handle_ingress_stop :: "'k agent \<Rightarrow> string \<Rightarrow> 'k host \<Rightarrow> proto_body option \<times> 'k host" where [simp]:
  "handle_ingress_stop A k w =
     map_prod Some id (respond BIngressStop (stop_ingress (ag_ops A) k) w)"

definition handle_firewall_allow :: "'k agent \<Rightarrow> proto_firewall_rule option \<Rightarrow> 'k host \<Rightarrow> proto_body option \<times> 'k host" where [simp]:
  "handle_firewall_allow A rule w =
     (case rule of
        Some r \<Rightarrow> map_prod Some id (respond (\<lambda>(i, out). BFirewallAllow i out)
          (firewall_allow (ag_ops A) (ag_corrosion A) (ag_owner_check A) (rule_from_proto r)) w)
      | None \<Rightarrow> (Some (error_body ''missing firewall rule''), w))"

definition handle_firewall_revoke :: "'k agent \<Rightarrow> string \<Rightarrow> 'k host \<Rightarrow> proto_body option \<times> 'k host" where [simp]:
  "handle_firewall_revoke A i w =
     map_prod Some id (respond BFirewallRevoke (firewall_revoke (ag_ops A) i) w)"

definition handle_firewall_list :: "'k agent \<Rightarrow> string \<Rightarrow> 'k host \<Rightarrow> proto_body option \<times> 'k host" where [simp]:
  "handle_firewall_list A ns w =
     map_prod Some id (respond (\<lambda>rs. BFirewallList (map rule_to_proto rs)) (firewall_list (ag_ops A) ns) w)"

definition handle_firewall_reconcile :: "'k agent \<Rightarrow> 'k host \<Rightarrow> proto_body option \<times> 'k host" where [simp]:
  "handle_firewall_reconcile A w =
     map_prod Some id (respond BFirewallReconcile (firewall_reconcile (ag_ops A)) w)"

definition handle_coold_logs :: "'k agent \<Rightarrow> u32 \<Rightarrow> 'k host \<Rightarrow> proto_body option \<times> 'k host" where [simp]:
  "handle_coold_logs A tail w =
     map_prod Some id (respond BCooldLogs (coold_logs (ag_ops A) tail) w)"

definition handle_corrosion_tables :: "'k agent \<Rightarrow> u32 \<Rightarrow> 'k host \<Rightarrow> proto_body option \<times> 'k host" where [simp]:
  "handle_corrosion_tables A limit w =
     map_prod Some id (respond BCorrosionTables (tables_json (ag_corrosion A) limit) w)"

definition handle_host_jwt_set :: "'k agent \<Rightarrow> string \<Rightarrow> 'k host \<Rightarrow> proto_body option \<times> 'k host" where [simp]:
  "handle_host_jwt_set A jwt w =
     map_prod Some id (respond (\<lambda>_. BHostJwtSet True)
       (apply_host_jwt (ag_json A) (ag_ops A) (ag_pid A) jwt (ag_host_jwt_path A)) w)"

fun handle_command :: "'k agent \<Rightarrow> server_command \<Rightarrow> 'k host \<Rightarrow> proto_body option \<times> 'k host" where
  "handle_command A CmdPing w = (None, w)"
| "handle_command A (CmdImagesPull reference) w =
     map_prod Some id (respond (\<lambda>(d, out). BImagesPull d out) (pull_image (ag_podman A) reference) w)"
| "handle_command A CmdImagesList w =
     map_prod Some id (respond (\<lambda>is. BImagesList (map image_summary_of is)) (list_images (ag_podman A)) w)"
| "handle_command A (CmdImagesDelete reference force) w =
     map_prod Some id (respond BImagesDelete (delete_image (ag_podman A) reference force) w)"
| "handle_command A (CmdContainersCreate req) w =
     map_prod Some id (respond BContainersCreate
       (io_bind (apply_mesh_dns_defaults (ag_ops A) (create_input_of req)) (create_container (ag_podman A))) w)"
| "handle_command A (CmdContainersStart cid) w =
     map_prod Some id (respond BContainersStart (start_container (ag_podman A) cid) w)"
| "handle_command A (CmdContainersStop cid t) w =
     map_prod Some id (respond BContainersStop (stop_container (ag_podman A) cid t) w)"
| "handle_command A (CmdContainersRestart cid t) w =
     map_prod Some id (respond BContainersRestart (restart_container (ag_podman A) cid t) w)"
| "handle_command A (CmdContainersDelete cid force) w = handle_containers_delete A cid force w"
| "handle_command A (CmdContainersInspect cid) w = handle_containers_inspect A cid w"
| "handle_command A CmdContainersList w = handle_containers_list A w"
| "handle_command A (CmdContainersLogs cid tail out err) w = handle_containers_logs A cid tail out err w"
| "handle_command A (CmdContainersExec cid command) w = handle_containers_exec A cid command w"
| "handle_command A (CmdContainersHealthcheckRun cid) w = handle_containers_healthcheck_run A cid w"
| "handle_command A (CmdIngressApply k config network apps) w = handle_ingress_apply A k config network apps w"
| "handle_command A (CmdIngressStop k) w = handle_ingress_stop A k w"
| "handle_command A (CmdFirewallAllow rule) w = handle_firewall_allow A rule w"
| "handle_command A (CmdFirewallRevoke i) w = handle_firewall_revoke A i w"
| "handle_command A (CmdFirewallList ns) w = handle_firewall_list A ns w"
| "handle_command A CmdFirewallReconcile w = handle_firewall_reconcile A w"
| "handle_command A (CmdCooldLogs tail) w = handle_coold_logs A tail w"
| "handle_command A (CmdCorrosionTables limit) w = handle_corrosion_tables A limit w"
| "handle_command A (CmdHostJwtSet jwt) w = handle_host_jwt_set A jwt w"

text \<open>\<open>handle\<close>: the messages that are put on the stream.\<close>

definition handle :: "'k agent \<Rightarrow> string \<Rightarrow> server_command \<Rightarrow> 'k host \<Rightarrow> client_msg list \<times> 'k host" where
  "handle A request_id command w =
     (case handle_command A command w of
        (None, w') \<Rightarrow> ([], w')
      | (Some body, w') \<Rightarrow> ([Some (PResponse \<lparr>pr_request_id = request_id, pr_body = Some body\<rparr>)], w'))"

fun command_type :: "server_command \<Rightarrow> string" where
  "command_type CmdPing = ''ping''"
| "command_type (CmdImagesPull _) = ''images.pull''"
| "command_type CmdImagesList = ''images.list''"
| "command_type (CmdImagesDelete _ _) = ''images.delete''"
| "command_type (CmdContainersCreate _) = ''containers.create''"
| "command_type (CmdContainersStart _) = ''containers.start''"
| "command_type (CmdContainersStop _ _) = ''containers.stop''"
| "command_type (CmdContainersRestart _ _) = ''containers.restart''"
| "command_type (CmdContainersDelete _ _) = ''containers.delete''"
| "command_type (CmdContainersInspect _) = ''containers.inspect''"
| "command_type CmdContainersList = ''containers.list''"
| "command_type (CmdContainersLogs _ _ _ _) = ''containers.logs''"
| "command_type (CmdContainersExec _ _) = ''containers.exec''"
| "command_type (CmdContainersHealthcheckRun _) = ''containers.healthcheck.run''"
| "command_type (CmdIngressApply _ _ _ _) = ''ingress.apply''"
| "command_type (CmdIngressStop _) = ''ingress.stop''"
| "command_type (CmdFirewallAllow _) = ''firewall.allow''"
| "command_type (CmdFirewallRevoke _) = ''firewall.revoke''"
| "command_type (CmdFirewallList _) = ''firewall.list''"
| "command_type CmdFirewallReconcile = ''firewall.reconcile''"
| "command_type (CmdCooldLogs _) = ''coold.logs''"
| "command_type (CmdCorrosionTables _) = ''corrosion.tables''"
| "command_type (CmdHostJwtSet _) = ''host.jwt.set''"

fun response_body_type :: "proto_body option \<Rightarrow> string" where
  "response_body_type None = ''none''"
| "response_body_type (Some (BImagesPull _ _)) = ''images.pull''"
| "response_body_type (Some (BImagesList _)) = ''images.list''"
| "response_body_type (Some (BImagesDelete _)) = ''images.delete''"
| "response_body_type (Some (BContainersCreate _)) = ''containers.create''"
| "response_body_type (Some (BContainersStart _)) = ''containers.start''"
| "response_body_type (Some (BContainersStop _)) = ''containers.stop''"
| "response_body_type (Some (BContainersRestart _)) = ''containers.restart''"
| "response_body_type (Some (BContainersDelete _)) = ''containers.delete''"
| "response_body_type (Some (BContainersInspect _)) = ''containers.inspect''"
| "response_body_type (Some (BContainersList _)) = ''containers.list''"
| "response_body_type (Some (BContainersLogs _)) = ''containers.logs''"
| "response_body_type (Some (BContainersExec _ _)) = ''containers.exec''"
| "response_body_type (Some (BContainersHealthcheckRun _)) = ''containers.healthcheck.run''"
| "response_body_type (Some (BIngressApply _)) = ''ingress.apply''"
| "response_body_type (Some (BIngressStop _)) = ''ingress.stop''"
| "response_body_type (Some (BFirewallAllow _ _)) = ''firewall.allow''"
| "response_body_type (Some (BFirewallRevoke _)) = ''firewall.revoke''"
| "response_body_type (Some (BFirewallList _)) = ''firewall.list''"
| "response_body_type (Some (BFirewallReconcile _)) = ''firewall.reconcile''"
| "response_body_type (Some (BCooldLogs _)) = ''coold.logs''"
| "response_body_type (Some (BCorrosionTables _)) = ''corrosion.tables''"
| "response_body_type (Some (BHostJwtSet _)) = ''host.jwt.set''"
| "response_body_type (Some (BError _ _)) = ''error''"

section \<open>Properties\<close>

lemma respond_type:
  "(\<And>a. response_body_type (Some (mk a)) = t) \<Longrightarrow>
     response_body_type (Some (fst (respond mk m w))) = t \<or> response_body_type (Some (fst (respond mk m w))) = ''error''"
  by (auto simp: respond_def error_body_def split: prod.splits sum.splits)

lemma handle_command_type:
  "command = CmdPing \<or>
     (\<exists>body. fst (handle_command A command w) = Some body \<and>
        (response_body_type (Some body) = command_type command \<or> response_body_type (Some body) = ''error''))"
proof (cases command)
  case (CmdFirewallAllow rule)
  then show ?thesis
    by (cases rule) (auto simp: error_body_def intro!: respond_type split: prod.splits)
qed (simp_all, auto intro!: respond_type split: prod.splits)

subsection \<open>What the session relies on\<close>

text \<open>The stream is one client of the handlers, the machine of a session another; both rely on one
  law: a command that is not a ping is answered with one response under its id, of its kind or an
  error. The responses already on the stream stay those of the commands that ran when one more runs,
  whatever it does to the state.\<close>

fun response_of :: "client_msg \<Rightarrow> proto_response list" where
  "response_of (Some (PResponse r)) = [r]"
| "response_of _ = []"

definition responses :: "client_msg list \<Rightarrow> proto_response list" where
  "responses ms = concat (map response_of ms)"

lemma responses_simps [simp]:
  "responses (a @ b) = responses a @ responses b" "responses [] = []" "responses [m] = response_of m"
  by (simp_all add: responses_def)

definition answers :: "string \<times> server_command \<Rightarrow> proto_response \<Rightarrow> bool" where
  "answers t r = (pr_request_id r = fst t \<and> pr_body r \<noteq> None \<and> response_body_type (pr_body r) \<in> {command_type (snd t), ''error''})"

locale command_handler =
  fixes handler :: "string \<Rightarrow> server_command \<Rightarrow> 's \<Rightarrow> client_msg list \<times> 's"
  assumes one_answer: "c \<noteq> CmdPing \<Longrightarrow> \<exists>r s'. handler rid c s = ([Some (PResponse r)], s') \<and> answers (rid, c) r"
begin

lemma answer:
  assumes "c \<noteq> CmdPing"
  obtains r s' where "handler rid c s = ([Some (PResponse r)], s')" "answers (rid, c) r"
  using one_answer [OF assms] by blast

lemma answers_extend:
  assumes "c \<noteq> CmdPing" and "list_all2 answers ts (responses out)"
  shows "list_all2 answers (ts @ [(rid, c)]) (responses (out @ fst (handler rid c s)))"
proof -
  obtain r s' where "handler rid c s = ([Some (PResponse r)], s')" "answers (rid, c) r" by (rule answer [OF assms(1)])
  then show ?thesis using assms(2) by (simp add: list_all2_appendI)
qed

end

interpretation coold_handler: command_handler "handle A" for A
proof unfold_locales
  fix c rid w
  assume "c \<noteq> CmdPing"
  then obtain body where b: "fst (handle_command A c w) = Some body"
    "response_body_type (Some body) = command_type c \<or> response_body_type (Some body) = ''error''"
    using handle_command_type [of c A w] by blast
  obtain w' where h: "handle_command A c w = (Some body, w')" using b(1) by (metis prod.collapse)
  have "handle A rid c w = ([Some (PResponse \<lparr>pr_request_id = rid, pr_body = Some body\<rparr>)], w')"
    by (simp only: handle_def h prod.case option.case)
  moreover have "answers (rid, c) \<lparr>pr_request_id = rid, pr_body = Some body\<rparr>" using b(2) by (simp add: answers_def)
  ultimately show "\<exists>r s'. handle A rid c w = ([Some (PResponse r)], s') \<and> answers (rid, c) r" by blast
qed

text \<open>A command is answered with exactly one message, under the id of its request, and its body is
  of the kind of the command or an error; only a ping is not answered here.\<close>

theorem one_response_of_own_kind:
  "if command = CmdPing then handle A rid command w = ([], w)
   else \<exists>body. fst (handle A rid command w) = [Some (PResponse \<lparr>pr_request_id = rid, pr_body = Some body\<rparr>)] \<and>
          (response_body_type (Some body) \<in> {command_type command, ''error''})"
proof (cases "command = CmdPing")
  case False
  obtain r s' where r: "handle A rid command w = ([Some (PResponse r)], s')" "answers (rid, command) r"
    by (rule coold_handler.answer [OF False])
  then show ?thesis using False by (cases r) (auto simp: answers_def)
qed (simp add: handle_def)

subsection \<open>App configurations\<close>

definition app_path :: "string \<Rightarrow> string \<Rightarrow> string" where
  "app_path dir n = dir @ ''/'' @ n"

lemma app_path_inj [simp]: "app_path dir a = app_path dir b \<longleftrightarrow> a = b"
  by (simp add: app_path_def)

text \<open>The configuration a file name is to hold: that of the last app with the name.\<close>

definition wanted_configs :: "proto_ingress_app list \<Rightarrow> string \<rightharpoonup> string" where
  "wanted_configs apps = map_of (rev (map (\<lambda>a. (pia_name a @ ''.caddy'', pia_config a)) apps))"

lemma caddy_app_file_name_Inr: "caddy_app_file_name v = Inr n \<Longrightarrow> n = v @ ''.caddy''"
  by (auto simp: caddy_app_file_name_def split: if_splits)

lemma write_app_configs_Inr:
  assumes "write_app_configs H dir apps w = (Inr names, w')"
  shows "names = map (\<lambda>a. pia_name a @ ''.caddy'') apps \<and>
     map_option fi_content (file_at w' (app_path dir n)) =
       (case wanted_configs apps n of Some c \<Rightarrow> Some c | None \<Rightarrow> map_option fi_content (file_at w (app_path dir n)))"
  using assms
proof (induction apps arbitrary: w names)
  case Nil
  then show ?case by (simp add: wanted_configs_def)
next
  case (Cons a as)
  obtain name w1 names' where n: "caddy_app_file_name (pia_name a) = Inr name"
    and w1: "fs_write H (dir @ ''/'' @ name) (pia_config a) w = (Inr (), w1)"
    and r: "write_app_configs H dir as w1 = (Inr names', w')" "names = name # names'"
    using Cons.prems by (cases "caddy_app_file_name (pia_name a)") (auto simp: io_bind_eq_Inr)
  obtain m where m: "w1 = put_file (app_path dir name) \<lparr>fi_content = pia_config a, fi_mode = m\<rparr> w"
    using fs_write_Inr [OF w1] by (auto simp: app_path_def)
  have name: "name = pia_name a @ ''.caddy''" by (rule caddy_app_file_name_Inr [OF n])
  show ?case
    using Cons.IH [OF r(1)] name r(2)
    by (auto simp: m wanted_configs_def map_add_def split: option.splits)
qed

lemma remove_each:
  assumes "io_each (\<lambda>n. if is_stale_config expected n then io_context c (fs_remove_file H (dir @ ''/'' @ n)) else io_return ())
      entries w = (Inr (), w')"
  shows "file_at w' (app_path dir n) =
     (if n \<in> set entries \<and> is_stale_config expected n then None else file_at w (app_path dir n))"
  using assms
proof (induction entries arbitrary: w)
  case (Cons e es)
  obtain w1 where s: "(if is_stale_config expected e then io_context c (fs_remove_file H (dir @ ''/'' @ e)) else io_return ()) w = (Inr (), w1)"
    and r: "io_each (\<lambda>n. if is_stale_config expected n then io_context c (fs_remove_file H (dir @ ''/'' @ n)) else io_return ()) es w1 = (Inr (), w')"
    using Cons.prems by (auto simp: io_bind_eq_Inr)
  have "w1 = (if is_stale_config expected e then drop_file (app_path dir e) w else w)"
    using s by (auto simp: fs_remove_file_def app_path_def split: if_splits option.splits)
  then show ?case using Cons.IH [OF r] by auto
qed simp

lemma in_map_filter: "y \<in> set (List.map_filter f xs) \<longleftrightarrow> (\<exists>x\<in>set xs. f x = Some y)"
  by (induction xs) (auto simp: map_filter_simps split: option.splits)

lemma in_dir_entries:
  "CHR ''/'' \<notin> set n \<Longrightarrow> n \<noteq> [] \<Longrightarrow> n \<in> set (dir_entries dir w) \<longleftrightarrow> file_at w (app_path dir n) \<noteq> None"
proof -
  assume n: "CHR ''/'' \<notin> set n" "n \<noteq> []"
  have s: "strip_prefix p (dir @ ''/'') = Some n \<longleftrightarrow> p = app_path dir n" for p
    by (auto simp: strip_prefix_def starts_with_iff app_path_def)
  have e: "(case strip_prefix p (dir @ ''/'') of
        Some n' \<Rightarrow> if CHR ''/'' \<in> set n' \<or> n' = [] then None else Some n' | None \<Rightarrow> None) = Some n \<longleftrightarrow> p = app_path dir n" for p
    using n s [of p] by (cases "strip_prefix p (dir @ ''/'')") auto
  have "n \<in> set (dir_entries dir w) \<longleftrightarrow> (\<exists>(p, f) \<in> set (ho_files w). p = app_path dir n)"
    unfolding dir_entries_def in_map_filter by (auto simp: e split: prod.splits)
  then have "n \<in> set (dir_entries dir w) \<longleftrightarrow> (\<exists>f. (app_path dir n, f) \<in> set (ho_files w))" by auto
  then show ?thesis
    using map_of_eq_None_iff [of "ho_files w" "app_path dir n"] by (force simp: file_at_def)
qed

text \<open>After the app configurations were synchronised the directory holds, under each name with the
  suffix \<open>.caddy\<close>, exactly the configuration of the request, and no file of an app that is gone.\<close>

theorem app_configs_exact:
  assumes "sync_app_configs H dir apps w = (Inr (), w')"
    and "ends_with n ''.caddy''" and "CHR ''/'' \<notin> set n"
  shows "map_option fi_content (file_at w' (app_path dir n)) = wanted_configs apps n"
proof -
  obtain names w1 where w1: "write_app_configs H dir apps w = (Inr names, w1)"
    and rm: "remove_stale_configs H dir names w1 = (Inr (), w')"
    using assms(1) by (auto simp: sync_app_configs_def io_bind_eq_Inr)
  have "io_each (\<lambda>n. if is_stale_config names n then io_context ''remove stale Caddy app config'' (fs_remove_file H (dir @ ''/'' @ n)) else io_return ())
      (dir_entries dir w1) w1 = (Inr (), w')"
    using rm by (auto simp: remove_stale_configs_def fs_read_dir_def fs_guard_def io_bind_eq_Inr split: option.splits)
  from remove_each [OF this, of n]
  have r: "file_at w' (app_path dir n) =
      (if n \<in> set (dir_entries dir w1) \<and> is_stale_config names n then None else file_at w1 (app_path dir n))" .
  have ne: "n \<noteq> []" using assms(2) by (auto simp: ends_with_def starts_with_def)
  have nm: "names = map (\<lambda>a. pia_name a @ ''.caddy'') apps"
    and c: "map_option fi_content (file_at w1 (app_path dir n)) =
       (case wanted_configs apps n of Some c \<Rightarrow> Some c | None \<Rightarrow> map_option fi_content (file_at w (app_path dir n)))"
    using write_app_configs_Inr [OF w1, of n] by auto
  have "wanted_configs apps n = None \<longleftrightarrow> n \<notin> set names"
    by (auto simp: wanted_configs_def nm map_of_eq_None_iff image_image)
  then show ?thesis
    using r c in_dir_entries [OF assms(3) ne, of dir w1] assms(2)
    by (auto simp: is_stale_config_def split: option.splits if_splits)
qed

definition app_host :: "string list list host" where
  "app_host = \<lparr>ho_files = [(''d/old.caddy'', \<lparr>fi_content = ''x'', fi_mode = 420\<rparr>)], ho_rest = []\<rparr>"

lemma sample_sync:
  "\<exists>w'. sync_app_configs calm_ops ''d'' [\<lparr>pia_name = ''web'', pia_config = ''c''\<rparr>] app_host = (Inr (), w')"
  by (simp add: sync_app_configs_def remove_stale_configs_def caddy_app_file_name_def is_alnum_def byte_in_def
      fs_write_def fs_write_with_def fs_read_dir_def fs_guard_def io_bind_def io_simps file_mode_def app_host_def
      put_file_def file_at_def hm_insert_def hm_remove_def dir_entries_def map_filter_simps strip_prefix_def starts_with_def
      is_stale_config_def ends_with_def fs_remove_file_def)

theorem app_configs_exact_witness:
  "\<exists>w'. sync_app_configs calm_ops ''d'' [\<lparr>pia_name = ''web'', pia_config = ''c''\<rparr>] app_host = (Inr (), w') \<and>
     file_at w' (app_path ''d'' ''old.caddy'') = None"
proof -
  obtain w' where w: "sync_app_configs calm_ops ''d'' [\<lparr>pia_name = ''web'', pia_config = ''c''\<rparr>] app_host = (Inr (), w')"
    using sample_sync by blast
  have "map_option fi_content (file_at w' (app_path ''d'' ''old.caddy'')) = wanted_configs [\<lparr>pia_name = ''web'', pia_config = ''c''\<rparr>] ''old.caddy''"
    by (rule app_configs_exact [OF w]) (simp_all add: ends_with_def starts_with_def)
  then have "file_at w' (app_path ''d'' ''old.caddy'') = None" by (simp add: wanted_configs_def)
  with w show ?thesis by blast
qed

end
