(* ===== verification/CooldClient.thy ===== *)
theory CooldClient
  imports CooldHandlers CooldSync "HOL-Library.Multiset"
begin

text \<open>
  \<open>coold/src/grpc/client.rs\<close>: the agent's end of the stream to flux. One group of definitions is the
  reconnect loop with its delays, one the choice of the URL and of TLS, one the session on an open
  stream: its inbound loop, the task that forwards status updates and the tasks it spawns for the
  commands, in any interleaving. The network and the assignment service are parameters. A duration
  is a number of milliseconds.
\<close>

section \<open>Reconnect delays\<close>

definition INITIAL_RECONNECT_BACKOFF :: nat where
  "INITIAL_RECONNECT_BACKOFF = 1000"

definition MAX_RECONNECT_BACKOFF :: nat where
  "MAX_RECONNECT_BACKOFF = 60000"

definition STABLE_STREAM_RESET_AFTER :: nat where
  "STABLE_STREAM_RESET_AFTER = 30000"

definition PERMANENT_REJECTION_RETRY_DELAY :: nat where
  "PERMANENT_REJECTION_RETRY_DELAY = 15 * 60 * 1000"

lemmas reconnect_constants = INITIAL_RECONNECT_BACKOFF_def MAX_RECONNECT_BACKOFF_def
  STABLE_STREAM_RESET_AFTER_def PERMANENT_REJECTION_RETRY_DELAY_def

definition next_backoff_after_delay :: "nat \<Rightarrow> nat" where
  "next_backoff_after_delay delay = min (delay * 2) MAX_RECONNECT_BACKOFF"

definition backoff_after_clean_stream_close :: "nat \<Rightarrow> nat \<Rightarrow> nat \<times> nat" where
  "backoff_after_clean_stream_close connected_for current =
     (if STABLE_STREAM_RESET_AFTER \<le> connected_for
      then (INITIAL_RECONNECT_BACKOFF, INITIAL_RECONNECT_BACKOFF)
      else (current, next_backoff_after_delay current))"

text \<open>The codes of a gRPC status. An error is its printed form and the status that is among its
  causes, if one is.\<close>

datatype grpc_code =
    CodeOk | CodeCancelled | CodeUnknown | CodeInvalidArgument | CodeDeadlineExceeded | CodeNotFound
  | CodeAlreadyExists | CodePermissionDenied | CodeResourceExhausted | CodeFailedPrecondition
  | CodeAborted | CodeOutOfRange | CodeUnimplemented | CodeInternal | CodeUnavailable | CodeDataLoss
  | CodeUnauthenticated

record stream_error =
  se_text :: string
  se_code :: "grpc_code option"

definition plain_error :: "string \<Rightarrow> stream_error" where
  "plain_error e = \<lparr>se_text = e, se_code = None\<rparr>"

definition error_context :: "string \<Rightarrow> stream_error \<Rightarrow> stream_error" where
  "error_context c e = e\<lparr>se_text := c @ '': '' @ se_text e\<rparr>"

definition permanent_codes :: "grpc_code list" where
  "permanent_codes = [CodeUnauthenticated, CodePermissionDenied, CodeInvalidArgument, CodeFailedPrecondition]"

definition retry_delay_for_error :: "stream_error \<Rightarrow> nat \<Rightarrow> nat" where
  "retry_delay_for_error e current =
     (case se_code e of
        Some c \<Rightarrow> if c \<in> set permanent_codes then PERMANENT_REJECTION_RETRY_DELAY else current
      | None \<Rightarrow> current)"

section \<open>What the agent announces\<close>

definition primitive_capabilities :: "string list" where
  "primitive_capabilities =
     [''images.pull'', ''images.list'', ''images.delete'', ''containers.create'', ''containers.start'',
      ''containers.stop'', ''containers.restart'', ''containers.delete'', ''containers.inspect'',
      ''containers.list'', ''containers.logs'', ''containers.exec'', ''containers.healthcheck.run'',
      ''ingress.apply'', ''ingress.stop'', ''firewall.allow'', ''firewall.revoke'', ''firewall.list'',
      ''firewall.reconcile'', ''coold.logs'', ''corrosion.tables'', ''host.jwt.set'']"

record assignment_req =
  ar_host_id :: string
  ar_coold_version :: string
  ar_capabilities :: "string list"

text \<open>\<open>version\<close> is the constant \<open>VERSION\<close> of the build.\<close>

definition assignment_request :: "string \<Rightarrow> coold_config \<Rightarrow> assignment_req" where
  "assignment_request version cfg =
     \<lparr>ar_host_id = cc_host_mgmt_ip cfg, ar_coold_version = version, ar_capabilities = primitive_capabilities\<rparr>"

definition assignment_json :: "assignment_req \<Rightarrow> json" where
  "assignment_json r =
     JObject [(''host_id'', JString (ar_host_id r)), (''coold_version'', JString (ar_coold_version r)),
              (''capabilities'', jstrings (ar_capabilities r))]"

definition hello_msg :: "string \<Rightarrow> coold_config \<Rightarrow> client_msg" where
  "hello_msg version cfg =
     Some (PHello \<lparr>he_host_mgmt_ip = cc_host_mgmt_ip cfg, he_coold_version = version, he_schema_min = 1,
                   he_schema_max = 1, he_capabilities = primitive_capabilities\<rparr>)"

definition pong_for :: "string \<Rightarrow> client_msg" where
  "pong_for request_id = Some (PPong request_id)"

section \<open>The URL and TLS\<close>

record client_tls =
  tls_ca :: string
  tls_domain :: "string option"

text \<open>The parameters: the assignment service, the URL parser, the transport (which reports a text),
  the metadata parser and the call that opens the stream (which reports a status).\<close>

record 'k client_net =
  cn_version :: string
  cn_post :: "string \<Rightarrow> string \<Rightarrow> json \<Rightarrow> ('k, http_reply) hio"
  cn_flux_url :: "string \<Rightarrow> string result"
  cn_from_shared :: "string \<Rightarrow> unit result"
  cn_tls_config :: "string \<Rightarrow> client_tls \<Rightarrow> unit result"
  cn_connect :: "string \<Rightarrow> client_tls option \<Rightarrow> ('k, unit) hio"
  cn_metadata :: "string \<Rightarrow> unit result"
  cn_stream :: "string \<Rightarrow> client_msg \<Rightarrow> 'k host \<Rightarrow> (stream_error + unit) \<times> 'k host"

definition resolve_flux_url ::
  "'k client_net \<Rightarrow> string option \<Rightarrow> string option \<Rightarrow> string \<Rightarrow> assignment_req \<Rightarrow> ('k, string) hio" where
  "resolve_flux_url N assignment_url flux_url jwt req =
     (case assignment_url of
        Some url \<Rightarrow>
          io_bind (io_context (''POST flux assignment '' @ url) (cn_post N url jwt (assignment_json req))) (\<lambda>resp.
          if \<not> hr_success resp then
            io_fail (''flux assignment '' @ url @ '' returned '' @ hr_status resp @ '': '' @
                     (case hr_body resp of Inr b \<Rightarrow> from_utf8_lossy b | Inl _ \<Rightarrow> []))
          else
            io_bind (io_context (''decode flux assignment response from '' @ url)
                       (io_lift (and_then (hr_body resp) (cn_flux_url N)))) (\<lambda>u.
            if trim u = [] then io_fail (''flux assignment '' @ url @ '' returned empty flux_url'')
            else io_return u))
      | None \<Rightarrow>
          (case flux_url of
             Some u \<Rightarrow> io_return u
           | None \<Rightarrow> io_fail ''COOLIFY_COOLD_ASSIGNMENT_URL or COOLIFY_COOLD_FLUX_URL must be set''))"

definition is_https :: "string \<Rightarrow> bool" where
  "is_https url = starts_with (to_ascii_lowercase (trim_start url)) ''https://''"

definition require_flux_tls :: "string \<Rightarrow> bool \<Rightarrow> bool result" where
  "require_flux_tls url pin_present =
     (if pin_present then Inr True
      else if is_https url then
        Inl (''flux URL '' @ url @ '' is https but no TLS pin file is present; refusing to connect without a pinned certificate'')
      else Inr False)"

text \<open>\<open>split("://").nth(1)\<close>: the part between the first and the second separator.\<close>

fun split_once_str :: "string \<Rightarrow> string \<Rightarrow> (string \<times> string) option" where
  "split_once_str p [] = (if p = [] then Some ([], []) else None)"
| "split_once_str p (c # cs) =
     (if starts_with (c # cs) p then Some ([], drop (length p) (c # cs))
      else map_option (\<lambda>(a, b). (c # a, b)) (split_once_str p cs))"

definition without_scheme :: "string \<Rightarrow> string" where
  "without_scheme url =
     (case split_once_str ''://'' url of
        None \<Rightarrow> url
      | Some (_, rest) \<Rightarrow> (case split_once_str ''://'' rest of None \<Rightarrow> rest | Some (a, _) \<Rightarrow> a))"

definition flux_tls_domain :: "string \<Rightarrow> string option" where
  "flux_tls_domain url =
     (let authority = hd (split_on_any [CHR ''/'', CHR ''?'', CHR ''#''] (without_scheme url));
          host = last (split_on (CHR ''@'') authority);
          host = trim (hd (split_on (CHR '':'') host)) in
      if host = [] then None else Some host)"

text \<open>The pin file: that it is not there is not an error, any other failure to read it is.\<close>

definition flux_tls_pin :: "'k host_ops \<Rightarrow> string \<Rightarrow> ('k, string option) hio" where
  "flux_tls_pin H path w =
     (case op_fault H ''read'' path w of
        Some e \<Rightarrow> (Inl (''read flux TLS pin '' @ path @ '': '' @ e), w)
      | None \<Rightarrow> (Inr (map_option fi_content (file_at w path)), w))"

definition flux_tls_config :: "'k host_ops \<Rightarrow> string \<Rightarrow> string \<Rightarrow> ('k, client_tls option) hio" where
  "flux_tls_config H url pin_path =
     io_bind (flux_tls_pin H pin_path) (\<lambda>pem.
     io_bind (io_lift (require_flux_tls url (pem \<noteq> None))) (\<lambda>tls.
     io_return (if tls then map_option (\<lambda>p. \<lparr>tls_ca = p, tls_domain = flux_tls_domain url\<rparr>) pem else None)))"

section \<open>Opening the stream\<close>

text \<open>The part of \<open>connect_and_serve\<close> up to the established stream.\<close>

definition connect_flux :: "'k client_net \<Rightarrow> 'k host_ops \<Rightarrow> coold_config \<Rightarrow> string \<Rightarrow> string \<Rightarrow> ('k, unit) hio" where
  "connect_flux N H cfg url jwt =
     io_bind (io_context ''invalid flux URL'' (io_lift (cn_from_shared N url))) (\<lambda>_.
     io_bind (flux_tls_config H url (cc_flux_tls_pin_path cfg)) (\<lambda>tls.
     io_bind (case tls of
                Some t \<Rightarrow> io_context ''configure flux TLS pin'' (io_lift (cn_tls_config N url t))
              | None \<Rightarrow> io_return ()) (\<lambda>_.
     io_bind (io_context ''connect to flux'' (cn_connect N url tls)) (\<lambda>_.
     io_context ''build bearer metadata'' (io_lift (cn_metadata N (''Bearer '' @ jwt)))))))"

definition open_stream ::
  "'k client_net \<Rightarrow> 'k host_ops \<Rightarrow> coold_config \<Rightarrow> string \<Rightarrow> string \<Rightarrow> 'k host \<Rightarrow> (stream_error + unit) \<times> 'k host" where
  "open_stream N H cfg url jwt w =
     (case connect_flux N H cfg url jwt w of
        (Inl e, w1) \<Rightarrow> (Inl (plain_error e), w1)
      | (Inr _, w1) \<Rightarrow>
          (case cn_stream N (''Bearer '' @ jwt) (hello_msg (cn_version N) cfg) w1 of
             (Inl e, w2) \<Rightarrow> (Inl (error_context ''open stream'' e), w2)
           | (Inr u, w2) \<Rightarrow> (Inr u, w2)))"

section \<open>A session\<close>

text \<open>
  The state of an open stream: the messages put on the outbound channel, whether its receiver is
  still there, the spawned commands that have not run yet, whether the forwarder of status updates
  runs, the state shared with the reconcile task, the host, and how the session ended. A spawned
  command is not ended with the session.
\<close>

record ('k, 'e) client_session =
  cs_out :: "client_msg list"
  cs_open :: bool
  cs_tasks :: "(string \<times> server_command) list"
  cs_forwarding :: bool
  cs_sync :: "'e sync_state"
  cs_host :: "'k host"
  cs_end :: "(stream_error + unit) option"

datatype client_event =
    Inbound server_msg
  | InboundError stream_error
  | InboundEnd
  | RunTask nat
  | StatusReceived resource_status_update
  | StatusLagged
  | StatusClosed
  | OutboundClosed

definition session_start :: "'k client_net \<Rightarrow> coold_config \<Rightarrow> 'e sync_state \<Rightarrow> 'k host \<Rightarrow> ('k, 'e) client_session" where
  "session_start N cfg sy w =
     \<lparr>cs_out = [hello_msg (cn_version N) cfg], cs_open = True, cs_tasks = [], cs_forwarding = True,
      cs_sync = resync_request sy, cs_host = w, cs_end = None\<rparr>"

definition enqueue :: "client_msg list \<Rightarrow> ('k, 'e) client_session \<Rightarrow> ('k, 'e) client_session" where
  "enqueue ms s = (if cs_open s then s\<lparr>cs_out := cs_out s @ ms\<rparr> else s)"

definition end_session :: "stream_error + unit \<Rightarrow> ('k, 'e) client_session \<Rightarrow> ('k, 'e) client_session" where
  "end_session r s = s\<lparr>cs_end := Some r, cs_forwarding := (case r of Inl _ \<Rightarrow> cs_forwarding s | Inr _ \<Rightarrow> False)\<rparr>"

definition inbound_msg :: "server_msg \<Rightarrow> ('k, 'e) client_session \<Rightarrow> ('k, 'e) client_session" where
  "inbound_msg m s =
     (case sm_command m of
        None \<Rightarrow> s
      | Some CmdPing \<Rightarrow>
          if cs_open s then enqueue [pong_for (sm_request_id m)] s
          else end_session (Inl (plain_error ''send Pong: channel closed'')) s
      | Some command \<Rightarrow> s\<lparr>cs_tasks := cs_tasks s @ [(sm_request_id m, command)]\<rparr>)"

definition run_task :: "'k agent \<Rightarrow> nat \<Rightarrow> ('k, 'e) client_session \<Rightarrow> ('k, 'e) client_session" where
  "run_task A i s =
     (if i < length (cs_tasks s) then
        (case cs_tasks s ! i of (rid, command) \<Rightarrow>
           (case handle A rid command (cs_host s) of (ms, w) \<Rightarrow>
              enqueue ms (s\<lparr>cs_tasks := take i (cs_tasks s) @ drop (Suc i) (cs_tasks s), cs_host := w\<rparr>)))
      else s)"

text \<open>The inbound loop acts while the session has not ended, the forwarder while it runs.\<close>

fun client_step :: "'k agent \<Rightarrow> ('k, 'e) client_session \<Rightarrow> client_event \<Rightarrow> ('k, 'e) client_session" where
  "client_step A s (Inbound m) = (if cs_end s = None then inbound_msg m s else s)"
| "client_step A s (InboundError e) =
     (if cs_end s = None then end_session (Inl (error_context ''receive ServerMsg'' e)) s else s)"
| "client_step A s InboundEnd = (if cs_end s = None then end_session (Inr ()) s else s)"
| "client_step A s (RunTask i) = run_task A i s"
| "client_step A s (StatusReceived u) =
     (if \<not> cs_forwarding s then s
      else if cs_open s then enqueue [Some (PResourceStatusUpdate u)] s
      else s\<lparr>cs_forwarding := False\<rparr>)"
| "client_step A s StatusLagged = (if cs_forwarding s then s\<lparr>cs_sync := resync_request (cs_sync s)\<rparr> else s)"
| "client_step A s StatusClosed = s\<lparr>cs_forwarding := False\<rparr>"
| "client_step A s OutboundClosed = s\<lparr>cs_open := False\<rparr>"

section \<open>The reconnect loop\<close>

text \<open>One turn of \<open>run\<close>: \<open>serve\<close> is the session from the established stream to its end, with the time
  it lasted. The result is the pause before the next turn and the backoff it starts with.\<close>

definition client_turn ::
  "'k client_net \<Rightarrow> 'k host_ops \<Rightarrow> coold_config \<Rightarrow> ('k host \<Rightarrow> nat \<times> (stream_error + unit) \<times> 'k host) \<Rightarrow>
   nat \<Rightarrow> 'k host \<Rightarrow> (nat \<times> nat) \<times> 'k host" where
  "client_turn N H cfg serve backoff w =
     (case load_host_jwt H (cc_host_jwt_path cfg) w of
        (Inl e, w1) \<Rightarrow> ((backoff, next_backoff_after_delay backoff), w1)
      | (Inr jwt, w1) \<Rightarrow>
          (case resolve_flux_url N (cc_assignment_url cfg) (cc_flux_url cfg) jwt
                  (assignment_request (cn_version N) cfg) w1 of
             (Inl e, w2) \<Rightarrow> ((backoff, next_backoff_after_delay backoff), w2)
           | (Inr url, w2) \<Rightarrow>
               (case open_stream N H cfg url jwt w2 of
                  (Inl e, w3) \<Rightarrow>
                    (let delay = retry_delay_for_error e backoff in ((delay, next_backoff_after_delay delay), w3))
                | (Inr _, w3) \<Rightarrow>
                    (case serve w3 of
                       (connected_for, Inr _, w4) \<Rightarrow> (backoff_after_clean_stream_close connected_for backoff, w4)
                     | (connected_for, Inl e, w4) \<Rightarrow>
                         (let delay = retry_delay_for_error e backoff in ((delay, next_backoff_after_delay delay), w4))))))"

definition grpc_disabled :: "coold_config \<Rightarrow> bool" where
  "grpc_disabled cfg = (cc_grpc_disabled cfg \<or> cc_flux_url cfg = None \<and> cc_assignment_url cfg = None)"

text \<open>The turns of the loop, one \<open>serve\<close> for each: the pauses it makes, and where it stands.\<close>

fun client_loop ::
  "'k client_net \<Rightarrow> 'k host_ops \<Rightarrow> coold_config \<Rightarrow> ('k host \<Rightarrow> nat \<times> (stream_error + unit) \<times> 'k host) list \<Rightarrow>
   nat \<Rightarrow> 'k host \<Rightarrow> nat list \<times> nat \<times> 'k host" where
  "client_loop N H cfg [] backoff w = ([], backoff, w)"
| "client_loop N H cfg (serve # serves) backoff w =
     (case client_turn N H cfg serve backoff w of ((delay, next), w1) \<Rightarrow>
        (case client_loop N H cfg serves next w1 of (delays, b, w2) \<Rightarrow> (delay # delays, b, w2)))"

text \<open>\<open>run\<close>: None when the transport is disabled, so that the task waits forever; otherwise the error
  of the first load of the token, or the loop.\<close>

definition client_run ::
  "'k client_net \<Rightarrow> 'k host_ops \<Rightarrow> coold_config \<Rightarrow> ('k host \<Rightarrow> nat \<times> (stream_error + unit) \<times> 'k host) list \<Rightarrow>
   'k host \<Rightarrow> (nat list result \<times> 'k host) option" where
  "client_run N H cfg serves w =
     (if grpc_disabled cfg then None
      else (case io_context ''initial host JWT load'' (load_host_jwt H (cc_host_jwt_path cfg)) w of
              (Inl e, w1) \<Rightarrow> Some (Inl e, w1)
            | (Inr _, w1) \<Rightarrow>
                (case client_loop N H cfg serves INITIAL_RECONNECT_BACKOFF w1 of
                   (delays, b, w2) \<Rightarrow> Some (Inr delays, w2))))"

section \<open>Delays stay in bounds\<close>

definition backoff_ok :: "nat \<Rightarrow> bool" where
  "backoff_ok b = (INITIAL_RECONNECT_BACKOFF \<le> b \<and> b \<le> MAX_RECONNECT_BACKOFF)"

definition delay_ok :: "nat \<Rightarrow> bool" where
  "delay_ok d = (backoff_ok d \<or> d = PERMANENT_REJECTION_RETRY_DELAY)"

lemma next_backoff_ok: "delay_ok d \<Longrightarrow> backoff_ok (next_backoff_after_delay d)"
  by (auto simp: delay_ok_def backoff_ok_def next_backoff_after_delay_def reconnect_constants)

lemma retry_delay_ok: "backoff_ok b \<Longrightarrow> delay_ok (retry_delay_for_error e b)"
  by (auto simp: delay_ok_def retry_delay_for_error_def split: option.splits)

lemma clean_close_ok:
  "backoff_ok b \<Longrightarrow> backoff_after_clean_stream_close t b = (d, n) \<Longrightarrow> delay_ok d \<and> backoff_ok n"
  using next_backoff_ok [of b]
  by (auto simp: backoff_after_clean_stream_close_def delay_ok_def backoff_ok_def reconnect_constants split: if_splits)

lemma client_turn_ok:
  assumes "backoff_ok b" and "client_turn N H cfg serve b w = ((d, n), w')"
  shows "delay_ok d \<and> backoff_ok n"
proof -
  have b: "delay_ok b \<and> backoff_ok (next_backoff_after_delay b)"
    using assms(1) next_backoff_ok [of b] by (simp add: delay_ok_def)
  have r: "delay_ok (retry_delay_for_error e b) \<and> backoff_ok (next_backoff_after_delay (retry_delay_for_error e b))" for e
    using retry_delay_ok [OF assms(1), of e] next_backoff_ok by blast
  show ?thesis
    using assms(2) b r clean_close_ok [OF assms(1)]
    by (auto simp: client_turn_def Let_def split: prod.splits sum.splits)
qed

text \<open>Whatever the network and flux do, the agent pauses before every reconnect, at least one
  second and at most a minute, or exactly a quarter of an hour after a permanent rejection; the
  backoff it carries to the next turn stays between one second and a minute.\<close>

theorem reconnect_delays_bounded:
  "case client_loop N H cfg serves INITIAL_RECONNECT_BACKOFF w of (delays, b, _) \<Rightarrow>
     length delays = length serves \<and> list_all (\<lambda>d. 1000 \<le> d \<and> d \<le> 60000 \<or> d = 900000) delays \<and> 1000 \<le> b \<and> b \<le> 60000"
proof -
  have "case client_loop N H cfg serves b w of (delays, b', _) \<Rightarrow>
      length delays = length serves \<and> list_all delay_ok delays \<and> backoff_ok b'" if "backoff_ok b" for b
    using that
  proof (induction serves arbitrary: b w)
    case (Cons serve serves)
    obtain d n w1 where t: "client_turn N H cfg serve b w = ((d, n), w1)" by (metis surj_pair)
    with client_turn_ok [OF Cons.prems t] Cons.IH [of n w1] show ?case by (auto split: prod.splits)
  qed simp
  from this [of INITIAL_RECONNECT_BACKOFF] show ?thesis
    by (auto simp: backoff_ok_def delay_ok_def reconnect_constants list_all_iff split: prod.splits)
qed

section \<open>TLS fails closed\<close>

lemma flux_tls_config_Inr:
  assumes "flux_tls_config H url pin w = (Inr tls, w')"
  shows "w' = w \<and> (case file_at w pin of
      None \<Rightarrow> tls = None \<and> \<not> is_https url
    | Some f \<Rightarrow> tls = Some \<lparr>tls_ca = fi_content f, tls_domain = flux_tls_domain url\<rparr>)"
  using assms
  by (auto simp: flux_tls_config_def flux_tls_pin_def require_flux_tls_def io_bind_eq_Inr split: option.splits if_splits)

text \<open>C29: A stream is only opened over a connection made with the pinned certificate when the pin
  file is there; without it the URL is not https and the connection was asked for without TLS. The
  host did not change before the connection was made.\<close>

theorem opened_stream_is_pinned:
  assumes "open_stream N H cfg url jwt w = (Inr (), w')"
  shows "case file_at w (cc_flux_tls_pin_path cfg) of
      Some f \<Rightarrow> \<exists>w1. cn_connect N url (Some \<lparr>tls_ca = fi_content f, tls_domain = flux_tls_domain url\<rparr>) w = (Inr (), w1)
    | None \<Rightarrow> \<not> is_https url \<and> (\<exists>w1. cn_connect N url None w = (Inr (), w1))"
proof -
  obtain w1 where "connect_flux N H cfg url jwt w = (Inr (), w1)"
    using assms by (auto simp: open_stream_def split: prod.splits sum.splits)
  then obtain tls w2 w3 w4 where t: "flux_tls_config H url (cc_flux_tls_pin_path cfg) w = (Inr tls, w2)"
    and c: "(case tls of Some t \<Rightarrow> io_context ''configure flux TLS pin'' (io_lift (cn_tls_config N url t)) | None \<Rightarrow> io_return ()) w2
              = (Inr (), w3)"
    and n: "cn_connect N url tls w3 = (Inr (), w4)"
    unfolding connect_flux_def io_bind_eq_Inr io_context_eq_Inr by auto
  have "w3 = w2" using c by (auto split: option.splits)
  with n flux_tls_config_Inr [OF t] show ?thesis by (auto split: option.splits)
qed

definition sample_net :: "string list list client_net" where
  "sample_net =
     \<lparr>cn_version = ''1'', cn_post = (\<lambda>_ _ _. io_fail ''no service''), cn_flux_url = (\<lambda>_. Inl ''bad''),
      cn_from_shared = (\<lambda>_. Inr ()), cn_tls_config = (\<lambda>_ _. Inr ()), cn_connect = (\<lambda>_ _. io_return ()),
      cn_metadata = (\<lambda>_. Inr ()), cn_stream = (\<lambda>_ _ w. (Inr (), w))\<rparr>"

definition client_config :: coold_config where
  "client_config =
     \<lparr>cc_host_mgmt_ip = ''10.0.0.1'', cc_podman_socket = ''/p'', cc_corrosion_url = ''http://c'', cc_namespaces = [],
      cc_reconcile_interval = 30000, cc_host_infra_reconcile_interval = 60000, cc_log_level = ''info'',
      cc_dns_zone = ''coolify.internal'', cc_dns_upstream = (V4 0, 53), cc_flux_url = Some ''https://flux:6443'',
      cc_assignment_url = None, cc_host_jwt_path = ''/j'', cc_grpc_disabled = False, cc_allowed_mount_sources = [],
      cc_flux_tls_pin_path = ''/pin'', cc_strict_endpoint_owner = True\<rparr>"

definition pinned_host :: "string list list host" where
  "pinned_host = \<lparr>ho_files = [(''/pin'', \<lparr>fi_content = ''PEM'', fi_mode = 420\<rparr>)], ho_rest = []\<rparr>"

lemma sample_open: "open_stream sample_net calm_ops client_config ''https://flux:6443'' ''t'' pinned_host = (Inr (), pinned_host)"
  by (simp add: open_stream_def connect_flux_def flux_tls_config_def flux_tls_pin_def require_flux_tls_def
      sample_net_def client_config_def pinned_host_def file_at_def io_bind_def io_simps)

theorem opened_stream_is_pinned_witness:
  "\<exists>w1. cn_connect sample_net ''https://flux:6443''
     (Some \<lparr>tls_ca = ''PEM'', tls_domain = flux_tls_domain ''https://flux:6443''\<rparr>) pinned_host = (Inr (), w1)"
  using opened_stream_is_pinned [OF sample_open] by (simp add: client_config_def pinned_host_def file_at_def)

section \<open>Commands are answered once, in any interleaving\<close>

text \<open>The commands and the pings a stream delivers before it ends.\<close>

fun accepted :: "client_event list \<Rightarrow> (string \<times> server_command) list" where
  "accepted [] = []"
| "accepted (Inbound m # es) =
     (case sm_command m of
        None \<Rightarrow> accepted es
      | Some c \<Rightarrow> if c = CmdPing then accepted es else (sm_request_id m, c) # accepted es)"
| "accepted (InboundError e # es) = []"
| "accepted (InboundEnd # es) = []"
| "accepted (_ # es) = accepted es"

fun pinged :: "client_event list \<Rightarrow> string list" where
  "pinged [] = []"
| "pinged (Inbound m # es) = (if sm_command m = Some CmdPing then sm_request_id m # pinged es else pinged es)"
| "pinged (InboundError e # es) = []"
| "pinged (InboundEnd # es) = []"
| "pinged (_ # es) = pinged es"

fun pong_of :: "client_msg \<Rightarrow> string list" where
  "pong_of (Some (PPong r)) = [r]"
| "pong_of _ = []"

definition pongs :: "client_msg list \<Rightarrow> string list" where
  "pongs ms = concat (map pong_of ms)"

lemma pongs_simps [simp]:
  "pongs (a @ b) = pongs a @ pongs b" "pongs [] = []" "pongs [m] = pong_of m"
  by (simp_all add: pongs_def)

text \<open>What holds of a session whose outbound channel is open: \<open>fin\<close> are the commands that ran.\<close>

definition session_ok :: "(string \<times> server_command) list \<Rightarrow> ('k, 'e) client_session \<Rightarrow> bool" where
  "session_ok fin s =
     (cs_open s \<and> (\<forall>t\<in>set (cs_tasks s). snd t \<noteq> CmdPing) \<and> list_all2 answers fin (responses (cs_out s)))"

lemma mset_remove_nth: "i < length xs \<Longrightarrow> add_mset (xs ! i) (mset (take i xs @ drop (Suc i) xs)) = mset xs"
  by (metis append_take_drop_id id_take_nth_drop mset.simps(2) mset_append union_mset_add_mset_right)

lemma run_task_ok:
  assumes "session_ok fin s" and "i < length (cs_tasks s)"
  shows "session_ok (fin @ [cs_tasks s ! i]) (run_task A i s) \<and> pongs (cs_out (run_task A i s)) = pongs (cs_out s) \<and>
     add_mset (cs_tasks s ! i) (mset (cs_tasks (run_task A i s))) = mset (cs_tasks s) \<and>
     cs_end (run_task A i s) = cs_end s"
proof -
  obtain rid c where t: "cs_tasks s ! i = (rid, c)" by (cases "cs_tasks s ! i")
  then have np: "c \<noteq> CmdPing" using assms nth_mem [OF assms(2)] by (auto simp: session_ok_def)
  obtain r w where h: "handle A rid c (cs_host s) = ([Some (PResponse r)], w)" by (rule coold_handler.answer [OF np])
  have "list_all2 answers (fin @ [(rid, c)]) (responses (cs_out s @ fst (handle A rid c (cs_host s))))"
    using assms(1) by (intro coold_handler.answers_extend [OF np]) (simp add: session_ok_def)
  moreover have "set (take i (cs_tasks s) @ drop (Suc i) (cs_tasks s)) \<subseteq> set (cs_tasks s)"
    by (auto dest: in_set_takeD in_set_dropD)
  ultimately show ?thesis
    using assms mset_remove_nth [OF assms(2)]
    by (auto simp: run_task_def t h session_ok_def enqueue_def)
qed

lemma other_step_ok:
  assumes "session_ok fin s" and "e \<noteq> OutboundClosed" and "\<And>i. e \<noteq> RunTask i"
  shows "session_ok fin (client_step A s e) \<and>
     pongs (cs_out (client_step A s e)) = pongs (cs_out s) @ (if cs_end s = None then pinged [e] else []) \<and>
     cs_tasks (client_step A s e) = cs_tasks s @ (if cs_end s = None then accepted [e] else []) \<and>
     (cs_end (client_step A s e) = None \<longleftrightarrow> cs_end s = None \<and> (\<forall>x. e \<noteq> InboundError x) \<and> e \<noteq> InboundEnd)"
proof (cases e)
  case (Inbound m)
  show ?thesis
  proof (cases "sm_command m")
    case (Some c)
    then show ?thesis
      using assms(1) Inbound
      by (cases c) (simp_all add: inbound_msg_def session_ok_def enqueue_def pong_for_def)
  qed (use assms(1) Inbound in \<open>simp add: inbound_msg_def\<close>)
qed (use assms in \<open>auto simp: session_ok_def enqueue_def end_session_def\<close>)

lemma accepted_Cons:
  "accepted (e # es) = accepted [e] @ (if (\<exists>x. e = InboundError x) \<or> e = InboundEnd then [] else accepted es)"
  "pinged (e # es) = pinged [e] @ (if (\<exists>x. e = InboundError x) \<or> e = InboundEnd then [] else pinged es)"
  by (cases e; simp split: option.splits)+

lemma session_run:
  assumes "session_ok fin s" and "OutboundClosed \<notin> set es"
  shows "\<exists>more. session_ok (fin @ more) (foldl (client_step A) s es) \<and>
     mset more + mset (cs_tasks (foldl (client_step A) s es)) =
       mset (cs_tasks s) + mset (if cs_end s = None then accepted es else []) \<and>
     pongs (cs_out (foldl (client_step A) s es)) = pongs (cs_out s) @ (if cs_end s = None then pinged es else [])"
  using assms
proof (induction es arbitrary: s fin)
  case Nil
  then show ?case by (intro exI [of _ "[]"]) simp
next
  case (Cons e es)
  let ?s = "client_step A s e"
  show ?case
  proof (cases "\<exists>i. e = RunTask i \<and> i < length (cs_tasks s)")
    case True
    then obtain i where e: "e = RunTask i" and i: "i < length (cs_tasks s)" by blast
    note r = run_task_ok [OF Cons.prems(1) i, of A]
    obtain more where m: "session_ok ((fin @ [cs_tasks s ! i]) @ more) (foldl (client_step A) ?s es)"
      "mset more + mset (cs_tasks (foldl (client_step A) ?s es)) =
         mset (cs_tasks ?s) + mset (if cs_end ?s = None then accepted es else [])"
      "pongs (cs_out (foldl (client_step A) ?s es)) = pongs (cs_out ?s) @ (if cs_end ?s = None then pinged es else [])"
      using Cons.IH [of "fin @ [cs_tasks s ! i]" ?s] r Cons.prems(2) e by auto
    have "add_mset (cs_tasks s ! i) (mset (cs_tasks ?s)) = mset (cs_tasks s)" "cs_end ?s = cs_end s"
      "pongs (cs_out ?s) = pongs (cs_out s)" using r e by simp_all
    then show ?thesis using m e by (intro exI [of _ "cs_tasks s ! i # more"]) auto
  next
    case False
    have "session_ok fin ?s \<and> pongs (cs_out ?s) = pongs (cs_out s) @ (if cs_end s = None then pinged [e] else []) \<and>
        cs_tasks ?s = cs_tasks s @ (if cs_end s = None then accepted [e] else []) \<and>
        (cs_end ?s = None \<longleftrightarrow> cs_end s = None \<and> (\<forall>x. e \<noteq> InboundError x) \<and> e \<noteq> InboundEnd)"
    proof (cases "\<exists>i. e = RunTask i")
      case True
      then show ?thesis using False Cons.prems(1) by (auto simp: run_task_def)
    next
      case no: False
      then show ?thesis using other_step_ok [OF Cons.prems(1), of e A] Cons.prems(2) by auto
    qed
    then show ?thesis
      using Cons.IH [of fin ?s] Cons.prems(2)
      unfolding foldl.simps accepted_Cons [of e es] by (auto split: if_splits)
  qed
qed

text \<open>C9: While the outbound channel is open, every command the stream delivers is answered exactly
  once. After any interleaving of deliveries, status updates, lags and runs of the spawned
  commands, the commands that ran and those still to run are together the accepted ones, the
  responses sent are, one for one, those of the commands that ran, each under its request id and of
  its command's kind or an error, and the pings were answered in order.\<close>

theorem commands_answered_once:
  assumes "OutboundClosed \<notin> set es"
    and "s = foldl (client_step A) (session_start N cfg sy w) es"
  shows "\<exists>done. mset done + mset (cs_tasks s) = mset (accepted es) \<and>
     list_all2 answers done (responses (cs_out s)) \<and> pongs (cs_out s) = pinged es"
proof -
  have "session_ok [] (session_start N cfg sy w)"
    by (simp add: session_ok_def session_start_def hello_msg_def)
  from session_run [OF this assms(1), of A] show ?thesis
    by (auto simp: session_ok_def session_start_def hello_msg_def assms(2))
qed

definition quiet_podman :: "string list list host podman" where
  "quiet_podman =
     \<lparr>po_http = (\<lambda>m p b w. (Inr \<lparr>hr_success = True, hr_status = ''200 OK'', hr_body = Inr []\<rparr>, w)),
      po_sleep_ms = (\<lambda>_ w. w), po_percent_encode = (\<lambda>S s. concat (map (pct_byte S) s)), po_to_vec = (\<lambda>_. Inr []),
      po_containers = (\<lambda>_. Inr []), po_inspect = (\<lambda>_. Inl ''EOF''), po_images = (\<lambda>_. Inr []),
      po_pull_report = (\<lambda>_. Inl ''EOF''), po_created_id = (\<lambda>_. Inr ''c1''), po_exec_id = (\<lambda>_. Inr ''e1''),
      po_exec_inspect = (\<lambda>_. Inl ''EOF''), po_canonicalize = (\<lambda>p _. Inr p), po_allowed_mount_sources = []\<rparr>"

definition sample_agent :: "string list list agent" where
  "sample_agent =
     \<lparr>ag_podman = quiet_podman, ag_corrosion = no_corrosion, ag_ops = calm_ops, ag_host_jwt_path = ''/j'',
      ag_owner_check = strict_owner, ag_json = (\<lambda>_. None), ag_pid = 1\<rparr>"

definition sample_events :: "client_event list" where
  "sample_events =
     [Inbound \<lparr>sm_request_id = ''r1'', sm_command = Some CmdImagesList\<rparr>,
      Inbound \<lparr>sm_request_id = ''p1'', sm_command = Some CmdPing\<rparr>, StatusLagged, RunTask 0,
      Inbound \<lparr>sm_request_id = ''r2'', sm_command = Some CmdContainersList\<rparr>, InboundEnd]"

definition idle_sync :: "unit sync_state" where
  "idle_sync = \<lparr>sy_snapshot = [], sy_resync = False, sy_bus = ()\<rparr>"

theorem commands_answered_once_witness:
  "pongs (cs_out (foldl (client_step sample_agent) (session_start sample_net client_config idle_sync pinned_host) sample_events))
     = [''p1'']"
proof -
  have "OutboundClosed \<notin> set sample_events" "pinged sample_events = [''p1'']"
    by (simp_all add: sample_events_def)
  with commands_answered_once [OF _ refl] show ?thesis by fastforce
qed

end
