(* ===== verification/DispatchSystem.thy ===== *)
theory DispatchSystem
  imports FluxBridge CooldClient
begin

text \<open>
  Flux and its agents together, as one step relation. A state is the server, the streams that are
  up, and for each of them the bounded channel of commands to the agent (\<open>mpsc::channel(64)\<close> in
  \<open>flux/src/main.rs\<close>), the session at the other end, and how much of what the session put on the
  stream flux has read. The steps are the operations of \<open>FluxServer\<close>, \<open>FluxBridge\<close> and
  \<open>CooldClient\<close>; any of them may come next. \<open>ds_calls\<close> notes each handler that went on to wait, with
  the channel its command was put on; the handler's own channel is its number in that list.
\<close>

section \<open>State\<close>

record ('k, 'e) dsystem =
  ds_server :: server
  ds_live :: "nat set"
  ds_host :: "nat \<Rightarrow> string"
  ds_down :: "nat \<Rightarrow> server_msg list"
  ds_agent :: "nat \<Rightarrow> ('k, 'e) client_session"
  ds_read :: "nat \<Rightarrow> nat"
  ds_calls :: "(dispatch_envelope \<times> nat) list"
  ds_next :: nat

definition COMMAND_CHANNEL_CAPACITY :: nat where
  "COMMAND_CHANNEL_CAPACITY = 64"

text \<open>\<open>try_send\<close> on the channel of a stream: its receiver is gone with the stream.\<close>

definition channel_try_send :: "('k, 'e) dsystem \<Rightarrow> nat \<Rightarrow> server_msg \<Rightarrow> try_send_result" where
  "channel_try_send s tx msg =
     (if tx \<notin> ds_live s then SendClosed
      else if COMMAND_CHANNEL_CAPACITY \<le> length (ds_down s tx) then SendFull
      else SendOk)"

definition unread :: "('k, 'e) dsystem \<Rightarrow> nat \<Rightarrow> client_msg list" where
  "unread s tx = drop (ds_read s tx) (cs_out (ds_agent s tx))"

definition ds_start :: "config \<Rightarrow> ('k, 'e) client_session \<Rightarrow> ('k, 'e) dsystem" where
  "ds_start c a =
     \<lparr>ds_server = server_new c, ds_live = {}, ds_host = (\<lambda>_. []), ds_down = (\<lambda>_. []), ds_agent = (\<lambda>_. a),
      ds_read = (\<lambda>_. 0), ds_calls = [], ds_next = 0\<rparr>"

section \<open>Steps\<close>

text \<open>The steps that carry a call on: the agent reads a message or runs a command, flux reads what the
  agent sent. \<open>jp\<close> is the JSON parser, \<open>A\<close> the agent behind each channel, \<open>lib\<close> the token library.\<close>

inductive carry ::
  "(string \<Rightarrow> json option) \<Rightarrow> (nat \<Rightarrow> 'k agent) \<Rightarrow> ('k, 'e) dsystem \<Rightarrow> ('k, 'e) dsystem \<Rightarrow> bool"
  for jp :: "string \<Rightarrow> json option" and A :: "nat \<Rightarrow> 'k agent" where
  agent_reads:
    "tx \<in> ds_live s \<Longrightarrow> ds_down s tx = m # ms \<Longrightarrow>
     carry jp A s (s\<lparr>ds_down := (ds_down s)(tx := ms),
       ds_agent := (ds_agent s)(tx := client_step (A tx) (ds_agent s tx) (Inbound m))\<rparr>)"
| agent_runs:
    "tx \<in> ds_live s \<Longrightarrow> i < length (cs_tasks (ds_agent s tx)) \<Longrightarrow>
     carry jp A s (s\<lparr>ds_agent := (ds_agent s)(tx := client_step (A tx) (ds_agent s tx) (RunTask i))\<rparr>)"
| flux_reads:
    "tx \<in> ds_live s \<Longrightarrow> unread s tx = m # ms \<Longrightarrow>
     carry jp A s (s\<lparr>ds_server := stream_msg jp inst (ds_host s tx) m (ds_server s),
       ds_read := (ds_read s)(tx := Suc (ds_read s tx))\<rparr>)"

inductive ds_step ::
  "'j jwt_lib \<Rightarrow> (string \<Rightarrow> json option) \<Rightarrow> (nat \<Rightarrow> 'k agent) \<Rightarrow> ('k, 'e) dsystem \<Rightarrow> ('k, 'e) dsystem \<Rightarrow> bool"
  for lib :: "'j jwt_lib" and jp :: "string \<Rightarrow> json option" and A :: "nat \<Rightarrow> 'k agent" where
  carries: "carry jp A s t \<Longrightarrow> ds_step lib jp A s t"
| dispatched:
    "coold_dispatch (channel_try_send s) inst (length (ds_calls s)) env (ds_server s) = (Awaiting rid rx (tx, msg), sv) \<Longrightarrow>
     ds_step lib jp A s (s\<lparr>ds_server := sv, ds_down := (ds_down s)(tx := ds_down s tx @ [msg]),
       ds_calls := ds_calls s @ [(env, tx)]\<rparr>)"
| refused:
    "coold_dispatch (channel_try_send s) inst (length (ds_calls s)) env (ds_server s) = (Answered r, sv) \<Longrightarrow>
     ds_step lib jp A s (s\<lparr>ds_server := sv\<rparr>)"
| status:
    "tx \<in> ds_live s \<Longrightarrow> e = StatusLagged \<or> e = StatusClosed \<or> (\<exists>u. e = StatusReceived u) \<Longrightarrow>
     ds_step lib jp A s (s\<lparr>ds_agent := (ds_agent s)(tx := client_step (A tx) (ds_agent s tx) e)\<rparr>)"
| marked:
    "heartbeat_tick uuid inst (ds_server s) = (pings, sv) \<Longrightarrow> ds_step lib jp A s (s\<lparr>ds_server := sv\<rparr>)"
| pinged:
    "channel_try_send s tx (ping_msg u) = SendOk \<Longrightarrow>
     ds_step lib jp A s (s\<lparr>ds_down := (ds_down s)(tx := ds_down s tx @ [ping_msg u])\<rparr>)"
| swept:
    "pending_sweep_tick inst (ds_server s) = (expired, sv) \<Longrightarrow> ds_step lib jp A s (s\<lparr>ds_server := sv\<rparr>)"
| connected:
    "stream lib clock now inst revs (ds_next s) r (ds_server s) = (Inr ses, sv) \<Longrightarrow>
     rq_first r = InMsg (hello_msg (cn_version N) cfg) \<Longrightarrow>
     ds_step lib jp A s (s\<lparr>ds_server := sv, ds_live := insert (ds_next s) (ds_live s),
       ds_host := (ds_host s)(ds_next s := ss_host_id ses), ds_down := (ds_down s)(ds_next s := []),
       ds_agent := (ds_agent s)(ds_next s := session_start N cfg sy w), ds_read := (ds_read s)(ds_next s := 1),
       ds_next := Suc (ds_next s)\<rparr>)"
| closed:
    "tx \<in> ds_live s \<Longrightarrow>
     ds_step lib jp A s (s\<lparr>ds_server := stream_close (ds_host s tx) reason (ds_server s), ds_live := ds_live s - {tx}\<rparr>)"

inductive ds_reachable ::
  "'j jwt_lib \<Rightarrow> (string \<Rightarrow> json option) \<Rightarrow> (nat \<Rightarrow> 'k agent) \<Rightarrow> ('k, 'e) dsystem \<Rightarrow> bool"
  for lib :: "'j jwt_lib" and jp :: "string \<Rightarrow> json option" and A :: "nat \<Rightarrow> 'k agent" where
  start: "ds_reachable lib jp A (ds_start c a)"
| step: "ds_reachable lib jp A s \<Longrightarrow> ds_step lib jp A s t \<Longrightarrow> ds_reachable lib jp A t"

text \<open>Where a command is on its way: on the channel, spawned at the agent, or answered on the stream.\<close>

definition carried :: "('k, 'e) dsystem \<Rightarrow> nat \<Rightarrow> (string \<times> server_command) list" where
  "carried s tx = accepted (map Inbound (ds_down s tx)) @ cs_tasks (ds_agent s tx)"

definition in_flight :: "('k, 'e) dsystem \<Rightarrow> nat \<Rightarrow> string \<Rightarrow> bool" where
  "in_flight s tx rid \<longleftrightarrow>
     rid \<in> fst ` set (carried s tx) \<or> rid \<in> pr_request_id ` set (responses (unread s tx))"

text \<open>Nothing is on its way to or from an agent.\<close>

definition quiet :: "('k, 'e) dsystem \<Rightarrow> bool" where
  "quiet s \<longleftrightarrow> (\<forall>tx\<in>ds_live s. ds_down s tx = [] \<and> cs_tasks (ds_agent s tx) = [] \<and> unread s tx = [])"

section \<open>Sessions of a stream that is up\<close>

definition session_live :: "('k, 'e) client_session \<Rightarrow> bool" where
  "session_live c \<longleftrightarrow> cs_open c \<and> cs_end c = None \<and> (\<forall>t\<in>set (cs_tasks c). snd t \<noteq> CmdPing)"

lemma session_start_live: "session_live (session_start N cfg sy w) \<and> length (cs_out (session_start N cfg sy w)) = 1"
  by (simp add: session_live_def session_start_def)

lemma inbound_live:
  assumes "session_live c"
  shows "client_step A c (Inbound m) =
     c\<lparr>cs_out := cs_out c @ map pong_for (CooldClient.pinged [Inbound m]), cs_tasks := cs_tasks c @ accepted [Inbound m]\<rparr>"
proof (cases "sm_command m")
  case (Some c')
  then show ?thesis
    using assms by (cases c') (simp_all add: session_live_def inbound_msg_def enqueue_def)
qed (simp add: inbound_msg_def)

lemma run_live:
  assumes "session_live c" and "i < length (cs_tasks c)"
  obtains r w where "client_step A c (RunTask i) =
     c\<lparr>cs_out := cs_out c @ [Some (PResponse r)], cs_tasks := take i (cs_tasks c) @ drop (Suc i) (cs_tasks c), cs_host := w\<rparr>"
    "answers (cs_tasks c ! i) r"
proof -
  obtain rid cmd where t: "cs_tasks c ! i = (rid, cmd)" by (cases "cs_tasks c ! i")
  have "cmd \<noteq> CmdPing" using assms nth_mem [OF assms(2)] t by (auto simp: session_live_def)
  then obtain r w where "handle A rid cmd (cs_host c) = ([Some (PResponse r)], w)" "answers (rid, cmd) r"
    by (rule coold_handler.answer)
  then show ?thesis using assms t by (intro that [of w r]) (simp_all add: run_task_def enqueue_def session_live_def)
qed

lemma status_live:
  assumes "session_live c" and "e = StatusLagged \<or> e = StatusClosed \<or> (\<exists>u. e = StatusReceived u)"
  obtains ms where "cs_out (client_step A c e) = cs_out c @ ms" "responses ms = []"
    "cs_tasks (client_step A c e) = cs_tasks c" "session_live (client_step A c e)"
proof -
  have "\<exists>ms. cs_out (client_step A c e) = cs_out c @ ms \<and> responses ms = [] \<and>
      cs_tasks (client_step A c e) = cs_tasks c \<and> session_live (client_step A c e)"
    using assms by (auto simp: session_live_def enqueue_def)
  then show ?thesis using that by blast
qed

lemma accepted_append_inbound:
  "accepted (map Inbound (a @ b)) = accepted (map Inbound a) @ accepted (map Inbound b)"
  by (induction a) (simp_all split: option.splits)

lemma accepted_Cons_inbound: "accepted (map Inbound (m # ms)) = accepted [Inbound m] @ accepted (map Inbound ms)"
  by (simp split: option.splits)

lemma responses_pongs [simp]: "responses (map pong_for ids) = []"
  by (induction ids) (simp_all add: responses_def pong_for_def)

lemma accepted_not_ping: "t \<in> set (accepted es) \<Longrightarrow> snd t \<noteq> CmdPing"
  by (induction es rule: accepted.induct) (auto split: option.splits if_splits)

section \<open>Calls at the server\<close>

lemma dispatch_send_sends: "sv_sends (snd (dispatch_send ts rid t rx msg sv)) = sv_sends sv"
  by (simp add: dispatch_send_def remove_pending_def split: option.splits try_send_result.splits)

lemma coold_dispatch_sends: "coold_dispatch ts inst sink env sv = (out, sv') \<Longrightarrow> sv_sends sv' = sv_sends sv"
  using dispatch_send_sends
  by (auto simp: coold_dispatch_def Let_def split: route_outcome.splits prod.splits insert_outcome.splits park_result.splits
      dest: arg_cong [of _ _ "\<lambda>x. sv_sends (snd x)"])


text \<open>Every pending entry holds exactly one handler, which was not answered yet, of a call under the
  entry's id; every handler that was answered is one of a call, and was answered once.\<close>

definition calls_ok :: "server \<Rightarrow> (dispatch_envelope \<times> nat) list \<Rightarrow> bool" where
  "calls_ok sv calls \<longleftrightarrow>
     (\<forall>rid e. hm_get (sv_pending sv) rid = Some e \<longrightarrow>
        (\<exists>i<length calls. de_request_id (fst (calls ! i)) = rid \<and> pe_state e = Waiting [i] \<and> i \<notin> fst ` set (sv_sends sv))) \<and>
     distinct (map fst (sv_sends sv)) \<and> (\<forall>i\<in>fst ` set (sv_sends sv). i < length calls)"

lemma calls_okD:
  assumes "calls_ok sv calls" and "hm_get (sv_pending sv) rid = Some e"
  obtains i where "i < length calls" "de_request_id (fst (calls ! i)) = rid" "pe_state e = Waiting [i]"
    "i \<notin> fst ` set (sv_sends sv)"
  using assms unfolding calls_ok_def by blast

lemma calls_ok_cong:
  "hm_get (sv_pending sv') = hm_get (sv_pending sv) \<Longrightarrow> sv_sends sv' = sv_sends sv \<Longrightarrow>
     calls_ok sv' calls = calls_ok sv calls"
  by (simp add: calls_ok_def)

lemma calls_ok_drop:
  assumes "calls_ok sv calls" and "sv_sends sv' = sv_sends sv"
    and "\<And>rid e. hm_get (sv_pending sv') rid = Some e \<Longrightarrow> hm_get (sv_pending sv) rid = Some e"
  shows "calls_ok sv' calls"
  using assms unfolding calls_ok_def by (metis (no_types, lifting))

lemma publish_frame [simp]:
  "sv_pending (spawn_bounded_publish u sv) = sv_pending sv" "sv_sends (spawn_bounded_publish u sv) = sv_sends sv"
  by (simp_all add: spawn_bounded_publish_def)

text \<open>What flux does with a message of an agent: only a response to a pending call touches the calls, and
  it answers the handler that waits.\<close>

lemma stream_msg_other:
  assumes "response_of m = []"
  shows "sv_pending (stream_msg jp inst h m sv) = sv_pending sv \<and> sv_sends (stream_msg jp inst h m sv) = sv_sends sv"
proof (cases m)
  case (Some x)
  then show ?thesis using assms by (cases x) (simp_all add: Let_def split: prod.splits)
qed simp

lemma deliver_waiting:
  assumes "hm_get p rid = Some e" and "pe_state e = Waiting [i]"
  shows "fst (deliver inst rid body p) = [(i, body)] \<and> hm_get (snd (deliver inst rid body p)) = (hm_get p)(rid := None)"
  using assms by (auto simp: deliver_def deliver_lock_def Let_def fun_eq_iff)

lemma stream_msg_response:
  assumes "hm_get (sv_pending sv) (pr_request_id r) = Some e" and "pe_state e = Waiting [i]"
  obtains body where "try_from_proto jp r = Some body"
    "hm_get (sv_pending (stream_msg jp inst h (Some (PResponse r)) sv)) = (hm_get (sv_pending sv))(pr_request_id r := None)"
    "sv_sends (stream_msg jp inst h (Some (PResponse r)) sv) = sv_sends sv @ [(i, CooldData body)]"
proof -
  obtain body where b: "try_from_proto jp r = Some body" using try_from_proto_total by blast
  then show ?thesis
    using assms deliver_waiting [OF assms, of inst "CooldData body"]
    by (intro that [of body]) (auto simp: deliver_response_def pending_get_def split: prod.splits)
qed

lemma stream_msg_unknown:
  "hm_get (sv_pending sv) (pr_request_id r) = None \<Longrightarrow> stream_msg jp inst h (Some (PResponse r)) sv = sv"
  by (simp add: deliver_response_def pending_get_def)

lemma response_of_cases: "response_of m = [] \<or> (\<exists>r. m = Some (PResponse r))"
  by (cases m rule: response_of.cases) simp_all

lemma stream_msg_calls:
  assumes "calls_ok sv calls"
  obtains (same) "hm_get (sv_pending (stream_msg jp inst h m sv)) = hm_get (sv_pending sv)"
      "sv_sends (stream_msg jp inst h m sv) = sv_sends sv"
      "\<And>r. m = Some (PResponse r) \<Longrightarrow> hm_get (sv_pending sv) (pr_request_id r) = None"
  | (delivers) r e i body where "m = Some (PResponse r)" "hm_get (sv_pending sv) (pr_request_id r) = Some e" "pe_state e = Waiting [i]"
      "i < length calls" "de_request_id (fst (calls ! i)) = pr_request_id r" "i \<notin> fst ` set (sv_sends sv)"
      "try_from_proto jp r = Some body"
      "hm_get (sv_pending (stream_msg jp inst h m sv)) = (hm_get (sv_pending sv))(pr_request_id r := None)"
      "sv_sends (stream_msg jp inst h m sv) = sv_sends sv @ [(i, CooldData body)]"
proof (cases "\<exists>r. m = Some (PResponse r)")
  case False
  then show ?thesis using response_of_cases stream_msg_other [of m jp inst h sv] same by metis
next
  case True
  then obtain r where m: "m = Some (PResponse r)" by blast
  show ?thesis
  proof (cases "hm_get (sv_pending sv) (pr_request_id r)")
    case None
    then show ?thesis using same m stream_msg_unknown by simp
  next
    case (Some e)
    then obtain i where i: "i < length calls" "de_request_id (fst (calls ! i)) = pr_request_id r" "pe_state e = Waiting [i]"
      "i \<notin> fst ` set (sv_sends sv)" using assms by (rule_tac calls_okD)
    from stream_msg_response [OF Some i(3), of jp inst h] obtain body where
      "try_from_proto jp r = Some body"
      "hm_get (sv_pending (stream_msg jp inst h m sv)) = (hm_get (sv_pending sv))(pr_request_id r := None)"
      "sv_sends (stream_msg jp inst h m sv) = sv_sends sv @ [(i, CooldData body)]" unfolding m .
    then show ?thesis by (rule delivers [OF m Some i(3,1,2,4)])
  qed
qed

lemma calls_ok_stream_msg:
  assumes "calls_ok sv calls"
  shows "calls_ok (stream_msg jp inst h m sv) calls"
  using assms
proof (cases rule: stream_msg_calls [where jp = jp and inst = inst and h = h and m = m])
  case same
  then show ?thesis using assms calls_ok_cong by blast
next
  case (delivers r e i body)
  have "\<exists>j<length calls. de_request_id (fst (calls ! j)) = rid \<and> pe_state e' = Waiting [j] \<and>
      j \<notin> fst ` set (sv_sends (stream_msg jp inst h m sv))"
    if "hm_get (sv_pending (stream_msg jp inst h m sv)) rid = Some e'" for rid e'
  proof -
    have "hm_get (sv_pending sv) rid = Some e'" "rid \<noteq> pr_request_id r"
      using that unfolding delivers(8) by (auto split: if_splits)
    with calls_okD [OF assms this(1)] delivers(5) show ?thesis unfolding delivers(9) by fastforce
  qed
  then show ?thesis using assms delivers(4,6) unfolding calls_ok_def delivers(9) by (auto simp del: stream_msg.simps)
qed

lemma stream_msg_pending:
  assumes "calls_ok sv calls" and "hm_get (sv_pending (stream_msg jp inst h m sv)) rid = Some e"
  shows "hm_get (sv_pending sv) rid = Some e \<and> rid \<notin> pr_request_id ` set (response_of m)"
  using assms(1)
proof (cases rule: stream_msg_calls [where jp = jp and inst = inst and h = h and m = m])
  case same
  then show ?thesis using assms(2) response_of_cases [of m] by auto
next
  case (delivers r e i body)
  then show ?thesis using assms(2) by (auto split: if_splits simp del: stream_msg.simps)
qed

lemma calls_ok_dispatched:
  assumes "calls_ok sv calls" and "coold_dispatch ts inst (length calls) env sv = (Awaiting rid rx (tx, msg), sv')"
  shows "calls_ok sv' (calls @ [(env, tx)])"
proof -
  note d = dispatch_balance [OF assms(2), simplified]
  have s: "sv_sends sv' = sv_sends sv" by (rule coold_dispatch_sends [OF assms(2)])
  have lt: "\<forall>i\<in>fst ` set (sv_sends sv). i < length calls" using assms(1) by (simp add: calls_ok_def)
  have "\<exists>i<length (calls @ [(env, tx)]). de_request_id (fst ((calls @ [(env, tx)]) ! i)) = rid' \<and> pe_state e = Waiting [i] \<and>
      i \<notin> fst ` set (sv_sends sv')" if e: "hm_get (sv_pending sv') rid' = Some e" for rid' e
  proof (cases "rid' = rid")
    case True
    then show ?thesis using d e lt s by (intro exI [of _ "length calls"]) auto
  next
    case False
    then have "hm_get (sv_pending sv) rid' = Some e" using d e by simp
    from calls_okD [OF assms(1) this] obtain i where "i < length calls" "de_request_id (fst (calls ! i)) = rid'"
      "pe_state e = Waiting [i]" "i \<notin> fst ` set (sv_sends sv)" by blast
    then show ?thesis using s by (intro exI [of _ i]) (simp add: nth_append)
  qed
  moreover have "\<forall>i\<in>fst ` set (sv_sends sv'). i < length (calls @ [(env, tx)])" using lt s by auto
  ultimately show ?thesis using assms(1) s unfolding calls_ok_def by simp
qed

section \<open>The invariant\<close>

text \<open>The command of a handler that waits is on its way as long as its stream is up.\<close>

definition no_loss :: "('k, 'e) dsystem \<Rightarrow> bool" where
  "no_loss s \<longleftrightarrow> (\<forall>rid e i. hm_get (sv_pending (ds_server s)) rid = Some e \<longrightarrow> pe_state e = Waiting [i] \<longrightarrow>
     snd (ds_calls s ! i) \<in> ds_live s \<longrightarrow> in_flight s (snd (ds_calls s ! i)) rid)"

definition ends_ok :: "('k, 'e) dsystem \<Rightarrow> bool" where
  "ends_ok s \<longleftrightarrow> finite (ds_live s) \<and> (\<forall>c\<in>set (ds_calls s). snd c < ds_next s) \<and>
     (\<forall>tx\<in>ds_live s. tx < ds_next s \<and> session_live (ds_agent s tx) \<and> ds_read s tx \<le> length (cs_out (ds_agent s tx)))"

definition ds_inv :: "('k, 'e) dsystem \<Rightarrow> bool" where
  "ds_inv s \<longleftrightarrow> calls_ok (ds_server s) (ds_calls s) \<and> ends_ok s \<and> no_loss s"

lemma ds_inv_live:
  assumes "ds_inv s" and "tx \<in> ds_live s"
  shows "session_live (ds_agent s tx)" "ds_read s tx \<le> length (cs_out (ds_agent s tx))" "tx < ds_next s"
  using assms by (simp_all add: ds_inv_def ends_ok_def)

lemma in_flight_frame:
  assumes "ds_down t tx = ds_down s tx" and "ds_agent t tx = ds_agent s tx" and "ds_read t tx = ds_read s tx"
  shows "in_flight t tx rid = in_flight s tx rid"
  using assms by (simp add: in_flight_def carried_def unread_def)

text \<open>A step that changes at most what is on its way, and keeps every call on its way.\<close>

lemma no_loss_same_server:
  assumes "no_loss s" and "ds_server t = ds_server s" and "ds_calls t = ds_calls s" and "ds_live t = ds_live s"
    and "\<And>tx rid. tx \<in> ds_live s \<Longrightarrow> in_flight s tx rid \<Longrightarrow> in_flight t tx rid"
  shows "no_loss t"
  using assms unfolding no_loss_def by metis

lemma no_loss_fewer:
  assumes "no_loss s" and "ds_calls t = ds_calls s" and "ds_live t \<subseteq> ds_live s"
    and "ds_down t = ds_down s" and "ds_agent t = ds_agent s" and "ds_read t = ds_read s"
    and "\<And>rid e. hm_get (sv_pending (ds_server t)) rid = Some e \<Longrightarrow> hm_get (sv_pending (ds_server s)) rid = Some e"
  shows "no_loss t"
  unfolding no_loss_def
proof (intro allI impI)
  fix rid e i
  assume h: "hm_get (sv_pending (ds_server t)) rid = Some e" "pe_state e = Waiting [i]" "snd (ds_calls t ! i) \<in> ds_live t"
  then have "in_flight s (snd (ds_calls s ! i)) rid"
    using assms(1,2,3,7) unfolding no_loss_def by (metis subsetD)
  then show "in_flight t (snd (ds_calls t ! i)) rid" using assms in_flight_frame [of t _ s] by simp
qed

subsection \<open>Steps of the agent\<close>

lemma reads_in_flight:
  assumes "session_live (ds_agent s tx)" and "ds_read s tx \<le> length (cs_out (ds_agent s tx))" and "ds_down s tx = m # ms"
    and "t = s\<lparr>ds_down := (ds_down s)(tx := ms),
       ds_agent := (ds_agent s)(tx := client_step A (ds_agent s tx) (Inbound m))\<rparr>"
  shows "in_flight t tx' rid = in_flight s tx' rid"
proof (cases "tx' = tx")
  case True
  then show ?thesis
    using assms(2,3)
    unfolding in_flight_def carried_def unread_def assms(4)
    by (auto simp: inbound_live [OF assms(1)] accepted_Cons_inbound simp del: client_step.simps accepted.simps pinged.simps list.map(2))
qed (rule in_flight_frame; simp add: assms(4))

lemma runs_in_flight:
  assumes "session_live (ds_agent s tx)" and "ds_read s tx \<le> length (cs_out (ds_agent s tx))"
    and "i < length (cs_tasks (ds_agent s tx))"
    and "t = s\<lparr>ds_agent := (ds_agent s)(tx := client_step A (ds_agent s tx) (RunTask i))\<rparr>"
  shows "in_flight t tx' rid = in_flight s tx' rid"
proof (cases "tx' = tx")
  case True
  let ?c = "ds_agent s tx"
  from assms(1,3) obtain r w where c: "client_step A ?c (RunTask i) =
     ?c\<lparr>cs_out := cs_out ?c @ [Some (PResponse r)], cs_tasks := take i (cs_tasks ?c) @ drop (Suc i) (cs_tasks ?c), cs_host := w\<rparr>"
    and a: "answers (cs_tasks ?c ! i) r" by (rule run_live)
  have "set (cs_tasks ?c) = insert (cs_tasks ?c ! i) (set (take i (cs_tasks ?c) @ drop (Suc i) (cs_tasks ?c)))"
    using arg_cong [OF id_take_nth_drop [OF assms(3)], of set] by simp
  then show ?thesis
    using True assms(2) a unfolding in_flight_def carried_def unread_def assms(4)
    by (auto simp: c answers_def simp del: client_step.simps)
qed (rule in_flight_frame; simp add: assms(4))

lemma status_in_flight:
  assumes "session_live (ds_agent s tx)" and "ds_read s tx \<le> length (cs_out (ds_agent s tx))"
    and "e = StatusLagged \<or> e = StatusClosed \<or> (\<exists>u. e = StatusReceived u)"
    and "t = s\<lparr>ds_agent := (ds_agent s)(tx := client_step A (ds_agent s tx) e)\<rparr>"
  shows "in_flight t tx' rid = in_flight s tx' rid"
proof (cases "tx' = tx")
  case True
  from assms(1,3) obtain ms where "cs_out (client_step A (ds_agent s tx) e) = cs_out (ds_agent s tx) @ ms" "responses ms = []"
    "cs_tasks (client_step A (ds_agent s tx) e) = cs_tasks (ds_agent s tx)" by (rule status_live)
  then show ?thesis using True assms(2) unfolding in_flight_def carried_def unread_def assms(4)
    by (simp del: client_step.simps)
qed (rule in_flight_frame; simp add: assms(4))

lemma live_step_inbound: "session_live c \<Longrightarrow> session_live (client_step A c (Inbound m))"
  unfolding inbound_live by (auto simp: session_live_def dest: accepted_not_ping simp del: accepted.simps)

lemma inbound_grows: "session_live c \<Longrightarrow> length (cs_out c) \<le> length (cs_out (client_step A c (Inbound m)))"
  by (subst inbound_live) simp_all

lemma live_step_run:
  assumes "session_live c" and "i < length (cs_tasks c)"
  shows "session_live (client_step A c (RunTask i)) \<and> length (cs_out (client_step A c (RunTask i))) = Suc (length (cs_out c))"
proof -
  from assms obtain r w where "client_step A c (RunTask i) =
     c\<lparr>cs_out := cs_out c @ [Some (PResponse r)], cs_tasks := take i (cs_tasks c) @ drop (Suc i) (cs_tasks c), cs_host := w\<rparr>"
    by (rule run_live)
  then show ?thesis using assms(1) by (auto simp: session_live_def dest: in_set_takeD in_set_dropD simp del: client_step.simps)
qed

text \<open>A step that replaces one agent's session by a later one of the same stream.\<close>

lemma ends_ok_agent:
  assumes "ends_ok s" and "ds_live t = ds_live s" and "ds_calls t = ds_calls s" and "ds_next t = ds_next s"
    and "ds_read t = ds_read s" and "ds_agent t = (ds_agent s)(tx := c)" and "session_live c"
    and "length (cs_out (ds_agent s tx)) \<le> length (cs_out c)"
  shows "ends_ok t"
  using assms by (auto simp: ends_ok_def intro: order_trans)

lemma carry_inv:
  assumes "carry jp A s t" and "ds_inv s"
  shows "ds_inv t"
  using assms(1)
proof cases
  case (agent_reads tx m ms)
  note l = ds_inv_live [OF assms(2) agent_reads(2)]
  have "ends_ok t"
    by (rule ends_ok_agent [where s = s and tx = tx and c = "client_step (A tx) (ds_agent s tx) (Inbound m)"])
       (use assms(2) live_step_inbound [OF l(1)] inbound_grows [OF l(1)] agent_reads(1) in
         \<open>simp_all add: ds_inv_def del: client_step.simps\<close>)
  moreover have "no_loss t"
    by (rule no_loss_same_server [of s]) (use assms(2) agent_reads(1) reads_in_flight [OF l(1,2) agent_reads(3,1)] in
        \<open>simp_all add: ds_inv_def\<close>)
  ultimately show ?thesis using assms(2) agent_reads(1) by (simp add: ds_inv_def)
next
  case (agent_runs tx i)
  note l = ds_inv_live [OF assms(2) agent_runs(2)]
  have "ends_ok t"
    by (rule ends_ok_agent [where s = s and tx = tx and c = "client_step (A tx) (ds_agent s tx) (RunTask i)"])
       (use assms(2) live_step_run [OF l(1) agent_runs(3)] agent_runs(1) in
         \<open>simp_all add: ds_inv_def del: client_step.simps\<close>)
  moreover have "no_loss t"
    by (rule no_loss_same_server [of s]) (use assms(2) agent_runs(1) runs_in_flight [OF l(1,2) agent_runs(3,1)] in
        \<open>simp_all add: ds_inv_def\<close>)
  ultimately show ?thesis using assms(2) agent_runs(1) by (simp add: ds_inv_def)
next
  case (flux_reads tx m ms inst)
  have "ds_read s tx < length (cs_out (ds_agent s tx))"
    using flux_reads(3) by (auto simp: unread_def intro: ccontr)
  then have e: "ends_ok t" using assms(2) flux_reads(1,2) by (auto simp: ds_inv_def ends_ok_def)
  have u: "unread t tx = ms" using flux_reads(1,3) by (simp add: unread_def drop_Suc drop_tl)
  have f: "in_flight t tx' rid" if "in_flight s tx' rid" "rid \<notin> pr_request_id ` set (response_of m)" for tx' rid
  proof (cases "tx' = tx")
    case True
    moreover have "responses (unread s tx) = response_of m @ responses ms" by (simp add: flux_reads(3) responses_def)
    moreover have "carried t tx = carried s tx" using flux_reads(1) by (simp add: carried_def)
    ultimately show ?thesis using that u unfolding in_flight_def by auto
  next
    case False
    then show ?thesis using that(1) in_flight_frame [of t tx' s] flux_reads(1) by simp
  qed
  have "no_loss t"
    unfolding no_loss_def
  proof (intro allI impI)
    fix rid e' i
    assume h: "hm_get (sv_pending (ds_server t)) rid = Some e'" "pe_state e' = Waiting [i]" "snd (ds_calls t ! i) \<in> ds_live t"
    have k: "hm_get (sv_pending (ds_server s)) rid = Some e' \<and> rid \<notin> pr_request_id ` set (response_of m)"
      using h(1) stream_msg_pending [of "ds_server s" "ds_calls s" jp inst "ds_host s tx" m rid e'] assms(2)
      by (simp add: flux_reads(1) ds_inv_def del: stream_msg.simps)
    have "in_flight s (snd (ds_calls s ! i)) rid"
      using assms(2) k h(2,3) flux_reads(1) unfolding ds_inv_def no_loss_def by simp
    then show "in_flight t (snd (ds_calls t ! i)) rid" using f k flux_reads(1) by simp
  qed
  then show ?thesis using assms(2) e flux_reads(1) calls_ok_stream_msg by (simp add: ds_inv_def)
qed

lemma dispatched_inv:
  assumes "ds_inv s"
    and "coold_dispatch (channel_try_send s) inst (length (ds_calls s)) env (ds_server s) = (Awaiting rid rx (tx, msg), sv)"
    and "t = s\<lparr>ds_server := sv, ds_down := (ds_down s)(tx := ds_down s tx @ [msg]), ds_calls := ds_calls s @ [(env, tx)]\<rparr>"
  shows "ds_inv t"
proof -
  note d = dispatch_balance [OF assms(2), simplified]
  have tx: "tx \<in> ds_live s" using d by (auto simp: channel_try_send_def split: if_splits)
  have msg: "accepted [Inbound msg] = [(rid, to_server_command (de_command env))]"
  proof -
    have "to_server_command (de_command env) \<noteq> CmdPing" by (cases "de_command env") simp_all
    then show ?thesis using d by simp
  qed
  have more: "in_flight t tx' rid'" if "in_flight s tx' rid'" for tx' rid'
    using that unfolding in_flight_def carried_def unread_def assms(3)
    by (auto simp: accepted_append_inbound image_Un simp del: map_append)
  have new: "in_flight t tx rid"
    unfolding in_flight_def carried_def assms(3) by (simp add: accepted_append_inbound msg image_Un del: accepted.simps map_append)
  have "no_loss t"
    unfolding no_loss_def
  proof (intro allI impI)
    fix rid' e i
    assume h: "hm_get (sv_pending (ds_server t)) rid' = Some e" "pe_state e = Waiting [i]" "snd (ds_calls t ! i) \<in> ds_live t"
    show "in_flight t (snd (ds_calls t ! i)) rid'"
    proof (cases "rid' = rid")
      case True
      then have "i = length (ds_calls s)" using h d assms(3) by auto
      then show ?thesis using True new assms(3) by simp
    next
      case False
      then have e: "hm_get (sv_pending (ds_server s)) rid' = Some e" using h(1) d assms(3) by simp
      with assms(1) obtain j where "j < length (ds_calls s)" "pe_state e = Waiting [j]" by (auto simp: ds_inv_def elim: calls_okD)
      then have i: "ds_calls t ! i = ds_calls s ! i" using h(2) assms(3) by (simp add: nth_append)
      then have "in_flight s (snd (ds_calls s ! i)) rid'"
        using assms(1) e h(2,3) assms(3) unfolding ds_inv_def no_loss_def by simp
      then show ?thesis using more i by simp
    qed
  qed
  moreover have "ends_ok t" using assms(1) tx assms(3) by (auto simp: ds_inv_def ends_ok_def)
  ultimately show ?thesis using assms(1) calls_ok_dispatched [OF _ assms(2)] assms(3) by (simp add: ds_inv_def)
qed

subsection \<open>The other steps\<close>

lemma server_only_inv:
  assumes "ds_inv s" and "sv_sends sv = sv_sends (ds_server s)"
    and "\<And>rid e. hm_get (sv_pending sv) rid = Some e \<Longrightarrow> hm_get (sv_pending (ds_server s)) rid = Some e"
    and "t = s\<lparr>ds_server := sv, ds_live := L\<rparr>" and "L \<subseteq> ds_live s"
  shows "ds_inv t"
proof -
  have "no_loss t" by (rule no_loss_fewer [of s]) (use assms in \<open>auto simp: ds_inv_def\<close>)
  moreover have "calls_ok (ds_server t) (ds_calls t)" using calls_ok_drop [OF _ assms(2,3)] assms(1,4) by (simp add: ds_inv_def)
  moreover have "ends_ok t" using assms(1,4,5) finite_subset by (auto simp: ds_inv_def ends_ok_def)
  ultimately show ?thesis by (simp add: ds_inv_def)
qed

lemma heartbeat_frame:
  "heartbeat_tick uuid inst sv = (pings, sv') \<Longrightarrow> sv_pending sv' = sv_pending sv \<and> sv_sends sv' = sv_sends sv"
  by (auto simp: heartbeat_tick_def Let_def split: prod.splits)

lemma sweep_frame:
  assumes "pending_sweep_tick inst sv = (expired, sv')"
  shows "sv_sends sv' = sv_sends sv" "hm_get (sv_pending sv') rid = Some e \<Longrightarrow> hm_get (sv_pending sv) rid = Some e"
proof -
  let ?ids = "expired_ids inst (from_secs (cf_dispatch_timeout_secs (sv_config sv))) (sv_pending sv)"
  have "sv' = sv\<lparr>sv_pending := snd (remove_all ?ids (sv_pending sv))\<rparr>"
    using assms by (auto simp: pending_sweep_tick_def drain_expired_def Let_def split: prod.splits)
  then show "sv_sends sv' = sv_sends sv" "hm_get (sv_pending sv') rid = Some e \<Longrightarrow> hm_get (sv_pending sv) rid = Some e"
    by (auto simp: hm_get_remove_all split: if_splits)
qed

lemma stream_frame:
  "stream lib clock now inst revs ch r sv = (Inr ses, sv') \<Longrightarrow> sv_pending sv' = sv_pending sv \<and> sv_sends sv' = sv_sends sv"
  by (auto simp: stream_def Let_def split: sum.splits prod.splits)

lemma stream_close_frame: "sv_pending (stream_close h reason sv) = sv_pending sv \<and> sv_sends (stream_close h reason sv) = sv_sends sv"
  by (simp add: stream_close_def)

lemma refused_frame:
  assumes "coold_dispatch ts inst sink env sv = (Answered r, sv')"
  shows "hm_get (sv_pending sv') = hm_get (sv_pending sv) \<and> sv_sends sv' = sv_sends sv"
  using dispatch_balance [OF assms] coold_dispatch_sends [OF assms] by simp

lemma status_inv:
  assumes "ds_inv s" and "tx \<in> ds_live s" and "e = StatusLagged \<or> e = StatusClosed \<or> (\<exists>u. e = StatusReceived u)"
    and "t = s\<lparr>ds_agent := (ds_agent s)(tx := client_step A (ds_agent s tx) e)\<rparr>"
  shows "ds_inv t"
proof -
  note l = ds_inv_live [OF assms(1,2)]
  from l(1) assms(3) obtain ms where "cs_out (client_step A (ds_agent s tx) e) = cs_out (ds_agent s tx) @ ms"
    "session_live (client_step A (ds_agent s tx) e)" by (rule status_live)
  then have "ends_ok t"
    using assms(1,4) ends_ok_agent [where s = s and t = t and tx = tx and c = "client_step A (ds_agent s tx) e"]
    by (simp add: ds_inv_def)
  moreover have "no_loss t"
    by (rule no_loss_same_server [of s t, OF _ _ _ _ status_in_flight [OF l(1,2) assms(3,4), THEN iffD2]])
       (use assms(1) in \<open>simp_all add: ds_inv_def assms(4)\<close>)
  ultimately show ?thesis using assms(1,4) by (simp add: ds_inv_def)
qed

lemma ping_inv:
  assumes "ds_inv s" and "t = s\<lparr>ds_down := (ds_down s)(tx := ds_down s tx @ [ping_msg u])\<rparr>"
  shows "ds_inv t"
proof -
  have "in_flight t tx' rid = in_flight s tx' rid" for tx' rid
    unfolding in_flight_def carried_def unread_def assms(2)
    by (simp add: accepted_append_inbound ping_msg_def del: map_append)
  then have "no_loss t" using no_loss_same_server [of s t] assms by (simp add: ds_inv_def)
  then show ?thesis using assms by (simp add: ds_inv_def ends_ok_def)
qed

lemma connect_inv:
  assumes "ds_inv s" and "stream lib clock now inst revs (ds_next s) r (ds_server s) = (Inr ses, sv)"
    and "t = s\<lparr>ds_server := sv, ds_live := insert (ds_next s) (ds_live s),
       ds_host := (ds_host s)(ds_next s := h), ds_down := (ds_down s)(ds_next s := []),
       ds_agent := (ds_agent s)(ds_next s := session_start N cfg sy w), ds_read := (ds_read s)(ds_next s := 1),
       ds_next := Suc (ds_next s)\<rparr>"
  shows "ds_inv t"
proof -
  note f = stream_frame [OF assms(2)]
  have old: "in_flight t tx rid = in_flight s tx rid" if "tx \<noteq> ds_next s" for tx rid
    by (rule in_flight_frame) (use that assms(3) in simp_all)
  have "no_loss t"
    unfolding no_loss_def
  proof (intro allI impI)
    fix rid e i
    assume h: "hm_get (sv_pending (ds_server t)) rid = Some e" "pe_state e = Waiting [i]" "snd (ds_calls t ! i) \<in> ds_live t"
    have p: "hm_get (sv_pending (ds_server s)) rid = Some e" using h(1) f assms(3) by simp
    with assms(1) h(2) have "i < length (ds_calls s)" by (auto simp: ds_inv_def elim: calls_okD)
    then have "snd (ds_calls s ! i) < ds_next s" using assms(1) by (simp add: ds_inv_def ends_ok_def)
    moreover from this have "in_flight s (snd (ds_calls s ! i)) rid"
      using assms(1,3) p h(2,3) unfolding ds_inv_def no_loss_def by simp
    ultimately show "in_flight t (snd (ds_calls t ! i)) rid" using old assms(3) by simp
  qed
  moreover have "ends_ok t"
    using assms(1,3) by (auto simp: ds_inv_def ends_ok_def session_start_live less_SucI)
  ultimately show ?thesis using assms(1,3) calls_ok_cong [of sv "ds_server s"] f by (simp add: ds_inv_def)
qed

lemma ds_step_inv:
  assumes "ds_step lib jp A s t" and "ds_inv s"
  shows "ds_inv t"
  using assms(1)
proof cases
  case carries
  then show ?thesis using carry_inv assms(2) by blast
next
  case dispatched
  then show ?thesis using dispatched_inv assms(2) by blast
next
  case (refused inst env r sv)
  then show ?thesis using refused_frame [OF refused(2)] by (intro server_only_inv [OF assms(2), of sv _ "ds_live s"]) simp_all
next
  case status
  then show ?thesis using status_inv assms(2) by blast
next
  case (marked uuid inst pings sv)
  then show ?thesis using heartbeat_frame [OF marked(2)] by (intro server_only_inv [OF assms(2), of sv _ "ds_live s"]) simp_all
next
  case pinged
  then show ?thesis using ping_inv assms(2) by blast
next
  case (swept inst expired sv)
  then show ?thesis using sweep_frame [OF swept(2)] by (intro server_only_inv [OF assms(2), of sv _ "ds_live s"]) simp_all
next
  case connected
  then show ?thesis using connect_inv assms(2) by blast
next
  case (closed tx reason)
  then show ?thesis
    using stream_close_frame [of "ds_host s tx" reason "ds_server s"]
    by (intro server_only_inv [OF assms(2), of "stream_close (ds_host s tx) reason (ds_server s)" _ "ds_live s - {tx}"]) auto
qed

lemma start_inv: "ds_inv (ds_start c a)"
  by (simp add: ds_inv_def calls_ok_def ends_ok_def no_loss_def ds_start_def server_new_def pending_new_def)

lemma reachable_inv: "ds_reachable lib jp A s \<Longrightarrow> ds_inv s"
  by (induction rule: ds_reachable.induct) (auto intro: start_inv ds_step_inv)

end
