(* ===== verification/Builder.thy ===== *)
theory Builder
  imports HostFiles
begin

text \<open>
  The build engine: \<open>builder-core/src\<close> (types, the dispatch on the stack, the static build) and the
  process around it, \<open>builder/src/main.rs\<close>. The programs git and buildah, the clock and the signals
  are parameters; so are the encoders and decoders serde derives. The engine is written over the
  operations of its surroundings, and the process passes it those of the host.
\<close>

section \<open>Types\<close>

datatype build_stack = Unspecified | Dockerfile | Buildpacks | Railpack | Static

record static_config =
  sc_output_dir :: string
  sc_base_image :: string

record build_request =
  br_repo_url :: string
  br_git_ref :: string
  br_stack :: build_stack
  br_target_image :: string
  br_cache_key :: string
  br_static_cfg :: "static_config option"

record build_result =
  bt_digest :: string
  bt_registry_ref :: string
  bt_duration_ms :: u64
  bt_stack_used :: build_stack

record build_error =
  be_code :: u32
  be_message :: string
  be_stage :: string

record progress_event =
  pe_stage :: string
  pe_log :: string
  pe_percent :: u32

text \<open>How a child process ended.\<close>

datatype run_end = SpawnFails string | WaitFails string | Exits bool

record 'w build_ops =
  bo_run :: "string \<Rightarrow> string list \<Rightarrow> string \<Rightarrow> 'w \<Rightarrow> run_end \<times> 'w"
  bo_exists :: "string \<Rightarrow> 'w \<Rightarrow> bool"
  bo_write :: "string \<Rightarrow> string \<Rightarrow> ('w, unit) io"
  bo_read :: "string \<Rightarrow> ('w, string) io"
  bo_emit :: "progress_event \<Rightarrow> 'w \<Rightarrow> 'w"
  bo_elapsed_ms :: "'w \<Rightarrow> u64"

text \<open>A step of a build: it may end the build with an error.\<close>

type_synonym ('w, 'a) build = "'w \<Rightarrow> (build_error + 'a) \<times> 'w"

definition build_bind :: "('w, 'a) build \<Rightarrow> ('a \<Rightarrow> ('w, 'b) build) \<Rightarrow> ('w, 'b) build" where
  "build_bind m f w = (case m w of (Inl e, w') \<Rightarrow> (Inl e, w') | (Inr a, w') \<Rightarrow> f a w')"

definition build_ok :: "'a \<Rightarrow> ('w, 'a) build" where
  "build_ok a w = (Inr a, w)"

definition build_err :: "u32 \<Rightarrow> string \<Rightarrow> string \<Rightarrow> build_error" where
  "build_err code stage message = \<lparr>be_code = code, be_message = message, be_stage = stage\<rparr>"

definition build_fail :: "u32 \<Rightarrow> string \<Rightarrow> string \<Rightarrow> ('w, 'a) build" where
  "build_fail code stage message w = (Inl (build_err code stage message), w)"

text \<open>\<open>.map_err(\<dots>)?\<close> on an operation of the standard library.\<close>

definition build_io :: "(string \<Rightarrow> build_error) \<Rightarrow> ('w, 'a) io \<Rightarrow> ('w, 'a) build" where
  "build_io f m w = (case m w of (Inl e, w') \<Rightarrow> (Inl (f e), w') | (Inr a, w') \<Rightarrow> (Inr a, w'))"

section \<open>The static build\<close>

definition is_safe_base_image :: "string \<Rightarrow> bool" where
  "is_safe_base_image s =
     (s \<noteq> [] \<and> length s \<le> 256 \<and>
      list_all (\<lambda>c. is_alnum c \<or> c \<in> {CHR ''.'', CHR '':'', CHR ''/'', CHR ''_'', CHR ''-'', CHR ''@'', CHR ''+''}) s)"

definition is_safe_output_dir :: "string \<Rightarrow> bool" where
  "is_safe_output_dir s =
     (if s = [] \<or> 256 < length s then False
      else if CHR 0x0A \<in> set s \<or> CHR 0x0D \<in> set s \<or> CHR 0x00 \<in> set s then False
      else if starts_with s ''/'' then False
      else list_all (\<lambda>c. c \<noteq> ''..'') (path_components s))"

definition emit :: "'w build_ops \<Rightarrow> string \<Rightarrow> string \<Rightarrow> u32 \<Rightarrow> ('w, unit) build" where
  "emit B stage log percent w = (Inr (), bo_emit B \<lparr>pe_stage = stage, pe_log = log, pe_percent = percent\<rparr> w)"

definition run_ok :: "'w build_ops \<Rightarrow> string \<Rightarrow> string list \<Rightarrow> string \<Rightarrow> ('w, bool) build" where
  "run_ok B bin args cwd w =
     (case bo_run B bin args cwd w of
        (SpawnFails e, w') \<Rightarrow> (Inl (build_err 500 ''spawn'' (bin @ '' spawn: '' @ e)), w')
      | (WaitFails e, w') \<Rightarrow> (Inl (build_err 500 ''spawn'' (bin @ '' wait: '' @ e)), w')
      | (Exits ok, w') \<Rightarrow> (Inr ok, w'))"

definition or_default :: "string \<Rightarrow> string \<Rightarrow> string" where
  "or_default s d = (if s = [] then d else s)"

definition build_config :: "build_request \<Rightarrow> static_config" where
  "build_config req =
     (let c = (case br_static_cfg req of Some c \<Rightarrow> c | None \<Rightarrow> \<lparr>sc_output_dir = [], sc_base_image = []\<rparr>) in
      \<lparr>sc_output_dir = or_default (sc_output_dir c) ''dist'',
       sc_base_image = or_default (sc_base_image c) ''docker.io/library/nginx:alpine''\<rparr>)"

definition containerfile :: "static_config \<Rightarrow> string" where
  "containerfile c =
     ''FROM '' @ sc_base_image c @ [CHR 0x0A] @
     ''COPY ./'' @ sc_output_dir c @ '' /usr/share/nginx/html'' @ [CHR 0x0A]"

text \<open>Cloning: the wanted reference is checked out, or else fetched and then checked out, where the
  outcome of the last command is not looked at.\<close>

definition clone_repo :: "'w build_ops \<Rightarrow> build_request \<Rightarrow> string \<Rightarrow> ('w, unit) build" where
  "clone_repo B req work_dir =
     (let repo_dir = path_join work_dir ''repo'' in
      build_bind (run_ok B ''git'' [''clone'', ''--depth'', ''1'', ''--no-tags'', ''--'', br_repo_url req, ''repo''] work_dir) (\<lambda>ok.
      if \<not> ok then build_fail 500 ''git'' ''git clone failed''
      else build_bind (run_ok B ''git'' [''checkout'', ''--'', br_git_ref req] repo_dir) (\<lambda>checkout_ok.
      if checkout_ok then build_ok ()
      else build_bind (run_ok B ''git'' [''fetch'', ''--depth'', ''1'', ''origin'', ''--'', br_git_ref req] repo_dir) (\<lambda>ok.
      if \<not> ok then build_fail 500 ''git'' (''git fetch ref '' @ br_git_ref req @ '' failed'')
      else build_bind (run_ok B ''git'' [''checkout'', ''--'', ''FETCH_HEAD''] repo_dir) (\<lambda>_. build_ok ())))))"

text \<open>Building: the \<open>Containerfile\<close> is written into the repository and buildah is run there.\<close>

definition build_image :: "'w build_ops \<Rightarrow> build_request \<Rightarrow> static_config \<Rightarrow> string \<Rightarrow> ('w, unit) build" where
  "build_image B req cfg work_dir =
     (let repo_dir = path_join work_dir ''repo'' in
      build_bind (\<lambda>w. if bo_exists B (path_join repo_dir (sc_output_dir cfg)) w then (Inr (), w)
                     else build_fail 400 ''detect'' (''output_dir '' @ [CHR 0x27] @ sc_output_dir cfg @ [CHR 0x27] @ '' not found in repo'') w) (\<lambda>_.
      build_bind (build_io (\<lambda>e. build_err 500 ''detect'' (''write Containerfile: '' @ e))
                    (bo_write B (path_join repo_dir ''Containerfile.coolify'') (containerfile cfg))) (\<lambda>_.
      build_bind (emit B ''build'' (''buildah bud '' @ [CHR 0xE2, CHR 0x86, CHR 0x92] @ '' '' @ br_target_image req) 20) (\<lambda>_.
      build_bind (run_ok B ''buildah''
          [''bud'', ''--storage-driver'', ''overlay'', ''--iidfile'', path_join work_dir ''image-id'', ''-t'', br_target_image req,
           ''-f'', ''Containerfile.coolify'', ''.''] repo_dir) (\<lambda>ok.
      if ok then build_ok () else build_fail 500 ''build'' (''buildah bud failed for '' @ br_target_image req))))))"

definition read_digest :: "'w build_ops \<Rightarrow> string \<Rightarrow> ('w, string) build" where
  "read_digest B work_dir =
     (let iid_path = path_join work_dir ''image-id'' in
      build_bind (build_io (\<lambda>e. build_err 500 ''store'' (''read iidfile '' @ iid_path @ '': '' @ e)) (bo_read B iid_path)) (\<lambda>s.
      if starts_with (trim s) ''sha256:'' then build_ok (trim s)
      else build_fail 500 ''store'' (''unexpected iidfile content: '' @ debug_str (trim s))))"

text \<open>The build from the first report to the digest.\<close>

definition build_digest :: "'w build_ops \<Rightarrow> build_request \<Rightarrow> static_config \<Rightarrow> string \<Rightarrow> ('w, string) build" where
  "build_digest B req cfg work_dir =
     build_bind (emit B ''git'' (''cloning '' @ br_repo_url req @ '' @ '' @ br_git_ref req) 0) (\<lambda>_.
     build_bind (clone_repo B req work_dir) (\<lambda>_.
     build_bind (emit B ''git'' ''clone complete'' 10) (\<lambda>_.
     build_bind (emit B ''detect'' (''checking output_dir: '' @ sc_output_dir cfg) 15) (\<lambda>_.
     build_bind (build_image B req cfg work_dir) (\<lambda>_.
     build_bind (emit B ''build'' ''build complete'' 80) (\<lambda>_.
     build_bind (emit B ''store'' ''reading image digest'' 90) (\<lambda>_.
     read_digest B work_dir)))))))"

definition static_run :: "'w build_ops \<Rightarrow> build_request \<Rightarrow> string \<Rightarrow> ('w, build_result) build" where
  "static_run B req work_dir =
     (let cfg = build_config req in
      if \<not> is_safe_base_image (sc_base_image cfg) then build_fail 400 ''detect'' ''invalid base_image''
      else if \<not> is_safe_output_dir (sc_output_dir cfg) then build_fail 400 ''detect'' ''invalid output_dir''
      else
        build_bind (build_digest B req cfg work_dir) (\<lambda>digest.
        build_bind (emit B ''store'' (''digest: '' @ digest) 100) (\<lambda>_ w.
        (Inr \<lparr>bt_digest = digest, bt_registry_ref = br_target_image req @ ''@'' @ digest,
              bt_duration_ms = bo_elapsed_ms B w, bt_stack_used = Static\<rparr>, w))))"

text \<open>\<open>{:?}\<close> of a stack.\<close>

fun debug_stack :: "build_stack \<Rightarrow> string" where
  "debug_stack Unspecified = ''Unspecified''"
| "debug_stack Dockerfile = ''Dockerfile''"
| "debug_stack Buildpacks = ''Buildpacks''"
| "debug_stack Railpack = ''Railpack''"
| "debug_stack Static = ''Static''"

definition run_build :: "'w build_ops \<Rightarrow> build_request \<Rightarrow> string \<Rightarrow> ('w, build_result) build" where
  "run_build B req work_dir =
     (if br_stack req = Static then static_run B req work_dir
      else build_fail 501 ''detect'' (''build stack '' @ debug_stack (br_stack req) @ '' not implemented in MVP''))"

section \<open>The process\<close>

datatype frame = FProgress progress_event | FResult build_result | FError build_error

text \<open>The surroundings of the process: the file system's failures, standard output, the child
  processes, the codecs, and what the signal does. \<open>ev_sigterm\<close> is None when no signal arrives before
  the build ends; otherwise it is what the build left when it was dropped.\<close>

record 'k builder_env =
  ev_host :: "'k host_ops"
  ev_stdout :: "string \<Rightarrow> 'k host \<Rightarrow> 'k host"
  ev_run :: "string \<Rightarrow> string list \<Rightarrow> string \<Rightarrow> 'k host \<Rightarrow> run_end \<times> 'k host"
  ev_exists :: "string \<Rightarrow> 'k host \<Rightarrow> bool"
  ev_elapsed_ms :: "'k host \<Rightarrow> u64"
  ev_decode :: "string \<Rightarrow> build_request result"
  ev_frame :: "frame \<Rightarrow> string result"
  ev_result :: "build_result \<Rightarrow> string result"
  ev_error :: "build_error \<Rightarrow> string result"
  ev_install_sigterm :: "unit result"
  ev_sigterm :: "('k host \<Rightarrow> 'k host) option"

definition fs_append :: "'k host_ops \<Rightarrow> nat \<Rightarrow> string \<Rightarrow> string \<Rightarrow> ('k, unit) hio" where
  "fs_append H mode p content w =
     (case op_fault H ''append'' p w of
        Some e \<Rightarrow> (Inl e, w)
      | None \<Rightarrow>
          (Inr (), put_file p \<lparr>fi_content = (case file_at w p of Some f \<Rightarrow> fi_content f | None \<Rightarrow> []) @ content,
                               fi_mode = file_mode H p mode w\<rparr> w))"

definition emit_frame :: "'k builder_env \<Rightarrow> string \<Rightarrow> frame \<Rightarrow> 'k host \<Rightarrow> 'k host" where
  "emit_frame E events f w =
     (case ev_frame E f of
        Inl e \<Rightarrow> w
      | Inr line \<Rightarrow> snd (fs_append (ev_host E) 384 events (line @ [CHR 0x0A]) (ev_stdout E (line @ [CHR 0x0A]) w)))"

definition write_json_atomic :: "'k builder_env \<Rightarrow> string \<Rightarrow> string \<Rightarrow> 'k host \<Rightarrow> 'k host" where
  "write_json_atomic E path bytes w =
     (let tmp = path @ ''.tmp'' in
      case io_bind (fs_write_with (ev_host E) 384 tmp bytes) (\<lambda>_. fs_guard (ev_host E) ''sync'' tmp) w of
        (Inl e, w1) \<Rightarrow> w1
      | (Inr _, w1) \<Rightarrow> snd (fs_rename (ev_host E) tmp path w1))"

definition or_empty :: "string result \<Rightarrow> string" where
  "or_empty r = (case r of Inr s \<Rightarrow> s | Inl _ \<Rightarrow> [])"

definition host_build_ops :: "'k builder_env \<Rightarrow> string \<Rightarrow> 'k host build_ops" where
  "host_build_ops E events =
     \<lparr>bo_run = ev_run E, bo_exists = ev_exists E, bo_write = fs_write (ev_host E), bo_read = fs_read_to_string (ev_host E),
      bo_emit = (\<lambda>ev. emit_frame E events (FProgress ev)), bo_elapsed_ms = ev_elapsed_ms E\<rparr>"

definition report_error :: "'k builder_env \<Rightarrow> string \<Rightarrow> build_error \<Rightarrow> 'k host \<Rightarrow> 'k host" where
  "report_error E work_dir e w =
     emit_frame E (path_join work_dir ''events.ndjson'') (FError e)
       (write_json_atomic E (path_join work_dir ''error.json'') (or_empty (ev_error E e)) w)"

definition report_result :: "'k builder_env \<Rightarrow> string \<Rightarrow> build_result \<Rightarrow> 'k host \<Rightarrow> 'k host" where
  "report_result E work_dir r w =
     emit_frame E (path_join work_dir ''events.ndjson'') (FResult r)
       (write_json_atomic E (path_join work_dir ''result.json'') (or_empty (ev_result E r)) w)"

definition load_request :: "'k builder_env \<Rightarrow> string \<Rightarrow> ('k, build_request) hio" where
  "load_request E path w =
     (case fs_read (ev_host E) path w of
        (Inl e, w1) \<Rightarrow> (Inl (''read '' @ path @ '': '' @ e), w1)
      | (Inr bytes, w1) \<Rightarrow> (case ev_decode E bytes of Inl e \<Rightarrow> (Inl (''parse request: '' @ e), w1) | Inr r \<Rightarrow> (Inr r, w1)))"

text \<open>The race of the build with the signal, and what is reported of it.\<close>

definition build_and_report :: "'k builder_env \<Rightarrow> string \<Rightarrow> build_request \<Rightarrow> 'k host \<Rightarrow> nat \<times> 'k host" where
  "build_and_report E work_dir req w =
     (case ev_sigterm E of
        Some dropped \<Rightarrow> (130, report_error E work_dir (build_err 499 ''cancel'' ''cancelled'') (dropped w))
      | None \<Rightarrow>
          (case run_build (host_build_ops E (path_join work_dir ''events.ndjson'')) req work_dir w of
             (Inr ok, w1) \<Rightarrow> (0, report_result E work_dir ok w1)
           | (Inl e, w1) \<Rightarrow> (1, report_error E work_dir e w1)))"

definition builder_main :: "'k builder_env \<Rightarrow> string list \<Rightarrow> 'k host \<Rightarrow> nat \<times> 'k host" where
  "builder_main E args w =
     (if length args \<noteq> 3 then (2, w)
      else
        (let req_path = args ! 1; work_dir = args ! 2 in
         case fs_append (ev_host E) 384 (path_join work_dir ''events.ndjson'') [] w of
           (Inl e, w1) \<Rightarrow> (2, w1)
         | (Inr _, w1) \<Rightarrow>
             (case load_request E req_path w1 of
                (Inl e, w2) \<Rightarrow> (2, report_error E work_dir (build_err 400 ''load'' e) w2)
              | (Inr req, w2) \<Rightarrow>
                  (case ev_install_sigterm E of
                     Inl e \<Rightarrow> (2, report_error E work_dir (build_err 500 ''init'' (''install SIGTERM: '' @ e)) w2)
                   | Inr _ \<Rightarrow> build_and_report E work_dir req w2))))"

section \<open>Properties of the engine\<close>

lemma build_bind_eq_Inr:
  "build_bind m f w = (Inr b, w'') \<longleftrightarrow> (\<exists>a w'. m w = (Inr a, w') \<and> f a w' = (Inr b, w''))"
  by (auto simp: build_bind_def split: prod.splits sum.splits)

lemma build_ok_eq [simp]: "build_ok a w = (r, w') \<longleftrightarrow> r = Inr a \<and> w' = w"
  by (auto simp: build_ok_def)

lemma build_fail_eq [simp]: "build_fail c t m w = (r, w') \<longleftrightarrow> r = Inl (build_err c t m) \<and> w' = w"
  by (auto simp: build_fail_def)

lemma emit_eq [simp]:
  "emit B t l p w = (r, w') \<longleftrightarrow> r = Inr () \<and> w' = bo_emit B \<lparr>pe_stage = t, pe_log = l, pe_percent = p\<rparr> w"
  by (auto simp: emit_def)

lemma run_ok_eq_Inr: "run_ok B bin args cwd w = (Inr ok, w') \<longleftrightarrow> bo_run B bin args cwd w = (Exits ok, w')"
  by (auto simp: run_ok_def split: prod.splits run_end.splits)

lemma build_io_eq_Inr [simp]: "build_io f m w = (Inr a, w') \<longleftrightarrow> m w = (Inr a, w')"
  by (auto simp: build_io_def split: prod.splits sum.splits)

subsection \<open>What is written into the Containerfile\<close>

text \<open>The words of a directive, and the sources of a \<open>COPY\<close>: all words between the first and the last.\<close>

definition words_of :: "string \<Rightarrow> string list" where
  "words_of l = filter (\<lambda>w. w \<noteq> []) (split_on (CHR '' '') (map (\<lambda>c. if c = CHR 0x09 then CHR '' '' else c) l))"

definition copy_sources :: "string \<Rightarrow> string list" where
  "copy_sources l = butlast (tl (words_of l))"

definition has_blank :: "string \<Rightarrow> bool" where
  "has_blank s = (CHR '' '' \<in> set s \<or> CHR 0x09 \<in> set s)"

text \<open>The text of exactly two directives: the image is one word; the directory as a whole is a relative
  path that does not go up, and when it has no blank it is the only source of the \<open>COPY\<close>.\<close>

definition two_directives :: "string \<Rightarrow> bool" where
  "two_directives text =
     (\<exists>image dir. lines text = [''FROM '' @ image, ''COPY ./'' @ dir @ '' /usr/share/nginx/html''] \<and>
        \<not> has_blank image \<and> \<not> starts_with dir ''/'' \<and> ''..'' \<notin> set (path_components dir) \<and>
        (\<not> has_blank dir \<longrightarrow>
           copy_sources (''COPY ./'' @ dir @ '' /usr/share/nginx/html'') = [''./'' @ dir]))"

lemma one_source: "\<not> has_blank dir \<Longrightarrow> copy_sources (''COPY ./'' @ dir @ '' /usr/share/nginx/html'') = [''./'' @ dir]"
proof -
  assume a: "\<not> has_blank dir"
  then have "map (\<lambda>c. if c = CHR 0x09 then CHR '' '' else c) dir = dir" by (intro map_idI) (auto simp: has_blank_def)
  moreover have "split_on (CHR '' '') (''COPY'' @ CHR '' '' # ((''./'' @ dir) @ CHR '' '' # ''/usr/share/nginx/html'')) =
      [''COPY'', ''./'' @ dir, ''/usr/share/nginx/html'']"
    using split_on_append [of "CHR '' ''" "''COPY''" "(''./'' @ dir) @ CHR '' '' # ''/usr/share/nginx/html''"]
      split_on_append [of "CHR '' ''" "''./'' @ dir" "''/usr/share/nginx/html''"] a
    by (simp add: has_blank_def)
  ultimately show ?thesis by (simp add: copy_sources_def words_of_def)
qed

lemma safe_image_chars: "is_safe_base_image s \<Longrightarrow> c \<in> set s \<Longrightarrow> c \<noteq> CHR '' '' \<and> c \<noteq> CHR 0x09 \<and> c \<noteq> CHR 0x0A \<and> c \<noteq> CHR 0x0D"
  by (auto simp: is_safe_base_image_def list_all_iff is_alnum_def byte_in_def)

lemma safe_containerfile:
  assumes "is_safe_base_image (sc_base_image c)" and "is_safe_output_dir (sc_output_dir c)"
  shows "two_directives (containerfile c)"
proof -
  let ?f = "''FROM '' @ sc_base_image c" and ?d = "''COPY ./'' @ sc_output_dir c @ '' /usr/share/nginx/html''"
  have "CHR 0x0A \<notin> set ?f" "last ?f \<noteq> CHR 0x0D" "\<not> has_blank (sc_base_image c)"
    using safe_image_chars [OF assms(1)] last_in_set [of "sc_base_image c"] assms(1)
    by (auto simp: is_safe_base_image_def has_blank_def)
  moreover have "CHR 0x0A \<notin> set ?d" "last ?d \<noteq> CHR 0x0D" "\<not> starts_with (sc_output_dir c) ''/''"
    "''..'' \<notin> set (path_components (sc_output_dir c))"
    using assms(2) by (auto simp: is_safe_output_dir_def list_all_iff split: if_splits)
  moreover from calculation have "lines (join [CHR 0x0A] [?f, ?d] @ [CHR 0x0A]) = [?f, ?d]"
    by (intro lines_join) auto
  ultimately show ?thesis unfolding two_directives_def containerfile_def using one_source [of "sc_output_dir c"] by auto
qed

lemma build_bind_cong: "m = m' \<Longrightarrow> (\<And>a. f a = f' a) \<Longrightarrow> build_bind m f = build_bind m' f'"
  by (simp add: fun_eq_iff build_bind_def split: prod.splits sum.splits)

lemma write_update_simps:
  "run_ok (B\<lparr>bo_write := wr\<rparr>) = run_ok B" "emit (B\<lparr>bo_write := wr\<rparr>) = emit B"
  by (simp_all add: fun_eq_iff run_ok_def emit_def)

lemma write_update_parts:
  "clone_repo (B\<lparr>bo_write := wr\<rparr>) req d = clone_repo B req d" "read_digest (B\<lparr>bo_write := wr\<rparr>) d = read_digest B d"
  unfolding clone_repo_def read_digest_def write_update_simps by simp_all

text \<open>C31: The only file the engine of a static build itself writes is \<open>Containerfile.coolify\<close> in the cloned repository, and
  its text is exactly two directives: a request cannot add another directive; the image is one word;
  the output directory is relative and has no \<open>..\<close> as a component; and when it has no blank it is the
  only source of the \<open>COPY\<close>. Whatever writing another file or another text would do makes no
  difference to the build. (A directory with blanks is let through and does name several sources, see
  \<open>output_dir_with_blank_adds_a_source\<close>.)\<close>

theorem containerfile_has_two_directives:
  assumes "\<And>c. two_directives c \<Longrightarrow>
      wr (path_join (path_join work_dir ''repo'') ''Containerfile.coolify'') c =
      bo_write B (path_join (path_join work_dir ''repo'') ''Containerfile.coolify'') c"
  shows "run_build (B\<lparr>bo_write := wr\<rparr>) req work_dir w = run_build B req work_dir w"
proof -
  have "build_image (B\<lparr>bo_write := wr\<rparr>) req (build_config req) work_dir = build_image B req (build_config req) work_dir"
    if "is_safe_base_image (sc_base_image (build_config req))" "is_safe_output_dir (sc_output_dir (build_config req))"
    using assms [OF safe_containerfile [OF that]] by (simp add: build_image_def write_update_simps Let_def)
  then have "static_run (B\<lparr>bo_write := wr\<rparr>) req work_dir = static_run B req work_dir"
    by (auto simp: static_run_def build_digest_def Let_def write_update_simps write_update_parts)
  then show ?thesis by (simp add: run_build_def)
qed

text \<open>The check of the output directory lets blanks through. A directory \<open>x /etc\<close> or \<open>x ..\<close>, which a
  repository can have, then adds a second source to the \<open>COPY\<close>: an absolute one, or one that goes
  up.\<close>

theorem output_dir_with_blank_adds_a_source:
  "is_safe_output_dir ''x /etc'' \<and> is_safe_output_dir ''x ..'' \<and>
   copy_sources (''COPY ./'' @ ''x /etc'' @ '' /usr/share/nginx/html'') = [''./x'', ''/etc''] \<and>
   copy_sources (''COPY ./'' @ ''x ..'' @ '' /usr/share/nginx/html'') = [''./x'', ''..'']"
  by code_simp

subsection \<open>A successful build\<close>

text \<open>A build that succeeds was a static build whose repository was cloned and whose image buildah
  built; its digest is the trimmed content of the image id file and starts with \<open>sha256:\<close>, and its
  reference is the target image at that digest.\<close>

theorem build_success_sound:
  assumes "run_build B req work_dir w = (Inr r, w')"
  shows "br_stack req = Static \<and> bt_stack_used r = Static \<and> starts_with (bt_digest r) ''sha256:'' \<and>
     bt_registry_ref r = br_target_image req @ ''@'' @ bt_digest r \<and>
     (\<exists>w1 w2. bo_run B ''git'' [''clone'', ''--depth'', ''1'', ''--no-tags'', ''--'', br_repo_url req, ''repo''] work_dir w1 = (Exits True, w2)) \<and>
     (\<exists>args w1 w2. bo_run B ''buildah'' args (path_join work_dir ''repo'') w1 = (Exits True, w2)) \<and>
     (\<exists>raw w1 w2. bo_read B (path_join work_dir ''image-id'') w1 = (Inr raw, w2) \<and> bt_digest r = trim raw)"
proof -
  have st: "br_stack req = Static" "static_run B req work_dir w = (Inr r, w')"
    using assms by (auto simp: run_build_def split: if_splits)
  then obtain w1 w2 w3 w4 w5 w6 digest where c: "clone_repo B req work_dir w1 = (Inr (), w2)"
    and b: "build_image B req (build_config req) work_dir w3 = (Inr (), w4)"
    and d: "read_digest B work_dir w5 = (Inr digest, w6)"
    and r: "bt_digest r = digest" "bt_registry_ref r = br_target_image req @ ''@'' @ digest" "bt_stack_used r = Static"
    unfolding static_run_def build_digest_def Let_def build_bind_eq_Inr by (auto simp: build_bind_eq_Inr split: if_splits)
  have "\<exists>w2. bo_run B ''git'' [''clone'', ''--depth'', ''1'', ''--no-tags'', ''--'', br_repo_url req, ''repo''] work_dir w1 = (Exits True, w2)"
    using c unfolding clone_repo_def Let_def build_bind_eq_Inr run_ok_eq_Inr by (auto split: if_splits)
  moreover have "\<exists>args w1 w2. bo_run B ''buildah'' args (path_join work_dir ''repo'') w1 = (Exits True, w2)"
    using b unfolding build_image_def Let_def build_bind_eq_Inr run_ok_eq_Inr by (auto split: if_splits)
  moreover have "starts_with digest ''sha256:'' \<and> (\<exists>raw w2. bo_read B (path_join work_dir ''image-id'') w5 = (Inr raw, w2) \<and> digest = trim raw)"
    using d unfolding read_digest_def Let_def build_bind_eq_Inr by (auto split: if_splits)
  ultimately show ?thesis using st(1) unfolding r by auto
qed

subsection \<open>The reference that is built\<close>

text \<open>When the reference has to be fetched, the outcome of the checkout that follows is not looked
  at: the build goes on from whatever the repository holds, and so succeeds without the reference if
  that checkout fails.\<close>

theorem failed_checkout_ignored:
  assumes "bo_run B ''git'' [''clone'', ''--depth'', ''1'', ''--no-tags'', ''--'', br_repo_url req, ''repo''] work_dir w = (Exits True, w1)"
    and "bo_run B ''git'' [''checkout'', ''--'', br_git_ref req] (path_join work_dir ''repo'') w1 = (Exits False, w2)"
    and "bo_run B ''git'' [''fetch'', ''--depth'', ''1'', ''origin'', ''--'', br_git_ref req] (path_join work_dir ''repo'') w2 = (Exits True, w3)"
    and "bo_run B ''git'' [''checkout'', ''--'', ''FETCH_HEAD''] (path_join work_dir ''repo'') w3 = (Exits False, w4)"
  shows "clone_repo B req work_dir w = (Inr (), w4)"
  using assms by (simp add: clone_repo_def build_bind_def run_ok_def build_ok_def Let_def)

subsection \<open>Progress\<close>

text \<open>An observation of the world that only \<open>emit\<close> changes: the percentages reported so far.\<close>

definition observes_progress :: "'w build_ops \<Rightarrow> ('w \<Rightarrow> u32 list) \<Rightarrow> bool" where
  "observes_progress B seen =
     ((\<forall>ev w. seen (bo_emit B ev w) = seen w @ [pe_percent ev]) \<and>
      (\<forall>b a d w. seen (snd (bo_run B b a d w)) = seen w) \<and>
      (\<forall>p c w. seen (snd (bo_write B p c w)) = seen w) \<and> (\<forall>p w. seen (snd (bo_read B p w)) = seen w))"

definition reports :: "('w \<Rightarrow> u32 list) \<Rightarrow> ('w, 'a) build \<Rightarrow> u32 list \<Rightarrow> bool" where
  "reports seen m ps =
     (\<forall>w. case m w of
        (Inr _, w') \<Rightarrow> seen w' = seen w @ ps
      | (Inl _, w') \<Rightarrow> \<exists>n. seen w' = seen w @ take n ps)"

lemma reports_bind:
  assumes "reports seen m ps" and "\<And>a. reports seen (f a) qs"
  shows "reports seen (build_bind m f) (ps @ qs)"
  unfolding reports_def
proof
  fix w
  have m: "case m w of (Inr _, w') \<Rightarrow> seen w' = seen w @ ps | (Inl _, w') \<Rightarrow> \<exists>n. seen w' = seen w @ take n ps"
    using assms(1) by (simp add: reports_def)
  show "case build_bind m f w of (Inr _, w') \<Rightarrow> seen w' = seen w @ ps @ qs | (Inl _, w') \<Rightarrow> \<exists>n. seen w' = seen w @ take n (ps @ qs)"
  proof (cases "m w")
    case (Pair r w1)
    show ?thesis
    proof (cases r)
      case (Inl e)
      then obtain n where "seen w1 = seen w @ take n ps" using m Pair by auto
      then have "seen w1 = seen w @ take (min n (length ps)) (ps @ qs)" by (simp add: min_def)
      then have "\<exists>n. seen w1 = seen w @ take n (ps @ qs)" by blast
      then show ?thesis using Inl Pair by (simp add: build_bind_def del: take_append)
    next
      case (Inr a)
      then have w1: "seen w1 = seen w @ ps" using m Pair by auto
      have f: "case f a w1 of (Inr _, w') \<Rightarrow> seen w' = seen w1 @ qs | (Inl _, w') \<Rightarrow> \<exists>n. seen w' = seen w1 @ take n qs"
        using assms(2) [of a] by (simp add: reports_def)
      have "\<exists>k. ps @ take n qs = take k (ps @ qs)" for n by (rule exI [of _ "length ps + n"]) simp
      then show ?thesis
        using f w1 Inr Pair by (auto simp: build_bind_def split: prod.splits sum.splits)
    qed
  qed
qed

lemma reports_simple:
  assumes "observes_progress B seen"
  shows "reports seen (run_ok B b a d) []" "reports seen (emit B t l p) [p]"
    "reports seen (build_io f (bo_write B q c)) []" "reports seen (build_io f (bo_read B q)) []"
    "reports seen (build_fail x y z) ps" "reports seen (build_ok u) []"
proof -
  have "seen (snd (bo_run B b a d w)) = seen w" "seen (snd (bo_write B q c w)) = seen w" "seen (snd (bo_read B q w)) = seen w"
    "seen (bo_emit B ev w) = seen w @ [pe_percent ev]" for w ev
    using assms by (simp_all add: observes_progress_def)
  note o = this
  show "reports seen (run_ok B b a d) []" unfolding reports_def
  proof
    fix w show "case run_ok B b a d w of (Inr _, w') \<Rightarrow> seen w' = seen w @ [] | (Inl _, w') \<Rightarrow> \<exists>n. seen w' = seen w @ take n []"
      using o(1) [of w] by (cases "bo_run B b a d w") (auto simp: run_ok_def split: run_end.splits)
  qed
  show "reports seen (build_io f (bo_write B q c)) []" unfolding reports_def
  proof
    fix w show "case build_io f (bo_write B q c) w of (Inr _, w') \<Rightarrow> seen w' = seen w @ [] | (Inl _, w') \<Rightarrow> \<exists>n. seen w' = seen w @ take n []"
      using o(2) [of w] by (cases "bo_write B q c w") (auto simp: build_io_def split: sum.splits)
  qed
  show "reports seen (build_io f (bo_read B q)) []" unfolding reports_def
  proof
    fix w show "case build_io f (bo_read B q) w of (Inr _, w') \<Rightarrow> seen w' = seen w @ [] | (Inl _, w') \<Rightarrow> \<exists>n. seen w' = seen w @ take n []"
      using o(3) [of w] by (cases "bo_read B q w") (auto simp: build_io_def split: sum.splits)
  qed
  show "reports seen (emit B t l p) [p]" "reports seen (build_fail x y z) ps" "reports seen (build_ok u) []"
    using o(4) by (auto simp: reports_def emit_def build_fail_def build_ok_def intro: exI [of _ 0])
qed

lemma reports_seq:
  assumes "reports seen m []" and "\<And>a. reports seen (f a) qs"
  shows "reports seen (build_bind m f) qs"
  using reports_bind [OF assms(1), of f qs] assms(2) by simp

lemma reports_emit:
  assumes "observes_progress B seen" and "\<And>a. reports seen (f a) qs"
  shows "reports seen (build_bind (emit B t l p) f) (p # qs)"
  using reports_bind [OF reports_simple(2) [OF assms(1)], of f qs] assms(2) by simp

lemma reports_if: "(c \<Longrightarrow> reports seen a ps) \<Longrightarrow> (\<not> c \<Longrightarrow> reports seen b ps) \<Longrightarrow> reports seen (if c then a else b) ps"
  by simp

lemma reports_parts:
  assumes "observes_progress B seen"
  shows "reports seen (clone_repo B req d) []" "reports seen (read_digest B d) []" "reports seen (build_image B req cfg d) [20]"
proof -
  note simple = reports_simple [OF assms]
  show "reports seen (clone_repo B req d) []" "reports seen (read_digest B d) []"
    unfolding clone_repo_def read_digest_def Let_def by (intro reports_seq reports_if simple)+
  have "reports seen (\<lambda>w. if bo_exists B p w then (Inr (), w) else build_fail x y z w) []" for p x y z
    by (simp add: reports_def build_fail_def)
  then show "reports seen (build_image B req cfg d) [20]"
    unfolding build_image_def Let_def by (intro reports_seq reports_if reports_emit assms simple) auto
qed

text \<open>The percentages a static build reports are 0, 10, 15, 20, 80, 90 and 100, in this order and each
  once; a build that fails has reported the first few of them, so progress never goes back, and 100
  is reported only by a build that got its digest.\<close>

theorem progress_is_monotone:
  assumes "observes_progress B seen" and "run_build B req work_dir w = (r, w')"
  shows "\<exists>n. seen w' = seen w @ take n [0, 10, 15, 20, 80, 90, 100] \<and> (if is_ok r then n = 7 else n \<le> 6)"
proof (cases "br_stack req = Static \<and> is_safe_base_image (sc_base_image (build_config req))
    \<and> is_safe_output_dir (sc_output_dir (build_config req))")
  case False
  then have "is_ok r = False \<and> seen w' = seen w"
    using assms(2) by (auto simp: run_build_def static_run_def Let_def is_ok_def split: if_splits)
  then show ?thesis by (intro exI [of _ 0]) simp
next
  case True
  let ?D = "build_digest B req (build_config req) work_dir" and ?ps = "[0, 10, 15, 20, 80, 90] :: u32 list"
  note parts = reports_parts [OF assms(1)]
  have "reports seen ?D ?ps"
    unfolding build_digest_def
    by (intro reports_emit reports_seq [OF parts(1)] assms(1) parts
        reports_bind [OF parts(3), where qs = "[80, 90]", simplified])
  then have d: "case ?D w of (Inr _, w1) \<Rightarrow> seen w1 = seen w @ ?ps | (Inl _, w1) \<Rightarrow> \<exists>n. seen w1 = seen w @ take n ?ps"
    by (simp add: reports_def)
  have e: "seen (bo_emit B ev w) = seen w @ [pe_percent ev]" for ev w using assms(1) by (simp add: observes_progress_def)
  obtain q w1 where q: "?D w = (q, w1)" by (cases "?D w")
  show ?thesis
  proof (cases q)
    case (Inl x)
    then obtain n where "seen w1 = seen w @ take n ?ps" using d q by auto
    moreover have "r = Inl x" "w' = w1"
      using assms(2) True q Inl by (auto simp: run_build_def static_run_def Let_def build_bind_def)
    moreover have "take n ?ps = take (min n 6) [0, 10, 15, 20, 80, 90, 100]" by (simp add: min_def take_Cons' numeral_eq_Suc)
    ultimately show ?thesis by (intro exI [of _ "min n 6"]) (simp add: is_ok_def)
  next
    case (Inr digest)
    then have "seen w1 = seen w @ ?ps" using d q by simp
    then show ?thesis
      using assms(2) True q Inr e
      by (auto simp: run_build_def static_run_def Let_def build_bind_def emit_def is_ok_def)
  qed
qed

section \<open>The outcome the process leaves\<close>

text \<open>Surroundings in which the file system does not fail and standard output touches no file.\<close>

definition calm_env :: "'k builder_env \<Rightarrow> bool" where
  "calm_env E =
     ((\<forall>what p w. op_fault (ev_host E) what p w = None) \<and> (\<forall>p w. op_write_fault (ev_host E) p w = None) \<and>
      (\<forall>l w. file_at (ev_stdout E l w) = file_at w))"

lemma write_json_atomic_calm:
  assumes "calm_env E"
  obtains m where "file_at (write_json_atomic E p b w) = (file_at w)(p @ ''.tmp'' := None, p \<mapsto> \<lparr>fi_content = b, fi_mode = m\<rparr>)"
  using assms
  by (auto simp: calm_env_def write_json_atomic_def fs_write_with_def fs_guard_def fs_rename_def io_bind_def Let_def)

lemma emit_frame_calm:
  assumes "calm_env E" and "q \<noteq> events"
  shows "file_at (emit_frame E events f w) q = file_at w q"
  using assms by (auto simp: calm_env_def emit_frame_def fs_append_def split: sum.splits)

lemma path_join_eq:
  "\<not> starts_with a ''/'' \<Longrightarrow> \<not> starts_with b ''/'' \<Longrightarrow> path_join d a = path_join d b \<longleftrightarrow> a = b"
  "\<not> starts_with a ''/'' \<Longrightarrow> \<not> starts_with (a @ x) ''/'' \<Longrightarrow> path_join d a @ x = path_join d (a @ x)"
  by (auto simp: path_join_def)

lemma outcome_paths:
  "path_join d ''result.json'' \<noteq> path_join d ''error.json''"
  "path_join d ''events.ndjson'' \<noteq> path_join d ''error.json''" "path_join d ''events.ndjson'' \<noteq> path_join d ''result.json''"
  "path_join d ''error.json'' @ ''.tmp'' \<noteq> path_join d ''result.json''"
  "path_join d ''result.json'' @ ''.tmp'' \<noteq> path_join d ''error.json''"
  by (auto simp: path_join_def starts_with_def)

lemma report_error_files:
  assumes "calm_env E"
  shows "map_option fi_content (file_at (report_error E d e w) (path_join d ''error.json'')) = Some (or_empty (ev_error E e)) \<and>
     file_at (report_error E d e w) (path_join d ''result.json'') = file_at w (path_join d ''result.json'')"
proof -
  obtain m where m: "file_at (write_json_atomic E (path_join d ''error.json'') (or_empty (ev_error E e)) w) =
      (file_at w)(path_join d ''error.json'' @ ''.tmp'' := None, path_join d ''error.json'' \<mapsto> \<lparr>fi_content = or_empty (ev_error E e), fi_mode = m\<rparr>)"
    by (rule write_json_atomic_calm [OF assms])
  note paths = outcome_paths [of d]
  show ?thesis
    unfolding report_error_def emit_frame_calm [OF assms paths(2) [symmetric]] emit_frame_calm [OF assms paths(3) [symmetric]] m
    using paths by auto
qed

lemma report_result_files:
  assumes "calm_env E"
  shows "map_option fi_content (file_at (report_result E d r w) (path_join d ''result.json'')) = Some (or_empty (ev_result E r)) \<and>
     file_at (report_result E d r w) (path_join d ''error.json'') = file_at w (path_join d ''error.json'')"
proof -
  obtain m where m: "file_at (write_json_atomic E (path_join d ''result.json'') (or_empty (ev_result E r)) w) =
      (file_at w)(path_join d ''result.json'' @ ''.tmp'' := None, path_join d ''result.json'' \<mapsto> \<lparr>fi_content = or_empty (ev_result E r), fi_mode = m\<rparr>)"
    by (rule write_json_atomic_calm [OF assms])
  note paths = outcome_paths [of d]
  show ?thesis
    unfolding report_result_def emit_frame_calm [OF assms paths(2) [symmetric]] emit_frame_calm [OF assms paths(3) [symmetric]] m
    using paths by auto
qed

text \<open>The exit code says which file holds the outcome. When the process exits with 0 the build
  succeeded and \<open>result.json\<close> holds its result, while \<open>error.json\<close> is as the build left it; with 1 or
  130 \<open>error.json\<close> holds the error of the build or the cancellation, and \<open>result.json\<close> is not written.\<close>

theorem exit_code_matches_outcome:
  assumes "calm_env E" and "build_and_report E d req w = (code, w')"
  shows "case ev_sigterm E of
      Some dropped \<Rightarrow> code = 130 \<and>
        map_option fi_content (file_at w' (path_join d ''error.json'')) = Some (or_empty (ev_error E (build_err 499 ''cancel'' ''cancelled''))) \<and>
        file_at w' (path_join d ''result.json'') = file_at (dropped w) (path_join d ''result.json'')
    | None \<Rightarrow> (case run_build (host_build_ops E (path_join d ''events.ndjson'')) req d w of
        (Inr r, w1) \<Rightarrow> code = 0 \<and> map_option fi_content (file_at w' (path_join d ''result.json'')) = Some (or_empty (ev_result E r)) \<and>
          file_at w' (path_join d ''error.json'') = file_at w1 (path_join d ''error.json'')
      | (Inl e, w1) \<Rightarrow> code = 1 \<and> map_option fi_content (file_at w' (path_join d ''error.json'')) = Some (or_empty (ev_error E e)) \<and>
          file_at w' (path_join d ''result.json'') = file_at w1 (path_join d ''result.json''))"
  using assms(2) report_error_files [OF assms(1)] report_result_files [OF assms(1)]
  by (auto simp: build_and_report_def split: option.splits prod.splits sum.splits)

section \<open>Witnesses\<close>

definition sample_request :: build_request where
  "sample_request =
     \<lparr>br_repo_url = ''https://g/r'', br_git_ref = ''v1'', br_stack = Static, br_target_image = ''reg/app'', br_cache_key = [],
      br_static_cfg = None\<rparr>"

text \<open>Every program succeeds but the two checkouts; the world is the percentages reported.\<close>

definition sample_build :: "u32 list build_ops" where
  "sample_build =
     \<lparr>bo_run = (\<lambda>b a d w. (Exits (hd a \<noteq> ''checkout''), w)), bo_exists = (\<lambda>_ _. True), bo_write = (\<lambda>_ _. io_return ()),
      bo_read = (\<lambda>_. io_return ''sha256:ab''), bo_emit = (\<lambda>ev w. w @ [pe_percent ev]), bo_elapsed_ms = (\<lambda>_. 5)\<rparr>"

lemma sample_run:
  "run_build sample_build sample_request ''/w'' [] =
     (Inr \<lparr>bt_digest = ''sha256:ab'', bt_registry_ref = ''reg/app@sha256:ab'', bt_duration_ms = 5, bt_stack_used = Static\<rparr>,
      [0, 10, 15, 20, 80, 90, 100])"
  by code_simp

definition strict_write :: "string \<Rightarrow> string \<Rightarrow> (u32 list, unit) io" where
  "strict_write p c =
     (if length (lines c) = 2 \<and> p = path_join (path_join ''/w'' ''repo'') ''Containerfile.coolify'' then io_return ()
      else io_fail ''refused'')"

theorem containerfile_has_two_directives_witness:
  "run_build (sample_build\<lparr>bo_write := strict_write\<rparr>) sample_request ''/w'' [] = run_build sample_build sample_request ''/w'' [] \<and>
   is_ok (fst (run_build (sample_build\<lparr>bo_write := strict_write\<rparr>) sample_request ''/w'' []))"
proof -
  have "run_build (sample_build\<lparr>bo_write := strict_write\<rparr>) sample_request ''/w'' [] = run_build sample_build sample_request ''/w'' []"
    by (rule containerfile_has_two_directives) (auto simp: two_directives_def strict_write_def sample_build_def)
  then show ?thesis by (simp add: sample_run is_ok_def)
qed

theorem build_success_sound_witness:
  "starts_with ''sha256:ab'' ''sha256:'' \<and> br_stack sample_request = Static"
  using build_success_sound [OF sample_run] by simp

theorem failed_checkout_ignored_witness:
  "clone_repo sample_build sample_request ''/w'' [] = (Inr (), [])"
  by (rule failed_checkout_ignored [of sample_build sample_request "''/w''" "[]" "[]" "[]" "[]" "[]"]) (simp_all add: sample_build_def)

theorem progress_is_monotone_witness:
  "\<exists>n. snd (run_build sample_build sample_request ''/w'' []) = take n [0, 10, 15, 20, 80, 90, 100] \<and> n = 7"
proof -
  have "observes_progress sample_build id" by (simp add: observes_progress_def sample_build_def io_return_def)
  from progress_is_monotone [OF this sample_run] show ?thesis by (simp add: sample_run is_ok_def)
qed

definition sample_env :: "string list list builder_env" where
  "sample_env =
     \<lparr>ev_host = calm_ops, ev_stdout = (\<lambda>_ w. w), ev_run = (\<lambda>_ _ _ w. (Exits False, w)), ev_exists = (\<lambda>_ _. True),
      ev_elapsed_ms = (\<lambda>_. 0), ev_decode = (\<lambda>_. Inl ''EOF''), ev_frame = (\<lambda>_. Inr ''frame''), ev_result = (\<lambda>_. Inr ''ok''),
      ev_error = (\<lambda>e. Inr (be_message e)), ev_install_sigterm = Inr (), ev_sigterm = None\<rparr>"

theorem exit_code_matches_outcome_witness:
  "map_option fi_content (file_at (snd (build_and_report sample_env ''/w'' (sample_request\<lparr>br_stack := Dockerfile\<rparr>) empty_host))
     (path_join ''/w'' ''error.json'')) = Some ''build stack Dockerfile not implemented in MVP''"
  using exit_code_matches_outcome [of sample_env "''/w''" "sample_request\<lparr>br_stack := Dockerfile\<rparr>" empty_host]
  by (cases "build_and_report sample_env ''/w'' (sample_request\<lparr>br_stack := Dockerfile\<rparr>) empty_host")
    (simp add: calm_env_def sample_env_def run_build_def build_fail_def build_err_def or_empty_def sample_request_def)

end
