(* ===== verification/BuilderWire.thy ===== *)
theory BuilderWire
  imports Builder Proto
begin

text \<open>
  The wire between coold and a build process: \<open>request.json\<close>, which \<open>coold/src/builder/mod.rs\<close> writes
  and \<open>builder\<close> reads, and the frames and outcome files that go the other way. The two sides declare
  their types separately, so the theorems here are about their agreement. The encoders and decoders
  are those serde derives; JSON text is not part of this theory. The protocol messages of coold's side
  are generated code: their fields are those the file uses, and the numbers of the enum
  \<open>BuildStack\<close> are parameters.
\<close>

section \<open>Reading structs and enums\<close>

text \<open>A derived struct is read from an object, where a known member may occur once and unknown ones are
  ignored, or from an array, which gives the members in the order of their declaration.\<close>

fun struct_members :: "string list \<Rightarrow> json \<Rightarrow> (string \<times> json) list option" where
  "struct_members ks (JObject kvs) = (if distinct (filter (\<lambda>k. k \<in> set ks) (map fst kvs)) then Some kvs else None)"
| "struct_members ks (JArray vs) = (if length vs \<le> length ks then Some (zip ks vs) else None)"
| "struct_members ks _ = None"

definition get_member :: "string \<Rightarrow> (json \<Rightarrow> 'a option) \<Rightarrow> (string \<times> json) list \<Rightarrow> 'a option" where
  "get_member k f ms = Option.bind (map_of ms k) f"

definition get_member_or :: "string \<Rightarrow> (json \<Rightarrow> 'a option) \<Rightarrow> 'a \<Rightarrow> (string \<times> json) list \<Rightarrow> 'a option" where
  "get_member_or k f d ms = (case map_of ms k of None \<Rightarrow> Some d | Some v \<Rightarrow> f v)"

text \<open>An \<open>Option\<close> reads \<open>null\<close> as absent.\<close>

fun optional :: "(json \<Rightarrow> 'a option) \<Rightarrow> json \<Rightarrow> 'a option option" where
  "optional f JNull = Some None"
| "optional f v = map_option Some (f v)"

fun read_u64 :: "json \<Rightarrow> u64 option" where
  "read_u64 (JNumber (NInt n)) = (if 0 \<le> n \<and> n < 2 ^ 64 then Some (nat n) else None)"
| "read_u64 _ = None"

text \<open>A unit variant is its name, or an object with that name and no value. The frames are buffered
  before they are read (their tag selects the variant), and buffered content also takes the empty
  object for no value.\<close>

fun unit_variant :: "bool \<Rightarrow> (string \<times> 'a) list \<Rightarrow> json \<Rightarrow> 'a option" where
  "unit_variant buffered vs (JString s) = map_of vs s"
| "unit_variant buffered vs (JObject [(k, v)]) = (if v = JNull \<or> buffered \<and> v = JObject [] then map_of vs k else None)"
| "unit_variant buffered vs _ = None"

lemma struct_members_object:
  "distinct (map fst kvs) \<Longrightarrow> struct_members ks (JObject kvs) = Some kvs"
  by simp

declare struct_members.simps [simp del]

lemma json_u32_uint [simp]: "json_u32 (jint (uint n)) = Some n"
  using uint_range_size [of n] by (simp add: jint_def word_size)

lemma read_u64_nat [simp]: "n < 2 ^ 64 \<Longrightarrow> read_u64 (jint (int n)) = Some n"
  by (simp add: jint_def)

section \<open>The builder's side\<close>

text \<open>\<open>builder-core/src/types.rs\<close>.\<close>

fun build_stack_json :: "build_stack \<Rightarrow> json" where
  "build_stack_json Unspecified = JString ''unspecified''"
| "build_stack_json Dockerfile = JString ''dockerfile''"
| "build_stack_json Buildpacks = JString ''buildpacks''"
| "build_stack_json Railpack = JString ''railpack''"
| "build_stack_json Static = JString ''static''"

definition build_stack_from_json :: "json \<Rightarrow> build_stack option" where
  "build_stack_from_json =
     unit_variant False [(''unspecified'', Unspecified), (''dockerfile'', Dockerfile), (''buildpacks'', Buildpacks),
       (''railpack'', Railpack), (''static'', Static)]"

definition static_config_from_json :: "json \<Rightarrow> static_config option" where
  "static_config_from_json v =
     Option.bind (struct_members [''output_dir'', ''base_image''] v) (\<lambda>ms.
     Option.bind (get_member_or ''output_dir'' as_str [] ms) (\<lambda>out.
     Option.bind (get_member_or ''base_image'' as_str [] ms) (\<lambda>base.
     Some \<lparr>sc_output_dir = out, sc_base_image = base\<rparr>)))"

definition build_request_from_json :: "json \<Rightarrow> build_request option" where
  "build_request_from_json v =
     Option.bind (struct_members [''repo_url'', ''git_ref'', ''stack'', ''target_image'', ''cache_key'', ''static_cfg''] v) (\<lambda>ms.
     Option.bind (get_member ''repo_url'' as_str ms) (\<lambda>url.
     Option.bind (get_member ''git_ref'' as_str ms) (\<lambda>git_ref.
     Option.bind (get_member ''stack'' build_stack_from_json ms) (\<lambda>stack.
     Option.bind (get_member ''target_image'' as_str ms) (\<lambda>image.
     Option.bind (get_member_or ''cache_key'' as_str [] ms) (\<lambda>cache_key.
     Option.bind (get_member_or ''static_cfg'' (optional static_config_from_json) None ms) (\<lambda>cfg.
     Some \<lparr>br_repo_url = url, br_git_ref = git_ref, br_stack = stack, br_target_image = image, br_cache_key = cache_key,
           br_static_cfg = cfg\<rparr>)))))))"

definition build_result_json :: "build_result \<Rightarrow> json" where
  "build_result_json r =
     JObject [(''digest'', JString (bt_digest r)), (''registry_ref'', JString (bt_registry_ref r)),
       (''duration_ms'', jint (int (bt_duration_ms r))), (''stack_used'', build_stack_json (bt_stack_used r))]"

definition build_error_json :: "build_error \<Rightarrow> json" where
  "build_error_json e =
     JObject [(''code'', jint (uint (be_code e))), (''message'', JString (be_message e)), (''stage'', JString (be_stage e))]"

text \<open>\<open>Frame\<close> of \<open>builder/src/main.rs\<close>: the members of the variant after the tag.\<close>

fun frame_json :: "frame \<Rightarrow> json" where
  "frame_json (FProgress ev) =
     JObject [(''type'', JString ''progress''), (''stage'', JString (pe_stage ev)), (''log'', JString (pe_log ev)),
       (''percent'', jint (uint (pe_percent ev)))]"
| "frame_json (FResult r) = JObject [(''type'', JString ''result''), (''ok'', build_result_json r)]"
| "frame_json (FError e) = JObject [(''type'', JString ''error''), (''err'', build_error_json e)]"

section \<open>coold's side\<close>

datatype proto_stack = PUnspecified | PDockerfile | PBuildpacks | PRailpack | PStatic

record proto_build_request =
  pq_repo_url :: string
  pq_git_ref :: string
  pq_stack :: int
  pq_target_image :: string
  pq_cache_key :: string
  pq_static_cfg :: "static_config option"

record proto_build_result =
  pt_digest :: string
  pt_registry_ref :: string
  pt_duration_ms :: u64
  pt_stack_used :: int

datatype build_response_body = BodyOk proto_build_result | BodyErr build_error

datatype subprocess_stack = SUnspecified | SDockerfile | SBuildpacks | SRailpack | SStatic

record subprocess_static =
  sx_output_dir :: string
  sx_base_image :: string

record subprocess_request =
  sr_repo_url :: string
  sr_git_ref :: string
  sr_stack :: subprocess_stack
  sr_target_image :: string
  sr_cache_key :: string
  sr_static_cfg :: "subprocess_static option"

fun stack_from :: "proto_stack \<Rightarrow> subprocess_stack" where
  "stack_from PUnspecified = SUnspecified"
| "stack_from PDockerfile = SDockerfile"
| "stack_from PBuildpacks = SBuildpacks"
| "stack_from PRailpack = SRailpack"
| "stack_from PStatic = SStatic"

fun stack_into_proto :: "subprocess_stack \<Rightarrow> proto_stack" where
  "stack_into_proto SUnspecified = PUnspecified"
| "stack_into_proto SDockerfile = PDockerfile"
| "stack_into_proto SBuildpacks = PBuildpacks"
| "stack_into_proto SRailpack = PRailpack"
| "stack_into_proto SStatic = PStatic"

text \<open>\<open>of_num\<close> is the generated \<open>BuildStack::try_from\<close>.\<close>

definition from_proto :: "(int \<Rightarrow> proto_stack option) \<Rightarrow> proto_build_request \<Rightarrow> subprocess_request" where
  "from_proto of_num req =
     (let stack = (case of_num (pq_stack req) of Some s \<Rightarrow> s | None \<Rightarrow> PUnspecified);
          static_cfg = map_option (\<lambda>c. \<lparr>sx_output_dir = sc_output_dir c, sx_base_image = sc_base_image c\<rparr>) (pq_static_cfg req) in
      \<lparr>sr_repo_url = pq_repo_url req, sr_git_ref = pq_git_ref req, sr_stack = stack_from stack,
       sr_target_image = pq_target_image req, sr_cache_key = pq_cache_key req, sr_static_cfg = static_cfg\<rparr>)"

fun subprocess_stack_json :: "subprocess_stack \<Rightarrow> json" where
  "subprocess_stack_json SUnspecified = JString ''unspecified''"
| "subprocess_stack_json SDockerfile = JString ''dockerfile''"
| "subprocess_stack_json SBuildpacks = JString ''buildpacks''"
| "subprocess_stack_json SRailpack = JString ''railpack''"
| "subprocess_stack_json SStatic = JString ''static''"

definition subprocess_stack_from_json :: "bool \<Rightarrow> json \<Rightarrow> subprocess_stack option" where
  "subprocess_stack_from_json buffered =
     unit_variant buffered [(''unspecified'', SUnspecified), (''dockerfile'', SDockerfile), (''buildpacks'', SBuildpacks),
       (''railpack'', SRailpack), (''static'', SStatic)]"

definition skip_empty :: "string \<Rightarrow> string \<Rightarrow> (string \<times> json) list" where
  "skip_empty k s = (if s = [] then [] else [(k, JString s)])"

definition subprocess_static_json :: "subprocess_static \<Rightarrow> json" where
  "subprocess_static_json c =
     JObject (skip_empty ''output_dir'' (sx_output_dir c) @ skip_empty ''base_image'' (sx_base_image c))"

definition subprocess_request_json :: "subprocess_request \<Rightarrow> json" where
  "subprocess_request_json r =
     JObject ([(''repo_url'', JString (sr_repo_url r)), (''git_ref'', JString (sr_git_ref r)),
       (''stack'', subprocess_stack_json (sr_stack r)), (''target_image'', JString (sr_target_image r))] @
       skip_empty ''cache_key'' (sr_cache_key r) @
       (case sr_static_cfg r of None \<Rightarrow> [] | Some c \<Rightarrow> [(''static_cfg'', subprocess_static_json c)]))"

subsection \<open>Frames\<close>

record frame_result =
  fr_digest :: string
  fr_registry_ref :: string
  fr_duration_ms :: u64
  fr_stack_used :: subprocess_stack

record frame_error =
  fe_code :: u32
  fe_message :: string
  fe_stage :: string

datatype coold_frame = Progress string string u32 | Result frame_result | Error frame_error

definition frame_result_from_json :: "bool \<Rightarrow> json \<Rightarrow> frame_result option" where
  "frame_result_from_json buffered v =
     Option.bind (struct_members [''digest'', ''registry_ref'', ''duration_ms'', ''stack_used''] v) (\<lambda>ms.
     Option.bind (get_member ''digest'' as_str ms) (\<lambda>digest.
     Option.bind (get_member ''registry_ref'' as_str ms) (\<lambda>ref.
     Option.bind (get_member ''duration_ms'' read_u64 ms) (\<lambda>duration.
     Option.bind (get_member ''stack_used'' (subprocess_stack_from_json buffered) ms) (\<lambda>stack.
     Some \<lparr>fr_digest = digest, fr_registry_ref = ref, fr_duration_ms = duration, fr_stack_used = stack\<rparr>)))))"

definition frame_error_from_json :: "json \<Rightarrow> frame_error option" where
  "frame_error_from_json v =
     Option.bind (struct_members [''code'', ''message'', ''stage''] v) (\<lambda>ms.
     Option.bind (get_member ''code'' json_u32 ms) (\<lambda>code.
     Option.bind (get_member ''message'' as_str ms) (\<lambda>message.
     Option.bind (get_member_or ''stage'' as_str [] ms) (\<lambda>stage.
     Some \<lparr>fe_code = code, fe_message = message, fe_stage = stage\<rparr>))))"

text \<open>The tag is the member \<open>type\<close>, or the first element of an array; the rest is the variant.\<close>

fun split_tag :: "json \<Rightarrow> (json \<times> json) option" where
  "split_tag (JObject kvs) =
     (case filter (\<lambda>p. fst p = ''type'') kvs of
        [(_, t)] \<Rightarrow> Some (t, JObject (filter (\<lambda>p. fst p \<noteq> ''type'') kvs))
      | _ \<Rightarrow> None)"
| "split_tag (JArray (t # vs)) = Some (t, JArray vs)"
| "split_tag _ = None"

definition progress_from_json :: "json \<Rightarrow> coold_frame option" where
  "progress_from_json v =
     Option.bind (struct_members [''stage'', ''log'', ''percent''] v) (\<lambda>ms.
     Option.bind (get_member ''stage'' as_str ms) (\<lambda>stage.
     Option.bind (get_member ''log'' as_str ms) (\<lambda>log.
     Option.bind (get_member ''percent'' json_u32 ms) (\<lambda>percent.
     Some (Progress stage log percent)))))"

definition frame_from_json :: "json \<Rightarrow> coold_frame option" where
  "frame_from_json v =
     Option.bind (split_tag v) (\<lambda>(t, rest).
       if t = JString ''progress'' then progress_from_json rest
       else if t = JString ''result'' then
         Option.bind (struct_members [''ok''] rest) (\<lambda>ms. map_option Result (get_member ''ok'' (frame_result_from_json True) ms))
       else if t = JString ''error'' then
         Option.bind (struct_members [''err''] rest) (\<lambda>ms. map_option Error (get_member ''err'' frame_error_from_json ms))
       else None)"

text \<open>\<open>num\<close> is the number of a value of the enum.\<close>

definition frame_result_into_proto :: "(proto_stack \<Rightarrow> int) \<Rightarrow> frame_result \<Rightarrow> proto_build_result" where
  "frame_result_into_proto num r =
     \<lparr>pt_digest = fr_digest r, pt_registry_ref = fr_registry_ref r, pt_duration_ms = fr_duration_ms r,
      pt_stack_used = num (stack_into_proto (fr_stack_used r))\<rparr>"

definition frame_error_into_proto :: "frame_error \<Rightarrow> build_error" where
  "frame_error_into_proto e = \<lparr>be_code = fe_code e, be_message = fe_message e, be_stage = fe_stage e\<rparr>"

subsection \<open>Outcome files\<close>

record stored_result =
  st_digest :: string
  st_registry_ref :: string
  st_duration_ms :: u64
  st_stack_used :: subprocess_stack

record stored_error =
  sd_code :: u32
  sd_message :: string
  sd_stage :: string

definition stored_result_from_json :: "json \<Rightarrow> stored_result option" where
  "stored_result_from_json v =
     Option.bind (struct_members [''digest'', ''registry_ref'', ''duration_ms'', ''stack_used''] v) (\<lambda>ms.
     Option.bind (get_member ''digest'' as_str ms) (\<lambda>digest.
     Option.bind (get_member ''registry_ref'' as_str ms) (\<lambda>ref.
     Option.bind (get_member ''duration_ms'' read_u64 ms) (\<lambda>duration.
     Option.bind (get_member ''stack_used'' (subprocess_stack_from_json False) ms) (\<lambda>stack.
     Some \<lparr>st_digest = digest, st_registry_ref = ref, st_duration_ms = duration, st_stack_used = stack\<rparr>)))))"

definition stored_error_from_json :: "json \<Rightarrow> stored_error option" where
  "stored_error_from_json v =
     Option.bind (struct_members [''code'', ''message'', ''stage''] v) (\<lambda>ms.
     Option.bind (get_member ''code'' json_u32 ms) (\<lambda>code.
     Option.bind (get_member ''message'' as_str ms) (\<lambda>message.
     Option.bind (get_member_or ''stage'' as_str [] ms) (\<lambda>stage.
     Some \<lparr>sd_code = code, sd_message = message, sd_stage = stage\<rparr>))))"

definition stored_result_into_proto :: "(proto_stack \<Rightarrow> int) \<Rightarrow> stored_result \<Rightarrow> proto_build_result" where
  "stored_result_into_proto num r =
     \<lparr>pt_digest = st_digest r, pt_registry_ref = st_registry_ref r, pt_duration_ms = st_duration_ms r,
      pt_stack_used = num (stack_into_proto (st_stack_used r))\<rparr>"

definition stored_error_into_proto :: "stored_error \<Rightarrow> build_error" where
  "stored_error_into_proto e = \<lparr>be_code = sd_code e, be_message = sd_message e, be_stage = sd_stage e\<rparr>"

section \<open>The two sides agree\<close>

text \<open>The stack of the build engine that a number of the protocol stands for.\<close>

fun engine_stack :: "proto_stack \<Rightarrow> build_stack" where
  "engine_stack PUnspecified = Unspecified"
| "engine_stack PDockerfile = Dockerfile"
| "engine_stack PBuildpacks = Buildpacks"
| "engine_stack PRailpack = Railpack"
| "engine_stack PStatic = Static"

fun proto_of_engine :: "build_stack \<Rightarrow> proto_stack" where
  "proto_of_engine Unspecified = PUnspecified"
| "proto_of_engine Dockerfile = PDockerfile"
| "proto_of_engine Buildpacks = PBuildpacks"
| "proto_of_engine Railpack = PRailpack"
| "proto_of_engine Static = PStatic"

definition result_of_engine :: "(proto_stack \<Rightarrow> int) \<Rightarrow> build_result \<Rightarrow> proto_build_result" where
  "result_of_engine num r =
     \<lparr>pt_digest = bt_digest r, pt_registry_ref = bt_registry_ref r, pt_duration_ms = bt_duration_ms r,
      pt_stack_used = num (proto_of_engine (bt_stack_used r))\<rparr>"

lemma stack_wire: "build_stack_from_json (subprocess_stack_json (stack_from p)) = Some (engine_stack p)"
  by (cases p) (simp_all add: build_stack_from_json_def)

lemma stack_back:
  "\<exists>s. subprocess_stack_from_json b (build_stack_json x) = Some s \<and> stack_into_proto s = proto_of_engine x"
  by (cases x) (simp_all add: subprocess_stack_from_json_def)

lemma static_wire:
  "static_config_from_json (subprocess_static_json \<lparr>sx_output_dir = a, sx_base_image = b\<rparr>) =
     Some \<lparr>sc_output_dir = a, sc_base_image = b\<rparr>"
  by (simp add: static_config_from_json_def subprocess_static_json_def struct_members_object skip_empty_def get_member_or_def)

text \<open>The request of the protocol as the build engine sees it.\<close>

definition engine_request :: "(int \<Rightarrow> proto_stack option) \<Rightarrow> proto_build_request \<Rightarrow> build_request" where
  "engine_request of_num req =
     \<lparr>br_repo_url = pq_repo_url req, br_git_ref = pq_git_ref req,
      br_stack = engine_stack (case of_num (pq_stack req) of Some s \<Rightarrow> s | None \<Rightarrow> PUnspecified),
      br_target_image = pq_target_image req, br_cache_key = pq_cache_key req, br_static_cfg = pq_static_cfg req\<rparr>"

text \<open>The builder reads back the request coold was sent. From the \<open>request.json\<close> coold writes, whatever
  members it leaves out, the builder's decoder gives the fields of the request, with the stack its
  number names and the unspecified stack for a number that names none.\<close>

lemma request_wire:
  "build_request_from_json (subprocess_request_json (from_proto of_num req)) = Some (engine_request of_num req)"
proof -
  let ?kvs = "[(''repo_url'', JString (pq_repo_url req)), (''git_ref'', JString (pq_git_ref req)),
       (''stack'', subprocess_stack_json (stack_from (case of_num (pq_stack req) of Some s \<Rightarrow> s | None \<Rightarrow> PUnspecified))),
       (''target_image'', JString (pq_target_image req))] @ skip_empty ''cache_key'' (pq_cache_key req) @
       (case pq_static_cfg req of None \<Rightarrow> []
        | Some c \<Rightarrow> [(''static_cfg'', subprocess_static_json \<lparr>sx_output_dir = sc_output_dir c, sx_base_image = sc_base_image c\<rparr>)])"
  have j: "subprocess_request_json (from_proto of_num req) = JObject ?kvs"
    by (auto simp: subprocess_request_json_def from_proto_def Let_def split: option.splits)
  have d: "distinct (map fst ?kvs)" by (simp add: skip_empty_def split: option.splits)
  have o: "optional static_config_from_json (subprocess_static_json c) = map_option Some (static_config_from_json (subprocess_static_json c))" for c
    by (simp add: subprocess_static_json_def)
  have "get_member_or ''static_cfg'' (optional static_config_from_json) None ?kvs = Some (pq_static_cfg req)"
    by (cases "pq_static_cfg req") (simp_all add: get_member_or_def skip_empty_def o static_wire)
  moreover have "get_member_or ''cache_key'' as_str [] ?kvs = Some (pq_cache_key req)"
    by (cases "pq_static_cfg req") (simp_all add: get_member_or_def skip_empty_def)
  ultimately show ?thesis
    unfolding j build_request_from_json_def struct_members_object [OF d] by (simp add: get_member_def stack_wire engine_request_def)
qed

lemma frame_result_wire:
  assumes "bt_duration_ms r < 2 ^ 64"
  obtains f where "frame_result_from_json b (build_result_json r) = Some f" "frame_result_into_proto num f = result_of_engine num r"
proof -
  obtain s where s: "subprocess_stack_from_json b (build_stack_json (bt_stack_used r)) = Some s"
    "stack_into_proto s = proto_of_engine (bt_stack_used r)" using stack_back by blast
  show ?thesis
    by (rule that [of "\<lparr>fr_digest = bt_digest r, fr_registry_ref = bt_registry_ref r, fr_duration_ms = bt_duration_ms r, fr_stack_used = s\<rparr>"])
       (simp_all add: frame_result_from_json_def build_result_json_def struct_members_object get_member_def read_u64_nat [OF assms] s
         frame_result_into_proto_def result_of_engine_def)
qed

lemma frame_error_wire:
  "frame_error_from_json (build_error_json e) = Some \<lparr>fe_code = be_code e, fe_message = be_message e, fe_stage = be_stage e\<rparr>"
  by (simp add: frame_error_from_json_def build_error_json_def struct_members_object get_member_def get_member_or_def)

text \<open>What coold understands of a frame of the builder.\<close>

fun understood :: "(proto_stack \<Rightarrow> int) \<Rightarrow> frame \<Rightarrow> coold_frame \<Rightarrow> bool" where
  "understood num (FProgress ev) f = (f = Progress (pe_stage ev) (pe_log ev) (pe_percent ev))"
| "understood num (FResult r) f = (\<exists>x. f = Result x \<and> frame_result_into_proto num x = result_of_engine num r)"
| "understood num (FError e) f = (\<exists>x. f = Error x \<and> frame_error_into_proto x = e)"

text \<open>Coold understands every frame of the builder: a progress frame with its stage, text and percentage,
  a result frame as the engine's result with the protocol's number of its stack, an error frame as the
  engine's error. (The duration is a 64-bit number.)\<close>

theorem frames_understood:
  assumes "\<And>r. f = FResult r \<Longrightarrow> bt_duration_ms r < 2 ^ 64"
  shows "\<exists>c. frame_from_json (frame_json f) = Some c \<and> understood num f c"
proof (cases f)
  case (FProgress ev)
  then show ?thesis
    by (simp add: frame_from_json_def progress_from_json_def struct_members_object get_member_def)
next
  case (FResult r)
  obtain x where "frame_result_from_json True (build_result_json r) = Some x" "frame_result_into_proto num x = result_of_engine num r"
    using assms [OF FResult] by (rule frame_result_wire)
  then show ?thesis using FResult by (simp add: frame_from_json_def struct_members_object get_member_def)
next
  case (FError e)
  then show ?thesis
    by (simp add: frame_from_json_def struct_members_object get_member_def frame_error_wire frame_error_into_proto_def)
qed

lemma stored_result_wire:
  assumes "bt_duration_ms r < 2 ^ 64"
  obtains f where "stored_result_from_json (build_result_json r) = Some f" "stored_result_into_proto num f = result_of_engine num r"
proof -
  obtain s where s: "subprocess_stack_from_json False (build_stack_json (bt_stack_used r)) = Some s"
    "stack_into_proto s = proto_of_engine (bt_stack_used r)" using stack_back by blast
  show ?thesis
    by (rule that [of "\<lparr>st_digest = bt_digest r, st_registry_ref = bt_registry_ref r, st_duration_ms = bt_duration_ms r, st_stack_used = s\<rparr>"])
       (simp_all add: stored_result_from_json_def build_result_json_def struct_members_object get_member_def read_u64_nat [OF assms] s
         stored_result_into_proto_def result_of_engine_def)
qed

lemma stored_error_wire:
  "\<exists>x. stored_error_from_json (build_error_json e) = Some x \<and> stored_error_into_proto x = e"
  by (simp add: stored_error_from_json_def build_error_json_def struct_members_object get_member_def get_member_or_def
      stored_error_into_proto_def)

theorem frames_understood_witness:
  "\<exists>c. frame_from_json (frame_json (FProgress \<lparr>pe_stage = ''git'', pe_log = ''cloning'', pe_percent = 10\<rparr>)) = Some c \<and>
     understood (\<lambda>_. 0) (FProgress \<lparr>pe_stage = ''git'', pe_log = ''cloning'', pe_percent = 10\<rparr>) c"
  by (rule frames_understood) simp

end
