(* ===== verification/CooldBuilder.thy ===== *)
theory CooldBuilder
  imports BuilderWire "HOL-Library.Multiset"
begin

text \<open>
  \<open>coold/src/builder/mod.rs\<close>: the adapter that runs one build process per request in a transient
  systemd unit. (No module of the crate declares the file, which the architecture document calls
  deferred; it is modelled as the code it is.) A state is the context, the files and directories of
  the host, the tasks that were spawned and the responses sent; the events are the calls and what
  the child processes do, in any order. The programs \<open>systemd-run\<close> and \<open>systemctl\<close>, the JSON text
  layer and the faults of the file system are parameters.
\<close>

section \<open>Context\<close>

record builder_settings =
  bs_work_root :: string
  bs_builder_bin :: string
  bs_capacity :: u32
  bs_timeout_secs :: u64
  bs_memory_max :: string
  bs_cpu_quota :: string
  bs_deny_nets :: "string list"

text \<open>\<open>cx_active\<close> holds the name of the unit of each build, which is all a \<open>BuildHandle\<close> has.\<close>

record builder_ctx =
  cx_permits :: nat
  cx_work_root :: string
  cx_builder_bin :: string
  cx_timeout_secs :: u64
  cx_memory_max :: string
  cx_cpu_quota :: string
  cx_deny_nets :: "string list"
  cx_active :: "(string, string) hmap"

definition effective_capacity :: "u32 \<Rightarrow> nat" where
  "effective_capacity c = (if c = 0 then 1 else unat c)"

definition builder_ctx_new :: "builder_settings \<Rightarrow> builder_ctx" where
  "builder_ctx_new b =
     \<lparr>cx_permits = effective_capacity (bs_capacity b), cx_work_root = bs_work_root b, cx_builder_bin = bs_builder_bin b,
      cx_timeout_secs = bs_timeout_secs b, cx_memory_max = bs_memory_max b, cx_cpu_quota = bs_cpu_quota b,
      cx_deny_nets = filter (\<lambda>s. s \<noteq> []) (map trim (bs_deny_nets b)), cx_active = []\<rparr>"

section \<open>Directories\<close>

text \<open>The host's files, and its directories with their modes.\<close>

record 'k bworld =
  bw_host :: "'k host"
  bw_dirs :: "(string, nat) hmap"

text \<open>What is outside. Making or removing a tree of directories may fail half-way: a fault says how
  many directories of the chain were made, and which files and directories were not removed. A write
  through tokio's \<open>File\<close> is done in the background: \<open>sp_written\<close> is how many bytes are in the file when
  \<open>write_all\<close> returns with success.\<close>

record 'k spawn_env =
  sp_host :: "'k host_ops"
  sp_spawn :: "string \<Rightarrow> string list \<Rightarrow> ('k, unit) hio"
  sp_join_fault :: "string \<Rightarrow> string option"
  sp_mkdir_fault :: "string \<Rightarrow> 'k bworld \<Rightarrow> (string \<times> nat) option"
  sp_rmdir_fault :: "string \<Rightarrow> 'k bworld \<Rightarrow> (string \<times> (string \<Rightarrow> bool)) option"
  sp_dir_mode :: nat
  sp_json :: "string \<Rightarrow> json result"
  sp_shape :: "json \<Rightarrow> string"
  sp_print :: "json \<Rightarrow> string result"
  sp_written :: "string \<Rightarrow> 'k host \<Rightarrow> nat"
  sp_num :: "proto_stack \<Rightarrow> int"
  sp_of_num :: "int \<Rightarrow> proto_stack option"

definition on_host :: "('k, 'a) hio \<Rightarrow> ('k bworld, 'a) io" where
  "on_host m w = (case m (bw_host w) of (r, h) \<Rightarrow> (r, w\<lparr>bw_host := h\<rparr>))"

text \<open>A path and the paths above it, from the top.\<close>

definition dir_chain :: "string \<Rightarrow> string list" where
  "dir_chain p = map (\<lambda>i. take i p) (filter (\<lambda>i. p ! i = CHR ''/'') [1..<length p]) @ [p]"

definition add_dirs :: "nat \<Rightarrow> string list \<Rightarrow> (string, nat) hmap \<Rightarrow> (string, nat) hmap" where
  "add_dirs mode ps ds = foldl (\<lambda>ds q. if hm_get ds q = None then hm_insert q mode ds else ds) ds ps"

definition make_dirs :: "'k spawn_env \<Rightarrow> nat \<Rightarrow> string \<Rightarrow> ('k bworld, unit) io" where
  "make_dirs E mode p w =
     (case sp_mkdir_fault E p w of
        Some (e, n) \<Rightarrow> (Inl e, w\<lparr>bw_dirs := add_dirs mode (take n (dir_chain p)) (bw_dirs w)\<rparr>)
      | None \<Rightarrow> (Inr (), w\<lparr>bw_dirs := add_dirs mode (dir_chain p) (bw_dirs w)\<rparr>))"

definition in_tree :: "string \<Rightarrow> string \<Rightarrow> bool" where
  "in_tree p q \<longleftrightarrow> q = p \<or> starts_with q (p @ ''/'')"

definition keep_paths :: "(string \<Rightarrow> bool) \<Rightarrow> 'k bworld \<Rightarrow> 'k bworld" where
  "keep_paths keep w =
     w\<lparr>bw_host := (bw_host w)\<lparr>ho_files := filter (\<lambda>f. keep (fst f)) (ho_files (bw_host w))\<rparr>,
       bw_dirs := filter (\<lambda>d. keep (fst d)) (bw_dirs w)\<rparr>"

definition remove_dir_all :: "'k spawn_env \<Rightarrow> string \<Rightarrow> ('k bworld, unit) io" where
  "remove_dir_all E p w =
     (case sp_rmdir_fault E p w of
        Some (e, left) \<Rightarrow> (Inl e, keep_paths (\<lambda>q. \<not> in_tree p q \<or> left q) w)
      | None \<Rightarrow>
          if hm_get (bw_dirs w) p = None then (Inl NOT_FOUND, w) else (Inr (), keep_paths (\<lambda>q. \<not> in_tree p q) w))"

definition set_dir_mode :: "'k spawn_env \<Rightarrow> string \<Rightarrow> nat \<Rightarrow> ('k bworld, unit) io" where
  "set_dir_mode E p mode w =
     (case hm_get (bw_dirs w) p of
        None \<Rightarrow> (Inl NOT_FOUND, w)
      | Some _ \<Rightarrow>
          (case op_fault (sp_host E) ''chmod'' p (bw_host w) of
             Some e \<Rightarrow> (Inl e, w)
           | None \<Rightarrow> (Inr (), w\<lparr>bw_dirs := hm_insert p mode (bw_dirs w)\<rparr>)))"

definition ensure_work_root :: "'k spawn_env \<Rightarrow> builder_ctx \<Rightarrow> ('k bworld, unit) io" where
  "ensure_work_root E c =
     io_bind (make_dirs E (sp_dir_mode E) (cx_work_root c)) (\<lambda>_. set_dir_mode E (cx_work_root c) 448)"

section \<open>Names\<close>

definition is_valid_request_id :: "string \<Rightarrow> bool" where
  "is_valid_request_id s = (s \<noteq> [] \<and> length s \<le> 64 \<and> list_all (\<lambda>b. is_alnum b \<or> b = CHR ''-'' \<or> b = CHR ''_'') s)"

definition unit_name :: "string \<Rightarrow> string" where
  "unit_name rid = ''coolify-build-'' @ rid @ ''.service''"

definition parse_request_id :: "string \<Rightarrow> string option" where
  "parse_request_id u = Option.bind (strip_prefix u ''coolify-build-'') (\<lambda>rest. strip_suffix rest ''.service'')"

definition work_dir :: "builder_ctx \<Rightarrow> string \<Rightarrow> string" where
  "work_dir c rid = path_join (cx_work_root c) rid"

section \<open>Programs\<close>

definition unit_prop :: "string \<Rightarrow> string list" where
  "unit_prop s = [''-p'', s]"

definition deny_nets :: "string list" where
  "deny_nets = [''127.0.0.1'', ''169.254.0.0/16'', ''::1/128'', ''fc00::/7'', ''fe80::/10'']"

definition systemd_run_args :: "builder_ctx \<Rightarrow> string \<Rightarrow> string list" where
  "systemd_run_args c rid =
     [''--pipe'', ''--quiet'', ''--collect'', ''--unit='' @ unit_name rid] @
     unit_prop (''RuntimeMaxSec='' @ show_nat (cx_timeout_secs c)) @ unit_prop (''MemoryMax='' @ cx_memory_max c) @
     unit_prop (''CPUQuota='' @ cx_cpu_quota c) @ unit_prop ''PrivateTmp=yes'' @
     unit_prop ''ProtectSystem=strict'' @ unit_prop ''ProtectHome=yes'' @
     unit_prop (''ReadWritePaths='' @ work_dir c rid) @ unit_prop ''ReadWritePaths=/var/lib/containers'' @
     unit_prop ''ReadWritePaths=-/run/containers'' @ unit_prop ''ReadWritePaths=-/run/netavark'' @ unit_prop ''ReadWritePaths=-/run/lock'' @
     unit_prop ''NoNewPrivileges=yes'' @ unit_prop ''RestrictSUIDSGID=yes'' @ unit_prop ''LockPersonality=yes'' @ unit_prop ''RestrictRealtime=yes'' @
     unit_prop ''RestrictNamespaces=mnt user'' @ unit_prop ''SystemCallArchitectures=native'' @
     concat (map (\<lambda>net. unit_prop (''IPAddressDeny='' @ net)) deny_nets) @
     concat (map (\<lambda>net. unit_prop (''IPAddressDeny='' @ net)) (cx_deny_nets c)) @
     [''--'', cx_builder_bin c, path_join (work_dir c rid) ''request.json'', work_dir c rid]"

text \<open>\<open>.status()\<close> of \<open>systemctl\<close>: whether it ran, and whether it succeeded.\<close>

definition systemctl :: "'k spawn_env \<Rightarrow> string list \<Rightarrow> ('k bworld, bool) io" where
  "systemctl E args = io_bind (on_host (op_command (sp_host E) ''systemctl'' args)) (\<lambda>out. io_return (ou_success out))"

definition systemctl_is_active :: "'k spawn_env \<Rightarrow> string \<Rightarrow> 'k bworld \<Rightarrow> bool \<times> 'k bworld" where
  "systemctl_is_active E unit w =
     (case systemctl E [''is-active'', unit] w of (Inr ok, w1) \<Rightarrow> (ok, w1) | (Inl e, w1) \<Rightarrow> (False, w1))"

fun until_space :: "string \<Rightarrow> string" where
  "until_space [] = []"
| "until_space (c # cs) = (if list_ex (\<lambda>s. starts_with (c # cs) s) ws_seqs then [] else c # until_space cs)"

text \<open>\<open>split_whitespace().next()\<close>.\<close>

definition first_word :: "string \<Rightarrow> string option" where
  "first_word l = (let t = trim_start l in if t = [] then None else Some (until_space t))"

definition list_coolify_build_units :: "'k spawn_env \<Rightarrow> 'k bworld \<Rightarrow> string list \<times> 'k bworld" where
  "list_coolify_build_units E w =
     (case on_host (op_command (sp_host E) ''systemctl''
          [''list-units'', ''--all'', ''--no-legend'', ''--plain'', ''--type=service'', ''coolify-build-*.service'']) w of
        (Inl e, w1) \<Rightarrow> ([], w1)
      | (Inr out, w1) \<Rightarrow>
          (filter (\<lambda>n. starts_with n ''coolify-build-'' \<and> ends_with n ''.service'')
             (List.map_filter first_word (lines (from_utf8_lossy (ou_stdout out)))), w1))"

section \<open>Running a build\<close>

text \<open>\<open>open\<close> and \<open>write_all\<close> with neither \<open>flush\<close> nor \<open>sync_all\<close> after them: the caller goes on while the
  rest of the bytes, if any, is still to be written (by an \<open>Outside\<close> event of the model below).\<close>

definition write_unflushed :: "'k spawn_env \<Rightarrow> nat \<Rightarrow> string \<Rightarrow> string \<Rightarrow> ('k, unit) hio" where
  "write_unflushed E mode p content w = fs_write_with (sp_host E) mode p (take (sp_written E p w) content) w"

text \<open>Setting up: the work directory and \<open>request.json\<close>.\<close>

definition setup_build :: "'k spawn_env \<Rightarrow> builder_ctx \<Rightarrow> string \<Rightarrow> proto_build_request \<Rightarrow> ('k bworld, unit) build" where
  "setup_build E c rid req =
     (let dir = work_dir c rid; req_path = path_join dir ''request.json'' in
      build_bind (case sp_join_fault E dir of
          Some e \<Rightarrow> build_fail 500 ''setup'' (''mkdir join: '' @ e)
        | None \<Rightarrow> build_io (\<lambda>e. build_err 500 ''setup'' (''mkdir work: '' @ e)) (make_dirs E 448 dir)) (\<lambda>_.
      case sp_print E (subprocess_request_json (from_proto (sp_of_num E) req)) of
        Inl e \<Rightarrow> build_fail 500 ''setup'' (''encode request: '' @ e)
      | Inr req_json \<Rightarrow> (\<lambda>w.
          build_io (\<lambda>e. build_err 500 ''setup''
              ((case op_write_fault (sp_host E) req_path (bw_host w) of
                  Some (WriteFails _ _) \<Rightarrow> ''write request.json: '' | _ \<Rightarrow> ''open request.json: '') @ e))
            (on_host (write_unflushed E 384 req_path req_json)) w)))"

text \<open>The frames of the child, one per line; the last result or error is the outcome.\<close>

definition decode :: "'k spawn_env \<Rightarrow> (json \<Rightarrow> 'a option) \<Rightarrow> string \<Rightarrow> 'a result" where
  "decode E f text =
     (case sp_json E text of
        Inl e \<Rightarrow> Inl e
      | Inr j \<Rightarrow> (case f j of Some a \<Rightarrow> Inr a | None \<Rightarrow> Inl (sp_shape E j)))"

definition read_frame ::
  "'k spawn_env \<Rightarrow> (build_error + proto_build_result) option \<Rightarrow> string \<Rightarrow> (build_error + proto_build_result) option" where
  "read_frame E final line =
     (case decode E frame_from_json line of
        Inr (Progress stage log percent) \<Rightarrow> final
      | Inr (Result ok) \<Rightarrow> Some (Inr (frame_result_into_proto (sp_num E) ok))
      | Inr (Error err) \<Rightarrow> Some (Inl (frame_error_into_proto err))
      | Inl e \<Rightarrow> final)"

definition reap ::
  "'k spawn_env \<Rightarrow> string \<Rightarrow> string list \<Rightarrow> string result \<Rightarrow> build_error + proto_build_result" where
  "reap E dir out wait =
     (let final = foldl (read_frame E) None out in
      case wait of
        Inl e \<Rightarrow> Inl (build_err 500 ''reap'' (''wait: '' @ e))
      | Inr status \<Rightarrow>
          (case final of
             Some body \<Rightarrow> body
           | None \<Rightarrow> Inl (build_err 500 ''reap''
               (''builder exited ('' @ status @ '') without a result frame; work_dir='' @ dir))))"

section \<open>Outcome files\<close>

definition body_fabricated_error :: "string \<Rightarrow> build_response_body" where
  "body_fabricated_error message = BodyErr \<lparr>be_code = 500, be_message = message, be_stage = ''reap''\<rparr>"

definition body_from_result_bytes :: "'k spawn_env \<Rightarrow> string \<Rightarrow> build_response_body" where
  "body_from_result_bytes E bytes =
     (case decode E stored_result_from_json bytes of
        Inr r \<Rightarrow> BodyOk (stored_result_into_proto (sp_num E) r)
      | Inl e \<Rightarrow> body_fabricated_error (''malformed result.json: '' @ e))"

definition body_from_error_bytes :: "'k spawn_env \<Rightarrow> string \<Rightarrow> build_response_body" where
  "body_from_error_bytes E bytes =
     (case decode E stored_error_from_json bytes of
        Inr e \<Rightarrow> BodyErr (stored_error_into_proto e)
      | Inl e \<Rightarrow> body_fabricated_error (''malformed error.json: '' @ e))"

definition saved_body :: "'k spawn_env \<Rightarrow> string \<Rightarrow> string \<Rightarrow> 'k bworld \<Rightarrow> build_response_body" where
  "saved_body E dir message w =
     (case fst (fs_read (sp_host E) (path_join dir ''result.json'') (bw_host w)) of
        Inr bytes \<Rightarrow> body_from_result_bytes E bytes
      | Inl _ \<Rightarrow>
          (case fst (fs_read (sp_host E) (path_join dir ''error.json'') (bw_host w)) of
             Inr bytes \<Rightarrow> body_from_error_bytes E bytes
           | Inl _ \<Rightarrow> body_fabricated_error message))"

section \<open>Tasks and events\<close>

text \<open>A spawned task: a dispatch that has not got its permit, a build whose child runs, a unit of an
  earlier run of coold that is waited for.\<close>

datatype btask = Fresh string proto_build_request | Building string | Adopted string string

record 'k bsys =
  sy_ctx :: builder_ctx
  sy_world :: "'k bworld"
  sy_tasks :: "btask list"
  sy_open :: bool
  sy_out :: "(string \<times> build_response_body) list"

definition emit_build_response :: "string \<Rightarrow> build_response_body \<Rightarrow> 'k bsys \<Rightarrow> 'k bsys" where
  "emit_build_response rid body s = (if sy_open s then s\<lparr>sy_out := sy_out s @ [(rid, body)]\<rparr> else s)"

definition send_err :: "string \<Rightarrow> u32 \<Rightarrow> string \<Rightarrow> string \<Rightarrow> 'k bsys \<Rightarrow> 'k bsys" where
  "send_err rid code message stage = emit_build_response rid (BodyErr (build_err code stage message))"

definition end_task :: "nat \<Rightarrow> 'k bsys \<Rightarrow> 'k bsys" where
  "end_task i s = s\<lparr>sy_tasks := take i (sy_tasks s) @ drop (Suc i) (sy_tasks s)\<rparr>"

fun outcome_body :: "build_error + proto_build_result \<Rightarrow> build_response_body" where
  "outcome_body (Inr ok) = BodyOk ok"
| "outcome_body (Inl e) = BodyErr e"

text \<open>The end of a dispatch: the permit is given back and the response sent.\<close>

definition finish_dispatch :: "nat \<Rightarrow> string \<Rightarrow> build_error + proto_build_result \<Rightarrow> 'k bsys \<Rightarrow> 'k bsys" where
  "finish_dispatch i rid outcome s =
     emit_build_response rid (outcome_body outcome)
       (end_task i (s\<lparr>sy_ctx := (sy_ctx s)\<lparr>cx_permits := Suc (cx_permits (sy_ctx s))\<rparr>\<rparr>))"

text \<open>The end of a build whose unit was registered: the handle and the work directory go first.\<close>

definition finish_build :: "'k spawn_env \<Rightarrow> nat \<Rightarrow> string \<Rightarrow> build_error + proto_build_result \<Rightarrow> 'k bsys \<Rightarrow> 'k bsys" where
  "finish_build E i rid outcome s =
     finish_dispatch i rid outcome
       (s\<lparr>sy_ctx := (sy_ctx s)\<lparr>cx_active := hm_remove rid (cx_active (sy_ctx s))\<rparr>,
         sy_world := snd (remove_dir_all E (work_dir (sy_ctx s) rid) (sy_world s))\<rparr>)"

text \<open>The first half of \<open>run_build\<close>, up to the child: \<open>s\<close> already holds the permit.\<close>

definition start_build :: "'k spawn_env \<Rightarrow> nat \<Rightarrow> string \<Rightarrow> proto_build_request \<Rightarrow> 'k bsys \<Rightarrow> 'k bsys" where
  "start_build E i rid req s =
     (case setup_build E (sy_ctx s) rid req (sy_world s) of
        (Inl e, w1) \<Rightarrow> finish_dispatch i rid (Inl e) (s\<lparr>sy_world := w1\<rparr>)
      | (Inr _, w1) \<Rightarrow>
          (let s1 = s\<lparr>sy_ctx := (sy_ctx s)\<lparr>cx_active := hm_insert rid (unit_name rid) (cx_active (sy_ctx s))\<rparr>\<rparr> in
           case on_host (sp_spawn E ''systemd-run'' (systemd_run_args (sy_ctx s) rid)) w1 of
             (Inl e, w2) \<Rightarrow> finish_build E i rid (Inl (build_err 500 ''spawn'' (''systemd-run: '' @ e))) (s1\<lparr>sy_world := w2\<rparr>)
           | (Inr _, w2) \<Rightarrow> s1\<lparr>sy_world := w2, sy_tasks := (sy_tasks s)[i := Building rid]\<rparr>))"

text \<open>A dispatch goes on when it is polled; without a permit it keeps waiting. (Nothing closes the
  semaphore, so the branch for a closed one is left out.)\<close>

definition advance_dispatch :: "'k spawn_env \<Rightarrow> nat \<Rightarrow> string \<Rightarrow> proto_build_request \<Rightarrow> 'k bsys \<Rightarrow> 'k bsys" where
  "advance_dispatch E i rid req s =
     (if \<not> is_valid_request_id rid then send_err rid 400 ''invalid request_id'' ''dispatch'' (end_task i s)
      else if cx_permits (sy_ctx s) = 0 then s
      else start_build E i rid req (s\<lparr>sy_ctx := (sy_ctx s)\<lparr>cx_permits := cx_permits (sy_ctx s) - 1\<rparr>\<rparr>))"

text \<open>\<open>cancel\<close>: whether a unit was found and the kill was run.\<close>

definition cancel :: "'k spawn_env \<Rightarrow> string \<Rightarrow> 'k bsys \<Rightarrow> bool \<times> 'k bsys" where
  "cancel E rid s =
     (case hm_get (cx_active (sy_ctx s)) rid of
        None \<Rightarrow> (False, s)
      | Some unit \<Rightarrow>
          (case systemctl E [''kill'', ''--signal=SIGTERM'', unit] (sy_world s) of
             (r, w1) \<Rightarrow> (is_ok r, s\<lparr>sy_world := w1\<rparr>)))"

text \<open>A round of the loop of \<open>wait_and_emit\<close>.\<close>

definition poll_adopted :: "'k spawn_env \<Rightarrow> nat \<Rightarrow> string \<Rightarrow> string \<Rightarrow> 'k bsys \<Rightarrow> 'k bsys" where
  "poll_adopted E i rid unit s =
     (case systemctl_is_active E unit (sy_world s) of
        (True, w1) \<Rightarrow> s\<lparr>sy_world := w1\<rparr>
      | (False, w1) \<Rightarrow>
          (let dir = work_dir (sy_ctx s) rid;
               s1 = emit_build_response rid (saved_body E dir ''adopted unit exited without result file'' w1) (s\<lparr>sy_world := w1\<rparr>);
               s2 = s1\<lparr>sy_ctx := (sy_ctx s1)\<lparr>cx_active := hm_remove rid (cx_active (sy_ctx s1))\<rparr>\<rparr>;
               w2 = snd (remove_dir_all E dir w1) in
           end_task i (s2\<lparr>sy_world := snd (systemctl E [''reset-failed'', unit] w2)\<rparr>)))"

datatype 'k bevent =
    Dispatch string proto_build_request
  | Advance nat
  | ChildEnds nat "string list" "string result"
  | Cancel string
  | Poll nat
  | Outside "'k bworld \<Rightarrow> 'k bworld"

fun builder_step :: "'k spawn_env \<Rightarrow> 'k bsys \<Rightarrow> 'k bevent \<Rightarrow> 'k bsys" where
  "builder_step E s (Dispatch rid req) = s\<lparr>sy_tasks := sy_tasks s @ [Fresh rid req]\<rparr>"
| "builder_step E s (Advance i) =
     (if i < length (sy_tasks s) then
        (case sy_tasks s ! i of Fresh rid req \<Rightarrow> advance_dispatch E i rid req s | _ \<Rightarrow> s)
      else s)"
| "builder_step E s (ChildEnds i out wait) =
     (if i < length (sy_tasks s) then
        (case sy_tasks s ! i of
           Building rid \<Rightarrow> finish_build E i rid (reap E (work_dir (sy_ctx s) rid) out wait) s
         | _ \<Rightarrow> s)
      else s)"
| "builder_step E s (Cancel rid) = snd (cancel E rid s)"
| "builder_step E s (Poll i) =
     (if i < length (sy_tasks s) then
        (case sy_tasks s ! i of Adopted rid unit \<Rightarrow> poll_adopted E i rid unit s | _ \<Rightarrow> s)
      else s)"
| "builder_step E s (Outside f) = s\<lparr>sy_world := f (sy_world s)\<rparr>"

section \<open>Resuming\<close>

definition resume_unit :: "'k spawn_env \<Rightarrow> 'k bsys \<Rightarrow> string \<Rightarrow> 'k bsys" where
  "resume_unit E s unit =
     (case parse_request_id unit of
        None \<Rightarrow> s
      | Some rid \<Rightarrow>
          (let dir = work_dir (sy_ctx s) rid in
           case systemctl_is_active E unit (sy_world s) of
             (True, w1) \<Rightarrow>
               s\<lparr>sy_world := w1, sy_ctx := (sy_ctx s)\<lparr>cx_active := hm_insert rid unit (cx_active (sy_ctx s))\<rparr>,
                 sy_tasks := sy_tasks s @ [Adopted rid unit]\<rparr>
           | (False, w1) \<Rightarrow>
               (let s1 = emit_build_response rid (saved_body E dir ''builder exited without result file'' w1) s;
                    w2 = snd (remove_dir_all E dir w1) in
                s1\<lparr>sy_world := snd (systemctl E [''reset-failed'', unit] w2)\<rparr>)))"

definition resume_or_reap :: "'k spawn_env \<Rightarrow> 'k bsys \<Rightarrow> 'k bsys" where
  "resume_or_reap E s =
     (case list_coolify_build_units E (sy_world s) of
        (units, w1) \<Rightarrow> foldl (resume_unit E) (s\<lparr>sy_world := w1\<rparr>) units)"

definition bsys_new :: "builder_settings \<Rightarrow> 'k bworld \<Rightarrow> 'k bsys" where
  "bsys_new b w = \<lparr>sy_ctx = builder_ctx_new b, sy_world = w, sy_tasks = [], sy_open = True, sy_out = []\<rparr>"

end
