(* ===== verification/BuilderRuns.thy ===== *)
theory BuilderRuns
  imports CooldBuilder
begin

text \<open>
  What the adapter of \<open>CooldBuilder\<close> promises, over all interleavings of its events: the number of
  builds that run at once, one response per request, the names it gives to units and directories, and
  cancellation, with the case of an id that is dispatched twice.
\<close>

section \<open>Names\<close>

lemma valid_id_chars:
  assumes "is_valid_request_id rid" and "c \<in> set rid"
  shows "c \<noteq> CHR ''/'' \<and> c \<noteq> CHR ''.''"
  using assms by (auto simp: is_valid_request_id_def list_all_iff is_alnum_def byte_in_def)

lemma valid_id_relative: "is_valid_request_id rid \<Longrightarrow> \<not> starts_with rid ''/''"
  using valid_id_chars [of rid "CHR ''/''"] by (auto simp: starts_with_iff)

lemma parse_unit_name: "parse_request_id (unit_name rid) = Some rid"
  using strip_prefix_append [of "''coolify-build-''" "rid @ ''.service''"] by (simp add: parse_request_id_def unit_name_def)

lemma parse_request_id_Some: "parse_request_id u = Some rid \<longleftrightarrow> u = unit_name rid"
proof
  assume "parse_request_id u = Some rid"
  then obtain rest where r: "strip_prefix u ''coolify-build-'' = Some rest" "strip_suffix rest ''.service'' = Some rid"
    by (auto simp: parse_request_id_def bind_eq_Some_conv)
  from r(1) have "u = ''coolify-build-'' @ rest" by (auto simp: strip_prefix_def starts_with_iff split: if_splits)
  moreover from r(2) have "rest = rid @ ''.service''"
    by (auto simp: strip_suffix_def ends_with_def starts_with_iff rev_eq_append_conv split: if_splits)
  ultimately show "u = unit_name rid" by (simp add: unit_name_def)
qed (simp add: parse_unit_name)

text \<open>The work directory of a request is one step below the root.\<close>

lemma work_dir_step:
  obtains base where "\<And>r. is_valid_request_id r \<Longrightarrow> work_dir c r = base @ r"
  using valid_id_relative by (cases "cx_work_root c = [] \<or> ends_with (cx_work_root c) ''/''")
    (auto simp: work_dir_def path_join_def intro: that [of "cx_work_root c"] that [of "cx_work_root c @ ''/''"])

lemma split_at_slash:
  assumes "CHR ''/'' \<notin> set a" and "CHR ''/'' \<notin> set b" and "a @ CHR ''/'' # x = b @ CHR ''/'' # y"
  shows "a = b"
proof -
  have t: "takeWhile (\<lambda>c. c \<noteq> CHR ''/'') (z @ CHR ''/'' # w) = z" if "CHR ''/'' \<notin> set z" for z w
    using that by (subst takeWhile_append2) auto
  show ?thesis using t [OF assms(1)] t [OF assms(2)] assms(3) by metis
qed

lemma in_tree_prefix: "in_tree p q \<Longrightarrow> \<exists>x. q @ ''/'' = p @ CHR ''/'' # x"
  by (auto simp: in_tree_def starts_with_iff)

lemma trees_disjoint:
  assumes "is_valid_request_id a" and "is_valid_request_id b" and "in_tree (work_dir c a) q" and "in_tree (work_dir c b) q"
  shows "a = b"
proof -
  obtain base where base: "\<And>r. is_valid_request_id r \<Longrightarrow> work_dir c r = base @ r" using work_dir_step by blast
  have s: "CHR ''/'' \<notin> set r" if "is_valid_request_id r" for r using valid_id_chars [OF that] by blast
  obtain x y where "q @ ''/'' = (base @ a) @ CHR ''/'' # x" "q @ ''/'' = (base @ b) @ CHR ''/'' # y"
    using in_tree_prefix [OF assms(3)] in_tree_prefix [OF assms(4)] base assms(1,2) by metis
  then have "a @ CHR ''/'' # x = b @ CHR ''/'' # y" by simp
  then show ?thesis by (rule split_at_slash [OF s [OF assms(1)] s [OF assms(2)]])
qed

section \<open>Removing a work directory\<close>

lemma map_of_filter_fst: "map_of (filter (\<lambda>x. P (fst x)) m) q = (if P q then map_of m q else None)"
  by (induction m) auto

lemma get_keep_paths:
  "file_at (bw_host (keep_paths keep w)) q = (if keep q then file_at (bw_host w) q else None)"
  "hm_get (bw_dirs (keep_paths keep w)) q = (if keep q then hm_get (bw_dirs w) q else None)"
  by (simp_all add: keep_paths_def file_at_def map_of_filter_fst)

lemma remove_dir_all_frame:
  assumes "\<not> in_tree p q"
  shows "file_at (bw_host (snd (remove_dir_all E p w))) q = file_at (bw_host w) q \<and>
     hm_get (bw_dirs (snd (remove_dir_all E p w))) q = hm_get (bw_dirs w) q"
  using assms by (auto simp: remove_dir_all_def get_keep_paths split: option.splits)

lemma remove_dir_all_gone:
  assumes "remove_dir_all E p w = (Inr (), w')" and "in_tree p q"
  shows "file_at (bw_host w') q = None \<and> hm_get (bw_dirs w') q = None"
  using assms by (auto simp: remove_dir_all_def get_keep_paths split: option.splits if_splits)

section \<open>Private files\<close>

lemma add_dirs_get:
  "hm_get (add_dirs mode ps ds) q = (if hm_get ds q = None \<and> q \<in> set ps then Some mode else hm_get ds q)"
  unfolding add_dirs_def by (induction ps arbitrary: ds) auto

lemma work_root_private:
  "ensure_work_root E c w = (Inr (), w') \<Longrightarrow> hm_get (bw_dirs w') (cx_work_root c) = Some 448"
  by (auto simp: ensure_work_root_def io_bind_eq_Inr set_dir_mode_def split: option.splits)

text \<open>What a successful setup leaves: the work directory, open only to its owner if it is new, and as much
  of the request as has been written, in a file open only to its owner if it is new.\<close>

lemma setup_build_Inr:
  assumes "setup_build E c rid req w = (Inr (), w1)"
  obtains content where "sp_print E (subprocess_request_json (from_proto (sp_of_num E) req)) = Inr content"
    "file_at (bw_host w1) (path_join (work_dir c rid) ''request.json'') =
       Some \<lparr>fi_content = take (sp_written E (path_join (work_dir c rid) ''request.json'') (bw_host w)) content,
         fi_mode = (case file_at (bw_host w) (path_join (work_dir c rid) ''request.json'') of Some f \<Rightarrow> fi_mode f | None \<Rightarrow> 384)\<rparr>"
    "hm_get (bw_dirs w1) (work_dir c rid) = Some (case hm_get (bw_dirs w) (work_dir c rid) of Some m \<Rightarrow> m | None \<Rightarrow> 448)"
proof -
  let ?p = "path_join (work_dir c rid) ''request.json''"
  from assms obtain w0 content where m: "make_dirs E 448 (work_dir c rid) w = (Inr (), w0)"
    and t: "sp_print E (subprocess_request_json (from_proto (sp_of_num E) req)) = Inr content"
    and f: "on_host (write_unflushed E 384 ?p content) w0 = (Inr (), w1)"
    by (auto simp: setup_build_def Let_def build_bind_eq_Inr split: option.splits sum.splits)
  have "bw_host w0 = bw_host w" "bw_dirs w0 = add_dirs 448 (dir_chain (work_dir c rid)) (bw_dirs w)"
    using m by (auto simp: make_dirs_def split: option.splits)
  moreover have "work_dir c rid \<in> set (dir_chain (work_dir c rid))" by (simp add: dir_chain_def)
  moreover have "bw_host w1 = put_file ?p \<lparr>fi_content = take (sp_written E ?p (bw_host w0)) content, fi_mode = file_mode (sp_host E) ?p 384 (bw_host w0)\<rparr> (bw_host w0)"
    "bw_dirs w1 = bw_dirs w0"
    using f by (auto simp: on_host_def write_unflushed_def fs_write_with_def split: prod.splits option.splits write_fault.splits)
  ultimately show ?thesis
    using t by (intro that [of content]) (auto simp: file_mode_def add_dirs_get split: option.splits)
qed

section \<open>Effects of the operations on tasks, permits and responses\<close>

fun task_id :: "btask \<Rightarrow> string" where
  "task_id (Fresh rid req) = rid"
| "task_id (Building rid) = rid"
| "task_id (Adopted rid unit) = rid"

fun is_building :: "btask \<Rightarrow> bool" where
  "is_building (Building rid) = True"
| "is_building _ = False"

text \<open>The builds this coold has started, which hold a permit each, and the units it has adopted from an
  earlier run, which hold none.\<close>

definition builds :: "'k bsys \<Rightarrow> nat" where
  "builds s = length (filter is_building (sy_tasks s))"

fun is_adopted :: "btask \<Rightarrow> bool" where
  "is_adopted (Adopted rid unit) = True"
| "is_adopted _ = False"

definition adopted :: "'k bsys \<Rightarrow> nat" where
  "adopted s = length (filter is_adopted (sy_tasks s))"

text \<open>The requests that are open or answered.\<close>

definition account :: "'k bsys \<Rightarrow> string multiset" where
  "account s = mset (map task_id (sy_tasks s)) + mset (map fst (sy_out s))"

lemma mset_drop_nth: "i < length xs \<Longrightarrow> add_mset (xs ! i) (mset (take i xs @ drop (Suc i) xs)) = mset xs"
  by (metis append_take_drop_id id_take_nth_drop mset.simps(2) mset_append union_mset_add_mset_right)

lemma count_building:
  "i < length xs \<Longrightarrow> length (filter is_building xs) =
     (if is_building (xs ! i) then 1 else 0) + length (filter is_building (take i xs @ drop (Suc i) xs))"
  by (subst id_take_nth_drop [of i xs]) auto

lemma emit_simps [simp]:
  "sy_ctx (emit_build_response rid b s) = sy_ctx s" "sy_tasks (emit_build_response rid b s) = sy_tasks s"
  "sy_open (emit_build_response rid b s) = sy_open s" "sy_world (emit_build_response rid b s) = sy_world s"
  by (simp_all add: emit_build_response_def)

lemma end_task_account:
  assumes "i < length (sy_tasks s)" and "task_id (sy_tasks s ! i) = rid" and "sy_open s"
  shows "account (emit_build_response rid b (end_task i s)) = account s"
proof -
  have "mset (map task_id (sy_tasks s)) = add_mset rid (mset (map task_id (take i (sy_tasks s) @ drop (Suc i) (sy_tasks s))))"
    using arg_cong [OF mset_drop_nth [OF assms(1)], of "image_mset task_id"] assms(2) by (simp add: image_mset_union)
  then show ?thesis using assms(3) by (simp add: account_def end_task_def emit_build_response_def)
qed

lemma end_task_builds:
  assumes "i < length (sy_tasks s)"
  shows "builds s = (if is_building (sy_tasks s ! i) then 1 else 0) + builds (end_task i s)"
  using count_building [OF assms] by (simp add: builds_def end_task_def)

lemma builds_cong: "sy_tasks s = sy_tasks t \<Longrightarrow> builds s = builds t"
  by (simp add: builds_def)

lemma account_cong: "sy_tasks s = sy_tasks t \<Longrightarrow> sy_out s = sy_out t \<Longrightarrow> account s = account t"
  by (simp add: account_def)

lemma end_task_simps [simp]:
  "sy_ctx (end_task i s) = sy_ctx s" "sy_open (end_task i s) = sy_open s" "sy_world (end_task i s) = sy_world s"
  "sy_out (end_task i s) = sy_out s"
  by (simp_all add: end_task_def)

text \<open>A step of one task. It either leaves the tasks as they are, or ends a task with its response, or
  starts the build of a request; the permits move with the builds.\<close>

definition slots :: "'k bsys \<Rightarrow> nat" where
  "slots s = cx_permits (sy_ctx s) + builds s"

lemma finish_dispatch_effect:
  assumes "i < length (sy_tasks s)" and "task_id (sy_tasks s ! i) = rid" and "sy_open s"
  shows "account (finish_dispatch i rid out s) = account s"
    "slots (finish_dispatch i rid out s) + (if is_building (sy_tasks s ! i) then 1 else 0) = Suc (slots s)"
    "sy_open (finish_dispatch i rid out s)"
proof -
  let ?s = "s\<lparr>sy_ctx := (sy_ctx s)\<lparr>cx_permits := Suc (cx_permits (sy_ctx s))\<rparr>\<rparr>"
  show "account (finish_dispatch i rid out s) = account s"
    using end_task_account [of i ?s rid] assms by (simp add: finish_dispatch_def account_def)
  show "slots (finish_dispatch i rid out s) + (if is_building (sy_tasks s ! i) then 1 else 0) = Suc (slots s)"
    using end_task_builds [of i ?s] assms(1) by (simp add: finish_dispatch_def slots_def builds_def)
  show "sy_open (finish_dispatch i rid out s)" using assms(3) by (simp add: finish_dispatch_def)
qed

lemma finish_build_effect:
  assumes "i < length (sy_tasks s)" and "task_id (sy_tasks s ! i) = rid" and "sy_open s"
  shows "account (finish_build E i rid out s) = account s"
    "slots (finish_build E i rid out s) + (if is_building (sy_tasks s ! i) then 1 else 0) = Suc (slots s)"
    "sy_open (finish_build E i rid out s)"
proof -
  obtain t where "finish_build E i rid out s = finish_dispatch i rid out t" "sy_tasks t = sy_tasks s" "sy_out t = sy_out s"
    "sy_open t = sy_open s" "cx_permits (sy_ctx t) = cx_permits (sy_ctx s)"
    by (rule that, rule finish_build_def) simp_all
  then show "account (finish_build E i rid out s) = account s"
    "slots (finish_build E i rid out s) + (if is_building (sy_tasks s ! i) then 1 else 0) = Suc (slots s)"
    "sy_open (finish_build E i rid out s)"
    using finish_dispatch_effect [of i t rid out] assms by (simp_all add: slots_def builds_def account_def)
qed

lemma start_build_effect:
  assumes "i < length (sy_tasks s)" and "sy_tasks s ! i = Fresh rid req" and "sy_open s"
  shows "account (start_build E i rid req s) = account s \<and> slots (start_build E i rid req s) = Suc (slots s) \<and>
     sy_open (start_build E i rid req s)"
proof -
  have upd: "mset (map task_id ((sy_tasks s)[i := Building rid])) = mset (map task_id (sy_tasks s))"
    by (metis (no_types, lifting) assms(2) list_update_id map_update task_id.simps(1,2))
  have cnt: "length (filter is_building ((sy_tasks s)[i := Building rid])) = Suc (builds s)"
    using assms(1,2) count_building [of i "(sy_tasks s)[i := Building rid]"] count_building [of i "sy_tasks s"]
    by (simp add: builds_def)
  show ?thesis
    using assms upd cnt
      finish_dispatch_effect [of i "s\<lparr>sy_world := w\<rparr>" rid for w]
      finish_build_effect [of i "s\<lparr>sy_ctx := c, sy_world := w\<rparr>" rid for c w]
    by (auto simp: start_build_def Let_def slots_def builds_def account_def split: prod.splits sum.splits)
qed

fun asked :: "'k bevent \<Rightarrow> string list" where
  "asked (Dispatch rid req) = [rid]"
| "asked _ = []"

definition accounted :: "string multiset \<Rightarrow> 'k bsys \<Rightarrow> 'k bsys \<Rightarrow> bool" where
  "accounted ids s t \<longleftrightarrow> sy_open t \<and> account t = account s + ids \<and> slots t = slots s"

lemma accountedI: "sy_open t \<Longrightarrow> account t = account s + ids \<Longrightarrow> slots t = slots s \<Longrightarrow> accounted ids s t"
  by (simp add: accounted_def)

lemma accounted_same:
  "sy_open s \<Longrightarrow> sy_open t = sy_open s \<Longrightarrow> sy_tasks t = sy_tasks s \<Longrightarrow> sy_out t = sy_out s \<Longrightarrow>
     cx_permits (sy_ctx t) = cx_permits (sy_ctx s) \<Longrightarrow> accounted {#} s t"
  by (simp add: accounted_def account_def slots_def builds_def)

text \<open>Ending a task that holds no permit.\<close>

lemma accounted_end:
  assumes "i < length (sy_tasks s)" and "task_id (sy_tasks s ! i) = rid" and "\<not> is_building (sy_tasks s ! i)" and "sy_open s"
    and "sy_tasks t = sy_tasks s" and "sy_out t = sy_out s" and "sy_open t" and "cx_permits (sy_ctx t) = cx_permits (sy_ctx s)"
  shows "accounted {#} s (emit_build_response rid b (end_task i t))"
proof -
  have "account (emit_build_response rid b (end_task i t)) = account t" using end_task_account [of i t rid] assms by simp
  moreover have "builds t = builds (end_task i t)" using end_task_builds [of i t] assms by simp
  ultimately show ?thesis using assms by (intro accountedI) (simp_all add: account_def slots_def builds_def)
qed

lemma emit_end: "end_task i (emit_build_response rid b s) = emit_build_response rid b (end_task i s)"
  by (simp add: end_task_def emit_build_response_def)

lemma advance_effect:
  assumes "i < length (sy_tasks s)" and "sy_tasks s ! i = Fresh rid req" and "sy_open s"
  shows "accounted {#} s (advance_dispatch E i rid req s)"
proof (cases "is_valid_request_id rid \<and> cx_permits (sy_ctx s) \<noteq> 0")
  case True
  let ?s = "s\<lparr>sy_ctx := (sy_ctx s)\<lparr>cx_permits := cx_permits (sy_ctx s) - 1\<rparr>\<rparr>"
  have "account ?s = account s" "Suc (slots ?s) = slots s" using True by (simp_all add: account_def slots_def builds_def)
  moreover have "advance_dispatch E i rid req s = start_build E i rid req ?s" using True by (simp add: advance_dispatch_def)
  ultimately show ?thesis using start_build_effect [of i ?s rid req E] assms by (simp add: accounted_def)
next
  case False
  then show ?thesis
    using assms accounted_end [of i s rid s] accounted_same [of s s]
    by (cases "is_valid_request_id rid") (simp_all add: advance_dispatch_def send_err_def)
qed

lemma poll_effect:
  assumes "i < length (sy_tasks s)" and "sy_tasks s ! i = Adopted rid unit" and "sy_open s"
  shows "accounted {#} s (poll_adopted E i rid unit s)"
proof -
  obtain act w1 where a: "systemctl_is_active E unit (sy_world s) = (act, w1)" by fastforce
  show ?thesis
  proof (cases act)
    case True
    then show ?thesis using a assms(3) by (auto simp: poll_adopted_def intro: accounted_same)
  next
    case False
    let ?c = "(sy_ctx s)\<lparr>cx_active := hm_remove rid (cx_active (sy_ctx s))\<rparr>"
    let ?w = "snd (systemctl E [''reset-failed'', unit] (snd (remove_dir_all E (work_dir (sy_ctx s) rid) w1)))"
    have "poll_adopted E i rid unit s =
        emit_build_response rid (saved_body E (work_dir (sy_ctx s) rid) ''adopted unit exited without result file'' w1)
          (end_task i (s\<lparr>sy_ctx := ?c, sy_world := ?w\<rparr>))"
      using False a by (simp add: poll_adopted_def Let_def emit_build_response_def end_task_def)
    then show ?thesis using assms accounted_end [of i s rid "s\<lparr>sy_ctx := ?c, sy_world := ?w\<rparr>"] by simp
  qed
qed

lemma step_effect:
  assumes "sy_open s"
  shows "accounted (mset (asked e)) s (builder_step E s e)"
proof (cases e)
  case (Dispatch rid req)
  then show ?thesis using assms by (simp add: accounted_def account_def slots_def builds_def)
next
  case (Advance i)
  then show ?thesis
    using assms advance_effect [of i s _ _ E] by (auto intro: accounted_same split: btask.splits)
next
  case (ChildEnds i out wait)
  show ?thesis
  proof (cases "i < length (sy_tasks s) \<and> (\<exists>rid. sy_tasks s ! i = Building rid)")
    case True
    then show ?thesis
      using ChildEnds assms finish_build_effect [of i s _ E] by (auto simp: accounted_def)
  next
    case False
    then show ?thesis using ChildEnds assms by (auto intro: accounted_same split: btask.splits)
  qed
next
  case (Cancel rid)
  then show ?thesis using assms by (auto simp: cancel_def intro: accounted_same split: option.splits prod.splits)
next
  case (Poll i)
  then show ?thesis using assms poll_effect [of i s _ _ E] by (auto intro: accounted_same split: btask.splits)
qed (auto simp: assms intro: accounted_same)

lemma resume_unit_effect:
  assumes "sy_open s"
  shows "accounted (case parse_request_id u of Some rid \<Rightarrow> {#rid#} | None \<Rightarrow> {#}) s (resume_unit E s u)"
  using assms
  by (auto simp: resume_unit_def accounted_def account_def slots_def builds_def Let_def emit_build_response_def
      split: option.splits prod.splits bool.splits)

text \<open>The two loops of the adapter, over its events and over the units found at a restart, by the same
  contract: a step books what it takes on and keeps the sum of permits and builds.\<close>

locale accounting =
  fixes step :: "'s \<Rightarrow> 'e \<Rightarrow> 's" and live :: "'s \<Rightarrow> bool" and acct :: "'s \<Rightarrow> 'a multiset" and kept :: "'s \<Rightarrow> nat"
    and gain :: "'e \<Rightarrow> 'a list"
  assumes step_live: "live s \<Longrightarrow> live (step s e)"
    and step_acct: "live s \<Longrightarrow> acct (step s e) = acct s + mset (gain e)"
    and step_kept: "live s \<Longrightarrow> kept (step s e) = kept s"
begin

lemma accounting_live: "live s \<Longrightarrow> live (foldl step s es)"
  by (induction es arbitrary: s) (auto intro: step_live)

lemma accounting_acct: "live s \<Longrightarrow> acct (foldl step s es) = acct s + mset (concat (map gain es))"
  by (induction es arbitrary: s) (auto simp: step_live step_acct)

lemma accounting_kept: "live s \<Longrightarrow> kept (foldl step s es) = kept s"
  by (induction es arbitrary: s) (auto simp: step_live step_kept)

lemma fresh_run:
  assumes "live s" and "acct s = {#}"
  shows "live (foldl step s es) \<and> acct (foldl step s es) = mset (concat (map gain es)) \<and> kept (foldl step s es) = kept s"
  using assms accounting_live accounting_acct accounting_kept by simp

end

interpretation events: accounting "builder_step E" sy_open account slots asked for E
  by unfold_locales (use step_effect [unfolded accounted_def] in blast)+

interpretation resumed: accounting "resume_unit E" sy_open account slots "\<lambda>u. case parse_request_id u of Some rid \<Rightarrow> [rid] | None \<Rightarrow> []" for E
proof
  fix s :: "'a bsys" and u assume "sy_open s"
  note e = resume_unit_effect [OF this, of u E]
  show "sy_open (resume_unit E s u)" "slots (resume_unit E s u) = slots s" using e by (simp_all add: accounted_def)
  show "account (resume_unit E s u) = account s + mset (case parse_request_id u of Some rid \<Rightarrow> [rid] | None \<Rightarrow> [])"
    using e by (simp add: accounted_def split: option.splits)
qed

lemma resume_effect:
  assumes "sy_open s"
  shows "sy_open (resume_or_reap E s) \<and> slots (resume_or_reap E s) = slots s"
proof -
  obtain us w1 where u: "list_coolify_build_units E (sy_world s) = (us, w1)" by fastforce
  have "slots (s\<lparr>sy_world := w1\<rparr>) = slots s" by (simp add: slots_def builds_def)
  then show ?thesis
    using resumed.accounting_live [of "s\<lparr>sy_world := w1\<rparr>" E us] resumed.accounting_kept [of "s\<lparr>sy_world := w1\<rparr>" E us] assms u
    by (simp add: resume_or_reap_def)
qed

section \<open>Progress\<close>

text \<open>What is left to do for a request: to start it and to end it.\<close>

fun weight :: "btask \<Rightarrow> nat" where
  "weight (Fresh rid req) = 2"
| "weight (Building rid) = 1"
| "weight (Adopted rid unit) = 0"

definition remaining :: "'k bsys \<Rightarrow> nat" where
  "remaining s = sum_list (map weight (sy_tasks s))"

definition own_tasks :: "'k bsys \<Rightarrow> bool" where
  "own_tasks s \<longleftrightarrow> (\<forall>t\<in>set (sy_tasks s). weight t \<noteq> 0)"

lemma weight_drop_nth: "i < length xs \<Longrightarrow> sum_list (map weight xs) =
     weight (xs ! i) + sum_list (map weight (take i xs @ drop (Suc i) xs))"
  by (subst id_take_nth_drop [of i xs]) auto

lemma end_task_remaining:
  assumes "i < length (sy_tasks s)" and "own_tasks s" and "sy_tasks t = take i (sy_tasks s) @ drop (Suc i) (sy_tasks s)"
  shows "remaining t < remaining s \<and> own_tasks t"
proof -
  have "weight (sy_tasks s ! i) \<noteq> 0" using assms(1,2) by (simp add: own_tasks_def)
  then show ?thesis
    using weight_drop_nth [OF assms(1)] assms(2,3)
    by (auto simp: remaining_def own_tasks_def dest: in_set_takeD in_set_dropD)
qed

lemma finish_tasks:
  "sy_tasks (finish_dispatch i rid out s) = take i (sy_tasks s) @ drop (Suc i) (sy_tasks s)"
  "sy_tasks (finish_build E i rid out s) = take i (sy_tasks s) @ drop (Suc i) (sy_tasks s)"
  by (simp_all add: finish_build_def finish_dispatch_def end_task_def)

lemma start_build_remaining:
  assumes "i < length (sy_tasks s)" and "sy_tasks s ! i = Fresh rid req" and "own_tasks s"
  shows "remaining (start_build E i rid req s) < remaining s \<and> own_tasks (start_build E i rid req s)"
proof -
  let ?u = "s\<lparr>sy_tasks := (sy_tasks s)[i := Building rid]\<rparr>"
  have "remaining ?u < remaining s"
    using assms(1,2) weight_drop_nth [of i "sy_tasks s"] weight_drop_nth [of i "(sy_tasks s)[i := Building rid]"]
    by (simp add: remaining_def)
  moreover have "own_tasks ?u" using assms(3) set_update_subset_insert [of "sy_tasks s" i "Building rid"] by (auto simp: own_tasks_def)
  ultimately have b: "remaining t < remaining s \<and> own_tasks t" if "sy_tasks t = (sy_tasks s)[i := Building rid]" for t :: "'a bsys"
    using that by (simp add: remaining_def own_tasks_def)
  note e = end_task_remaining [OF assms(1,3)]
  have "sy_tasks (start_build E i rid req s) = (sy_tasks s)[i := Building rid] \<or>
      sy_tasks (start_build E i rid req s) = take i (sy_tasks s) @ drop (Suc i) (sy_tasks s)"
    by (auto simp: start_build_def Let_def finish_tasks split: prod.splits sum.splits)
  then show ?thesis using b e by blast
qed

lemma advance_remaining:
  assumes "i < length (sy_tasks s)" and "sy_tasks s ! i = Fresh rid req" and "own_tasks s" and "0 < cx_permits (sy_ctx s)"
  shows "remaining (builder_step E s (Advance i)) < remaining s \<and> own_tasks (builder_step E s (Advance i))"
proof (cases "is_valid_request_id rid")
  case True
  let ?s = "s\<lparr>sy_ctx := (sy_ctx s)\<lparr>cx_permits := cx_permits (sy_ctx s) - 1\<rparr>\<rparr>"
  have "builder_step E s (Advance i) = start_build E i rid req ?s" using True assms by (simp add: advance_dispatch_def)
  then show ?thesis using start_build_remaining [of i ?s rid req E] assms by (simp add: remaining_def own_tasks_def)
next
  case False
  then show ?thesis
    by (intro end_task_remaining [OF assms(1,3)]) (use assms(1,2) in \<open>simp add: advance_dispatch_def send_err_def end_task_def\<close>)
qed

lemma child_ends_remaining:
  assumes "i < length (sy_tasks s)" and "sy_tasks s ! i = Building rid" and "own_tasks s"
  shows "remaining (builder_step E s (ChildEnds i out wait)) < remaining s \<and> own_tasks (builder_step E s (ChildEnds i out wait))"
  by (rule end_task_remaining [OF assms(1,3)]) (use assms(1,2) in \<open>simp add: finish_tasks\<close>)

text \<open>A step that brings the requests further always exists: a build that runs ends, or else every permit
  is free.\<close>

lemma next_step:
  assumes "own_tasks s" and "0 < slots s" and "sy_tasks s \<noteq> []"
  obtains e where "asked e = []" "remaining (builder_step E s e) < remaining s" "own_tasks (builder_step E s e)"
proof (cases "builds s = 0")
  case True
  have "0 < length (sy_tasks s)" "sy_tasks s ! 0 \<in> set (sy_tasks s)" using assms(3) by simp_all
  moreover from this True assms(1,2) have "\<not> is_building (sy_tasks s ! 0)" "weight (sy_tasks s ! 0) \<noteq> 0" "0 < cx_permits (sy_ctx s)"
    by (auto simp: builds_def slots_def filter_empty_conv own_tasks_def)
  moreover from this(1,2) obtain rid req where "sy_tasks s ! 0 = Fresh rid req" by (cases "sy_tasks s ! 0") auto
  ultimately show ?thesis using advance_remaining [of 0 s rid req E] assms(1) by (intro that [of "Advance 0"]) auto
next
  case False
  then obtain t where "t \<in> set (sy_tasks s)" "is_building t" by (auto simp: builds_def filter_empty_conv)
  then obtain i rid where "i < length (sy_tasks s)" "sy_tasks s ! i = Building rid"
    by (metis in_set_conv_nth is_building.elims(2))
  then show ?thesis using child_ends_remaining [of i s rid E "[]" "Inr []"] assms(1) by (intro that [of "ChildEnds i [] (Inr [])"]) auto
qed

lemma drains:
  assumes "own_tasks s" and "0 < slots s" and "sy_open s"
  shows "\<exists>es. (\<forall>e\<in>set es. asked e = []) \<and> sy_tasks (foldl (builder_step E) s es) = []"
  using assms
proof (induction "remaining s" arbitrary: s rule: less_induct)
  case less
  show ?case
  proof (cases "sy_tasks s = []")
    case True
    then show ?thesis by (intro exI [of _ "[]"]) simp
  next
    case False
    obtain e where e: "asked e = []" "remaining (builder_step E s e) < remaining s" "own_tasks (builder_step E s e)"
      using less.prems(1,2) False by (rule next_step)
    moreover have "sy_open (builder_step E s e)" "0 < slots (builder_step E s e)"
      using step_effect [OF less.prems(3), of e E] less.prems(2) by (simp_all add: accounted_def)
    ultimately obtain es where "\<forall>e\<in>set es. asked e = []" "sy_tasks (foldl (builder_step E) (builder_step E s e) es) = []"
      using less.hyps by blast
    then show ?thesis using e(1) by (intro exI [of _ "e # es"]) simp
  qed
qed

section \<open>The table of active builds\<close>

abbreviation active :: "'k bsys \<Rightarrow> string \<Rightarrow> string option" where
  "active s \<equiv> hm_get (cx_active (sy_ctx s))"

definition without :: "nat \<Rightarrow> btask list \<Rightarrow> btask list" where
  "without i ts = take i ts @ drop (Suc i) ts"

lemma finish_active:
  "active (finish_dispatch i rid out s) = active s" "active (finish_build E i rid out s) = (active s)(rid := None)"
  by (simp_all add: finish_build_def finish_dispatch_def)

text \<open>What a step does to the tasks and to the table, in a state with no adopted units.\<close>

lemma start_build_cases:
  assumes "i < length (sy_tasks s)"
  obtains (failed) "sy_tasks (start_build E i rid req s) = without i (sy_tasks s)" "active (start_build E i rid req s) = active s"
  | (unspawned) "sy_tasks (start_build E i rid req s) = without i (sy_tasks s)"
      "active (start_build E i rid req s) = (active s)(rid := None)"
  | (started) "sy_tasks (start_build E i rid req s) = (sy_tasks s)[i := Building rid]"
      "active (start_build E i rid req s) = (active s)(rid \<mapsto> unit_name rid)"
proof -
  obtain r w1 where r: "setup_build E (sy_ctx s) rid req (sy_world s) = (r, w1)" by fastforce
  obtain q w2 where q: "on_host (sp_spawn E ''systemd-run'' (systemd_run_args (sy_ctx s) rid)) w1 = (q, w2)" by fastforce
  show ?thesis
    by (cases r; cases q)
       (use r q failed unspawned started in \<open>simp_all add: start_build_def finish_tasks finish_active without_def Let_def\<close>)
qed

lemma step_cases:
  assumes "own_tasks s"
  obtains (same) "sy_tasks (builder_step E s e) = sy_tasks s" "active (builder_step E s e) = active s"
  | (asks) rid req where "e = Dispatch rid req" "sy_tasks (builder_step E s e) = sy_tasks s @ [Fresh rid req]"
      "active (builder_step E s e) = active s"
  | (drops) i rid req where "i < length (sy_tasks s)" "sy_tasks s ! i = Fresh rid req"
      "sy_tasks (builder_step E s e) = without i (sy_tasks s)"
      "active (builder_step E s e) = active s \<or> active (builder_step E s e) = (active s)(rid := None)"
  | (starts) i rid req where "i < length (sy_tasks s)" "sy_tasks s ! i = Fresh rid req" "is_valid_request_id rid"
      "sy_tasks (builder_step E s e) = (sy_tasks s)[i := Building rid]"
      "active (builder_step E s e) = (active s)(rid \<mapsto> unit_name rid)"
  | (ends) i rid where "i < length (sy_tasks s)" "sy_tasks s ! i = Building rid"
      "sy_tasks (builder_step E s e) = without i (sy_tasks s)" "active (builder_step E s e) = (active s)(rid := None)"
proof (cases e)
  case (Dispatch rid req)
  then show ?thesis using asks by simp
next
  case (Advance i)
  show ?thesis
  proof (cases "i < length (sy_tasks s) \<and> (\<exists>rid req. sy_tasks s ! i = Fresh rid req)")
    case False
    then show ?thesis using Advance same by (auto split: btask.splits)
  next
    case True
    then obtain rid req where i: "i < length (sy_tasks s)" "sy_tasks s ! i = Fresh rid req" by blast
    let ?s = "s\<lparr>sy_ctx := (sy_ctx s)\<lparr>cx_permits := cx_permits (sy_ctx s) - 1\<rparr>\<rparr>"
    have e: "builder_step E s e = advance_dispatch E i rid req s" using i Advance by simp
    show ?thesis
    proof (cases "is_valid_request_id rid")
      case False
      then show ?thesis using drops [OF i] e by (simp add: advance_dispatch_def send_err_def end_task_def without_def)
    next
      case v: True
      show ?thesis
      proof (cases "cx_permits (sy_ctx s) = 0")
        case True
        then show ?thesis using same e v by (simp add: advance_dispatch_def)
      next
        case False
        then have b: "builder_step E s e = start_build E i rid req ?s" using e v by (simp add: advance_dispatch_def)
        have "i < length (sy_tasks ?s)" using i by simp
        then show ?thesis
        proof (cases rule: start_build_cases [where E = E and rid = rid and req = req])
          case started
          then show ?thesis using starts [OF i v] unfolding b by simp
        qed (use drops [OF i] in \<open>simp_all add: b\<close>)
      qed
    qed
  qed
next
  case (ChildEnds i out wait)
  show ?thesis
  proof (cases "i < length (sy_tasks s) \<and> (\<exists>rid. sy_tasks s ! i = Building rid)")
    case True
    then show ?thesis using ChildEnds ends by (auto simp: finish_tasks finish_active without_def)
  next
    case False
    then show ?thesis using ChildEnds same by (auto split: btask.splits)
  qed
next
  case (Cancel rid)
  then show ?thesis using same by (auto simp: cancel_def split: option.splits prod.splits)
next
  case (Poll i)
  have "i < length (sy_tasks s) \<Longrightarrow> sy_tasks s ! i \<noteq> Adopted rid unit" for rid unit
    using assms by (metis nth_mem own_tasks_def weight.simps(3))
  then have "builder_step E s e = s" using Poll by (auto split: btask.splits)
  then show ?thesis using same by simp
qed (use same in simp)

definition tasks_ok :: "'k bsys \<Rightarrow> bool" where
  "tasks_ok s \<longleftrightarrow> own_tasks s \<and> (\<forall>rid. Building rid \<in> set (sy_tasks s) \<longrightarrow> is_valid_request_id rid)"

definition active_ok :: "'k bsys \<Rightarrow> bool" where
  "active_ok s \<longleftrightarrow> (\<forall>rid. active s rid = (if Building rid \<in> set (sy_tasks s) then Some (unit_name rid) else None))"

lemma set_without: "set (without i ts) \<subseteq> set ts"
  by (auto simp: without_def dest: in_set_takeD in_set_dropD)

lemma step_tasks_ok:
  assumes "tasks_ok s"
  shows "tasks_ok (builder_step E s e)"
proof -
  have "own_tasks s" using assms by (simp add: tasks_ok_def)
  then show ?thesis
  proof (cases rule: step_cases [where E = E and e = e])
    case (starts i rid req)
    then show ?thesis using assms set_update_subset_insert [of "sy_tasks s" i "Building rid"]
      by (auto simp: tasks_ok_def own_tasks_def)
  qed (use assms set_without [of _ "sy_tasks s"] in \<open>auto simp: tasks_ok_def own_tasks_def\<close>)
qed

text \<open>With distinct ids the only task of an id is the one at its place.\<close>

lemma distinct_without:
  assumes "distinct (map task_id ts)" and "i < length ts" and "t \<in> set (without i ts)"
  shows "task_id t \<noteq> task_id (ts ! i)"
proof -
  have "distinct (map task_id (take i ts @ ts ! i # drop (Suc i) ts))" using assms(1,2) by (simp flip: id_take_nth_drop)
  then have "task_id (ts ! i) \<notin> task_id ` set (without i ts)" by (auto simp: without_def)
  then show ?thesis using assms(3) by (metis imageI)
qed

lemma building_without:
  assumes "distinct (map task_id ts)" and "i < length ts"
  shows "Building rid \<in> set (without i ts) \<longleftrightarrow> Building rid \<in> set ts \<and> rid \<noteq> task_id (ts ! i)"
proof -
  have "set ts = insert (ts ! i) (set (without i ts))"
    unfolding without_def using arg_cong [OF id_take_nth_drop [OF assms(2)], of set] by simp
  then show ?thesis using distinct_without [OF assms, of "Building rid"] by (metis insertE insertI2 task_id.simps(2))
qed

lemma building_update:
  assumes "distinct (map task_id ts)" and "i < length ts" and "ts ! i = Fresh r req"
  shows "Building rid \<in> set (ts[i := Building r]) \<longleftrightarrow> rid = r \<or> Building rid \<in> set ts"
proof -
  have "set (ts[i := Building r]) = insert (Building r) (set (without i ts))"
    unfolding without_def by (simp add: upd_conv_take_nth_drop [OF assms(2)])
  then show ?thesis using building_without [OF assms(1,2), of rid] assms(3) by auto
qed

lemma step_active_ok:
  assumes "tasks_ok s" and "active_ok s" and "distinct (map task_id (sy_tasks s))"
  shows "active_ok (builder_step E s e)"
proof -
  have "own_tasks s" using assms by (simp add: tasks_ok_def)
  then show ?thesis
  proof (cases rule: step_cases [where E = E and e = e])
    case (drops i rid req)
    have "Building rid \<notin> set (sy_tasks s)"
      using inj_onD [of task_id "set (sy_tasks s)" "Building rid" "sy_tasks s ! i"] assms(3) drops(2) nth_mem [OF drops(1)]
      by (auto simp: distinct_map)
    then have "active (builder_step E s e) = active s" using drops(4) assms(2) by (auto simp: active_ok_def)
    then show ?thesis
      using assms(2) building_without [OF assms(3) drops(1)] drops(2) \<open>Building rid \<notin> set (sy_tasks s)\<close>
      unfolding active_ok_def drops(3) by auto
  next
    case (starts i rid req)
    then show ?thesis using assms(2) building_update [OF assms(3) starts(1,2)] unfolding active_ok_def by simp
  next
    case (ends i rid)
    then show ?thesis using assms(2) building_without [OF assms(3) ends(1)] unfolding active_ok_def by simp
  qed (use assms(2) in \<open>simp_all add: active_ok_def\<close>)
qed

definition builder_run :: "'k spawn_env \<Rightarrow> builder_settings \<Rightarrow> 'k bworld \<Rightarrow> 'k bevent list \<Rightarrow> 'k bsys" where
  "builder_run E b w es = foldl (builder_step E) (bsys_new b w) es"

definition resumed_run :: "'k spawn_env \<Rightarrow> builder_settings \<Rightarrow> 'k bworld \<Rightarrow> 'k bevent list \<Rightarrow> 'k bsys" where
  "resumed_run E b w es = foldl (builder_step E) (resume_or_reap E (bsys_new b w)) es"

lemma run_accounted:
  "accounted (mset (concat (map asked es))) (bsys_new b w) (builder_run E b w es)"
  using events.fresh_run [of "bsys_new b w" E es] by (simp add: builder_run_def accounted_def account_def bsys_new_def)

lemma builds_run:
  "cx_permits (sy_ctx (builder_run E b w es)) + builds (builder_run E b w es) = effective_capacity (bs_capacity b)"
  using run_accounted [of es b w E] by (simp add: accounted_def slots_def builds_def bsys_new_def builder_ctx_new_def)

lemma run_tasks_ok: "tasks_ok (builder_run E b w es)"
  unfolding builder_run_def
proof (induction es rule: rev_induct)
  case Nil
  then show ?case by (simp add: tasks_ok_def own_tasks_def bsys_new_def)
qed (simp add: step_tasks_ok)

lemma run_distinct:
  assumes "distinct (concat (map asked es))"
  shows "distinct (map task_id (sy_tasks (builder_run E b w es)))"
proof -
  have "account (builder_run E b w es) = mset (concat (map asked es))"
    using run_accounted [of es b w E] by (simp add: accounted_def account_def bsys_new_def)
  then have "mset (map task_id (sy_tasks (builder_run E b w es)) @ map fst (sy_out (builder_run E b w es))) = mset (concat (map asked es))"
    by (simp add: account_def)
  then show ?thesis using assms mset_eq_imp_distinct_iff by fastforce
qed

lemma run_active_ok:
  assumes "distinct (concat (map asked es))"
  shows "active_ok (builder_run E b w es)"
  using assms
proof (induction es rule: rev_induct)
  case Nil
  then show ?case by (simp add: builder_run_def bsys_new_def builder_ctx_new_def active_ok_def)
next
  case (snoc e es)
  then have "distinct (concat (map asked es))" by simp
  then show ?case
    using snoc.IH step_active_ok [OF run_tasks_ok, of E b w es E e] run_distinct [of es E b w] by (simp add: builder_run_def)
qed

section \<open>Properties of the adapter\<close>

text \<open>Units are adopted at a restart only, one at most for each unit found.\<close>

lemma adopted_without: "length (filter is_adopted (take i ts @ drop (Suc i) ts)) \<le> length (filter is_adopted ts)"
proof -
  have "length (filter is_adopted ts) = length (filter is_adopted (take i ts)) + length (filter is_adopted (drop i ts))"
    by (metis append_take_drop_id filter_append length_append)
  moreover have "length (filter is_adopted (drop (Suc i) ts)) \<le> length (filter is_adopted (drop i ts))"
    by (cases "i < length ts") (simp_all add: Cons_nth_drop_Suc [symmetric])
  ultimately show ?thesis by simp
qed

lemma adopted_update:
  assumes "ts ! i = Fresh rid req"
  shows "length (filter is_adopted (ts[i := Building rid])) \<le> length (filter is_adopted ts)"
proof (cases "i < length ts")
  case True
  then show ?thesis using adopted_without [of i ts] by (simp add: upd_conv_take_nth_drop)
qed (simp add: list_update_beyond)

lemma step_adopted: "adopted (builder_step E s e) \<le> adopted s"
proof (cases e)
  case (Advance i)
  show ?thesis
  proof (cases "i < length (sy_tasks s) \<and> (\<exists>rid req. sy_tasks s ! i = Fresh rid req)")
    case True
    then obtain rid req where i: "i < length (sy_tasks s)" "sy_tasks s ! i = Fresh rid req" by blast
    let ?s = "s\<lparr>sy_ctx := (sy_ctx s)\<lparr>cx_permits := cx_permits (sy_ctx s) - 1\<rparr>\<rparr>"
    have "i < length (sy_tasks ?s)" using i by simp
    then have "adopted (start_build E i rid req ?s) \<le> adopted s"
      by (cases rule: start_build_cases [where E = E and rid = rid and req = req])
        (use adopted_without [of i "sy_tasks s"] adopted_update [OF i(2)] in \<open>simp_all add: adopted_def without_def\<close>)
    then show ?thesis
      using Advance i adopted_without [of i "sy_tasks s"] by (simp add: advance_dispatch_def send_err_def adopted_def end_task_def)
  qed (use Advance in \<open>auto split: btask.splits\<close>)
next
  case (ChildEnds i out wait)
  then show ?thesis using adopted_without [of i "sy_tasks s"] by (simp add: adopted_def finish_tasks split: btask.splits)
next
  case (Poll i)
  then show ?thesis
    using adopted_without [of i "sy_tasks s"]
    by (simp add: adopted_def poll_adopted_def end_task_def Let_def split: btask.splits prod.splits bool.splits)
next
  case (Cancel rid)
  then show ?thesis by (auto simp: cancel_def adopted_def split: option.splits prod.splits)
qed (simp_all add: adopted_def)

lemma resume_adopted: "adopted (foldl (resume_unit E) s us) \<le> adopted s + length us"
proof (induction us arbitrary: s)
  case (Cons u us)
  have "adopted (resume_unit E s u) \<le> Suc (adopted s)"
    by (auto simp: resume_unit_def adopted_def Let_def split: option.splits prod.splits bool.splits)
  then show ?case using Cons.IH [of "resume_unit E s u"] by simp
qed simp

lemma run_adopted: "adopted (resumed_run E b w es) \<le> length (fst (list_coolify_build_units E w))"
proof -
  obtain us w1 where u: "list_coolify_build_units E w = (us, w1)" by fastforce
  have "adopted (foldl (builder_step E) s es) \<le> adopted s" for s
    by (induction es arbitrary: s) (auto intro: order_trans step_adopted)
  moreover have "adopted (resume_or_reap E (bsys_new b w)) \<le> length us"
    using resume_adopted [of E "(bsys_new b w)\<lparr>sy_world := w1\<rparr>" us] u by (simp add: resume_or_reap_def bsys_new_def adopted_def)
  ultimately show ?thesis using u unfolding resumed_run_def by (metis fst_conv order_trans)
qed

text \<open>C25: The number of builds is bounded. In whatever order requests, cancellations and ends of child
  processes follow a restart, the builds that this coold has started and that still run, and the free
  permits, are together the configured capacity, where 0 counts as 1. The units adopted from an
  earlier run come on top, as they take no permit: what runs at once is at most the capacity and the
  number of units the restart found.\<close>

theorem builds_bounded_by_capacity:
  "cx_permits (sy_ctx (resumed_run E b w es)) + builds (resumed_run E b w es) =
     (if bs_capacity b = 0 then 1 else unat (bs_capacity b)) \<and>
   builds (resumed_run E b w es) + adopted (resumed_run E b w es) \<le>
     (if bs_capacity b = 0 then 1 else unat (bs_capacity b)) + length (fst (list_coolify_build_units E w))"
proof -
  have "slots (bsys_new b w) = effective_capacity (bs_capacity b)"
    by (simp add: slots_def builds_def bsys_new_def builder_ctx_new_def)
  moreover have "sy_open (bsys_new b w)" by (simp add: bsys_new_def)
  ultimately have "cx_permits (sy_ctx (resumed_run E b w es)) + builds (resumed_run E b w es) =
     (if bs_capacity b = 0 then 1 else unat (bs_capacity b))"
    using resume_effect [of "bsys_new b w" E] events.accounting_kept [of "resume_or_reap E (bsys_new b w)" E es]
    by (simp add: resumed_run_def slots_def effective_capacity_def)
  then show ?thesis using run_adopted [of E b w es] by linarith
qed

text \<open>C12: Every request is answered exactly once. At any time the responses sent and the requests still
  open are, with their multiplicities, the requests that were dispatched; and from there the open
  ones can be brought to an end, because a permit is always free or held by a build that runs.\<close>

theorem requests_answered_once:
  "mset (map fst (sy_out (builder_run E b w es))) + mset (map task_id (sy_tasks (builder_run E b w es))) =
     mset (concat (map asked es)) \<and>
   (\<exists>more. (\<forall>e\<in>set more. asked e = []) \<and>
      mset (map fst (sy_out (builder_run E b w (es @ more)))) = mset (concat (map asked es)))"
proof -
  have acc: "mset (map fst (sy_out (builder_run E b w es))) + mset (map task_id (sy_tasks (builder_run E b w es))) =
     mset (concat (map asked es))" for es
    using run_accounted [of es b w E] by (simp add: accounted_def account_def bsys_new_def add.commute)
  have "slots (builder_run E b w es) = effective_capacity (bs_capacity b)" "sy_open (builder_run E b w es)"
    using run_accounted [of es b w E] by (simp_all add: accounted_def slots_def builds_def bsys_new_def builder_ctx_new_def)
  moreover have "0 < effective_capacity (bs_capacity b)" by (simp add: effective_capacity_def unat_gt_0)
  ultimately obtain more where "\<forall>e\<in>set more. asked e = []" "sy_tasks (foldl (builder_step E) (builder_run E b w es) more) = []"
    using drains [of "builder_run E b w es" E] run_tasks_ok [of E b w es] by (auto simp: tasks_ok_def)
  then have "mset (map fst (sy_out (builder_run E b w (es @ more)))) = mset (concat (map asked es))" "\<forall>e\<in>set more. asked e = []"
    using acc [of "es @ more"] by (simp_all add: builder_run_def)
  then show ?thesis using acc by blast
qed

text \<open>C27: A cancellation reaches the build it names and no other. If no request id was dispatched twice,
  cancelling an id does nothing and reports false unless a build of that id runs, and then it runs
  \<open>systemctl kill --signal=SIGTERM\<close> on the unit of that build, whose name gives the id back, and
  reports whether that could be run.\<close>

theorem cancel_hits_its_build:
  assumes "distinct (concat (map asked es))" and "s = builder_run E b w es"
  shows "cancel E rid s =
     (if Building rid \<in> set (sy_tasks s)
      then (case systemctl E [''kill'', ''--signal=SIGTERM'', unit_name rid] (sy_world s) of (r, w1) \<Rightarrow> (is_ok r, s\<lparr>sy_world := w1\<rparr>))
      else (False, s)) \<and> parse_request_id (unit_name rid) = Some rid"
  using run_active_ok [OF assms(1), of E b w] assms(2) parse_unit_name
  by (simp add: cancel_def active_ok_def)

text \<open>C28: Builds do not disturb each other's files. When the child of one build has ended, the cleanup
  leaves every file and directory in the work directory of any other valid request as it was.\<close>

theorem cleanup_is_confined:
  assumes "s = builder_run E b w es" and "i < length (sy_tasks s)" and "sy_tasks s ! i = Building rid"
    and "is_valid_request_id other" and "other \<noteq> rid" and "in_tree (work_dir (sy_ctx s) other) q"
  shows "file_at (bw_host (sy_world (builder_step E s (ChildEnds i out wait)))) q = file_at (bw_host (sy_world s)) q \<and>
     hm_get (bw_dirs (sy_world (builder_step E s (ChildEnds i out wait)))) q = hm_get (bw_dirs (sy_world s)) q"
proof -
  have "is_valid_request_id rid" using run_tasks_ok [of E b w es] assms(1-3) by (metis nth_mem tasks_ok_def)
  then have "\<not> in_tree (work_dir (sy_ctx s) rid) q" using trees_disjoint assms(4-6) by blast
  then show ?thesis
    using remove_dir_all_frame [of _ q E "sy_world s"] assms(2,3)
    by (simp add: finish_build_def finish_dispatch_def)
qed

text \<open>A request id is used only if it is a plain word. A request with any other id is answered with 400
  and touches neither the disk, nor the table of builds, nor the permits.\<close>

theorem invalid_id_refused:
  assumes "i < length (sy_tasks s)" and "sy_tasks s ! i = Fresh rid req"
    and "rid = [] \<or> 64 < length rid \<or> (\<exists>c\<in>set rid. \<not> is_alnum c \<and> c \<noteq> CHR ''-'' \<and> c \<noteq> CHR ''_'')"
  shows "sy_world (builder_step E s (Advance i)) = sy_world s \<and> sy_ctx (builder_step E s (Advance i)) = sy_ctx s \<and>
     (sy_open s \<longrightarrow> sy_out (builder_step E s (Advance i)) = sy_out s @
        [(rid, BodyErr \<lparr>be_code = 400, be_message = ''invalid request_id'', be_stage = ''dispatch''\<rparr>)])"
proof -
  have "\<not> is_valid_request_id rid" using assms(3) by (auto simp: is_valid_request_id_def list_all_iff)
  then show ?thesis
    using assms(1,2) by (simp add: advance_dispatch_def send_err_def build_err_def emit_build_response_def)
qed

subsection \<open>Where the adapter falls short\<close>

text \<open>Programs can be started, and the setup of a build succeeds.\<close>

definition starts_builds :: "'k spawn_env \<Rightarrow> bool" where
  "starts_builds E \<longleftrightarrow> (\<forall>c rid req w. is_ok (fst (setup_build E c rid req w))) \<and>
     (\<forall>args h. is_ok (fst (sp_spawn E ''systemd-run'' args h))) \<and> (\<forall>args w. is_ok (fst (systemctl E args w)))"

lemma is_ok_unit:
  assumes "is_ok (fst (p :: ('e + unit) \<times> 'w))"
  obtains w where "p = (Inr (), w)"
  using assms that by (cases p) (auto simp: is_ok_def split: sum.splits)

lemma start_build_starts:
  assumes "starts_builds E"
  shows "sy_tasks (start_build E i rid req s) = (sy_tasks s)[i := Building rid]"
    "active (start_build E i rid req s) = (active s)(rid \<mapsto> unit_name rid)"
proof -
  have "is_ok (fst (setup_build E (sy_ctx s) rid req (sy_world s)))" using assms by (simp add: starts_builds_def)
  then obtain w1 where "setup_build E (sy_ctx s) rid req (sy_world s) = (Inr (), w1)" by (rule is_ok_unit)
  moreover have "is_ok (fst (sp_spawn E ''systemd-run'' (systemd_run_args (sy_ctx s) rid) (bw_host w1)))"
    using assms by (simp add: starts_builds_def)
  then obtain h where "sp_spawn E ''systemd-run'' (systemd_run_args (sy_ctx s) rid) (bw_host w1) = (Inr (), h)" by (rule is_ok_unit)
  ultimately show "sy_tasks (start_build E i rid req s) = (sy_tasks s)[i := Building rid]"
    "active (start_build E i rid req s) = (active s)(rid \<mapsto> unit_name rid)"
    by (simp_all add: start_build_def on_host_def Let_def)
qed

lemma cancel_found: "starts_builds E \<Longrightarrow> fst (cancel E rid s) \<longleftrightarrow> active s rid \<noteq> None"
  by (auto simp: cancel_def starts_builds_def split: option.splits prod.splits) (metis fst_conv)+

text \<open>C40: A request id that is dispatched again while its build runs is not refused. Take any run with no
  repeated id in which a build of \<open>rid\<close> runs and a permit is free, and where programs can be started:
  the build can be cancelled. Now the id is dispatched again and gets its permit: a second child is
  started for the same unit. When that child has ended (as \<open>systemd-run\<close> does, with an error, for a unit
  name that is taken), the table has forgotten the id although the first build still runs:
  cancelling it is reported as not found.\<close>

theorem repeated_id_loses_its_handle:
  assumes "starts_builds E" and "distinct (concat (map asked es))"
    and "s = builder_run E b w es" and "Building rid \<in> set (sy_tasks s)" and "0 < cx_permits (sy_ctx s)"
    and "again = [Dispatch rid req, Advance (length (sy_tasks s))]"
    and "child_ends = [ChildEnds (length (sy_tasks s)) out wait]"
  shows "fst (cancel E rid s) \<and> fst (cancel E rid (builder_run E b w (es @ again))) \<and>
     Building rid \<in> set (sy_tasks (builder_run E b w (es @ again @ child_ends))) \<and>
     \<not> fst (cancel E rid (builder_run E b w (es @ again @ child_ends)))"
proof -
  define s1 where "s1 = builder_run E b w (es @ again)"
  have v: "is_valid_request_id rid" using run_tasks_ok [of E b w es] assms(3,4) by (simp add: tasks_ok_def)
  then have tasks: "sy_tasks s1 = sy_tasks s @ [Building rid]" and act: "active s1 = (active s)(rid \<mapsto> unit_name rid)"
    using assms(3,5,6) start_build_starts [OF assms(1)]
    by (simp_all add: s1_def builder_run_def advance_dispatch_def)
  have s2: "builder_run E b w (es @ again @ child_ends) =
      finish_build E (length (sy_tasks s)) rid (reap E (work_dir (sy_ctx s1) rid) out wait) s1"
    using tasks assms(7) by (simp add: s1_def builder_run_def)
  have "active s rid = Some (unit_name rid)" using run_active_ok [OF assms(2), of E b w] assms(3,4) by (simp add: active_ok_def)
  then show ?thesis
    using assms(4) tasks act by (simp add: cancel_found [OF assms(1)] s2 finish_tasks finish_active flip: s1_def)
qed

text \<open>A unit found at a restart is not held to that rule: the id of a unit that is named with two dots is
  the parent directory, and its work directory is the one above the root.\<close>

lemma resumed_id_not_validated:
  "parse_request_id ''coolify-build-...service'' = Some ''..'' \<and> \<not> is_valid_request_id ''..''"
  using parse_unit_name [of "''..''"] by (simp add: unit_name_def is_valid_request_id_def is_alnum_def byte_in_def)

section \<open>Witnesses\<close>

text \<open>Nothing fails, and every JSON value is printed as the empty object.\<close>

definition sample_spawn :: "string list list spawn_env" where
  "sample_spawn =
     \<lparr>sp_host = calm_ops, sp_spawn = (\<lambda>prog args. io_return ()), sp_join_fault = (\<lambda>_. None), sp_mkdir_fault = (\<lambda>_ _. None),
      sp_rmdir_fault = (\<lambda>_ _. None), sp_dir_mode = 493, sp_json = (\<lambda>_. Inl ''EOF''), sp_shape = (\<lambda>_. ''bad''),
      sp_print = (\<lambda>_. Inr ''{}''), sp_written = (\<lambda>_ _. 2), sp_num = (\<lambda>_. 0), sp_of_num = (\<lambda>_. None)\<rparr>"

definition sample_settings :: builder_settings where
  "sample_settings =
     \<lparr>bs_work_root = ''/w'', bs_builder_bin = ''/b'', bs_capacity = 2, bs_timeout_secs = 60, bs_memory_max = ''1G'',
      bs_cpu_quota = ''50%'', bs_deny_nets = []\<rparr>"

definition sample_proto_request :: proto_build_request where
  "sample_proto_request =
     \<lparr>pq_repo_url = ''u'', pq_git_ref = ''v1'', pq_stack = 4, pq_target_image = ''i'', pq_cache_key = [], pq_static_cfg = None\<rparr>"

definition empty_world :: "string list list bworld" where
  "empty_world = \<lparr>bw_host = empty_host, bw_dirs = []\<rparr>"

definition one_build :: "string list list bevent list" where
  "one_build = [Dispatch ''a'' sample_proto_request, Advance 0]"

lemma valid_a: "is_valid_request_id ''a''" "is_valid_request_id ''b''"
  by (simp_all add: is_valid_request_id_def is_alnum_def byte_in_def)

lemma setup_sample:
  "fst (setup_build sample_spawn c rid sample_proto_request w) = Inr ()"
  by (simp add: setup_build_def sample_spawn_def build_bind_def build_io_def make_dirs_def on_host_def write_unflushed_def fs_write_with_def Let_def
      split: prod.splits)

lemma start_sample:
  assumes "i < length (sy_tasks s)"
  shows "sy_tasks (start_build sample_spawn i rid sample_proto_request s) = (sy_tasks s)[i := Building rid]"
  using setup_sample [of "sy_ctx s" rid "sy_world s"]
  by (cases "setup_build sample_spawn (sy_ctx s) rid sample_proto_request (sy_world s)")
     (simp add: start_build_def Let_def on_host_def sample_spawn_def io_return_def)

lemma one_build_tasks: "sy_tasks (builder_run sample_spawn sample_settings empty_world one_build) = [Building ''a'']"
  by (simp add: builder_run_def one_build_def bsys_new_def builder_ctx_new_def sample_settings_def effective_capacity_def
      advance_dispatch_def valid_a start_sample)

lemma systemctl_sample: "is_ok (fst (systemctl sample_spawn args w))"
  by (simp add: systemctl_def on_host_def sample_spawn_def io_bind_def io_return_def is_ok_def)

theorem cancel_hits_its_build_witness:
  "fst (cancel sample_spawn ''a'' (builder_run sample_spawn sample_settings empty_world one_build))"
proof -
  have "distinct (concat (map asked one_build))" by (simp add: one_build_def)
  from cancel_hits_its_build [OF this refl, of sample_spawn "''a''" sample_settings empty_world] show ?thesis
    using systemctl_sample by (simp add: one_build_tasks case_prod_beta)
qed

theorem requests_answered_once_witness:
  "\<exists>more. mset (map fst (sy_out (builder_run sample_spawn sample_settings empty_world (one_build @ more)))) = {#''a''#}"
  using requests_answered_once [of sample_spawn sample_settings empty_world one_build] by (auto simp: one_build_def)

theorem cleanup_is_confined_witness:
  "file_at (bw_host (sy_world (builder_step sample_spawn (builder_run sample_spawn sample_settings empty_world one_build)
      (ChildEnds 0 [] (Inr ''exit status: 1''))))) (work_dir (sy_ctx (builder_run sample_spawn sample_settings empty_world one_build)) ''b'')
     = file_at (bw_host (sy_world (builder_run sample_spawn sample_settings empty_world one_build)))
         (work_dir (sy_ctx (builder_run sample_spawn sample_settings empty_world one_build)) ''b'')"
  using cleanup_is_confined [OF refl, where E = sample_spawn and b = sample_settings and w = empty_world and es = one_build and i = 0
      and rid = "''a''" and other = "''b''"]
  by (simp add: one_build_tasks valid_a in_tree_def)

definition bad_id_sys :: "string list list bsys" where
  "bad_id_sys = (bsys_new sample_settings empty_world)\<lparr>sy_tasks := [Fresh ''../x'' sample_proto_request]\<rparr>"

theorem invalid_id_refused_witness:
  "sy_out (builder_step sample_spawn bad_id_sys (Advance 0)) =
     [(''../x'', BodyErr \<lparr>be_code = 400, be_message = ''invalid request_id'', be_stage = ''dispatch''\<rparr>)]"
  using invalid_id_refused [of 0 bad_id_sys "''../x''" sample_proto_request sample_spawn]
  by (simp add: bad_id_sys_def bsys_new_def is_alnum_def byte_in_def)

lemma sample_starts: "starts_builds sample_spawn"
  unfolding starts_builds_def using systemctl_sample
  by (auto simp: sample_spawn_def io_return_def is_ok_def setup_build_def build_bind_def build_io_def make_dirs_def on_host_def
      write_unflushed_def fs_write_with_def Let_def split: prod.splits)

lemma one_build_permits: "cx_permits (sy_ctx (builder_run sample_spawn sample_settings empty_world one_build)) = 1"
  using builds_run [of sample_spawn sample_settings empty_world one_build] one_build_tasks
  by (simp add: builds_def effective_capacity_def sample_settings_def)

text \<open>The excess over the capacity is real: a coold with capacity 1 that finds a running unit adopts it and
  starts a build of its own beside it.\<close>

definition one_slot :: builder_settings where
  "one_slot = sample_settings\<lparr>bs_capacity := 1\<rparr>"

definition busy_spawn :: "string list list spawn_env" where
  "busy_spawn = sample_spawn\<lparr>sp_host := calm_ops\<lparr>op_command := (\<lambda>prog args w.
     (Inr \<lparr>ou_success = True, ou_status = ''exit status: 0'', ou_stdout = ''coolify-build-b.service loaded active running'', ou_stderr = []\<rparr>, w))\<rparr>\<rparr>"

lemma adopted_unit_beside_a_build:
  "sy_tasks (resumed_run busy_spawn one_slot empty_world one_build) = [Adopted ''b'' ''coolify-build-b.service'', Fresh ''a'' sample_proto_request] \<and>
   sy_tasks (resumed_run busy_spawn one_slot empty_world (one_build @ [Advance 1])) = [Adopted ''b'' ''coolify-build-b.service'', Building ''a'']"
  by code_simp

theorem repeated_id_loses_its_handle_witness:
  "fst (cancel sample_spawn ''a'' (builder_run sample_spawn sample_settings empty_world one_build)) \<and>
   \<not> fst (cancel sample_spawn ''a'' (builder_run sample_spawn sample_settings empty_world
       (one_build @ [Dispatch ''a'' sample_proto_request, Advance 1] @ [ChildEnds 1 [] (Inr ''exit status: 1'')])))"
proof -
  have "distinct (concat (map asked one_build))" by (simp add: one_build_def)
  from repeated_id_loses_its_handle [OF sample_starts this refl, where rid = "''a''" and b = sample_settings and w = empty_world
      and req = sample_proto_request and out = "[]" and wait = "Inr ''exit status: 1''"]
  show ?thesis by (simp add: one_build_tasks one_build_permits)
qed

end
