(* ===== verification/BuilderOutcome.thy ===== *)
theory BuilderOutcome
  imports BuilderRuns
begin

text \<open>
  The adapter and the build process together: what \<open>builder/src/main.rs\<close> leaves on its standard output
  and in its outcome files, and what \<open>coold/src/builder/mod.rs\<close> makes of it, live or after a restart.
\<close>

section \<open>The connection\<close>

text \<open>Both sides use the same JSON library. Text it printed is read back as it was, and has no line break:
  the compact printer writes none between tokens and escapes control characters in strings.\<close>

definition plain_line :: "string \<Rightarrow> bool" where
  "plain_line l \<longleftrightarrow> CHR 0x0A \<notin> set l \<and> CHR 0x0D \<notin> set l"

definition speaks :: "'k spawn_env \<Rightarrow> 'k builder_env \<Rightarrow> bool" where
  "speaks E B \<longleftrightarrow> (\<forall>j t. sp_print E j = Inr t \<longrightarrow> sp_json E t = Inr j \<and> plain_line t) \<and>
     (\<forall>f. ev_frame B f = sp_print E (frame_json f)) \<and> (\<forall>r. ev_result B r = sp_print E (build_result_json r)) \<and>
     (\<forall>e. ev_error B e = sp_print E (build_error_json e))"

text \<open>The lines the other end of the pipe reads: a line without a break in it that the process writes
  arrives as that line. Programs it runs have their own standard output, and files do not matter.\<close>

definition stdout_lines :: "'k builder_env \<Rightarrow> ('k host \<Rightarrow> string list) \<Rightarrow> bool" where
  "stdout_lines B seen \<longleftrightarrow> (\<forall>l w. plain_line l \<longrightarrow> seen (ev_stdout B (l @ [CHR 0x0A]) w) = seen w @ [l]) \<and>
     (\<forall>b a d w. seen (snd (ev_run B b a d w)) = seen w) \<and> (\<forall>w w'. ho_rest w = ho_rest w' \<longrightarrow> seen w = seen w')"

fun final_frame :: "build_error + build_result \<Rightarrow> frame" where
  "final_frame (Inr ok) = FResult ok"
| "final_frame (Inl e) = FError e"

fun engine_body :: "(proto_stack \<Rightarrow> int) \<Rightarrow> build_error + build_result \<Rightarrow> build_response_body" where
  "engine_body num (Inr ok) = BodyOk (result_of_engine num ok)"
| "engine_body num (Inl e) = BodyErr e"

section \<open>Standard output\<close>

lemma stdout_linesD:
  assumes "stdout_lines B seen"
  shows "plain_line l \<Longrightarrow> seen (ev_stdout B (l @ [CHR 0x0A]) w) = seen w @ [l]" "seen (snd (ev_run B b a d w)) = seen w"
    "ho_rest v = ho_rest w \<Longrightarrow> seen v = seen w"
  using assms unfolding stdout_lines_def by blast+

lemma frame_plain: "speaks E B \<Longrightarrow> ev_frame B f = Inr l \<Longrightarrow> plain_line l"
  unfolding speaks_def by metis

lemma emit_frame_lines:
  assumes "speaks E B" and "stdout_lines B seen"
  shows "seen (emit_frame B events f w) = seen w @ (case ev_frame B f of Inr l \<Rightarrow> [l] | Inl _ \<Rightarrow> [])"
proof (cases "ev_frame B f")
  case (Inr l)
  have "ho_rest (snd (fs_append (ev_host B) 384 events c v)) = ho_rest v" for c v
    by (simp add: fs_append_def split: option.splits)
  then have "ho_rest (emit_frame B events f w) = ho_rest (ev_stdout B (l @ [CHR 0x0A]) w)" using Inr by (simp add: emit_frame_def)
  then have "seen (emit_frame B events f w) = seen (ev_stdout B (l @ [CHR 0x0A]) w)"
    by (rule stdout_linesD(3) [OF assms(2)])
  then show ?thesis using stdout_linesD(1) [OF assms(2) frame_plain [OF assms(1) Inr]] Inr by simp
qed (simp add: emit_frame_def)

lemma files_keep_lines:
  assumes "stdout_lines B seen"
  shows "seen (write_json_atomic B p b w) = seen w" "seen (snd (fs_write H p c w)) = seen w" "seen (snd (fs_read_to_string H p w)) = seen w"
proof -
  have "ho_rest (write_json_atomic B p b w) = ho_rest w"
    by (auto simp: write_json_atomic_def io_bind_def fs_write_with_def fs_guard_def fs_rename_def Let_def
        split: option.splits write_fault.splits prod.splits sum.splits)
  moreover have "ho_rest (snd (fs_write H p c w)) = ho_rest w"
    by (simp add: fs_write_def fs_write_with_def split: option.splits write_fault.splits)
  moreover have "ho_rest (snd (fs_read_to_string H p w)) = ho_rest w"
    by (simp add: fs_read_to_string_def fs_read_def io_bind_def io_fail_def io_return_def split: option.splits)
  ultimately show "seen (write_json_atomic B p b w) = seen w" "seen (snd (fs_write H p c w)) = seen w"
    "seen (snd (fs_read_to_string H p w)) = seen w"
    by (auto intro: stdout_linesD(3) [OF assms])
qed

text \<open>A property of the world that the operations keep is kept by a build.\<close>

definition build_keeps :: "('w \<Rightarrow> bool) \<Rightarrow> ('w, 'a) build \<Rightarrow> bool" where
  "build_keeps P m \<longleftrightarrow> (\<forall>w. P w \<longrightarrow> P (snd (m w)))"

lemma build_keeps_bind: "build_keeps P m \<Longrightarrow> (\<And>a. build_keeps P (f a)) \<Longrightarrow> build_keeps P (build_bind m f)"
  by (force simp: build_keeps_def build_bind_def split: prod.splits sum.splits)

lemma build_keeps_if: "build_keeps P a \<Longrightarrow> build_keeps P b \<Longrightarrow> build_keeps P (if c then a else b)"
  by simp

lemma build_keeps_simple: "build_keeps P (build_fail c t m)" "build_keeps P (build_ok a)"
  by (simp_all add: build_keeps_def build_fail_def build_ok_def)

lemma build_keeps_io: "(\<And>w. P w \<Longrightarrow> P (snd (n w))) \<Longrightarrow> build_keeps P (build_io g n)"
  by (force simp: build_keeps_def build_io_def split: prod.splits sum.splits)

lemma run_build_keeps:
  assumes "\<And>b a d w. P w \<Longrightarrow> P (snd (bo_run B b a d w))" and "\<And>p c w. P w \<Longrightarrow> P (snd (bo_write B p c w))"
    and "\<And>p w. P w \<Longrightarrow> P (snd (bo_read B p w))" and "\<And>ev w. P w \<Longrightarrow> P (bo_emit B ev w)"
  shows "build_keeps P (run_build B req d)"
proof -
  have r: "build_keeps P (run_ok B b a x)" for b a x
    unfolding build_keeps_def run_ok_def using assms(1) by (auto split: prod.splits run_end.splits) (metis snd_conv)+
  have e: "build_keeps P (emit B t l p)" for t l p using assms(4) by (simp add: build_keeps_def emit_def)
  have wr: "build_keeps P (build_io g (bo_write B p c))" "build_keeps P (build_io g (bo_read B p))" for g p c
    using assms(2,3) by (intro build_keeps_io; blast)+
  have chk: "build_keeps P (\<lambda>w. if q w then (Inr (), w) else build_fail c t m w)" for q c t m
    by (simp add: build_keeps_def build_fail_def)
  have "build_keeps P (clone_repo B req x)" for x
    unfolding clone_repo_def Let_def by (intro build_keeps_bind build_keeps_if build_keeps_simple r)
  moreover have "build_keeps P (read_digest B x)" for x
    unfolding read_digest_def Let_def by (intro build_keeps_bind build_keeps_if build_keeps_simple wr)
  moreover have "build_keeps P (build_image B req cfg x)" for x cfg
    unfolding build_image_def Let_def by (rule build_keeps_bind [OF chk]) (intro build_keeps_bind build_keeps_if build_keeps_simple wr r e)
  ultimately have d: "build_keeps P (build_digest B req cfg x)" for cfg x
    unfolding build_digest_def by (intro build_keeps_bind e)
  have "build_keeps P (\<lambda>w. (Inr (g w), w))" for g by (simp add: build_keeps_def)
  then have "build_keeps P (static_run B req d)"
    unfolding static_run_def Let_def by (intro build_keeps_if build_keeps_simple build_keeps_bind [OF d] build_keeps_bind [OF e])
  then show ?thesis by (simp add: run_build_def build_keeps_simple)
qed

section \<open>The outcome\<close>

text \<open>What coold makes of the lines so far: nothing final yet.\<close>

definition undecided :: "'k spawn_env \<Rightarrow> ('k host \<Rightarrow> string list) \<Rightarrow> string list \<Rightarrow> 'k host \<Rightarrow> bool" where
  "undecided E seen base w \<longleftrightarrow> (\<exists>ls. seen w = base @ ls \<and> foldl (read_frame E) None ls = None)"

lemma read_progress:
  assumes "speaks E B" and "ev_frame B (FProgress ev) = Inr l"
  shows "read_frame E final l = final"
proof -
  have "sp_json E l = Inr (frame_json (FProgress ev))" using assms unfolding speaks_def by metis
  moreover have "frame_from_json (frame_json (FProgress ev)) = Some (Progress (pe_stage ev) (pe_log ev) (pe_percent ev))"
    by (simp add: frame_from_json_def progress_from_json_def struct_members_object get_member_def)
  ultimately show ?thesis by (simp add: read_frame_def decode_def)
qed

lemma read_final:
  assumes "speaks E B" and "ev_frame B (final_frame r) = Inr l" and "\<And>ok. r = Inr ok \<Longrightarrow> bt_duration_ms ok < 2 ^ 64"
  obtains body where "read_frame E final l = Some body" "outcome_body body = engine_body (sp_num E) r"
proof (cases r)
  case (Inl e)
  have "sp_json E l = Inr (frame_json (FError e))" using assms(1,2) Inl unfolding speaks_def by (metis final_frame.simps(2))
  then show ?thesis
    using Inl by (intro that [of "Inl e"])
      (simp_all add: read_frame_def decode_def frame_from_json_def struct_members_object get_member_def frame_error_wire
        frame_error_into_proto_def)
next
  case (Inr ok)
  have "sp_json E l = Inr (frame_json (FResult ok))" using assms(1,2) Inr unfolding speaks_def by (metis final_frame.simps(1))
  moreover obtain x where "frame_result_from_json True (build_result_json ok) = Some x"
    "frame_result_into_proto (sp_num E) x = result_of_engine (sp_num E) ok" using assms(3) [OF Inr] by (rule frame_result_wire)
  ultimately show ?thesis
    using Inr by (intro that [of "Inr (result_of_engine (sp_num E) ok)"])
      (simp_all add: read_frame_def decode_def frame_from_json_def struct_members_object get_member_def)
qed

lemma build_undecided:
  assumes "speaks E B" and "stdout_lines B seen" and "run_build (host_build_ops B events) req d w = (r, w1)"
  shows "undecided E seen (seen w) w1"
proof -
  let ?P = "undecided E seen (seen w)"
  have same: "?P w' \<Longrightarrow> seen w'' = seen w' \<Longrightarrow> ?P w''" for w' w'' by (simp add: undecided_def)
  have "build_keeps ?P (run_build (host_build_ops B events) req d)"
  proof (rule run_build_keeps)
    fix ev w' assume "?P w'"
    then obtain ls where ls: "seen w' = seen w @ ls" "foldl (read_frame E) None ls = None" by (auto simp: undecided_def)
    show "?P (bo_emit (host_build_ops B events) ev w')"
    proof (cases "ev_frame B (FProgress ev)")
      case (Inl e)
      then show ?thesis using ls emit_frame_lines [OF assms(1,2)] by (auto simp: host_build_ops_def undecided_def)
    next
      case (Inr l)
      then show ?thesis
        using ls emit_frame_lines [OF assms(1,2)] read_progress [OF assms(1) Inr]
        unfolding undecided_def by (intro exI [of _ "ls @ [l]"]) (simp add: host_build_ops_def)
    qed
  next
    show "?P w' \<Longrightarrow> ?P (snd (bo_run (host_build_ops B events) b a x w'))" for b a x w'
      using stdout_linesD(2) [OF assms(2)] by (rule_tac same [of w']) (simp_all add: host_build_ops_def)
  next
    show "?P w' \<Longrightarrow> ?P (snd (bo_write (host_build_ops B events) p c w'))" for p c w'
      using files_keep_lines(2) [OF assms(2)] by (rule_tac same [of w']) (simp_all add: host_build_ops_def)
  next
    show "?P w' \<Longrightarrow> ?P (snd (bo_read (host_build_ops B events) p w'))" for p w'
      using files_keep_lines(3) [OF assms(2)] by (rule_tac same [of w']) (simp_all add: host_build_ops_def)
  qed
  moreover have "?P w" by (auto simp: undecided_def intro: exI [of _ "[]"])
  ultimately show ?thesis using assms(3) unfolding build_keeps_def by (metis snd_conv)
qed

lemma reap_after_build:
  assumes "speaks E B" and "stdout_lines B seen" and "ev_sigterm B = None"
    and "run_build (host_build_ops B (path_join d ''events.ndjson'')) req d w = (r, w1)"
    and "ev_frame B (final_frame r) = Inr l" and "\<And>ok. r = Inr ok \<Longrightarrow> bt_duration_ms ok < 2 ^ 64"
  shows "outcome_body (reap E d (drop (length (seen w)) (seen (snd (build_and_report B d req w)))) (Inr status)) =
     engine_body (sp_num E) r"
proof -
  obtain ls where ls: "seen w1 = seen w @ ls" "foldl (read_frame E) None ls = None"
    using build_undecided [OF assms(1,2,4)] by (auto simp: undecided_def)
  obtain body where body: "read_frame E None l = Some body" "outcome_body body = engine_body (sp_num E) r"
    using read_final [OF assms(1,5,6)] by metis
  have "seen (snd (build_and_report B d req w)) = seen w1 @ [l]"
    using assms(3,4,5) emit_frame_lines [OF assms(1,2)] files_keep_lines(1) [OF assms(2)]
    by (cases r) (simp_all add: build_and_report_def report_result_def report_error_def)
  then show ?thesis using ls body by (simp add: reap_def)
qed

lemma saved_after_build:
  assumes "speaks E B" and "calm_env B" and "ev_sigterm B = None"
    and "run_build (host_build_ops B (path_join d ''events.ndjson'')) req d w = (r, w1)"
    and "\<And>p w. op_fault (sp_host E) ''read'' p w = None" and "\<And>ok. r = Inr ok \<Longrightarrow> bt_duration_ms ok < 2 ^ 64"
    and "case r of Inr ok \<Rightarrow> is_ok (ev_result B ok) | Inl e \<Rightarrow> is_ok (ev_error B e) \<and> file_at w1 (path_join d ''result.json'') = None"
  shows "saved_body E d message \<lparr>bw_host = snd (build_and_report B d req w), bw_dirs = ds\<rparr> = engine_body (sp_num E) r"
proof (cases r)
  case (Inr ok)
  then obtain t where t: "ev_result B ok = Inr t" using assms(7) by (auto simp: is_ok_def split: sum.splits)
  then have j: "sp_json E t = Inr (build_result_json ok)" using assms(1) unfolding speaks_def by metis
  obtain x where x: "stored_result_from_json (build_result_json ok) = Some x"
    "stored_result_into_proto (sp_num E) x = result_of_engine (sp_num E) ok" using assms(6) [OF Inr] by (rule stored_result_wire)
  have "snd (build_and_report B d req w) = report_result B d ok w1" using assms(3,4) Inr by (simp add: build_and_report_def)
  moreover have "map_option fi_content (file_at (report_result B d ok w1) (path_join d ''result.json'')) = Some t"
    using report_result_files [OF assms(2), of d ok w1] t unfolding or_empty_def by simp
  ultimately show ?thesis
    using assms(5) j x Inr by (auto simp: saved_body_def fs_read_def body_from_result_bytes_def decode_def)
next
  case (Inl e)
  then obtain t where t: "ev_error B e = Inr t" using assms(7) by (auto simp: is_ok_def split: sum.splits)
  then have j: "sp_json E t = Inr (build_error_json e)" using assms(1) unfolding speaks_def by metis
  obtain x where x: "stored_error_from_json (build_error_json e) = Some x" "stored_error_into_proto x = e"
    using stored_error_wire by blast
  have "snd (build_and_report B d req w) = report_error B d e w1" using assms(3,4) Inl by (simp add: build_and_report_def)
  moreover have "map_option fi_content (file_at (report_error B d e w1) (path_join d ''error.json'')) = Some t"
    "file_at (report_error B d e w1) (path_join d ''result.json'') = None"
    using report_error_files [OF assms(2), of d e w1] t assms(7) Inl unfolding or_empty_def by simp_all
  ultimately show ?thesis
    using assms(5) j x Inl by (auto simp: saved_body_def fs_read_def body_from_error_bytes_def decode_def)
qed

text \<open>C13: coold reports the outcome of the engine. When the build process has run to its end, what coold
  answers from the lines it read is the engine's result or error, whatever the progress lines; and a
  coold that was restarted in between and finds only the files answers the same. This is under the
  conditions that the process gets no SIGTERM before its end, that no file operation fails, that the
  JSON library reads back what it printed and can print the outcome and its frame, that the duration
  is below \<open>2^64\<close> milliseconds, and that a failing build has left no \<open>result.json\<close> of its own.\<close>

theorem outcome_reaches_coold:
  assumes "speaks E B" and "stdout_lines B seen" and "calm_env B" and "ev_sigterm B = None"
    and "\<And>p w. op_fault (sp_host E) ''read'' p w = None"
    and "run_build (host_build_ops B (path_join d ''events.ndjson'')) req d w = (r, w1)"
    and "is_ok (ev_frame B (final_frame r))" and "\<And>ok. r = Inr ok \<Longrightarrow> bt_duration_ms ok < 2 ^ 64"
    and "case r of Inr ok \<Rightarrow> is_ok (ev_result B ok) | Inl e \<Rightarrow> is_ok (ev_error B e) \<and> file_at w1 (path_join d ''result.json'') = None"
  shows "outcome_body (reap E d (drop (length (seen w)) (seen (snd (build_and_report B d req w)))) (Inr status)) = engine_body (sp_num E) r \<and>
     saved_body E d message \<lparr>bw_host = snd (build_and_report B d req w), bw_dirs = ds\<rparr> = engine_body (sp_num E) r"
proof
  obtain l where "ev_frame B (final_frame r) = Inr l" using assms(7) by (auto simp: is_ok_def split: sum.splits)
  then show "outcome_body (reap E d (drop (length (seen w)) (seen (snd (build_and_report B d req w)))) (Inr status)) = engine_body (sp_num E) r"
    using reap_after_build [OF assms(1,2,4,6) _ assms(8)] by blast
  show "saved_body E d message \<lparr>bw_host = snd (build_and_report B d req w), bw_dirs = ds\<rparr> = engine_body (sp_num E) r"
    by (rule saved_after_build [OF assms(1,3,4,6,5,8,9)])
qed

section \<open>The request\<close>

abbreviation request_path :: "builder_ctx \<Rightarrow> string \<Rightarrow> string" where
  "request_path c rid \<equiv> path_join (work_dir c rid) ''request.json''"

text \<open>C26: The build process works on the request that was dispatched or on none. When the setup of a build
  has succeeded, the bytes of \<open>request.json\<close> that are there when the process reads them are a prefix of
  the printed request, since the write is not waited for. If they are all there, the process loads
  exactly the request of the protocol, with the stack its number names; if not, it loads nothing and
  reports a parse error (a proper prefix of a JSON object is not JSON). The file and the directory
  it is in, if they are new, are open to their owner only.\<close>

theorem request_reaches_engine:
  assumes "speaks E B" and "\<And>t j r. sp_json E t = Inr j \<Longrightarrow> build_request_from_json j = Some r \<Longrightarrow> ev_decode B t = Inr r"
    and "\<And>m t n. sp_print E (JObject m) = Inr t \<Longrightarrow> n < length t \<Longrightarrow> \<not> is_ok (ev_decode B (take n t))"
    and "\<And>p w. op_fault (ev_host B) ''read'' p w = None" and "setup_build E c rid req w = (Inr (), w1)"
  shows "(\<exists>content. sp_print E (subprocess_request_json (from_proto (sp_of_num E) req)) = Inr content \<and>
        (if length content \<le> sp_written E (request_path c rid) (bw_host w)
         then fst (load_request B (request_path c rid) (bw_host w1)) = Inr (engine_request (sp_of_num E) req)
         else \<exists>e. fst (load_request B (request_path c rid) (bw_host w1)) = Inl (''parse request: '' @ e))) \<and>
     (file_at (bw_host w) (request_path c rid) = None \<longrightarrow> map_option fi_mode (file_at (bw_host w1) (request_path c rid)) = Some 384) \<and>
     (hm_get (bw_dirs w) (work_dir c rid) = None \<longrightarrow> hm_get (bw_dirs w1) (work_dir c rid) = Some 448)"
proof -
  let ?n = "sp_written E (request_path c rid) (bw_host w)"
  from assms(5) obtain content where p: "sp_print E (subprocess_request_json (from_proto (sp_of_num E) req)) = Inr content"
    and f: "file_at (bw_host w1) (request_path c rid) =
       Some \<lparr>fi_content = take ?n content, fi_mode = (case file_at (bw_host w) (request_path c rid) of Some f \<Rightarrow> fi_mode f | None \<Rightarrow> 384)\<rparr>"
    and d: "hm_get (bw_dirs w1) (work_dir c rid) = Some (case hm_get (bw_dirs w) (work_dir c rid) of Some m \<Rightarrow> m | None \<Rightarrow> 448)"
    by (rule setup_build_Inr)
  have load: "fst (load_request B (request_path c rid) (bw_host w1)) =
      (case ev_decode B (take ?n content) of Inl e \<Rightarrow> Inl (''parse request: '' @ e) | Inr r \<Rightarrow> Inr r)"
    using f assms(4) by (simp add: load_request_def fs_read_def split: sum.splits)
  have "if length content \<le> ?n then fst (load_request B (request_path c rid) (bw_host w1)) = Inr (engine_request (sp_of_num E) req)
      else \<exists>e. fst (load_request B (request_path c rid) (bw_host w1)) = Inl (''parse request: '' @ e)"
  proof (cases "length content \<le> ?n")
    case True
    have "sp_json E content = Inr (subprocess_request_json (from_proto (sp_of_num E) req))" using assms(1) p unfolding speaks_def by metis
    then have "ev_decode B content = Inr (engine_request (sp_of_num E) req)" using assms(2) request_wire by blast
    then show ?thesis using load True by simp
  next
    case False
    obtain m where "subprocess_request_json (from_proto (sp_of_num E) req) = JObject m" by (simp add: subprocess_request_json_def)
    then have "\<not> is_ok (ev_decode B (take ?n content))" using assms(3) p False by simp
    then show ?thesis using load False by (auto simp: is_ok_def split: sum.splits)
  qed
  then show ?thesis using p f d by auto
qed

section \<open>Witnesses\<close>

text \<open>A JSON library that knows a given list of values. The world is the lines of standard output.\<close>

definition known_print :: "json list \<Rightarrow> json \<Rightarrow> string result" where
  "known_print ks j = (case find (\<lambda>i. ks ! i = j) [0..<length ks] of Some i \<Rightarrow> Inr (replicate (Suc i) CHR ''x'') | None \<Rightarrow> Inl ''no'')"

definition known_json :: "json list \<Rightarrow> string \<Rightarrow> json result" where
  "known_json ks t = (if 0 < length t \<and> length t \<le> length ks then Inr (ks ! (length t - 1)) else Inl ''EOF'')"

lemma known_reads_back: "known_print ks j = Inr t \<Longrightarrow> known_json ks t = Inr j \<and> plain_line t"
  by (auto simp: known_print_def known_json_def plain_line_def find_Some_iff split: option.splits)

definition line_ops :: "string list host_ops" where
  "line_ops =
     \<lparr>op_command = (\<lambda>_ _. io_fail ''no''), op_fault = (\<lambda>_ _ _. None), op_write_fault = (\<lambda>_ _. None), op_create_mode = 420\<rparr>"

definition line_spawn :: "json list \<Rightarrow> string list spawn_env" where
  "line_spawn ks =
     \<lparr>sp_host = line_ops, sp_spawn = (\<lambda>prog args. io_return ()), sp_join_fault = (\<lambda>_. None), sp_mkdir_fault = (\<lambda>_ _. None),
      sp_rmdir_fault = (\<lambda>_ _. None), sp_dir_mode = 493, sp_json = known_json ks,
      sp_shape = (\<lambda>_. ''bad''), sp_print = known_print ks, sp_written = (\<lambda>_ _. 0), sp_num = (\<lambda>_. 4), sp_of_num = (\<lambda>_. None)\<rparr>"

text \<open>Every program succeeds, and buildah leaves the digest.\<close>

definition line_env :: "json list \<Rightarrow> string list builder_env" where
  "line_env ks =
     \<lparr>ev_host = line_ops, ev_stdout = (\<lambda>l w. w\<lparr>ho_rest := ho_rest w @ [butlast l]\<rparr>),
      ev_run = (\<lambda>b _ _ w. (Exits True, if b = ''buildah'' then put_file ''/w/image-id'' \<lparr>fi_content = ''sha256:ab'', fi_mode = 420\<rparr> w else w)),
      ev_exists = (\<lambda>_ _. True), ev_elapsed_ms = (\<lambda>_. 5),
      ev_decode = (\<lambda>t. case known_json ks t of
        Inr j \<Rightarrow> (case build_request_from_json j of Some r \<Rightarrow> Inr r | None \<Rightarrow> Inl ''bad'') | Inl e \<Rightarrow> Inl e),
      ev_frame = (\<lambda>f. known_print ks (frame_json f)), ev_result = (\<lambda>r. known_print ks (build_result_json r)),
      ev_error = (\<lambda>e. known_print ks (build_error_json e)), ev_install_sigterm = Inr (), ev_sigterm = None\<rparr>"

lemma line_speaks: "speaks (line_spawn ks) (line_env ks)"
  using known_reads_back by (simp add: speaks_def line_spawn_def line_env_def)

lemma line_lines: "stdout_lines (line_env ks) ho_rest"
  by (simp add: stdout_lines_def line_env_def put_file_def)

lemma line_calm: "calm_env (line_env ks)"
  by (simp add: calm_env_def line_env_def line_ops_def file_at_def fun_eq_iff)

text \<open>A static site that is built, and a request for a stack that is not implemented.\<close>

definition stack_error :: build_error where
  "stack_error = \<lparr>be_code = 501, be_message = ''build stack Dockerfile not implemented in MVP'', be_stage = ''detect''\<rparr>"

definition site_result :: build_result where
  "site_result = \<lparr>bt_digest = ''sha256:ab'', bt_registry_ref = ''reg/app@sha256:ab'', bt_duration_ms = 5, bt_stack_used = Static\<rparr>"

definition site_texts :: "json list" where
  "site_texts =
     [frame_json (FResult site_result), build_result_json site_result, frame_json (FError stack_error), build_error_json stack_error,
      frame_json (FProgress \<lparr>pe_stage = ''git'', pe_log = ''clone complete'', pe_percent = 10\<rparr>),
      frame_json (FProgress \<lparr>pe_stage = ''build'', pe_log = ''build complete'', pe_percent = 80\<rparr>)]"

definition docker_request :: build_request where
  "docker_request =
     \<lparr>br_repo_url = ''https://g/r'', br_git_ref = ''v1'', br_stack = Dockerfile, br_target_image = ''reg/app'', br_cache_key = [],
      br_static_cfg = None\<rparr>"

abbreviation bare_host :: "string list host" where
  "bare_host \<equiv> \<lparr>ho_files = [], ho_rest = []\<rparr>"

lemma site_run:
  "fst (run_build (host_build_ops (line_env site_texts) (path_join ''/w'' ''events.ndjson'')) sample_request ''/w'' bare_host) = Inr site_result"
  by code_simp

lemma site_prints:
  "is_ok (known_print site_texts (frame_json (FResult site_result)))" "is_ok (known_print site_texts (build_result_json site_result))"
  "is_ok (known_print site_texts (frame_json (FError stack_error)))" "is_ok (known_print site_texts (build_error_json stack_error))"
  by code_simp+

theorem outcome_reaches_coold_witness:
  "(let w = snd (build_and_report (line_env site_texts) ''/w'' sample_request bare_host) in
      outcome_body (reap (line_spawn site_texts) ''/w'' (ho_rest w) (Inr ''exit status: 0'')) = BodyOk (result_of_engine (\<lambda>_. 4) site_result) \<and>
      saved_body (line_spawn site_texts) ''/w'' ''gone'' \<lparr>bw_host = w, bw_dirs = []\<rparr> = BodyOk (result_of_engine (\<lambda>_. 4) site_result)) \<and>
   (let w = snd (build_and_report (line_env site_texts) ''/w'' docker_request bare_host) in
      outcome_body (reap (line_spawn site_texts) ''/w'' (ho_rest w) (Inr ''exit status: 1'')) = BodyErr stack_error \<and>
      saved_body (line_spawn site_texts) ''/w'' ''gone'' \<lparr>bw_host = w, bw_dirs = []\<rparr> = BodyErr stack_error)"
proof -
  let ?E = "line_spawn site_texts" and ?B = "line_env site_texts" and ?ops = "host_build_ops (line_env site_texts) (path_join ''/w'' ''events.ndjson'')"
  obtain w1 where w1: "run_build ?ops sample_request ''/w'' bare_host = (Inr site_result, w1)"
    using site_run by (metis prod.collapse)
  have w2: "run_build ?ops docker_request ''/w'' bare_host = (Inl stack_error, bare_host)"
    by (simp add: run_build_def docker_request_def build_fail_def build_err_def stack_error_def)
  note th = outcome_reaches_coold [OF line_speaks line_lines line_calm, of site_texts "''/w''", where w = bare_host and message = "''gone''" and ds = "[]"]
  have calm: "ev_sigterm ?B = None" "op_fault (sp_host ?E) ''read'' p w = None" for p w
    by (simp_all add: line_env_def line_spawn_def line_ops_def)
  have "is_ok (ev_frame ?B (final_frame (Inr site_result)))" "is_ok (ev_result ?B site_result)" "bt_duration_ms site_result < 2 ^ 64"
    "is_ok (ev_frame ?B (final_frame (Inl stack_error)))" "is_ok (ev_error ?B stack_error)"
    using site_prints by (simp_all add: line_env_def site_result_def)
  then show ?thesis
    using th [OF calm w1, where status = "''exit status: 0''"] th [OF calm w2, where status = "''exit status: 1''"]
    by (simp add: Let_def file_at_def line_spawn_def)
qed

definition one_request :: proto_build_request where
  "one_request =
     \<lparr>pq_repo_url = ''u'', pq_git_ref = ''v1'', pq_stack = 4, pq_target_image = ''i'', pq_cache_key = [], pq_static_cfg = None\<rparr>"

definition one_json :: json where
  "one_json = subprocess_request_json (from_proto (\<lambda>n. if n = 4 then Some PStatic else None) one_request)"

text \<open>The text of the request is one byte, of which \<open>n\<close> are written at the start of the process.\<close>

definition one_spawn :: "nat \<Rightarrow> string list spawn_env" where
  "one_spawn n = (line_spawn [one_json])\<lparr>sp_written := (\<lambda>_ _. n), sp_of_num := (\<lambda>n. if n = 4 then Some PStatic else None)\<rparr>"

lemma one_print: "known_print [one_json] one_json = Inr ''x''"
  by (simp add: known_print_def)

abbreviation bare_world :: "string list bworld" where
  "bare_world \<equiv> \<lparr>bw_host = bare_host, bw_dirs = []\<rparr>"

lemma one_setup:
  "is_ok (fst (setup_build (one_spawn n) c rid one_request bare_world))"
  by (simp add: is_ok_def setup_build_def Let_def build_bind_def build_io_def make_dirs_def on_host_def write_unflushed_def
      fs_write_with_def one_spawn_def line_spawn_def line_ops_def one_print flip: one_json_def)

lemma one_speaks: "speaks (one_spawn n) (line_env [one_json])"
  using line_speaks [of "[one_json]"] by (simp add: speaks_def one_spawn_def)

text \<open>With the byte there the request is loaded, without it there is a parse error.\<close>

theorem request_reaches_engine_witness:
  "(\<exists>w1. setup_build (one_spawn 1) (builder_ctx_new sample_settings) ''a'' one_request bare_world = (Inr (), w1) \<and>
      fst (load_request (line_env [one_json]) (request_path (builder_ctx_new sample_settings) ''a'') (bw_host w1)) =
        Inr \<lparr>br_repo_url = ''u'', br_git_ref = ''v1'', br_stack = Static, br_target_image = ''i'', br_cache_key = [], br_static_cfg = None\<rparr>) \<and>
   (\<exists>w1 e. setup_build (one_spawn 0) (builder_ctx_new sample_settings) ''a'' one_request bare_world = (Inr (), w1) \<and>
      fst (load_request (line_env [one_json]) (request_path (builder_ctx_new sample_settings) ''a'') (bw_host w1)) = Inl (''parse request: '' @ e))"
proof -
  let ?c = "builder_ctx_new sample_settings" and ?B = "line_env [one_json]"
  obtain w1 where w1: "setup_build (one_spawn 1) ?c ''a'' one_request bare_world = (Inr (), w1)" by (rule is_ok_unit [OF one_setup])
  obtain w0 where w0: "setup_build (one_spawn 0) ?c ''a'' one_request bare_world = (Inr (), w0)" by (rule is_ok_unit [OF one_setup])
  have d: "ev_decode ?B t = Inr r" if "sp_json (one_spawn n) t = Inr j" "build_request_from_json j = Some r" for n t j r
    using that by (simp add: one_spawn_def line_spawn_def line_env_def)
  have t: "\<not> is_ok (ev_decode ?B (take m t))" if "sp_print (one_spawn n) (JObject k) = Inr t" "m < length t" for n k t m
    using that by (auto simp: one_spawn_def line_spawn_def line_env_def known_print_def known_json_def is_ok_def split: if_splits)
  have f: "op_fault (ev_host ?B) ''read'' p w = None" for p w by (simp add: line_env_def line_ops_def)
  have p: "sp_print (one_spawn n) (subprocess_request_json (from_proto (sp_of_num (one_spawn n)) one_request)) = Inr ''x''" for n
    by (simp add: one_spawn_def line_spawn_def one_print flip: one_json_def)
  have "engine_request (sp_of_num (one_spawn 1)) one_request =
      \<lparr>br_repo_url = ''u'', br_git_ref = ''v1'', br_stack = Static, br_target_image = ''i'', br_cache_key = [], br_static_cfg = None\<rparr>"
    by (simp add: engine_request_def one_request_def one_spawn_def)
  then show ?thesis
    using request_reaches_engine [OF one_speaks d t f w1] request_reaches_engine [OF one_speaks d t f w0] p w0 w1
    by (auto simp: one_spawn_def)
qed

end
