(* ===== verification/Spec2Isabelle.thy ===== *)
theory Spec2Isabelle
  imports FluxBridge FluxSocket CliIssued CliRoundtrip CooldConverge CooldDns CooldInfra DispatchCalls BuilderOutcome
begin

text \<open>
  Verification of the coold repository: the parts of Coolify that provision a mesh of hosts and run
  containers on it.

  \<^bold>\<open>The program.\<close> Four programs work together.

  \<^item> \<^emph>\<open>coolify-cli\<close> (\<open>src/coolify-cli\<close>) sets up a mesh of hosts over ssh. It validates the
    operator's flags, probes every host with one shell script, allocates a management address and
    one container subnet per namespace to each host, computes the difference between the wanted and
    the probed mesh as a list of actions, keeps the actions the intent (bootstrap, extend, upgrade)
    allows, and carries them out in three phases. Among what it installs are the units and the
    configuration of coold and of Corrosion, a replicated database.
  \<^item> \<^emph>\<open>coold\<close> (\<open>src/coold\<close>) is the agent on a host. It reconciles the containers Podman runs with this
    host's rows of the replicated table \<open>service_endpoints\<close>, answers DNS queries for containers from
    that table, keeps the bridges and the resolver routes of its namespaces up, and holds one stream
    to flux over which it announces its capabilities, reports changes of containers, and executes
    commands.
  \<^item> \<^emph>\<open>flux\<close> (\<open>src/flux\<close>) accepts the streams of the hosts, each authenticated by a token bound to the
    host, and dispatches the commands the control plane posts on a Unix socket: it looks the host up,
    checks the capability, parks the request, sends the message down the stream, and wakes the
    parked handler with the response.
  \<^item> the \<^emph>\<open>build engine\<close> (\<open>src/builder-core\<close>, \<open>src/builder\<close>) clones a repository, writes a Containerfile,
    and builds and pushes the image.

  \<^bold>\<open>Conventions.\<close> A struct is a record, an enum a datatype, \<open>Result\<close> is a sum with the error on the
  left and \<open>?\<close> is \<open>and_then\<close>. Strings and paths are byte strings. \<open>u16\<close> and \<open>u32\<close> are words of
  that width; 64-bit counters that are only compared, counted up or subtracted with saturation are
  natural numbers. A \<open>BTreeMap\<close> is a sorted association list, a \<open>HashMap\<close> or \<open>DashMap\<close> an
  association list with distinct keys, of which no lemma uses the order. A computation that acts on
  the outside is a function of the state of the outside that returns a result and the new state, so
  that what happened before an error is kept. Clock readings are arguments. Logging is left out.

  \<^bold>\<open>Shared theories.\<close>

  \<^item> \<open>Prelude\<close>: results, the string functions of the standard library, decimal printing and parsing,
    maps, and the two generic interfaces \<open>keyed_store\<close> and \<open>step_invariant\<close>.
  \<^item> \<open>NetAddr\<close>: the addresses of \<open>std::net\<close>, printed and parsed as the standard library does.
  \<^item> \<open>Proto\<close>: the messages of \<open>proto/agent.proto\<close> and JSON values.
  \<^item> \<open>Effects\<close>: fallible computations on a world, HTTP answers, lossy UTF-8 decoding, path joining.
  \<^item> \<open>HostFiles\<close>: the files of a host with \<open>std::fs\<close> on them, any call of which may fail, and external
    programs.

  \<^bold>\<open>flux.\<close>

  \<^item> \<open>FluxEnvelope\<close> (\<open>envelope.rs\<close>): commands, request and response envelopes, and the translation of
    an agent's response.
  \<^item> \<open>FluxStreams\<close> and \<open>FluxPending\<close> (\<open>state.rs\<close>): the table of connected hosts, and the table of
    parked dispatches as a machine whose steps are the sections under the table's lock. In every
    interleaving of these sections each parked handler is waiting, answered or dropped, exactly one of
    them, and a response goes only to a handler of its own request.
  \<^item> \<open>FluxRouting\<close> (\<open>routing.rs\<close>): the capability of a command and its wire message.
  \<^item> \<open>FluxConfig\<close> (\<open>config.rs\<close>, \<open>registry.rs\<close>, \<open>resource_status.rs\<close>): loading of the configuration
    and the reports to the control plane.
  \<^item> \<open>FluxRevocation\<close> (\<open>revocation.rs\<close>): the denylist in memory and on disk, with failures of every
    file operation; what is persisted is what is loaded.
  \<^item> \<open>FluxAuth\<close> (\<open>auth.rs\<close>): the exact condition under which a token is admitted, and the effect of a
    revocation on it through later revocations, withdrawals and sweeps.
  \<^item> \<open>FluxServer\<close> (\<open>main.rs\<close>): admission of a stream, the loop of a stream, heartbeat and sweepers.
  \<^item> \<open>FluxBridge\<close> (\<open>unix_bridge.rs\<close>): the handlers of the Unix socket, composed with routing, streams
    and pending.
  \<^item> \<open>FluxSocket\<close> (\<open>unix_bridge.rs\<close>, \<open>main.rs\<close>): how flux comes to listen, with the mode and group of its
    socket and the checks of the bind address and the TLS files.

  \<^bold>\<open>coolify-cli.\<close>

  \<^item> \<open>CliSubnet\<close> (\<open>wireguard/subnet.rs\<close>): both allocators. A successful allocation is disjoint and
    inside the pool; the search returns when the pool does not end at the last address, and the
    wrap-around at the last address is shown on a concrete pool.
  \<^item> \<open>CliUnits\<close> (\<open>meshnet.rs\<close>, \<open>wireguard/config.rs\<close>, \<open>wireguard/firewall.rs\<close>, \<open>services\<close>): every
    generated file and command, byte for byte.
  \<^item> \<open>CliState\<close> (\<open>wireguard/state.rs\<close>, \<open>services/tls.rs\<close>): probed and desired mesh, certificates.
  \<^item> \<open>CliPlan\<close> (\<open>wireguard/plan.rs\<close>, \<open>wireguard/intent.rs\<close>): the plan; when it succeeds, when it is
    empty, and what each intent keeps away from existing hosts.
  \<^item> \<open>CliRemote\<close> (\<open>ssh.rs\<close>, \<open>wireguard/reconstruct.rs\<close>) and \<open>CliRoundtrip\<close>: remote commands and the
    probe, which reads back what the CLI wrote.
  \<^item> \<open>CliApply\<close> (\<open>wireguard/apply.rs\<close>): the three phases over a runner, with their aborts.
  \<^item> \<open>CliOutput\<close> (\<open>output.rs\<close>, \<open>commands/init/mod.rs\<close>): the tables and reports, which are aligned, and the
    certificate files of flux.
  \<^item> \<open>CliInit\<close> (\<open>commands/init/mod.rs\<close>): from the flags to the desired mesh, and the subcommands, which
    change no file of their own machine but the certificate of flux.
  \<^item> \<open>CliIssued\<close>: every command a run of the CLI sends over ssh, however the run ends; \<open>init extend\<close> sends
    no host that was in the mesh a command that installs an agent or, without the flag, replaces a network.

  \<^bold>\<open>coold.\<close>

  \<^item> \<open>CooldConfig\<close> (\<open>config.rs\<close>): the configuration and its parsers.
  \<^item> \<open>CooldPodman\<close> (\<open>podman\<close>): the client of Podman with the filter on container creation, and the
    event stream, whose events do not depend on how the bytes are framed.
  \<^item> \<open>CooldCorrosion\<close> (\<open>corrosion/client.rs\<close>): transactions, queries and the check of a row's owner.
  \<^item> \<open>CooldSync\<close> (\<open>model.rs\<close>, \<open>sync.rs\<close>) and \<open>CooldConverge\<close>: one reconciliation, the loops of the
    daemon, and that a reconciliation that runs alone refines the assignment of the desired rows to the
    table, and how far the view of flux converges, with and without forced resyncs.
  \<^item> \<open>CooldDns\<close> (\<open>dns\<close>): the resolver on every kind of query, and the binding of the gateways.
  \<^item> \<open>CooldHostJwt\<close> (\<open>grpc/host_jwt.rs\<close>): the rotation of the host's token, atomic under failures.
  \<^item> \<open>CooldFirewall\<close> and \<open>CooldHandlers\<close> (\<open>grpc/handlers.rs\<close>): the firewall rules and their state
    file, with the sections of concurrent allows; ingress, logs, containers, and the dispatch of each
    command to exactly one response.
  \<^item> \<open>CooldClient\<close> (\<open>grpc/client.rs\<close>): reconnect delays, TLS pinning, and the session as a machine over
    deliveries, spawned commands and status updates.
  \<^item> \<open>CooldInfra\<close> (\<open>mesh_dns_anchor.rs\<close>, \<open>mesh_dns_resolver.rs\<close>, \<open>host_infra.rs\<close>): one tick of the
    host infrastructure.

  \<^bold>\<open>Builds.\<close>

  \<^item> \<open>Builder\<close> (\<open>builder-core\<close>, \<open>builder\<close>): the build engine. The checks of a request, the steps of a
    static build with progress and errors, the process around it with its outcome files and exit codes.
  \<^item> \<open>BuilderWire\<close> (\<open>builder-core/src/types.rs\<close>, \<open>coold/src/builder/mod.rs\<close>): the JSON both sides declare
    for the request, the frames and the outcome files, and that they agree on it.
  \<^item> \<open>CooldBuilder\<close> and \<open>BuilderRuns\<close> (\<open>coold/src/builder/mod.rs\<close>): the adapter that runs builds in units of
    systemd, as a step function over its tasks, and what holds over all interleavings: the bound on
    the builds it starts, with adopted units on top, one response per request, cancellation and
    clean-up confined to their build.
  \<^item> \<open>BuilderOutcome\<close>: adapter and process together. The process works on the request that was
    dispatched, or on none if the file is not complete when it reads it, and coold answers with the
    outcome of the engine, live or after a restart.

  \<^bold>\<open>The dispatch system.\<close> \<open>DispatchSystem\<close> composes \<open>FluxServer\<close>, \<open>FluxBridge\<close> and \<open>CooldClient\<close> into one step
  relation: any number of handlers, streams and agents, the bounded channel to each agent, the sweep
  of expired requests, streams that come and go. Its invariant says that each pending
  entry belongs to exactly one handler, not answered yet, whose command is on its way while its stream
  is up. \<open>DispatchCalls\<close> draws from
  it that carrying calls terminates, that waiting handlers get answered, and with their own answer,
  that the whole refines a specification of open, answered and given-up calls, and that each command
  that was forwarded was granted by the admission of its stream.

  \<^bold>\<open>This theory\<close> holds what spans programs: flux and coold agree on the protocol, a command makes the
  round trip from the dispatch through the agent to the handler that waits, a refused agent backs
  off, coold
  parses the namespaces the CLI writes into its unit, and the name coold asks TLS to verify is one the
  CLI put into the certificate of flux, if it can be the host of a URL (an IPv6 address cannot).

  \<^bold>\<open>Interfaces.\<close> The locale \<open>keyed_store\<close> is what the callers of a table rely on; the stream table, the
  pending table and the files of a host are interpretations. \<open>step_invariant\<close> lifts an invariant from
  a step to a run; both invariants of the pending table are interpretations. \<open>revocation_check\<close> is
  what authentication relies on of the denylist, \<open>list_store\<close> what the firewall commands rely on of
  the state file, and \<open>command_handler\<close> what the session of the client relies on of the handlers;
  each is interpreted on the definitions of its provider. \<open>accounting\<close> is the contract of a loop that
  books what it takes on; both loops of the build adapter are interpretations.

  \<^bold>\<open>Parameters.\<close> Code outside the repository is an argument of the definitions that use it, usually
  a record of operations: the crates jsonwebtoken, ipnet, serde (encoders and decoders), sha2, rcgen,
  shell_escape, base64 (of the CLI), hickory and tonic, the background writes of tokio's files, the HTTP exchanges with Podman, Corrosion and
  the control plane, the external programs ssh, podman, resolvectl, iptables, nft, git, buildah, systemd-run and systemctl,
  the meaning of the SQL statements, and the faults of the operating system. What a theorem needs of
  them is a named hypothesis (\<open>ipnet_ok\<close> and the like), met by a concrete function in a witness.

  \<^bold>\<open>Termination.\<close> Every definition is a total function, but for the search of a free subnet slot,
  \<open>free_slot\<close>, a loop that can run forever: it is a partial function into \<open>option\<close> with \<open>None\<close> for
  not returning, and that it returns is a theorem. Loops of a daemon that run until it is stopped are
  given by the list of their turns, of any length. The polls for a command's exit are bounded in the
  source, and by the same number here.

  \<^bold>\<open>Simplifications.\<close> The inspections of a container listing and the hosts of a phase, concurrent in
  the source, run one after the other, the hosts in an order that is a parameter. In \<open>FluxBridge\<close>
  whether a send finds room is the answer of the parameter \<open>try_send\<close>; \<open>DispatchSystem\<close> gives it the
  channel of 64 messages. The stream itself loses and reorders nothing while it is up, and a command
  runs as one step of its agent. A dispatch handler's own timeout is a value of \<open>await_coold\<close> in
  \<open>FluxBridge\<close> and no step of \<open>DispatchSystem\<close>, where a call is given up when its entry is dropped from the
  pending table. A reconciliation is one step, though the event trigger and the interval loop
  can run two at the same time. The sections of an allow command are its validation and resolution,
  its read, its write and its changes of the kernel tables. A build's set-up and its clean-up are one
  step each, the rest of an unfinished write of its request being a change from outside; the branch
  for a closed semaphore, which nothing closes, is left out. The directories made for the Unix socket
  are not among the files of the model.

  \<^bold>\<open>Not modelled.\<close> Argument parsing (clap), log configuration, messages on standard error and the
  spawning of the tasks of a process; the matching of HTTP routes (axum); the accept loops, sockets and timers of tonic, hickory and tokio; the generated protocol
  code (\<open>src/proto\<close>). Tests and examples (\<open>src/e2e-tests\<close>, \<open>src/flux/examples\<close>, \<open>src/examples\<close>) are no
  part of the running system. No module of its crate declares \<open>coold/src/builder/mod.rs\<close> or
  \<open>coolify-cli/src/services/builder.rs\<close>; they are modelled as the code they are, the first with the
  messages of a protocol that is no longer generated: the fields are those the file uses, the numbers
  of its enum are parameters.
\<close>

section \<open>The protocol between flux and coold\<close>



section \<open>A command end to end\<close>

lemma command_session:
  assumes "cs_open c" "cs_end c = None" "cmd \<noteq> CmdPing"
  obtains body where
    "cs_out (foldl (client_step A) c [Inbound \<lparr>sm_request_id = rid, sm_command = Some cmd\<rparr>, RunTask (length (cs_tasks c))])
       = cs_out c @ [Some (PResponse \<lparr>pr_request_id = rid, pr_body = Some body\<rparr>)]"
    "CooldHandlers.response_body_type (Some body) \<in> {command_type cmd, ''error''}"
proof -
  obtain r w where h: "handle A rid cmd (cs_host c) = ([Some (PResponse r)], w)" and r: "answers (rid, cmd) r"
    by (rule coold_handler.answer [OF assms(3)])
  then obtain body where b: "r = \<lparr>pr_request_id = rid, pr_body = Some body\<rparr>" by (cases r) (auto simp: answers_def)
  have "inbound_msg \<lparr>sm_request_id = rid, sm_command = Some cmd\<rparr> c = c\<lparr>cs_tasks := cs_tasks c @ [(rid, cmd)]\<rparr>"
    using assms(3) by (cases cmd) (simp_all add: inbound_msg_def)
  then show ?thesis
    using assms h r b by (intro that [of body]) (auto simp: run_task_def enqueue_def answers_def)
qed

text \<open>A command makes the round trip. When flux has sent a command and its handler waits, the agent
  that reads the message from its stream and runs its task puts exactly one response on the stream,
  of the command's kind or an error; when flux reads it, the handler that waited gets it, answers 200
  with the translated body under the request's id, and the pending table is what it was before the
  dispatch.\<close>

theorem command_round_trip:
  assumes "coold_dispatch try_send inst sink env s = (Awaiting rid rx (tx, msg), s1)"
    and "cs_open c" "cs_end c = None"
    and "c' = foldl (client_step A) c [Inbound msg, RunTask (length (cs_tasks c))]"
  shows "\<exists>resp body. cs_out c' = cs_out c @ [Some (PResponse resp)]
     \<and> CooldHandlers.response_body_type (pr_body resp) \<in> {kind (de_command env), ''error''}
     \<and> sv_sends (stream_msg jp inst2 host (Some (PResponse resp)) s1) = sv_sends s1 @ [(rx, CooldData body)]
     \<and> hm_get (sv_pending (stream_msg jp inst2 host (Some (PResponse resp)) s1)) = hm_get (sv_pending s)
     \<and> await_coold rid (Response (CooldData body)) = (200, \<lparr>re_request_id = de_request_id env, re_body = body\<rparr>)"
proof -
  let ?cmd = "to_server_command (de_command env)"
  have m: "msg = \<lparr>sm_request_id = rid, sm_command = Some ?cmd\<rparr>" "rid = de_request_id env"
    using dispatch_balance [OF assms(1)] by auto
  have k: "command_type ?cmd = kind (de_command env)" "?cmd \<noteq> CmdPing"
    by (cases "de_command env"; simp)+
  obtain rb where r: "cs_out c' = cs_out c @ [Some (PResponse \<lparr>pr_request_id = rid, pr_body = Some rb\<rparr>)]"
    "CooldHandlers.response_body_type (Some rb) \<in> {command_type ?cmd, ''error''}"
    using command_session [OF assms(2,3) k(2), of A rid] unfolding assms(4) m(1) by metis
  obtain body where "sv_sends (stream_msg jp inst2 host (Some (PResponse \<lparr>pr_request_id = rid, pr_body = Some rb\<rparr>)) s1)
      = sv_sends s1 @ [(rx, CooldData body)]"
    "hm_get (sv_pending (stream_msg jp inst2 host (Some (PResponse \<lparr>pr_request_id = rid, pr_body = Some rb\<rparr>)) s1)) = hm_get (sv_pending s)"
    "await_coold rid (Response (CooldData body)) = (200, \<lparr>re_request_id = rid, re_body = body\<rparr>)"
    using dispatch_round_trip [OF assms(1), of "\<lparr>pr_request_id = rid, pr_body = Some rb\<rparr>" jp inst2 host] by auto
  then show ?thesis using r k(1) m(2) by (intro exI [of _ "\<lparr>pr_request_id = rid, pr_body = Some rb\<rparr>"] exI [of _ body]) simp
qed

definition fresh_session :: "(string list list, unit) client_session" where
  "fresh_session = session_start sample_net client_config idle_sync pinned_host"

theorem command_round_trip_witness:
  "\<exists>s1 resp. coold_dispatch (\<lambda>_ _. SendOk) 0 3 FluxBridge.sample_env connected_server = (Awaiting ''r1'' 3 (7, sample_msg), s1) \<and>
     cs_out (foldl (client_step sample_agent) fresh_session [Inbound sample_msg, RunTask 0]) =
       cs_out fresh_session @ [Some (PResponse resp)]"
proof -
  obtain s1 where s1: "coold_dispatch (\<lambda>_ _. SendOk) 0 3 FluxBridge.sample_env connected_server = (Awaiting ''r1'' 3 (7, sample_msg), s1)"
    using sample_dispatch by blast
  have f: "cs_open fresh_session" "cs_end fresh_session = None" "cs_tasks fresh_session = []"
    by (simp_all add: fresh_session_def session_start_def)
  from command_round_trip [OF s1 f(1,2) refl, of sample_agent "\<lambda>_. None" 5 "''10.0.0.1''"] s1 f(3)
  show ?thesis by auto
qed

section \<open>Rejections\<close>

text \<open>The code of the status with which flux refuses a stream; the last one passes on what the
  transport reported.\<close>

fun status_code :: "status \<Rightarrow> grpc_code" where
  "status_code (Unauthenticated _) = CodeUnauthenticated"
| "status_code (InvalidArgument _) = CodeInvalidArgument"
| "status_code (FailedPrecondition _) = CodeFailedPrecondition"
| "status_code (Upstream _) = CodeUnknown"

text \<open>Flux refuses an agent that speaks first with its hello only for its credentials, and the
  agent takes the refusal for a permanent one: it waits a quarter of an hour, and a minute at most
  before the attempt after the next.\<close>

theorem refused_agent_backs_off:
  assumes "stream_admit lib clock now revs cfg r = Inl e"
    and "rq_first r = InMsg (hello_msg version agent_cfg)"
    and "se_code err = Some (status_code e)"
  shows "(\<exists>m. e = Unauthenticated m) \<and> retry_delay_for_error err b = 900000 \<and>
     next_backoff_after_delay (retry_delay_for_error err b) = 60000"
proof -
  have "schema_overlaps 1 1 FLUX_SCHEMA_MIN FLUX_SCHEMA_MAX"
    by (simp add: schema_overlaps_def FLUX_SCHEMA_MIN_def FLUX_SCHEMA_MAX_def)
  then have "\<exists>m. e = Unauthenticated m"
    using assms(1,2)
    by (auto simp: stream_admit_def and_then_def read_hello_def hello_msg_def bearer_token_def map_err_def
        split: sum.splits option.splits if_splits)
  then show ?thesis
    using assms(3)
    by (auto simp: retry_delay_for_error_def permanent_codes_def next_backoff_after_delay_def reconnect_constants)
qed

theorem refused_agent_backs_off_witness:
  "retry_delay_for_error \<lparr>se_text = ''open stream'', se_code = Some CodeUnauthenticated\<rparr> 1000 = 900000"
proof -
  let ?r = "\<lparr>rq_authorization = None, rq_peer_ip = None, rq_first = InMsg (hello_msg ''1'' client_config)\<rparr>"
  have "stream_admit (payload_lib ES256 list_payload) 50 50 in_memory loaded_sample_config ?r = Inl (Unauthenticated ''invalid credentials'')"
    by (simp add: stream_admit_def bearer_token_def)
  from refused_agent_backs_off [OF this, of "''1''" client_config "\<lparr>se_text = ''open stream'', se_code = Some CodeUnauthenticated\<rparr>" 1000]
  show ?thesis by simp
qed

section \<open>The name coold verifies\<close>

text \<open>A host name or IPv4 address: no character that ends the host of a URL.\<close>

definition url_host :: "string \<Rightarrow> bool" where
  "url_host h = (tok h \<and> set h \<inter> {CHR ''/'', CHR ''?'', CHR ''#'', CHR ''@'', CHR '':''} = {})"

lemma split_once_str_none: "p \<noteq> [] \<Longrightarrow> last p \<notin> set s \<Longrightarrow> split_once_str p s = None"
proof (induction p s rule: split_once_str.induct)
  case (2 p c cs)
  have "\<not> starts_with (c # cs) p"
  proof
    assume "starts_with (c # cs) p"
    then obtain r where "c # cs = p @ r" by (auto simp: starts_with_iff)
    then have "set p \<subseteq> set (c # cs)" by simp
    then show False using last_in_set [OF "2.prems"(1)] "2.prems"(2) by blast
  qed
  then show ?case using 2 by simp
qed simp

lemma dialled_name:
  assumes "url_host h"
  shows "flux_tls_domain (''https://'' @ h @ '':'' @ CliUnits.show_port p) = Some h"
proof -
  let ?a = "h @ CHR '':'' # CliUnits.show_port p"
  have d: "c \<notin> set (CliUnits.show_port p)" if "digit_val c = None" for c
    using that show_nat_digit_val [of c "unat p"] by (auto simp: CliUnits.show_port_def)
  have c: "CHR ''/'' \<notin> set ?a" "CHR ''?'' \<notin> set ?a" "CHR ''#'' \<notin> set ?a" "CHR ''@'' \<notin> set ?a"
    using assms d by (auto simp: url_host_def digit_val_def)
  have h: "CHR '':'' \<notin> set h" "trim h = h" "h \<noteq> []"
    using assms by (auto simp: url_host_def trim_edged tok_edged) (simp add: tok_def)
  have "without_scheme (''https://'' @ ?a) = ?a"
    using split_once_str_none [of "''://''" ?a] c(1)
    by (simp add: without_scheme_def split_once_str.simps starts_with_def)
  moreover have "split_on_any [CHR ''/'', CHR ''?'', CHR ''#''] ?a = [?a]"
  proof -
    have "map (\<lambda>x. if x \<in> set [CHR ''/'', CHR ''?'', CHR ''#''] then hd [CHR ''/'', CHR ''?'', CHR ''#''] else x) ?a = ?a"
      by (rule map_idI) (use c in auto)
    then show ?thesis unfolding split_on_any_def by (simp only: list.sel split_on_none [OF c(1)])
  qed
  moreover have "split_on (CHR ''@'') ?a = [?a]" by (rule split_on_none [OF c(4)])
  moreover have "hd (split_on (CHR '':'') ?a) = h" by (rule split_on_hd [OF h(1)])
  ultimately show ?thesis using h unfolding flux_tls_domain_def Let_def by simp
qed

lemma colon_name_not_dialled: "CHR '':'' \<in> set h \<Longrightarrow> flux_tls_domain url \<noteq> Some h"
proof -
  have "CHR '':'' \<notin> set (trim (hd (split_on (CHR '':'') s)))" for s
    using split_on_no_sep [of "hd (split_on (CHR '':'') s)" "CHR '':''" s] trim_subset [of "hd (split_on (CHR '':'') s)"] by auto
  then show "CHR '':'' \<in> set h \<Longrightarrow> flux_tls_domain url \<noteq> Some h"
    by (auto simp: flux_tls_domain_def Let_def split: if_splits)
qed

text \<open>C18: When the CLI generates a certificate for flux, the certificate is signed over all requested
  names, the URL it gives to coold is https, and its host is the first requested name \<open>h\<close> that is not
  a name of the local machine. If \<open>h\<close> can be the host of a URL, it is the name coold asks TLS to
  verify, so it verifies a certified name; if \<open>h\<close> is an IPv6 address, or has a colon otherwise, the
  name coold verifies is never \<open>h\<close>, because the URL has no brackets.\<close>

theorem verified_name_is_certified:
  assumes "flux_tls R b = Inr (Some cert, Some url)"
  shows "\<exists>h entries key. find (\<lambda>s. \<not> is_localhost_san s) (clean_hosts (bf_flux_tls_san b)) = Some h \<and>
     is_https url \<and> (url_host h \<longrightarrow> flux_tls_domain url = Some h) \<and>
     (CHR '':'' \<in> set h \<longrightarrow> flux_tls_domain url \<noteq> Some h) \<and>
     list_all2 (\<lambda>san e. san_entry R san = Inr e) (clean_hosts (bf_flux_tls_san b)) entries \<and>
     rc_self_signed R ''coolify-flux'' entries key = Inr (cert_pem cert)"
proof -
  obtain h where h: "find (\<lambda>s. \<not> is_localhost_san s) (clean_hosts (bf_flux_tls_san b)) = Some h"
    and g: "generate_self_signed R ''coolify-flux'' (clean_hosts (bf_flux_tls_san b)) = Inr cert"
    and u: "url = ''https://'' @ h @ '':'' @ CliUnits.show_port (bf_flux_port b)"
    using assms by (auto simp: flux_tls_def Let_def split: if_splits option.splits sum.splits)
  have "url_host h \<longrightarrow> flux_tls_domain url = Some h" using dialled_name unfolding u by simp
  moreover have "is_https url"
    by (simp add: u is_https_def trim_start_edged graphic_def byte_in_def to_ascii_lowercase_def starts_with_def)
  moreover obtain entries key where "list_all2 (\<lambda>san e. san_entry R san = Inr e) (clean_hosts (bf_flux_tls_san b)) entries"
    "rc_self_signed R ''coolify-flux'' entries key = Inr (cert_pem cert)"
    using g unfolding generate_self_signed_def and_then_eq_Inr map_result_eq_Inr by auto
  ultimately show ?thesis using h colon_name_not_dialled by blast
qed

definition tls_flags :: "string \<Rightarrow> base_init_flags" where
  "tls_flags san = sample_flags\<lparr>bf_enable_flux_tls := True, bf_flux_tls_san := [san]\<rparr>"

lemma sample_flux_tls:
  assumes "trim san = san" and "san \<noteq> []" and "\<not> is_localhost_san san"
  shows "flux_tls sample_rcgen (tls_flags san) =
     Inr (Some \<lparr>cert_pem = ''coolify-flux'', key_pem = ''KEY''\<rparr>, Some (''https://'' @ san @ '':'' @ CliUnits.show_port 6443)) \<and>
   clean_hosts (bf_flux_tls_san (tls_flags san)) = [san]"
  using assms
  by (simp add: flux_tls_def tls_flags_def clean_hosts_def sample_flags_def generate_self_signed_def san_entry_def
      sample_rcgen_def split: option.splits)

lemma localhost_san_edged: "edged s \<Longrightarrow> is_localhost_san s \<longleftrightarrow>
    to_ascii_lowercase s \<in> {''localhost'', ''127.0.0.1'', ''::1'', ''0.0.0.0'', []}"
  by (simp add: is_localhost_san_def trim_edged)

theorem verified_name_is_certified_witness:
  "\<exists>cert url entries key. flux_tls sample_rcgen (tls_flags ''flux'') = Inr (Some cert, Some url) \<and>
     is_https url \<and> flux_tls_domain url = Some ''flux'' \<and>
     list_all2 (\<lambda>san e. san_entry sample_rcgen san = Inr e) [''flux''] entries \<and>
     rc_self_signed sample_rcgen ''coolify-flux'' entries key = Inr (cert_pem cert)"
proof -
  have e: "edged ''flux''" by (simp add: edged_def graphic_def byte_in_def)
  have l: "\<not> is_localhost_san ''flux''" unfolding localhost_san_edged [OF e] by (simp add: to_ascii_lowercase_def)
  have f: "flux_tls sample_rcgen (tls_flags ''flux'') =
      Inr (Some \<lparr>cert_pem = ''coolify-flux'', key_pem = ''KEY''\<rparr>, Some (''https://'' @ ''flux'' @ '':'' @ CliUnits.show_port 6443))"
    and c: "clean_hosts (bf_flux_tls_san (tls_flags ''flux'')) = [''flux'']"
    using sample_flux_tls [OF trim_edged [OF e] _ l] by simp_all
  have u: "url_host ''flux''" by (simp add: url_host_def tok_def graphic_def byte_in_def)
  obtain h entries key where "find (\<lambda>s. \<not> is_localhost_san s) [''flux''] = Some h"
    and r: "is_https (''https://'' @ ''flux'' @ '':'' @ CliUnits.show_port 6443)"
      "url_host h \<longrightarrow> flux_tls_domain (''https://'' @ ''flux'' @ '':'' @ CliUnits.show_port 6443) = Some h"
      "list_all2 (\<lambda>san e. san_entry sample_rcgen san = Inr e) [''flux''] entries"
      "rc_self_signed sample_rcgen ''coolify-flux'' entries key = Inr (cert_pem \<lparr>cert_pem = ''coolify-flux'', key_pem = ''KEY''\<rparr>)"
    using verified_name_is_certified [OF f] unfolding c by auto
  then have "h = ''flux''" using l by (simp split: if_splits)
  with f r u show ?thesis by blast
qed

section \<open>The configuration the CLI hands to coold\<close>

text \<open>A word without the separators of the namespace list.\<close>

definition entry_word :: "string \<Rightarrow> bool" where
  "entry_word s = (tok s \<and> CHR '':'' \<notin> set s \<and> CHR '','' \<notin> set s)"

definition coold_entry :: "coold_namespace \<Rightarrow> string" where
  "coold_entry n = cn_name n @ '':'' @ cn_network n @ '':'' @ show_ipv4 (cn_bridge_gateway n)"

definition coold_view :: "coold_namespace \<Rightarrow> namespace_config" where
  "coold_view n = \<lparr>nc_name = cn_name n, nc_network = cn_network n, nc_gateway_ip = V4 (cn_bridge_gateway n)\<rparr>"

lemma entry_word_ipv4: "entry_word (show_ipv4 a)"
proof -
  have n: "CHR '':'' \<notin> set (show_nat n)" for n
  proof
    assume "CHR '':'' \<in> set (show_nat n)"
    then have "digit_val (CHR '':'') \<noteq> None" by (rule show_nat_digit_val)
    then show False by (simp add: digit_val_def)
  qed
  have "CHR '':'' \<notin> set (show_ipv4 a)" unfolding show_ipv4_def octets_def using n by simp
  then show ?thesis using tok_show_ipv4 [of a] show_ipv4_graphic [of "CHR '',''" a] by (auto simp: entry_word_def)
qed

lemma parse_coold_entry:
  assumes "entry_word (cn_name n)" and "entry_word (cn_network n)"
  shows "parse_namespace_chunk (coold_entry n) = Inr (coold_view n)"
proof -
  have t: "trim s = s" "s \<noteq> []" if "entry_word s" for s
    using that by (simp_all add: entry_word_def trim_edged tok_edged) (simp add: tok_def)
  have "splitn 3 (CHR '':'') (coold_entry n) = [cn_name n, cn_network n, show_ipv4 (cn_bridge_gateway n)]"
    using assms by (simp add: coold_entry_def numeral_3_eq_3 entry_word_def)
  then show ?thesis
    using t [OF assms(1)] t [OF assms(2)] t [OF entry_word_ipv4]
    by (simp add: parse_namespace_chunk_def coold_view_def parse_ip_show_ipv4)
qed

lemma tok_coold_entry: "entry_word (cn_name n) \<Longrightarrow> entry_word (cn_network n) \<Longrightarrow> tok (coold_entry n) \<and> CHR '','' \<notin> set (coold_entry n)"
  using entry_word_ipv4 [of "cn_bridge_gateway n"]
  by (auto simp: entry_word_def coold_entry_def tok_def graphic_def byte_in_def)

lemma tok_join: "ss \<noteq> [] \<Longrightarrow> \<forall>s\<in>set ss. tok s \<Longrightarrow> tok (join '','' ss)"
  by (induction "'',''" ss rule: join.induct) (auto simp: tok_def graphic_def byte_in_def)

lemma parse_coold_entries:
  assumes "ns \<noteq> []" and "\<forall>n\<in>set ns. entry_word (cn_name n) \<and> entry_word (cn_network n)"
  shows "parse_namespaces (namespaces_env_value ns) = Inr (map coold_view ns)"
proof -
  let ?es = "map coold_entry ns"
  have e: "tok s" "CHR '','' \<notin> set s" "trim s = s" "s \<noteq> []" if "s \<in> set ?es" for s
    using that assms(2) tok_coold_entry by (auto simp: trim_edged tok_edged) (auto simp: tok_def)
  have v: "namespaces_env_value ns = join '','' ?es"
    by (simp add: namespaces_env_value_def coold_entry_def [abs_def])
  have "tok (join '','' ?es)" using assms(1) e(1) by (intro tok_join) auto
  then have raw: "trim (join '','' ?es) = join '','' ?es" "join '','' ?es \<noteq> []"
    by (simp_all add: trim_edged tok_edged) (simp add: tok_def)
  have "split_on (CHR '','') (join '','' ?es) = ?es" using assms(1) e(2) by (intro split_on_join) auto
  moreover have "map trim ?es = ?es" by (rule map_idI) (rule e(3))
  moreover have "filter (\<lambda>c. c \<noteq> []) ?es = ?es" by (rule filter_True) (use e(4) in blast)
  moreover have "map_result parse_namespace_chunk ?es = Inr (map coold_view ns)"
    using assms(2) by (simp add: map_result_eq_Inr list_all2_map1 list_all2_map2 list_all2_same parse_coold_entry)
  ultimately show ?thesis
    using assms(1) raw unfolding parse_namespaces_def v Let_def by (simp del: map_map)
qed

lemma dns_char: "lower_alnum c \<or> c = CHR ''-'' \<Longrightarrow> graphic c \<and> c \<noteq> CHR '':'' \<and> c \<noteq> CHR '',''"
  by (auto simp: lower_alnum_def in_range_def graphic_def byte_in_def)

lemma dns_label_entry:
  assumes "dns_label s"
  shows "entry_word s \<and> entry_word (podman_network_for s)"
proof -
  have c: "graphic c" "c \<noteq> CHR '':''" "c \<noteq> CHR '',''" if "c \<in> set s" for c
    using assms dns_char [of c] that by (simp_all add: dns_label_def list_all_iff)
  have "s \<noteq> []" "list_all graphic s" "CHR '':'' \<notin> set s" "CHR '','' \<notin> set s"
    using assms c by (auto simp: dns_label_def list_all_iff)
  then show ?thesis
    by (simp add: entry_word_def tok_def podman_network_for_def) (simp add: graphic_def byte_in_def)
qed

text \<open>C17: coold reads back the namespaces the CLI writes into its unit. For every mesh with valid
  namespaces, the value of \<open>COOLIFY_COOLD_NAMESPACES\<close> parses to one entry for each of them, in order,
  with its name, its Podman network and the gateway of the host's subnet.\<close>

theorem namespaces_reach_coold:
  assumes "ns_configs I subnets host namespaces = Inr nsc" and "namespaces \<noteq> []" and "list_all dns_label namespaces"
  shows "parse_namespaces (namespaces_env_value nsc) = Inr (map coold_view nsc) \<and>
     map cn_name nsc = namespaces \<and> map cn_network nsc = map podman_network_for namespaces"
proof -
  have "list_all2 (\<lambda>ns n. cn_name n = ns \<and> cn_network n = podman_network_for ns) namespaces nsc"
    using assms(1) unfolding ns_configs_def map_result_eq_Inr
    by (rule list_all2_mono) (auto simp: and_then_eq_Inr)
  then have n: "map cn_name nsc = namespaces" "map cn_network nsc = map podman_network_for namespaces"
    by (induction rule: list_all2_induct) auto
  have "entry_word (cn_name n) \<and> entry_word (cn_network n)" if n_in: "n \<in> set nsc" for n
  proof -
    obtain i where i: "i < length nsc" "n = nsc ! i" using n_in unfolding in_set_conv_nth by blast
    have l: "length nsc = length namespaces" using arg_cong [OF n(1), of length] by simp
    have "cn_name n = namespaces ! i" using arg_cong [OF n(1), of "\<lambda>xs. xs ! i"] i by simp
    moreover have "cn_network n = podman_network_for (namespaces ! i)"
      using arg_cong [OF n(2), of "\<lambda>xs. xs ! i"] i l by simp
    moreover have "dns_label (namespaces ! i)" using assms(3) i l by (auto simp: list_all_iff)
    ultimately show ?thesis using dns_label_entry by simp
  qed
  moreover have "nsc \<noteq> []" using n(1) assms(2) by auto
  ultimately show ?thesis using parse_coold_entries [of nsc] n by auto
qed

theorem namespaces_reach_coold_witness:
  "parse_namespaces (namespaces_env_value
      [\<lparr>cn_name = ''default'', cn_network = podman_network_for ''default'', cn_bridge_gateway = machine_ip pair_net (0x0AD20000, 24)\<rparr>]) =
     Inr [\<lparr>nc_name = ''default'', nc_network = podman_network_for ''default'', nc_gateway_ip = V4 (machine_ip pair_net (0x0AD20000, 24))\<rparr>]"
proof -
  have "ns_configs pair_net [(''default'', [(''h'', (0x0AD20000, 24))])] ''h'' [''default''] =
      Inr [\<lparr>cn_name = ''default'', cn_network = podman_network_for ''default'', cn_bridge_gateway = machine_ip pair_net (0x0AD20000, 24)\<rparr>]"
    by (simp add: ns_configs_def subnet_at_def bt_index_def)
  moreover have "list_all dns_label [''default'']" by code_simp
  ultimately show ?thesis using namespaces_reach_coold [of pair_net] by (fastforce simp: coold_view_def)
qed

end
